(* ===== verification/Prelude.thy ===== *)
theory Prelude
  imports Complex_Main
    "HOL-Library.AList"
    "HOL-Library.Multiset"
    "HOL-Library.Char_ord"
    "HOL-Library.List_Lexorder"
    "HOL-Library.Product_Lexorder"
begin

text \<open>
  Shared vocabulary of the development: Python exceptions as values, the sequencing of
  operations that may raise after having changed the state, insertion-ordered dictionaries,
  binary heaps, and decimal rendering of integers (the code builds resource and owner names
  with f-strings).
\<close>

section \<open>Exceptions and sequencing\<close>

text \<open>
  An operation of a Python object is a function from the object's state to an outcome and a
  state: \<open>Inl e\<close> when it raises \<open>e\<close>, \<open>Inr x\<close> when it returns \<open>x\<close>.  The state is returned
  in both cases, because a raised exception does not undo what was assigned before it.
  \<open>OutOfFuel\<close> is not a Python exception: it marks the exhaustion of the bound given to a
  modelled \<^verbatim>\<open>while\<close> loop.
\<close>

datatype exn =
    ValueError string
  | RuntimeError string
  | AssertionError string
  | TypeError
  | KeyError
  | IndexError
  | StopIteration
  | OutOfFuel

type_synonym ('a, 's) outcome = "(exn + 'a) \<times> 's"

definition andthen :: "('a, 's) outcome \<Rightarrow> ('a \<Rightarrow> 's \<Rightarrow> ('b, 's) outcome) \<Rightarrow> ('b, 's) outcome" where
  "andthen r f = (case r of (Inl e, s) \<Rightarrow> (Inl e, s) | (Inr x, s) \<Rightarrow> f x s)"

named_theorems outcome_simps "evaluation of sequenced operations"

lemma andthen_Inl [simp, outcome_simps]: "andthen (Inl e, s) f = (Inl e, s)"
  by (simp add: andthen_def)

lemma andthen_Inr [simp, outcome_simps]: "andthen (Inr x, s) f = f x s"
  by (simp add: andthen_def)

lemma andthen_split:
  "P (andthen r f) \<longleftrightarrow>
     (\<forall>e s. r = (Inl e, s) \<longrightarrow> P (Inl e, s)) \<and> (\<forall>x s. r = (Inr x, s) \<longrightarrow> P (f x s))"
  by (cases r rule: prod.exhaust; cases "fst r") (auto simp: andthen_def)

lemma andthen_split_asm:
  "P (andthen r f) \<longleftrightarrow>
     \<not> ((\<exists>e s. r = (Inl e, s) \<and> \<not> P (Inl e, s)) \<or> (\<exists>x s. r = (Inr x, s) \<and> \<not> P (f x s)))"
  by (cases r rule: prod.exhaust; cases "fst r") (auto simp: andthen_def)

lemma andthen_Inr_iff:
  "andthen r f = (Inr y, t) \<longleftrightarrow> (\<exists>x s. r = (Inr x, s) \<and> f x s = (Inr y, t))"
  by (cases r rule: prod.exhaust; cases "fst r") (auto simp: andthen_def)

lemma andthen_Inl_iff:
  "andthen r f = (Inl e, t) \<longleftrightarrow>
     r = (Inl e, t) \<or> (\<exists>x s. r = (Inr x, s) \<and> f x s = (Inl e, t))"
  by (cases r rule: prod.exhaust; cases "fst r") (auto simp: andthen_def)

lemma andthen_assoc: "andthen (andthen r f) g = andthen r (\<lambda>x s. andthen (f x s) g)"
  by (cases r rule: prod.exhaust; cases "fst r") (auto simp: andthen_def)

text \<open>
  \<open>keeps I m\<close>: whatever the outcome, the operation leaves a state that satisfies \<open>I\<close>.
\<close>

definition keeps :: "('s \<Rightarrow> bool) \<Rightarrow> ('a, 's) outcome \<Rightarrow> bool" where
  "keeps I r \<longleftrightarrow> I (snd r)"

lemma keeps_simp [simp]: "keeps I (x, s) \<longleftrightarrow> I s"
  by (simp add: keeps_def)

lemma keeps_andthen [intro]:
  assumes "keeps I r" and "\<And>x s. r = (Inr x, s) \<Longrightarrow> I s \<Longrightarrow> keeps I (f x s)"
  shows "keeps I (andthen r f)"
  using assms by (cases r rule: prod.exhaust; cases "fst r") auto

text \<open>Pure functions that may raise: no state, only \<open>exn + 'a\<close>.\<close>

definition ebind :: "exn + 'a \<Rightarrow> ('a \<Rightarrow> exn + 'b) \<Rightarrow> exn + 'b" where
  "ebind m f = (case m of Inl e \<Rightarrow> Inl e | Inr x \<Rightarrow> f x)"

definition lift_err :: "exn + 'a \<Rightarrow> 's \<Rightarrow> ('a, 's) outcome" where
  "lift_err m s = (m, s)"

lemma ebind_simps [simp, outcome_simps]:
  "ebind (Inl e) f = Inl e" "ebind (Inr x) f = f x"
  by (simp_all add: ebind_def)

lemma ebind_Inr_iff: "ebind m f = Inr y \<longleftrightarrow> (\<exists>x. m = Inr x \<and> f x = Inr y)"
  by (cases m) auto

lemma andthen_lift [simp, outcome_simps]:
  "andthen (lift_err (Inl e) s) f = (Inl e, s)"
  "andthen (lift_err (Inr x) s) f = f x s"
  by (simp_all add: lift_err_def)

text \<open>A guard list: the first failing check decides the error, as a chain of early raises does.\<close>

fun first_error :: "(bool \<times> exn) list \<Rightarrow> exn option" where
  "first_error [] = None"
| "first_error ((bad, e) # cs) = (if bad then Some e else first_error cs)"

lemma first_error_None: "first_error cs = None \<longleftrightarrow> list_all (\<lambda>c. \<not> fst c) cs"
  by (induction cs rule: first_error.induct) auto

text \<open>The first error that a check reports over a collection, in iteration order.\<close>

fun find_error :: "('a \<Rightarrow> exn option) \<Rightarrow> 'a list \<Rightarrow> exn option" where
  "find_error f [] = None"
| "find_error f (x # xs) = (case f x of Some e \<Rightarrow> Some e | None \<Rightarrow> find_error f xs)"

lemma find_error_None: "find_error f xs = None \<longleftrightarrow> (\<forall>x \<in> set xs. f x = None)"
  by (induction xs) (auto split: option.splits)

definition or_else :: "exn option \<Rightarrow> exn option \<Rightarrow> exn option" where
  "or_else a b = (case a of Some e \<Rightarrow> Some e | None \<Rightarrow> b)"

lemma or_else_None [simp]: "or_else a b = None \<longleftrightarrow> a = None \<and> b = None"
  by (cases a) (auto simp: or_else_def)

section \<open>Dictionaries\<close>

text \<open>
  A Python \<^verbatim>\<open>dict\<close> keeps its insertion order: assigning to a present key keeps its position,
  assigning to a new key appends.  \<open>AList.update\<close> and \<open>AList.delete\<close> do exactly this on an
  association list with distinct keys.
\<close>

type_synonym ('k, 'v) dict = "('k \<times> 'v) list"

abbreviation dwf :: "('k, 'v) dict \<Rightarrow> bool" where
  "dwf d \<equiv> distinct (map fst d)"

abbreviation dget :: "('k, 'v) dict \<Rightarrow> 'k \<Rightarrow> 'v option" where
  "dget d k \<equiv> map_of d k"

abbreviation dput :: "'k \<Rightarrow> 'v \<Rightarrow> ('k, 'v) dict \<Rightarrow> ('k, 'v) dict" where
  "dput \<equiv> AList.update"

abbreviation dpop :: "'k \<Rightarrow> ('k, 'v) dict \<Rightarrow> ('k, 'v) dict" where
  "dpop \<equiv> AList.delete"

abbreviation dvalues :: "('k, 'v) dict \<Rightarrow> 'v list" where
  "dvalues d \<equiv> map snd d"

abbreviation dkeys :: "('k, 'v) dict \<Rightarrow> 'k list" where
  "dkeys d \<equiv> map fst d"

definition dget_or :: "('k, 'v) dict \<Rightarrow> 'k \<Rightarrow> 'v \<Rightarrow> 'v" where
  "dget_or d k v = (case dget d k of None \<Rightarrow> v | Some x \<Rightarrow> x)"

definition dsum :: "('k, int) dict \<Rightarrow> int" where
  "dsum d = sum_list (dvalues d)"

declare map_of_eq_Some_iff [simp del] Some_eq_map_of_iff [simp del]

lemma dget_dput [simp]: "dget (dput k v d) k' = (if k' = k then Some v else dget d k')"
  by (simp add: update_conv')

lemma dget_dpop [simp]: "dget (dpop k d) k' = (if k' = k then None else dget d k')"
  by (simp add: delete_conv')

lemma dwf_dput [simp]: "dwf (dput k v d) \<longleftrightarrow> dwf d"
proof
  show "dwf d \<Longrightarrow> dwf (dput k v d)" by (rule distinct_update)
  show "dwf (dput k v d) \<Longrightarrow> dwf d"
    by (induction d) (auto simp: dom_update split: if_splits)
qed

lemma dput_dput [simp]: "dput k v (dput k u d) = dput k v d"
  by (induction d) auto

lemma dwf_dpop [simp]: "dwf d \<Longrightarrow> dwf (dpop k d)"
  by (rule distinct_delete)

lemma dget_or_simps [simp]:
  "dget_or [] k v = v"
  "dget_or (dput k x d) k' v = (if k' = k then x else dget_or d k' v)"
  "dget_or (dpop k d) k' v = (if k' = k then v else dget_or d k' v)"
  by (auto simp: dget_or_def)

lemma dget_or_Some [simp]: "dget d k = Some x \<Longrightarrow> dget_or d k v = x"
  by (simp add: dget_or_def)

lemma dget_or_None [simp]: "dget d k = None \<Longrightarrow> dget_or d k v = v"
  by (simp add: dget_or_def)

lemma dsum_simps [simp]: "dsum [] = 0" "dsum ((k, v) # d) = v + dsum d"
  by (simp_all add: dsum_def)

lemma dpop_absent: "k \<notin> fst ` set d \<Longrightarrow> dpop k d = d"
  by (rule delete_id)

lemma dpop_Cons [simp]: "dpop k (p # d) = (if fst p = k then dpop k d else p # dpop k d)"
  by (cases p) (auto simp: AList.delete_eq)

lemma dsum_dput [simp]: "dwf d \<Longrightarrow> dsum (dput k v d) = dsum d - dget_or d k 0 + v"
proof (induction d)
  case Nil
  then show ?case by simp
next
  case (Cons p d)
  then show ?case by (cases p) (auto simp: dget_or_def)
qed

lemma dsum_dpop [simp]: "dwf d \<Longrightarrow> dsum (dpop k d) = dsum d - dget_or d k 0"
proof (induction d)
  case Nil
  then show ?case by simp
next
  case (Cons p d)
  then show ?case by (cases p) (auto simp: dget_or_def dpop_absent)
qed

lemma dkeys_dput [simp]: "set (dkeys (dput k v d)) = insert k (set (dkeys d))"
  by (simp add: dom_update)

lemma dkeys_dpop [simp]: "set (dkeys (dpop k d)) = set (dkeys d) - {k}"
  by (induction d) auto

lemma dget_None_iff: "dget d k = None \<longleftrightarrow> k \<notin> set (dkeys d)"
  by (simp add: map_of_eq_None_iff)

lemma dget_Some_iff: "dwf d \<Longrightarrow> dget d k = Some v \<longleftrightarrow> (k, v) \<in> set d"
  by (rule map_of_eq_Some_iff)

lemma dget_in_keys: "dget d k = Some v \<Longrightarrow> k \<in> set (dkeys d)"
  by (metis dget_None_iff option.distinct(1))

lemma dvalues_iff: "dwf d \<Longrightarrow> v \<in> set (dvalues d) \<longleftrightarrow> (\<exists>k. dget d k = Some v)"
  by (force simp: dget_Some_iff)

text \<open>Dictionaries with positive integer values: the byte ledgers.\<close>

definition dpos :: "('k, int) dict \<Rightarrow> bool" where
  "dpos d \<longleftrightarrow> dwf d \<and> (\<forall>k v. dget d k = Some v \<longrightarrow> 0 < v)"

lemma dposI: "dwf d \<Longrightarrow> (\<And>k v. dget d k = Some v \<Longrightarrow> 0 < v) \<Longrightarrow> dpos d"
  by (simp add: dpos_def)

lemma dposD: "dpos d \<Longrightarrow> dget d k = Some v \<Longrightarrow> 0 < v"
  by (simp add: dpos_def)

lemma dpos_dwf [simp]: "dpos d \<Longrightarrow> dwf d"
  by (simp add: dpos_def)

lemma dpos_Nil [simp]: "dpos []"
  by (simp add: dpos_def)

lemma dpos_dput [simp]: "dpos d \<Longrightarrow> 0 < v \<Longrightarrow> dpos (dput k v d)"
  by (rule dposI) (auto dest: dposD split: if_splits)

lemma dpos_dpop [simp]: "dpos d \<Longrightarrow> dpos (dpop k d)"
  by (rule dposI) (auto dest: dposD split: if_splits)

lemma dpos_get_or: "dpos d \<Longrightarrow> 0 \<le> dget_or d k 0"
  by (cases "dget d k") (auto dest: dposD)

lemma dpos_get_or_0_iff: "dpos d \<Longrightarrow> dget_or d k 0 = 0 \<longleftrightarrow> dget d k = None"
  by (cases "dget d k") (auto dest: dposD)

lemma dpos_Cons: "dpos ((k, v) # d) \<longleftrightarrow> 0 < v \<and> k \<notin> fst ` set d \<and> dpos d"
  (is "?l = ?r")
proof
  assume l: ?l
  from dpos_dwf [OF l] have k: "k \<notin> fst ` set d" and d: "dwf d" by simp_all
  have "dpos d"
  proof (rule dposI [OF d])
    fix k' v' assume g: "dget d k' = Some v'"
    with k have "k' \<noteq> k" by (auto dest: dget_in_keys)
    with g dposD [OF l, of k' v'] show "0 < v'" by simp
  qed
  with k dposD [OF l, of k v] show ?r by simp
next
  assume ?r
  then show ?l by (auto intro!: dposI dest: dposD split: if_splits)
qed

lemma dpos_sum: "dpos d \<Longrightarrow> 0 \<le> dsum d"
proof (induction d)
  case Nil
  then show ?case by simp
next
  case (Cons p d)
  then show ?case by (cases p) (simp add: dpos_Cons)
qed

lemma dpos_get_le_sum: "dpos d \<Longrightarrow> dget_or d k 0 \<le> dsum d"
  using dpos_sum[OF dpos_dpop, of d k] by simp

text \<open>Totals over the values of a dictionary.\<close>

definition dtotal :: "('v \<Rightarrow> int) \<Rightarrow> ('k, 'v) dict \<Rightarrow> int" where
  "dtotal f d = sum_list (map f (dvalues d))"

lemma dtotal_simps [simp]: "dtotal f [] = 0" "dtotal f ((k, v) # d) = f v + dtotal f d"
  by (simp_all add: dtotal_def)

lemma dtotal_dput_new: "dget d k = None \<Longrightarrow> dtotal f (dput k v d) = dtotal f d + f v"
  by (induction d) (auto split: if_splits)

lemma dtotal_dput: "dget d k = Some u \<Longrightarrow> dwf d \<Longrightarrow> dtotal f (dput k v d) = dtotal f d - f u + f v"
  by (induction d) (auto split: if_splits)

lemma dtotal_nonneg: "(\<And>k v. dget d k = Some v \<Longrightarrow> 0 \<le> f v) \<Longrightarrow> dwf d \<Longrightarrow> 0 \<le> dtotal f d"
proof (induction d)
  case Nil
  then show ?case by simp
next
  case (Cons p d)
  obtain k v where p: "p = (k, v)" by (cases p)
  have "0 \<le> f v" using Cons.prems(1) [of k v] by (simp add: p)
  moreover have "0 \<le> dtotal f d"
  proof (rule Cons.IH)
    fix k' v' assume g: "dget d k' = Some v'"
    with Cons.prems(2) have "k' \<noteq> k" by (auto simp: p dest: dget_in_keys)
    with g Cons.prems(1) [of k' v'] show "0 \<le> f v'" by (simp add: p)
  qed (use Cons.prems(2) in simp)
  ultimately show ?case by (simp add: p)
qed

lemma dtotal_mono: "(\<And>v. f v \<le> g v) \<Longrightarrow> dtotal f d \<le> dtotal g d"
  unfolding dtotal_def by (rule sum_list_mono)

lemma dtotal_one: "dtotal (\<lambda>_. 1) d = int (length d)"
  by (induction d) auto

lemma length_dput_new: "dget d k = None \<Longrightarrow> length (dput k v d) = Suc (length d)"
  by (induction d) (auto split: if_splits)

lemma length_dput_old: "dget d k = Some u \<Longrightarrow> length (dput k v d) = length d"
  by (induction d) (auto split: if_splits)

section \<open>Heaps\<close>

text \<open>
  \<^verbatim>\<open>heapq\<close> keeps a list whose element 0 is a minimum; \<^verbatim>\<open>heappop\<close> removes that element.  The
  code reads a heap only through its element 0, its emptiness, \<^verbatim>\<open>heappush\<close> and \<^verbatim>\<open>heappop\<close>, so a
  heap is modelled by the ordered list of its elements, for which these agree.
\<close>

definition heappush :: "'a::linorder \<Rightarrow> 'a list \<Rightarrow> 'a list" where
  "heappush x h = insort x h"

definition heappeek :: "'a list \<Rightarrow> 'a option" where
  "heappeek h = (case h of [] \<Rightarrow> None | x # _ \<Rightarrow> Some x)"

definition heappop :: "'a list \<Rightarrow> 'a list" where
  "heappop h = tl h"

text \<open>The interface the event loops rely on, and what follows from it.\<close>

locale min_heap =
  fixes push :: "'a::linorder \<Rightarrow> 'h \<Rightarrow> 'h"
    and peek :: "'h \<Rightarrow> 'a option"
    and pop :: "'h \<Rightarrow> 'h"
    and bag :: "'h \<Rightarrow> 'a multiset"
    and ok :: "'h \<Rightarrow> bool"
  assumes ok_push: "ok h \<Longrightarrow> ok (push x h)"
    and ok_pop: "ok h \<Longrightarrow> ok (pop h)"
    and bag_push: "ok h \<Longrightarrow> bag (push x h) = add_mset x (bag h)"
    and peek_None: "ok h \<Longrightarrow> peek h = None \<longleftrightarrow> bag h = {#}"
    and peek_min: "ok h \<Longrightarrow> peek h = Some x \<Longrightarrow> x \<in># bag h \<and> (\<forall>y \<in># bag h. x \<le> y)"
    and bag_pop: "ok h \<Longrightarrow> peek h = Some x \<Longrightarrow> bag (pop h) = bag h - {#x#}"
begin

lemma peek_Some_ex: "ok h \<Longrightarrow> x \<in># bag h \<Longrightarrow> \<exists>m. peek h = Some m \<and> m \<le> x"
  by (metis empty_iff not_None_eq peek_None peek_min set_mset_empty)

lemma size_pop: "ok h \<Longrightarrow> peek h = Some x \<Longrightarrow> size (bag h) = Suc (size (bag (pop h)))"
  using peek_min[of h x] bag_pop[of h x] by (metis insert_DiffM size_add_mset)

lemma pop_ge: "ok h \<Longrightarrow> peek h = Some x \<Longrightarrow> y \<in># bag (pop h) \<Longrightarrow> x \<le> y"
  using peek_min[of h x] bag_pop[of h x] by (metis in_diffD)

lemma bag_insert_pop: "ok h \<Longrightarrow> peek h = Some x \<Longrightarrow> bag h = add_mset x (bag (pop h))"
  using peek_min[of h x] bag_pop[of h x] by simp

end

lemma heappeek_simps [simp]: "heappeek [] = None" "heappeek (x # h) = Some x"
  by (simp_all add: heappeek_def)

lemma heappop_simps [simp]: "heappop [] = []" "heappop (x # h) = h"
  by (simp_all add: heappop_def)

lemma heappeek_None_iff [simp]: "heappeek h = None \<longleftrightarrow> h = []"
  by (cases h) auto

lemma mset_heappush [simp]: "mset (heappush x h) = add_mset x (mset h)"
  by (simp add: heappush_def)

lemma set_heappush [simp]: "set (heappush x h) = insert x (set h)"
  by (simp add: heappush_def set_insort_key)

lemma length_heappush [simp]: "length (heappush x h) = Suc (length h)"
  by (simp add: heappush_def)

lemma sorted_heappush [simp]: "sorted (heappush x h) = sorted h"
  by (simp add: heappush_def sorted_insort)

interpretation hq: min_heap heappush heappeek heappop mset sorted
proof
  fix h :: "'a::linorder list" and x :: 'a
  show "sorted h \<Longrightarrow> sorted (heappush x h)" by simp
  show "sorted h \<Longrightarrow> sorted (heappop h)" by (cases h) auto
  show "mset (heappush x h) = add_mset x (mset h)" by simp
  show "(heappeek h = None) = (mset h = {#})" by simp
  show "sorted h \<Longrightarrow> heappeek h = Some x \<Longrightarrow> x \<in># mset h \<and> (\<forall>y \<in># mset h. x \<le> y)"
    by (cases h) auto
  show "heappeek h = Some x \<Longrightarrow> mset (heappop h) = mset h - {#x#}"
    by (cases h) auto
qed

section \<open>Decimal rendering\<close>

text \<open>\<^verbatim>\<open>f"{n}"\<close> for a non-negative integer.\<close>

definition digit :: "nat \<Rightarrow> char" where
  "digit d = char_of (48 + d)"

fun dec :: "nat \<Rightarrow> string" where
  "dec n = (if n < 10 then [digit n] else dec (n div 10) @ [digit (n mod 10)])"

declare dec.simps [simp del]

definition show_int :: "int \<Rightarrow> string" where
  "show_int i = (if i < 0 then ''-'' @ dec (nat (- i)) else dec (nat i))"

text \<open>
  \<^verbatim>\<open>f"{s!r}"\<close> and the rendering of a list of strings, as the error messages use them: the quote
  is a double quote when the text holds single quotes only, and a backslash escapes the rest.
\<close>

definition hex_digit :: "nat \<Rightarrow> char" where
  "hex_digit d = char_of (if d < 10 then 48 + d else 87 + d)"

definition repr_char :: "char \<Rightarrow> char \<Rightarrow> string" where
  "repr_char q c =
     (if c = q \<or> c = CHR 0x5C then [CHR 0x5C, c]
      else if c = CHR 0x0A then [CHR 0x5C, CHR ''n'']
      else if c = CHR 0x0D then [CHR 0x5C, CHR ''r'']
      else if c = CHR 0x09 then [CHR 0x5C, CHR ''t'']
      else if of_char c < (32::nat) \<or> of_char c = (127::nat)
      then [CHR 0x5C, CHR ''x'', hex_digit (of_char c div 16), hex_digit (of_char c mod 16)]
      else [c])"

definition py_repr :: "string \<Rightarrow> string" where
  "py_repr s =
     (let q = (if CHR 0x27 \<in> set s \<and> CHR 0x22 \<notin> set s then CHR 0x22 else CHR 0x27)
      in [q] @ concat (map (repr_char q) s) @ [q])"

fun join :: "string \<Rightarrow> string list \<Rightarrow> string" where
  "join sep [] = []"
| "join sep [x] = x"
| "join sep (x # y # xs) = x @ sep @ join sep (y # xs)"

definition py_repr_list :: "string list \<Rightarrow> string" where
  "py_repr_list xs = ''['' @ join '', '' (map py_repr xs) @ '']''"

fun undec :: "string \<Rightarrow> nat" where
  "undec s = foldl (\<lambda>n c. 10 * n + (of_char c - 48)) 0 s"

lemma of_char_digit: "d < 10 \<Longrightarrow> of_char (digit d) = 48 + d"
  by (simp add: digit_def)

lemma undec_dec: "undec (dec n) = n"
proof (induction n rule: dec.induct)
  case (1 n)
  show ?case
  proof (cases "n < 10")
    case True
    then show ?thesis by (subst dec.simps) (simp add: of_char_digit)
  next
    case False
    have "undec (dec n) = 10 * undec (dec (n div 10)) + n mod 10"
      using False by (subst dec.simps) (simp add: of_char_digit)
    with False 1 show ?thesis by simp
  qed
qed

lemma dec_inject [simp]: "dec m = dec n \<longleftrightarrow> m = n"
  by (metis undec_dec)

lemma dec_digits: "c \<in> set (dec n) \<Longrightarrow> \<exists>d < 10. c = digit d"
proof (induction n rule: dec.induct)
  case (1 n)
  show ?case
  proof (cases "n < 10")
    case True
    with "1.prems" show ?thesis by (subst (asm) dec.simps) auto
  next
    case False
    with "1.prems" have "c \<in> set (dec (n div 10)) \<or> c = digit (n mod 10)"
      by (subst (asm) dec.simps) auto
    then show ?thesis using "1.IH" False by (auto intro: exI[of _ "n mod 10"])
  qed
qed

lemma dec_nonempty [simp]: "dec n \<noteq> []"
  by (subst dec.simps) simp

lemma digit_plain: "d < 10 \<Longrightarrow> digit d \<noteq> CHR ''-'' \<and> digit d \<noteq> CHR '':''"
  using of_char_digit[of d] by auto

end
