(* ===== verification/Resource_Calendar.thy ===== *)
theory Resource_Calendar
  imports Prelude
begin

text \<open>
  \<^verbatim>\<open>ResourceCalendar\<close> of \<^verbatim>\<open>serving/core/hbf_full_model_lifecycle.py\<close>: deterministic gang
  reservation over named serial resources.  Every compute batch, P-to-D handoff and tier
  transfer of a node is a reservation here.  The theory holds the calendar's state and
  operations, the invariant that ties its counters to the reservations it recorded, and the
  interface (\<open>resource_scheduler\<close>) that the pool and the tier lifecycle rely on.
\<close>

section \<open>State and operations\<close>

record reservation =
  rv_namespace :: string
  rv_resource :: string
  rv_start_ns :: int
  rv_end_ns :: int
  rv_service_ns :: int
  rv_byte_count :: int
  rv_job_id :: int
  rv_kind :: string

record calendar =
  retain_reservations :: bool
  available_ns :: "(string, int) dict"
  busy_ns :: "(string, int) dict"
  reservations :: "reservation list"
  count_by_resource :: "(string, int) dict"
  bytes_by_resource :: "(string, int) dict"
  count_by_namespace_kind :: "(string \<times> string, int) dict"
  bytes_by_namespace_kind :: "(string \<times> string, int) dict"

text \<open>A demand maps a resource to its service time and its bytes.\<close>

type_synonym demands = "(string, int \<times> int) dict"

definition new_calendar :: "bool \<Rightarrow> calendar" where
  "new_calendar retain =
     \<lparr>retain_reservations = retain, available_ns = [], busy_ns = [], reservations = [],
      count_by_resource = [], bytes_by_resource = [],
      count_by_namespace_kind = [], bytes_by_namespace_kind = []\<rparr>"

definition free_at :: "calendar \<Rightarrow> string \<Rightarrow> int" where
  "free_at c r = dget_or (available_ns c) r 0"

text \<open>Python's \<^verbatim>\<open>max\<close> of a non-empty iterable.\<close>

fun max_list :: "int list \<Rightarrow> int" where
  "max_list [] = 0"
| "max_list (x # xs) = foldl max x xs"

text \<open>The validation loop over the demands, in dictionary order.\<close>

fun demand_error :: "demands \<Rightarrow> exn option" where
  "demand_error [] = None"
| "demand_error ((r, (service, bytes)) # ds) =
     (if r = [] then Some (ValueError ''resource name must be non-empty'')
      else if service < 0 \<or> bytes < 0
      then Some (ValueError ''resource demand must be non-negative'')
      else demand_error ds)"

text \<open>One iteration of the reservation loop: the bookkeeping of a single resource.\<close>

definition book ::
  "string \<Rightarrow> string \<Rightarrow> int \<Rightarrow> int \<Rightarrow> string \<Rightarrow> int \<Rightarrow> int \<Rightarrow> calendar \<Rightarrow> calendar" where
  "book namespace kind job_id start r service bytes c =
     c\<lparr>available_ns := dput r (start + service) (available_ns c),
       busy_ns := dput r (dget_or (busy_ns c) r 0 + service) (busy_ns c),
       count_by_resource :=
         dput r (dget_or (count_by_resource c) r 0 + 1) (count_by_resource c),
       bytes_by_resource :=
         dput r (dget_or (bytes_by_resource c) r 0 + bytes) (bytes_by_resource c),
       count_by_namespace_kind :=
         dput (namespace, kind)
           (dget_or (count_by_namespace_kind c) (namespace, kind) 0 + 1)
           (count_by_namespace_kind c),
       bytes_by_namespace_kind :=
         dput (namespace, kind)
           (dget_or (bytes_by_namespace_kind c) (namespace, kind) 0 + bytes)
           (bytes_by_namespace_kind c),
       reservations :=
         (if retain_reservations c
          then reservations c @
            [\<lparr>rv_namespace = namespace, rv_resource = r, rv_start_ns = start,
              rv_end_ns = start + service, rv_service_ns = service, rv_byte_count = bytes,
              rv_job_id = job_id, rv_kind = kind\<rparr>]
          else reservations c)\<rparr>"

fun book_all ::
  "string \<Rightarrow> string \<Rightarrow> int \<Rightarrow> int \<Rightarrow> demands \<Rightarrow> int \<Rightarrow> calendar \<Rightarrow> int \<times> calendar" where
  "book_all namespace kind job_id start [] end_ns c = (end_ns, c)"
| "book_all namespace kind job_id start ((r, (service, bytes)) # ds) end_ns c =
     book_all namespace kind job_id start ds (max end_ns (start + service))
       (book namespace kind job_id start r service bytes c)"

definition reserve_parallel ::
  "calendar \<Rightarrow> int \<Rightarrow> int \<Rightarrow> string \<Rightarrow> demands \<Rightarrow> string \<Rightarrow> (int \<times> int, calendar) outcome" where
  "reserve_parallel c arrival job_id kind demands namespace =
     (if arrival < 0 then (Inl (ValueError ''arrival_ns must be non-negative''), c)
      else if namespace = []
      then (Inl (ValueError ''reservation namespace must be non-empty''), c)
      else if demands = [] then (Inr (arrival, arrival), c)
      else case demand_error demands of
        Some e \<Rightarrow> (Inl e, c)
      | None \<Rightarrow>
        (let start = max arrival (max_list (map (free_at c) (dkeys demands)));
             (end_ns, c') =
               book_all namespace kind job_id start (sort_key fst demands) start c
         in (Inr (start, end_ns), c')))"

definition earliest_start :: "calendar \<Rightarrow> int \<Rightarrow> string list \<Rightarrow> exn + int" where
  "earliest_start c arrival resources =
     (if arrival < 0 then Inl (ValueError ''arrival_ns must be non-negative'')
      else if resources = [] then Inr arrival
      else if list_ex (\<lambda>r. r = []) resources
      then Inl (ValueError ''resource name must be non-empty'')
      else Inr (max arrival (max_list (map (free_at c) resources))))"

section \<open>What one reservation does\<close>

lemma foldl_max_ge: "(x::int) \<le> foldl max x xs"
proof (induction xs arbitrary: x)
  case Nil
  then show ?case by simp
next
  case (Cons y xs)
  from Cons.IH [of "max x y"] show ?case by simp
qed

lemma foldl_max_in: "foldl max (x::int) xs \<in> insert x (set xs)"
proof (induction xs arbitrary: x)
  case Nil
  then show ?case by simp
next
  case (Cons y xs)
  from Cons.IH [of "max x y"] show ?case by (auto simp: max_def)
qed

lemma foldl_max_upper: "y \<in> set xs \<Longrightarrow> (y::int) \<le> foldl max x xs"
proof (induction xs arbitrary: x)
  case Nil
  then show ?case by simp
next
  case (Cons z xs)
  then show ?case using foldl_max_ge [of "max x z" xs] by auto
qed

lemma max_list_upper: "x \<in> set xs \<Longrightarrow> x \<le> max_list xs"
  by (cases xs) (auto simp: foldl_max_ge foldl_max_upper)

lemma max_list_in: "xs \<noteq> [] \<Longrightarrow> max_list xs \<in> set xs"
  using foldl_max_in by (cases xs) fastforce+

lemma max_list_eq_Max: "xs \<noteq> [] \<Longrightarrow> max_list xs = Max (set xs)"
  by (rule Max_eqI [symmetric]) (auto simp: max_list_upper max_list_in)

fun demand_ok :: "string \<times> int \<times> int \<Rightarrow> bool" where
  "demand_ok (r, (service, bytes)) \<longleftrightarrow> r \<noteq> [] \<and> 0 \<le> service \<and> 0 \<le> bytes"

lemma demand_error_None: "demand_error ds = None \<longleftrightarrow> list_all demand_ok ds"
  by (induction ds rule: demand_error.induct) auto

lemma book_simps [simp]:
  "free_at (book ns k j st r sv b c) r' = (if r' = r then st + sv else free_at c r')"
  "retain_reservations (book ns k j st r sv b c) = retain_reservations c"
  "dget_or (busy_ns (book ns k j st r sv b c)) r' 0 =
     (if r' = r then dget_or (busy_ns c) r 0 + sv else dget_or (busy_ns c) r' 0)"
  "dget_or (count_by_resource (book ns k j st r sv b c)) r' 0 =
     (if r' = r then dget_or (count_by_resource c) r 0 + 1
      else dget_or (count_by_resource c) r' 0)"
  "dget_or (bytes_by_resource (book ns k j st r sv b c)) r' 0 =
     (if r' = r then dget_or (bytes_by_resource c) r 0 + b
      else dget_or (bytes_by_resource c) r' 0)"
  by (simp_all add: book_def free_at_def)

lemma book_all_end:
  "fst (book_all ns k j st ds en c) = foldl max en (map (\<lambda>d. st + fst (snd d)) ds)"
  by (induction ns k j st ds en c rule: book_all.induct) simp_all

lemma book_all_free:
  "distinct (map fst ds) \<Longrightarrow>
   free_at (snd (book_all ns k j st ds en c)) r =
     (case dget ds r of None \<Rightarrow> free_at c r | Some (sv, b) \<Rightarrow> st + sv)"
proof (induction ns k j st ds en c rule: book_all.induct)
  case (1 ns k j st en c)
  then show ?case by simp
next
  case (2 ns k j st r' sv b ds en c)
  then show ?case by (cases "dget ds r'") (auto dest: dget_in_keys split: option.splits)
qed

lemma dwf_sort: "dwf ds \<Longrightarrow> dwf (sort_key fst (ds :: (string \<times> 'v) list))"
  by (metis mset_eq_imp_distinct_iff mset_map mset_sort)

lemma dget_sort: "dwf ds \<Longrightarrow> dget (sort_key fst ds) r = dget ds (r::string)"
  using map_of_inject_set [of "sort_key fst ds" ds] dwf_sort [of ds] by simp

text \<open>
  The result of \<open>reserve_parallel\<close>: it raises exactly on invalid input and then leaves the
  calendar alone; otherwise all resources start together, at the first instant at or after
  the arrival at which all of them are free, and each is busy for its own service time.
\<close>

definition reserve_start :: "calendar \<Rightarrow> int \<Rightarrow> demands \<Rightarrow> int" where
  "reserve_start c arrival ds =
     (if ds = [] then arrival else max arrival (max_list (map (free_at c) (dkeys ds))))"

definition reserve_valid :: "int \<Rightarrow> demands \<Rightarrow> string \<Rightarrow> bool" where
  "reserve_valid arrival ds namespace \<longleftrightarrow>
     0 \<le> arrival \<and> namespace \<noteq> [] \<and> list_all demand_ok ds"

definition reserve_error :: "int \<Rightarrow> demands \<Rightarrow> string \<Rightarrow> exn option" where
  "reserve_error arrival ds namespace =
     (if arrival < 0 then Some (ValueError ''arrival_ns must be non-negative'')
      else if namespace = []
      then Some (ValueError ''reservation namespace must be non-empty'')
      else demand_error ds)"

lemma reserve_error_None: "reserve_error arrival ds ns = None \<longleftrightarrow> reserve_valid arrival ds ns"
  by (auto simp: reserve_error_def reserve_valid_def demand_error_None)

lemma reserve_parallel_eq:
  "reserve_parallel c arrival j k ds ns =
     (case reserve_error arrival ds ns of
        Some e \<Rightarrow> (Inl e, c)
      | None \<Rightarrow>
          let st = reserve_start c arrival ds;
              (en, c') = book_all ns k j st (sort_key fst ds) st c
          in (Inr (st, en), c'))"
  by (cases "demand_error ds")
    (auto simp: reserve_parallel_def reserve_error_def reserve_start_def Let_def)

lemma reserve_parallel_Inl:
  "reserve_parallel c arrival j k ds ns = (Inl e, c') \<Longrightarrow>
     c' = c \<and> \<not> reserve_valid arrival ds ns"
  by (auto simp: reserve_parallel_eq reserve_error_None [symmetric] Let_def
      split: option.splits prod.splits)

lemma reserve_parallel_Inr:
  "reserve_parallel c arrival j k ds ns = (Inr (st, en), c') \<Longrightarrow>
     reserve_valid arrival ds ns \<and> st = reserve_start c arrival ds \<and>
     (en, c') = book_all ns k j st (sort_key fst ds) st c"
  by (auto simp: reserve_parallel_eq reserve_error_None [symmetric] Let_def
      split: option.splits prod.splits)

lemma reserve_parallel_valid:
  "reserve_valid arrival ds ns \<Longrightarrow>
     \<exists>en c'. reserve_parallel c arrival j k ds ns = (Inr (reserve_start c arrival ds, en), c')"
  by (auto simp: reserve_parallel_eq reserve_error_None [symmetric] Let_def
      split: option.splits prod.splits)

lemma reserve_start_ge: "arrival \<le> reserve_start c arrival ds"
  by (simp add: reserve_start_def)

lemma reserve_start_free: "r \<in> set (dkeys ds) \<Longrightarrow> free_at c r \<le> reserve_start c arrival ds"
  unfolding reserve_start_def using max_list_upper [of "free_at c r" "map (free_at c) (dkeys ds)"]
  by (force simp: max_def)

lemma reserve_start_least:
  "arrival \<le> t \<Longrightarrow> (\<And>r. r \<in> set (dkeys ds) \<Longrightarrow> free_at c r \<le> t) \<Longrightarrow>
     reserve_start c arrival ds \<le> t"
  unfolding reserve_start_def using max_list_in [of "map (free_at c) (dkeys ds)"]
  by (force simp del: max_list.simps)

lemma earliest_start_reserve:
  "reserve_valid arrival ds ns \<Longrightarrow>
     earliest_start c arrival (dkeys ds) = Inr (reserve_start c arrival ds)"
  by (auto simp: earliest_start_def reserve_valid_def reserve_start_def list_ex_iff list_all_iff)

lemma reserve_end:
  assumes "reserve_parallel c arrival j k ds ns = (Inr (st, en), c')" and "ds \<noteq> []"
  shows "en = st + max_list (map (fst \<circ> snd) ds)"
proof -
  let ?sv = "map (\<lambda>d. st + fst (snd d)) (sort_key fst ds)"
  from reserve_parallel_Inr [OF assms(1)] have v: "list_all demand_ok ds"
    and en: "en = foldl max st ?sv"
    using book_all_end [of ns k j st "sort_key fst ds" st c]
    by (auto simp: reserve_valid_def) (metis fst_conv)
  have nn: "st \<le> x" if "x \<in> set ?sv" for x
    using that v by (auto simp: list_all_iff)
  let ?m = "max_list (map (fst \<circ> snd) ds)"
  have "?m \<in> set (map (fst \<circ> snd) ds)"
    using assms(2) by (intro max_list_in) simp
  then have m: "st + ?m \<in> set ?sv" by (auto simp: image_iff)
  show ?thesis
  proof (rule antisym)
    have "en \<in> insert st (set ?sv)" unfolding en by (rule foldl_max_in)
    then show "en \<le> st + ?m"
      using nn [OF m] by (force intro!: max_list_upper)
    show "st + ?m \<le> en" unfolding en by (rule foldl_max_upper [OF m])
  qed
qed

lemma reserve_free:
  assumes "reserve_parallel c arrival j k ds ns = (Inr (st, en), c')" and "dwf ds"
  shows "free_at c' r = (case dget ds r of None \<Rightarrow> free_at c r | Some (sv, b) \<Rightarrow> st + sv)"
  using reserve_parallel_Inr [OF assms(1)] book_all_free [of "sort_key fst ds" ns k j st st c r]
    dwf_sort [OF assms(2)] dget_sort [OF assms(2)]
  by (metis snd_conv)

lemma reserve_free_mono:
  assumes "reserve_parallel c arrival j k ds ns = (Inr (st, en), c')" and "dwf ds"
  shows "free_at c r \<le> free_at c' r"
proof (cases "dget ds r")
  case None
  with reserve_free [OF assms] show ?thesis by simp
next
  case (Some d)
  then obtain sv b where d: "dget ds r = Some (sv, b)" by (cases d) auto
  from reserve_parallel_Inr [OF assms(1)] have st: "st = reserve_start c arrival ds"
    and "list_all demand_ok ds" by (auto simp: reserve_valid_def)
  with map_of_SomeD [OF d] have "0 \<le> sv" by (auto simp: list_all_iff)
  with reserve_free [OF assms] d st reserve_start_free [OF dget_in_keys [OF d], of c arrival]
  show ?thesis by simp
qed

section \<open>The calendar's invariant\<close>

text \<open>
  With \<^verbatim>\<open>retain_reservations\<close> the calendar records what it granted.  The reservations of one
  resource, in the order granted, do not overlap; the resource is free from the end of the
  last one; its busy time, count and bytes are the sums over them.
\<close>

definition on_resource :: "string \<Rightarrow> calendar \<Rightarrow> reservation list" where
  "on_resource r c = filter (\<lambda>v. rv_resource v = r) (reservations c)"

definition of_namespace_kind :: "string \<times> string \<Rightarrow> calendar \<Rightarrow> reservation list" where
  "of_namespace_kind nk c = filter (\<lambda>v. (rv_namespace v, rv_kind v) = nk) (reservations c)"

definition serial :: "reservation list \<Rightarrow> bool" where
  "serial vs \<longleftrightarrow> sorted_wrt (\<lambda>a b. rv_end_ns a \<le> rv_start_ns b) vs"

definition calendar_ok :: "calendar \<Rightarrow> bool" where
  "calendar_ok c \<longleftrightarrow>
     retain_reservations c \<and>
     (\<forall>v \<in> set (reservations c). 0 \<le> rv_start_ns v \<and> 0 \<le> rv_service_ns v \<and>
        rv_end_ns v = rv_start_ns v + rv_service_ns v) \<and>
     (\<forall>r. serial (on_resource r c) \<and>
        (\<forall>v \<in> set (on_resource r c). rv_end_ns v \<le> free_at c r) \<and>
        dget_or (busy_ns c) r 0 = sum_list (map rv_service_ns (on_resource r c)) \<and>
        dget_or (count_by_resource c) r 0 = int (length (on_resource r c)) \<and>
        dget_or (bytes_by_resource c) r 0 = sum_list (map rv_byte_count (on_resource r c))) \<and>
     (\<forall>nk. dget_or (count_by_namespace_kind c) nk 0 = int (length (of_namespace_kind nk c)) \<and>
        dget_or (bytes_by_namespace_kind c) nk 0 =
          sum_list (map rv_byte_count (of_namespace_kind nk c)))"

lemma calendar_ok_new: "calendar_ok (new_calendar True)"
  by (simp add: calendar_ok_def new_calendar_def on_resource_def of_namespace_kind_def
      serial_def free_at_def)

lemma calendar_ok_book:
  assumes c: "calendar_ok c" and r: "free_at c r \<le> st" "0 \<le> st" "0 \<le> sv"
  shows "calendar_ok (book ns k j st r sv b c)"
proof -
  have retain: "retain_reservations c" using c by (simp add: calendar_ok_def)
  let ?c = "book ns k j st r sv b c"
  let ?v = "\<lparr>rv_namespace = ns, rv_resource = r, rv_start_ns = st, rv_end_ns = st + sv,
    rv_service_ns = sv, rv_byte_count = b, rv_job_id = j, rv_kind = k\<rparr>"
  have on: "on_resource r' ?c = (if r' = r then on_resource r c @ [?v] else on_resource r' c)" for r'
    using retain by (simp add: on_resource_def book_def)
  have nk: "of_namespace_kind x ?c =
      (if x = (ns, k) then of_namespace_kind x c @ [?v] else of_namespace_kind x c)" for x
    using retain by (auto simp: of_namespace_kind_def book_def)
  have rs: "reservations ?c = reservations c @ [?v]" using retain by (simp add: book_def)
  have ser: "serial (on_resource r' ?c)" for r'
    using c r by (fastforce simp: on serial_def sorted_wrt_append calendar_ok_def)
  have nkc: "dget_or (count_by_namespace_kind ?c) x 0 =
      (if x = (ns, k) then dget_or (count_by_namespace_kind c) x 0 + 1
       else dget_or (count_by_namespace_kind c) x 0)"
    "dget_or (bytes_by_namespace_kind ?c) x 0 =
      (if x = (ns, k) then dget_or (bytes_by_namespace_kind c) x 0 + b
       else dget_or (bytes_by_namespace_kind c) x 0)" for x
    by (auto simp: book_def)
  show ?thesis
    using c r ser unfolding calendar_ok_def
    by (fastforce simp: on nk rs nkc)
qed

lemma calendar_ok_book_all:
  "calendar_ok c \<Longrightarrow> 0 \<le> st \<Longrightarrow> dwf ds \<Longrightarrow> list_all demand_ok ds \<Longrightarrow>
   (\<And>r. r \<in> set (dkeys ds) \<Longrightarrow> free_at c r \<le> st) \<Longrightarrow>
   calendar_ok (snd (book_all ns k j st ds en c))"
proof (induction ns k j st ds en c rule: book_all.induct)
  case (1 ns k j st en c)
  then show ?case by simp
next
  case (2 ns k j st r sv b ds en c)
  have "calendar_ok (book ns k j st r sv b c)"
    using 2 by (intro calendar_ok_book) auto
  moreover have "free_at (book ns k j st r sv b c) r' \<le> st" if "r' \<in> set (dkeys ds)" for r'
    using that "2.prems"(3,5) by auto
  ultimately show ?case using "2.IH" "2.prems" by simp
qed

lemma calendar_ok_reserve:
  assumes "calendar_ok c" and "dwf ds"
  shows "calendar_ok (snd (reserve_parallel c arrival j k ds ns))"
proof (cases "reserve_error arrival ds ns")
  case (Some e)
  with assms show ?thesis by (simp add: reserve_parallel_eq)
next
  case None
  then have v: "0 \<le> arrival" "list_all demand_ok ds"
    by (simp_all add: reserve_error_None reserve_valid_def)
  let ?st = "reserve_start c arrival ds"
  have "calendar_ok (snd (book_all ns k j ?st (sort_key fst ds) ?st c))"
  proof (rule calendar_ok_book_all [OF assms(1)])
    show "0 \<le> ?st" using v(1) reserve_start_ge [of arrival c ds] by simp
    show "dwf (sort_key fst ds)" by (rule dwf_sort [OF assms(2)])
    show "list_all demand_ok (sort_key fst ds)" using v(2) by (simp add: list_all_iff)
    show "\<And>r. r \<in> set (dkeys (sort_key fst ds)) \<Longrightarrow> free_at c r \<le> ?st"
      by (rule reserve_start_free) simp
  qed
  with None show ?thesis by (simp add: reserve_parallel_eq Let_def split_beta)
qed

text \<open>A duration-zero reservation aside, \<open>serial\<close> says that no two reservations share an instant.\<close>

lemma serial_disjoint:
  assumes "serial vs" and "i < j" and "j < length vs"
  shows "{rv_start_ns (vs ! i)..<rv_end_ns (vs ! i)} \<inter> {rv_start_ns (vs ! j)..<rv_end_ns (vs ! j)} = {}"
proof -
  have "rv_end_ns (vs ! i) \<le> rv_start_ns (vs ! j)"
    using assms by (simp add: serial_def sorted_wrt_iff_nth_less)
  then show ?thesis by (simp add: disjoint_iff)
qed

section \<open>The interface the other components use\<close>

text \<open>
  A resource scheduler grants a start time and says when each resource is free again.  The
  laws are all that the serving pool and the tier lifecycle rely on.
\<close>

locale resource_scheduler =
  fixes free :: "'c \<Rightarrow> string \<Rightarrow> int"
    and reserve :: "'c \<Rightarrow> int \<Rightarrow> int \<Rightarrow> string \<Rightarrow> demands \<Rightarrow> string \<Rightarrow> (int \<times> int, 'c) outcome"
  assumes raise_pure: "reserve c t j k ds ns = (Inl e, c') \<Longrightarrow> c' = c"
    and start_ge: "reserve c t j k ds ns = (Inr (st, en), c') \<Longrightarrow> t \<le> st"
    and start_free: "reserve c t j k ds ns = (Inr (st, en), c') \<Longrightarrow> r \<in> set (dkeys ds) \<Longrightarrow>
          free c r \<le> st"
    and end_ge: "reserve c t j k ds ns = (Inr (st, en), c') \<Longrightarrow> st \<le> en"
    and free_after: "reserve c t j k ds ns = (Inr (st, en), c') \<Longrightarrow> dwf ds \<Longrightarrow>
          dget ds r = Some (sv, b) \<Longrightarrow> free c' r = st + sv \<and> 0 \<le> sv \<and> st + sv \<le> en"
    and free_other: "reserve c t j k ds ns = (Inr (st, en), c') \<Longrightarrow> dwf ds \<Longrightarrow>
          r \<notin> set (dkeys ds) \<Longrightarrow> free c' r = free c r"
begin

lemma free_mono:
  assumes "reserve c t j k ds ns = (x, c')" and "dwf ds"
  shows "free c r \<le> free c' r"
proof (cases x)
  case (Inl e)
  with assms raise_pure [of c t j k ds ns] show ?thesis by simp
next
  case (Inr p)
  obtain st en where p: "p = (st, en)" by (cases p)
  note res = assms(1) [unfolded Inr p]
  show ?thesis
  proof (cases "dget ds r")
    case None
    with free_other [OF res assms(2), of r] show ?thesis by (simp add: dget_None_iff)
  next
    case (Some d)
    with free_after [OF res assms(2), of r] start_free [OF res dget_in_keys [OF Some]]
    show ?thesis by (cases d) auto
  qed
qed

text \<open>Two reservations of the same resource, granted one after the other, do not overlap.\<close>

lemma successive_serial:
  assumes "reserve c t j k ds ns = (Inr (st, en), c')" and "dwf ds"
    and "dget ds r = Some (sv, b)"
    and "reserve c' t' j' k' ds' ns' = (Inr (st', en'), c'')" and "r \<in> set (dkeys ds')"
  shows "st + sv \<le> st'"
  using free_after [OF assms(1-3)] start_free [OF assms(4,5)] by simp

end

lemma reserve_end_all:
  assumes "reserve_parallel c t j k ds ns = (Inr (st, en), c')" and "dget ds r = Some (sv, b)"
  shows "0 \<le> sv" and "st + sv \<le> en"
proof -
  have r: "(r, sv, b) \<in> set ds" by (rule map_of_SomeD [OF assms(2)])
  then show "0 \<le> sv"
    using reserve_parallel_Inr [OF assms(1)] by (auto simp: reserve_valid_def list_all_iff)
  have "sv \<le> max_list (map (fst \<circ> snd) ds)"
    using r by (intro max_list_upper) force
  moreover have "ds \<noteq> []" using r by auto
  ultimately show "st + sv \<le> en" using reserve_end [OF assms(1)] by simp
qed

interpretation cal: resource_scheduler free_at reserve_parallel
proof
  fix c c' t j k ds ns st en r sv b and e
  show "reserve_parallel c t j k ds ns = (Inl e, c') \<Longrightarrow> c' = c"
    by (simp add: reserve_parallel_Inl)
  assume res: "reserve_parallel c t j k ds ns = (Inr (st, en), c')"
  note inr = reserve_parallel_Inr [OF res]
  show "t \<le> st" using inr reserve_start_ge by auto
  show "r \<in> set (dkeys ds) \<Longrightarrow> free_at c r \<le> st" using inr reserve_start_free by blast
  show "st \<le> en"
    using inr book_all_end [of ns k j st "sort_key fst ds" st c] foldl_max_ge by (metis fst_conv)
  show "dwf ds \<Longrightarrow> dget ds r = Some (sv, b) \<Longrightarrow>
      free_at c' r = st + sv \<and> 0 \<le> sv \<and> st + sv \<le> en"
    using reserve_free [OF res, of r] reserve_end_all [OF res, of r] by simp
  show "dwf ds \<Longrightarrow> r \<notin> set (dkeys ds) \<Longrightarrow> free_at c' r = free_at c r"
    using reserve_free [OF res, of r] dget_None_iff [of ds r] by simp
qed

section \<open>Properties\<close>

text \<open>The calendars a run can produce: a fresh one, and each reservation after it.\<close>

inductive calendar_reach :: "calendar \<Rightarrow> bool" where
  fresh: "calendar_reach (new_calendar True)"
| reserved: "calendar_reach c \<Longrightarrow> dwf ds \<Longrightarrow>
    calendar_reach (snd (reserve_parallel c arrival j k ds ns))"

lemma calendar_reach_ok: "calendar_reach c \<Longrightarrow> calendar_ok c"
  by (induction rule: calendar_reach.induct) (simp_all add: calendar_ok_new calendar_ok_reserve)

definition two_jobs :: calendar where
  "two_jobs = snd (reserve_parallel
     (snd (reserve_parallel (new_calendar True) 5 0 ''copy'' [(''pcie'', (10, 64)), (''cpu'', (4, 64))] ''n''))
     7 1 ''copy'' [(''pcie'', (3, 32))] ''n'')"

lemma two_jobs_reach: "calendar_reach two_jobs"
  unfolding two_jobs_def by (intro calendar_reach.intros) simp_all

lemma two_jobs_pcie:
  "map (\<lambda>v. (rv_start_ns v, rv_end_ns v)) (on_resource ''pcie'' two_jobs) = [(5, 15), (15, 18)]"
  "dget_or (busy_ns two_jobs) ''pcie'' 0 = 13"
  by (simp_all add: two_jobs_def reserve_parallel_def new_calendar_def free_at_def book_def
      on_resource_def Let_def)

text \<open>C23: A serial resource is never double booked: in every calendar a run can produce, the
  reservations of one resource are disjoint in time, and the counters the report reads (busy time,
  number of reservations, bytes) are the sums over the reservations retained.\<close>
theorem calendar_never_double_books:
  assumes "calendar_reach c"
  shows "(\<forall>i j. i < j \<longrightarrow> j < length (on_resource r c) \<longrightarrow>
            {rv_start_ns (on_resource r c ! i)..<rv_end_ns (on_resource r c ! i)} \<inter>
            {rv_start_ns (on_resource r c ! j)..<rv_end_ns (on_resource r c ! j)} = {}) \<and>
         dget_or (busy_ns c) r 0 = sum_list (map rv_service_ns (on_resource r c)) \<and>
         dget_or (count_by_resource c) r 0 = int (length (on_resource r c)) \<and>
         dget_or (bytes_by_resource c) r 0 = sum_list (map rv_byte_count (on_resource r c))"
proof -
  have ok: "calendar_ok c" by (rule calendar_reach_ok [OF assms])
  then have ser: "serial (on_resource r c)" by (simp add: calendar_ok_def)
  have "{rv_start_ns (on_resource r c ! i)..<rv_end_ns (on_resource r c ! i)} \<inter>
      {rv_start_ns (on_resource r c ! j)..<rv_end_ns (on_resource r c ! j)} = {}"
    if "i < j" "j < length (on_resource r c)" for i j
    by (rule serial_disjoint [OF ser that])
  with ok show ?thesis by (simp add: calendar_ok_def)
qed

theorem calendar_never_double_books_witness:
  "length (on_resource ''pcie'' two_jobs) = 2 \<and>
   {5..<15} \<inter> {15..<18::int} = {} \<and>
   sum_list (map rv_service_ns (on_resource ''pcie'' two_jobs)) = 13"
proof -
  note p = calendar_never_double_books [OF two_jobs_reach, of "''pcie''"]
  have l: "length (on_resource ''pcie'' two_jobs) = 2"
    using arg_cong [OF two_jobs_pcie(1), of length] by simp
  then obtain v w where vw: "on_resource ''pcie'' two_jobs = [v, w]"
    by (auto simp: numeral_2_eq_2 length_Suc_conv)
  have "{rv_start_ns v..<rv_end_ns v} \<inter> {rv_start_ns w..<rv_end_ns w} = {}"
    using conjunct1 [OF p, rule_format, of 0 1] by (simp add: vw)
  moreover have "rv_start_ns v = 5 \<and> rv_end_ns v = 15 \<and> rv_start_ns w = 15 \<and> rv_end_ns w = 18"
    using two_jobs_pcie(1) by (simp add: vw)
  ultimately have "{5..<15} \<inter> {15..<18::int} = {}" by (elim conjE) (simp only:)
  moreover have "sum_list (map rv_service_ns (on_resource ''pcie'' two_jobs)) = 13"
    using p two_jobs_pcie(2) by (elim conjE) (simp only:)
  ultimately show ?thesis using l by blast
qed

text \<open>C24: What one call of \<open>reserve_parallel\<close> does, on every branch: it raises exactly when the
  arrival is negative, the namespace or a resource name is empty or a demand is negative, and then
  changes nothing; otherwise all demanded resources start together at the earliest instant at or
  after the arrival at which each of them is free, the call returns the end of the longest one, each
  demanded resource is next free at the end of its own service and every other one is untouched.\<close>
theorem reserve_parallel_effect:
  assumes "dwf ds"
  shows "case reserve_parallel c arrival j k ds ns of
      (Inl e, c') \<Rightarrow> c' = c \<and> \<not> reserve_valid arrival ds ns
    | (Inr (start, finish), c') \<Rightarrow>
        reserve_valid arrival ds ns \<and>
        (\<forall>t. start \<le> t \<longleftrightarrow> arrival \<le> t \<and> (\<forall>r \<in> set (dkeys ds). free_at c r \<le> t)) \<and>
        (if ds = [] then finish = start
         else finish = start + max_list (map (fst \<circ> snd) ds)) \<and>
        (\<forall>r. free_at c' r = (case dget ds r of None \<Rightarrow> free_at c r | Some d \<Rightarrow> start + fst d))"
proof (cases "reserve_parallel c arrival j k ds ns")
  case (Pair res c')
  show ?thesis
  proof (cases res)
    case (Inl e)
    with Pair reserve_parallel_Inl [of c arrival j k ds ns e c'] show ?thesis by simp
  next
    case (Inr se)
    obtain st en where se: "se = (st, en)" by (cases se)
    note res = Pair [unfolded Inr se]
    note inr = reserve_parallel_Inr [OF res]
    have least: "st \<le> t \<longleftrightarrow> arrival \<le> t \<and> (\<forall>r \<in> set (dkeys ds). free_at c r \<le> t)" for t
      using inr reserve_start_ge [of arrival c ds] reserve_start_free [of _ ds c arrival]
        reserve_start_least [of arrival t ds c] by (meson order_trans)
    have v: "reserve_valid arrival ds ns" using inr by simp
    have e: "if ds = [] then en = st else en = st + max_list (map (fst \<circ> snd) ds)"
      using reserve_end [OF res] inr by auto
    have f: "free_at c' r = (case dget ds r of None \<Rightarrow> free_at c r | Some d \<Rightarrow> st + fst d)" for r
      using reserve_free [OF res assms, of r] by (simp split: option.splits prod.splits)
    show ?thesis unfolding res prod.case sum.case by (intro conjI allI v least e f)
  qed
qed

theorem reserve_parallel_effect_witness:
  "fst (reserve_parallel (new_calendar True) 5 0 ''copy'' [(''pcie'', (10, 64))] ''n'') = Inr (5, 15) \<and>
   free_at (snd (reserve_parallel (new_calendar True) 5 0 ''copy'' [(''pcie'', (10, 64))] ''n'')) ''pcie'' = 15"
proof -
  have "fst (reserve_parallel (new_calendar True) 5 0 ''copy'' [(''pcie'', (10, 64))] ''n'') = Inr (5, 15)"
    by (simp add: reserve_parallel_def new_calendar_def free_at_def book_def Let_def)
  moreover note reserve_parallel_effect 
      [where ds = "[(''pcie'', (10, 64))]" and c = "new_calendar True" and arrival = 5 and j = 0
        and k = "''copy''" and ns = "''n''"]
  ultimately show ?thesis
    by (cases "reserve_parallel (new_calendar True) 5 0 ''copy'' [(''pcie'', (10, 64))] ''n''") auto
qed

text \<open>The look-ahead \<open>earliest_start\<close> of a scheduler is exact: for valid demands it returns the
  start that an immediate \<open>reserve_parallel\<close> of the same resources is granted.\<close>
theorem earliest_start_predicts:
  assumes "reserve_valid arrival ds ns"
  shows "\<exists>start finish c'. earliest_start c arrival (dkeys ds) = Inr start \<and>
           reserve_parallel c arrival j k ds ns = (Inr (start, finish), c')"
  using earliest_start_reserve [OF assms] reserve_parallel_valid [OF assms] by metis

theorem earliest_start_predicts_witness:
  "\<exists>start finish c'. earliest_start two_jobs 6 [''pcie''] = Inr start \<and>
     reserve_parallel two_jobs 6 2 ''copy'' [(''pcie'', (1, 8))] ''n'' = (Inr (start, finish), c')"
  using earliest_start_predicts [of 6 "[(''pcie'', (1, 8))]" "''n''" two_jobs 2 "''copy''"]
  by (simp add: reserve_valid_def)

end
