(* ===== verification/Binary64.thy ===== *)
theory Binary64
  imports Prelude
begin

text \<open>
  Python floats: rational numbers rounded to a 53-bit significand, ties to even.  Each float
  operation of the code is one rounding of the exact rational result.  The model has no
  exponent limits: the code's quantities (seconds, bytes, bandwidths validated to be finite)
  stay far inside the normal range of a binary64, where rounding is exactly this.
\<close>

section \<open>Binary exponent\<close>

fun nbits :: "nat \<Rightarrow> nat" where
  "nbits n = (if n = 0 then 0 else Suc (nbits (n div 2)))"

declare nbits.simps [simp del]

text \<open>\<open>ilog2 x\<close> is the exponent of the leading binary digit of a positive rational.\<close>

definition ilog2 :: "rat \<Rightarrow> int" where
  "ilog2 x = (let (p, q) = quotient_of x; k = int (nbits (nat p)) - int (nbits (nat q))
              in if 2 powi k \<le> x then k else k - 1)"

definition round_half_even :: "rat \<Rightarrow> int" where
  "round_half_even x =
     (let f = \<lfloor>x\<rfloor>; r = x - of_int f
      in if r < 1 / 2 then f else if 1 / 2 < r then f + 1 else if even f then f else f + 1)"

definition round_pos :: "rat \<Rightarrow> rat" where
  "round_pos x = (let u = 2 powi (ilog2 x - 52) in of_int (round_half_even (x / u)) * u)"

definition b64 :: "rat \<Rightarrow> rat" where
  "b64 x = (if x = 0 then 0 else if 0 < x then round_pos x else - round_pos (- x))"

section \<open>Float operations\<close>

definition fint :: "int \<Rightarrow> rat" where
  "fint n = b64 (of_int n)"

definition fadd :: "rat \<Rightarrow> rat \<Rightarrow> rat" where
  "fadd x y = b64 (x + y)"

definition fsub :: "rat \<Rightarrow> rat \<Rightarrow> rat" where
  "fsub x y = b64 (x - y)"

definition fmul :: "rat \<Rightarrow> rat \<Rightarrow> rat" where
  "fmul x y = b64 (x * y)"

definition fdiv :: "rat \<Rightarrow> rat \<Rightarrow> rat" where
  "fdiv x y = b64 (x / y)"

text \<open>The literals \<^verbatim>\<open>1e-6\<close>, \<^verbatim>\<open>1e3\<close>, \<^verbatim>\<open>1e9\<close> and \<^verbatim>\<open>1e12\<close>.\<close>

definition e_minus6 :: rat where "e_minus6 = b64 (1 / 1000000)"
definition e3 :: rat where "e3 = 1000"
definition e9 :: rat where "e9 = 1000000000"
definition e12 :: rat where "e12 = 1000000000000"

text \<open>\<^verbatim>\<open>math.isclose\<close> with its default tolerances.\<close>

definition isclose :: "rat \<Rightarrow> rat \<Rightarrow> bool" where
  "isclose a b =
     (a = b \<or> \<bar>fsub b a\<bar> \<le> \<bar>fmul (b64 (1 / 1000000000)) b\<bar>
      \<or> \<bar>fsub b a\<bar> \<le> \<bar>fmul (b64 (1 / 1000000000)) a\<bar>)"

text \<open>\<^verbatim>\<open>int(math.ceil(seconds * 1e9))\<close>.\<close>

definition ceil_ns :: "rat \<Rightarrow> int" where
  "ceil_ns seconds = \<lceil>fmul seconds e9\<rceil>"

section \<open>Rounding is monotone\<close>

lemma nbits_bounds: "0 < n \<Longrightarrow> \<exists>m. nbits n = Suc m \<and> 2 ^ m \<le> n \<and> n < 2 ^ Suc m"
proof (induction n rule: nbits.induct)
  case (1 n)
  show ?case
  proof (cases "n div 2 = 0")
    case True
    with 1 have "n = 1" by simp
    then show ?thesis by (simp add: nbits.simps)
  next
    case False
    with 1 obtain m where "nbits (n div 2) = Suc m" "2 ^ m \<le> n div 2" "n div 2 < 2 ^ Suc m" by auto
    then have "nbits n = Suc (Suc m)" "2 ^ Suc m \<le> n" "n < 2 ^ Suc (Suc m)"
      using 1(2) by (auto simp: nbits.simps [of n])
    then show ?thesis by blast
  qed
qed

lemma nbits_powi:
  assumes "0 < p"
  shows "(2::rat) powi (int (nbits (nat p)) - 1) \<le> of_int p"
    and "of_int p < (2::rat) powi int (nbits (nat p))"
proof -
  obtain n where p: "p = int n" and n: "0 < n" using assms by (metis zero_less_imp_eq_int)
  from nbits_bounds [OF n] obtain m
    where m: "nbits n = Suc m" and b: "2 ^ m \<le> n" "n < 2 ^ Suc m" by blast
  from b have "of_nat (2 ^ m) \<le> (of_nat n :: rat)" and "(of_nat n :: rat) < of_nat (2 ^ Suc m)"
    unfolding of_nat_le_iff of_nat_less_iff .
  then have "(2::rat) powi int m \<le> of_nat n" and "of_nat n < (2::rat) powi int (Suc m)"
    unfolding power_int_of_nat by simp_all
  then show "(2::rat) powi (int (nbits (nat p)) - 1) \<le> of_int p"
    and "of_int p < (2::rat) powi int (nbits (nat p))"
    by (simp_all add: p m)
qed

lemma ilog2_bounds:
  assumes "0 < x"
  shows "2 powi ilog2 x \<le> x" and "x < 2 powi (ilog2 x + 1)"
proof -
  obtain p q where pq: "quotient_of x = (p, q)" by (cases "quotient_of x")
  have q: "0 < q" by (rule quotient_of_denom_pos [OF pq])
  have x: "x = of_int p / of_int q" by (rule quotient_of_div [OF pq])
  with assms q have p: "0 < p" by (simp add: zero_less_divide_iff)
  define a b where "a = nbits (nat p)" and "b = nbits (nat q)"
  note ra = nbits_powi [OF p, folded a_def] and rb = nbits_powi [OF q, folded b_def]
  let ?k = "int a - int b"
  have hi: "x < 2 powi (?k + 1)"
  proof -
    have "x < 2 powi int a / of_int q"
      unfolding x using ra(2) q by (simp add: divide_strict_right_mono)
    also have "\<dots> \<le> 2 powi int a / 2 powi (int b - 1)"
      using rb(1) by (intro divide_left_mono) (auto simp: q)
    also have "\<dots> = 2 powi (?k + 1)"
      using power_int_diff [of "2::rat" "int a" "int b - 1"] by (simp add: algebra_simps)
    finally show ?thesis .
  qed
  have lo: "2 powi (?k - 1) \<le> x"
  proof -
    have "(2 powi (?k - 1) :: rat) = 2 powi (int a - 1) / 2 powi int b"
      using power_int_diff [of "2::rat" "int a - 1" "int b"] by (simp add: algebra_simps)
    also have "\<dots> \<le> 2 powi (int a - 1) / of_int q"
      using rb(2) q by (intro divide_left_mono) auto
    also have "\<dots> \<le> x" unfolding x using ra(1) q by (simp add: divide_right_mono)
    finally show ?thesis .
  qed
  have il: "ilog2 x = (if 2 powi ?k \<le> x then ?k else ?k - 1)"
    by (simp add: ilog2_def pq a_def b_def)
  show "2 powi ilog2 x \<le> x" using lo by (simp add: il)
  show "x < 2 powi (ilog2 x + 1)" using hi by (simp add: il)
qed

lemma ilog2_mono:
  assumes "0 < x" and "x \<le> y"
  shows "ilog2 x \<le> ilog2 y"
proof (rule ccontr)
  assume "\<not> ?thesis"
  then have "ilog2 y + 1 \<le> ilog2 x" by simp
  then have "(2 powi (ilog2 y + 1) :: rat) \<le> 2 powi ilog2 x" by (simp add: power_int_increasing)
  with ilog2_bounds [of x] ilog2_bounds [of y] assms show False by simp
qed

lemma round_half_even_mono:
  assumes "x \<le> y"
  shows "round_half_even x \<le> round_half_even y"
proof -
  have "\<lfloor>x\<rfloor> \<le> \<lfloor>y\<rfloor>" by (rule floor_mono [OF assms])
  moreover have "round_half_even z \<in> {\<lfloor>z\<rfloor>, \<lfloor>z\<rfloor> + 1}" for z
    by (simp add: round_half_even_def Let_def)
  ultimately consider "round_half_even x \<le> round_half_even y" | "\<lfloor>x\<rfloor> = \<lfloor>y\<rfloor>"
    by (smt (verit, best) insertE singletonD)
  then show ?thesis
  proof cases
    case 2
    with assms show ?thesis by (auto simp: round_half_even_def Let_def)
  qed
qed

lemma round_half_even_int [simp]: "round_half_even (of_int n) = n"
  by (simp add: round_half_even_def)

lemma round_pos_bounds:
  assumes "0 < x"
  shows "2 powi ilog2 x \<le> round_pos x" and "round_pos x \<le> 2 powi (ilog2 x + 1)"
proof -
  let ?u = "2 powi (ilog2 x - 52) :: rat"
  have u: "0 < ?u" by simp
  have e: "(2 powi ilog2 x :: rat) = of_int (2 ^ 52) * ?u"
    "(2 powi (ilog2 x + 1) :: rat) = of_int (2 ^ 53) * ?u"
    using power_int_add [of "2::rat" 52 "ilog2 x - 52"]
      power_int_add [of "2::rat" 53 "ilog2 x - 52"] by (simp_all add: add.commute)
  have "of_int (2 ^ 52) \<le> x / ?u" "x / ?u \<le> of_int (2 ^ 53)"
    using ilog2_bounds [OF assms] u unfolding e by (simp_all add: pos_le_divide_eq pos_divide_le_eq)
  then have "2 ^ 52 \<le> round_half_even (x / ?u)" "round_half_even (x / ?u) \<le> 2 ^ 53"
    using round_half_even_mono round_half_even_int by metis+
  then have "of_int (2 ^ 52) \<le> (of_int (round_half_even (x / ?u)) :: rat)"
    "(of_int (round_half_even (x / ?u)) :: rat) \<le> of_int (2 ^ 53)"
    by (simp_all only: of_int_le_iff)
  then show "2 powi ilog2 x \<le> round_pos x" and "round_pos x \<le> 2 powi (ilog2 x + 1)"
    unfolding round_pos_def Let_def e using u by (intro mult_right_mono; simp)+
qed

lemma round_pos_mono:
  assumes "0 < x" and "x \<le> y"
  shows "round_pos x \<le> round_pos y"
proof (cases "ilog2 x = ilog2 y")
  case True
  then show ?thesis
    unfolding round_pos_def Let_def True using assms
    by (intro mult_right_mono) (auto intro!: round_half_even_mono divide_right_mono)
next
  case False
  with ilog2_mono [OF assms] have "ilog2 x + 1 \<le> ilog2 y" by simp
  then have "(2 powi (ilog2 x + 1) :: rat) \<le> 2 powi ilog2 y" by (simp add: power_int_increasing)
  with round_pos_bounds [of x] round_pos_bounds [of y] assms show ?thesis by simp
qed

lemma round_pos_pos: "0 < x \<Longrightarrow> 0 < round_pos x"
  using round_pos_bounds(1) [of x] by (meson less_le_trans zero_less_numeral zero_less_power_int)

lemma b64_zero [simp]: "b64 0 = 0"
  by (simp add: b64_def)

lemma b64_mono: "x \<le> y \<Longrightarrow> b64 x \<le> b64 y"
  using round_pos_mono [of x y] round_pos_mono [of "- y" "- x"] round_pos_pos [of y]
    round_pos_pos [of "- x"]
  by (auto simp: b64_def)

lemma b64_nonneg: "0 \<le> x \<Longrightarrow> 0 \<le> b64 x"
  using b64_mono [of 0 x] by simp

lemma b64_pos: "0 < x \<Longrightarrow> 0 < b64 x"
  by (simp add: b64_def round_pos_pos)

named_theorems float_intros "monotonicity and sign of float operations"

lemma fint_mono [float_intros]: "m \<le> n \<Longrightarrow> fint m \<le> fint n"
  by (simp add: fint_def b64_mono)

lemma fint_nonneg [float_intros]: "0 \<le> n \<Longrightarrow> 0 \<le> fint n"
  by (simp add: fint_def b64_nonneg)

lemma fadd_mono [float_intros]: "x \<le> x' \<Longrightarrow> y \<le> y' \<Longrightarrow> fadd x y \<le> fadd x' y'"
  by (simp add: fadd_def b64_mono add_mono)

lemma fadd_nonneg [float_intros]: "0 \<le> x \<Longrightarrow> 0 \<le> y \<Longrightarrow> 0 \<le> fadd x y"
  by (simp add: fadd_def b64_nonneg)

lemma fmul_mono [float_intros]: "x \<le> x' \<Longrightarrow> 0 \<le> y \<Longrightarrow> fmul x y \<le> fmul x' y"
  by (simp add: fmul_def b64_mono mult_right_mono)

lemma fmul_mono2 [float_intros]: "y \<le> y' \<Longrightarrow> 0 \<le> x \<Longrightarrow> fmul x y \<le> fmul x y'"
  by (simp add: fmul_def b64_mono mult_left_mono)

lemma fmul_nonneg [float_intros]: "0 \<le> x \<Longrightarrow> 0 \<le> y \<Longrightarrow> 0 \<le> fmul x y"
  by (simp add: fmul_def b64_nonneg)

lemma fmul_pos [float_intros]: "0 < x \<Longrightarrow> 0 < y \<Longrightarrow> 0 < fmul x y"
  by (simp add: fmul_def b64_pos)

lemma fdiv_mono [float_intros]: "x \<le> x' \<Longrightarrow> 0 \<le> y \<Longrightarrow> fdiv x y \<le> fdiv x' y"
  by (simp add: fdiv_def b64_mono divide_right_mono)

lemma fdiv_nonneg [float_intros]: "0 \<le> x \<Longrightarrow> 0 \<le> y \<Longrightarrow> 0 \<le> fdiv x y"
  by (simp add: fdiv_def b64_nonneg)

lemma e_pos [simp]: "0 < e_minus6" "0 < e3" "0 < e9" "0 < e12"
  by (simp_all add: e_minus6_def e3_def e9_def e12_def b64_pos)

lemma e_nonneg [simp, float_intros]: "0 \<le> e_minus6" "0 \<le> e3" "0 \<le> e9" "0 \<le> e12"
  by (simp_all add: less_imp_le)

lemma ceil_ns_mono: "x \<le> y \<Longrightarrow> ceil_ns x \<le> ceil_ns y"
  by (simp add: ceil_ns_def ceiling_mono fmul_mono)

lemma ceil_ns_nonneg: "0 \<le> x \<Longrightarrow> 0 \<le> ceil_ns x"
  using ceil_ns_mono [of 0 x] by (simp add: ceil_ns_def fmul_def)

lemma ceil_ns_pos: "0 < x \<Longrightarrow> 0 < ceil_ns x"
  by (simp add: ceil_ns_def fmul_pos)

section \<open>Exact values and evaluation\<close>

lemma powi_less_imp: "(2::rat) powi a < 2 powi b \<Longrightarrow> a < b"
  by (rule ccontr) (use power_int_increasing [of b a "2::rat"] in simp)

lemma ilog2_eqI:
  assumes "2 powi k \<le> x" and "x < 2 powi (k + 1)"
  shows "ilog2 x = k"
proof -
  have "0 < x" using assms(1) by (meson less_le_trans zero_less_numeral zero_less_power_int)
  note b = ilog2_bounds [OF this]
  have "(2::rat) powi ilog2 x < 2 powi (k + 1)" "(2::rat) powi k < 2 powi (ilog2 x + 1)"
    using b assms by simp_all
  then show ?thesis by (auto dest!: powi_less_imp)
qed

text \<open>A number with at most 53 significant bits is a float.\<close>

lemma round_pos_exact:
  assumes m: "0 < m" "m < 2 ^ 53"
  shows "round_pos (of_int m * 2 powi e) = of_int m * 2 powi e"
proof -
  let ?x = "of_int m * 2 powi e :: rat" and ?k = "ilog2 (of_int m * 2 powi e)"
  have "of_int m < (of_int (2 ^ 53) :: rat)" using m(2) by (simp only: of_int_less_iff)
  then have "?x < 2 powi (53 + e)" by (simp add: power_int_add)
  then have "2 powi ?k < (2::rat) powi (53 + e)" using ilog2_bounds(1) [of ?x] m(1) by simp
  then have ke: "?k - 52 \<le> e" by (auto dest!: powi_less_imp)
  then obtain d where d: "e = ?k - 52 + int d" by (metis add_diff_cancel_left' diff_add_cancel zle_iff_zadd)
  have "?x / 2 powi (?k - 52) = of_int m * 2 powi (e - (?k - 52))"
    by (simp add: power_int_diff)
  also have "e - (?k - 52) = int d" using d by linarith
  finally have "?x / 2 powi (?k - 52) = of_int (m * 2 ^ d)" by simp
  then have "round_pos ?x = of_int (m * 2 ^ d) * 2 powi (?k - 52)"
    by (simp only: round_pos_def Let_def round_half_even_int)
  also have "\<dots> = of_int m * 2 powi (?k - 52 + int d)" by (simp add: power_int_add)
  finally show ?thesis using d by simp
qed

lemma b64_exact:
  assumes "\<bar>m\<bar> < 2 ^ 53"
  shows "b64 (of_int m * 2 powi e) = of_int m * 2 powi e"
proof (cases "m < 0")
  case True
  have "\<not> (2 powi e :: rat) < 0" by (simp add: not_less)
  with True assms round_pos_exact [of "- m" e] show ?thesis
    by (simp add: b64_def mult_less_0_iff zero_less_mult_iff)
next
  case False
  with assms round_pos_exact [of m e] show ?thesis
    by (cases "m = 0") (simp_all add: b64_def zero_less_mult_iff)
qed

lemma fint_exact: "\<bar>n\<bar> < 2 ^ 53 \<Longrightarrow> fint n = of_int n"
  using b64_exact [of n 0] by (simp add: fint_def)

text \<open>Rounding a given positive rational: \<open>k\<close> is its exponent, \<open>m\<close> the rounded significand.\<close>

lemma round_half_even_eqI:
  assumes "of_int m - 1 / 2 < y" and "y < of_int m + 1 / 2"
  shows "round_half_even y = m"
proof (cases "of_int m \<le> y")
  case True
  then have "\<lfloor>y\<rfloor> = m" using assms by (simp add: floor_unique)
  then show ?thesis using assms by (simp add: round_half_even_def)
next
  case False
  then have "\<lfloor>y\<rfloor> = m - 1" using assms by (simp add: floor_unique)
  then show ?thesis using assms by (simp add: round_half_even_def)
qed

lemma b64_eqI:
  assumes "2 powi k \<le> x" and "x < 2 powi (k + 1)"
    and "of_int m - 1 / 2 < x / 2 powi (k - 52)" and "x / 2 powi (k - 52) < of_int m + 1 / 2"
  shows "b64 x = of_int m * 2 powi (k - 52)"
proof -
  have "0 < x" using assms(1) by (meson less_le_trans zero_less_numeral zero_less_power_int)
  moreover have "ilog2 x = k" by (rule ilog2_eqI [OF assms(1,2)])
  ultimately show ?thesis
    using round_half_even_eqI [OF assms(3,4)] by (simp add: b64_def round_pos_def)
qed

end
