(* ===== verification/PD_Latency.thy ===== *)
theory PD_Latency
  imports Binary64
begin

text \<open>
  \<^verbatim>\<open>serving/core/gpu_pd_latency.py\<close>: the hardware description of one P4D4 server (four
  prefill and four decode H100s), the exact KV-cache byte arithmetic of the Qwen3 model, the
  batch latency and its per-layer decomposition, and the P-to-D handoff latency.  The shapes
  of a batch and their validation come from \<^verbatim>\<open>hbf_full_model_latency.py\<close> and
  \<^verbatim>\<open>online_latency_model.py\<close>.  The kernel times fitted from profile data are a parameter of the
  model (record \<open>provider\<close>).
\<close>

section \<open>Model constants\<close>

definition QWEN_HIDDEN_SIZE :: int where "QWEN_HIDDEN_SIZE = 2048"
definition QWEN_HEAD_DIM :: int where "QWEN_HEAD_DIM = 128"
definition QWEN_Q_HEADS :: int where "QWEN_Q_HEADS = 32"
definition QWEN_KV_HEADS :: int where "QWEN_KV_HEADS = 4"
definition QWEN_LAYERS :: int where "QWEN_LAYERS = 48"
definition QWEN_EXPERTS :: int where "QWEN_EXPERTS = 128"
definition QWEN_EXPERT_INTERMEDIATE :: int where "QWEN_EXPERT_INTERMEDIATE = 768"
definition QWEN_VOCAB_SIZE :: int where "QWEN_VOCAB_SIZE = 151936"
definition BF16_BYTES :: int where "BF16_BYTES = 2"
definition MAX_CONTEXT_TOKENS :: int where "MAX_CONTEXT_TOKENS = 1010000"

lemmas qwen_defs =
  QWEN_HIDDEN_SIZE_def QWEN_HEAD_DIM_def QWEN_Q_HEADS_def QWEN_KV_HEADS_def QWEN_LAYERS_def
  QWEN_EXPERTS_def QWEN_EXPERT_INTERMEDIATE_def QWEN_VOCAB_SIZE_def BF16_BYTES_def

definition qwen_logical_kv_bytes_per_token :: "int \<Rightarrow> exn + int" where
  "qwen_logical_kv_bytes_per_token element_bytes =
     (if element_bytes \<le> 0 then Inl (ValueError ''element_bytes must be a positive integer'')
      else Inr (2 * QWEN_LAYERS * QWEN_KV_HEADS * QWEN_HEAD_DIM * element_bytes))"

definition qwen_model_weight_bytes_per_rank :: "int \<Rightarrow> int \<Rightarrow> exn + int" where
  "qwen_model_weight_bytes_per_rank tp_size element_bytes =
     (if tp_size \<notin> {1, 4, 8} then Inl (ValueError ''tp_size must be one of [1, 4, 8]'')
      else if element_bytes \<le> 0
      then Inl (ValueError ''element_bytes must be a positive integer'')
      else
        let q_dim = (QWEN_Q_HEADS div tp_size) * QWEN_HEAD_DIM;
            kv_dim = max 1 \<lceil>fdiv (of_int QWEN_KV_HEADS) (of_int tp_size)\<rceil> * QWEN_HEAD_DIM;
            embedding = (QWEN_VOCAB_SIZE div tp_size) * QWEN_HIDDEN_SIZE * element_bytes;
            norm = QWEN_HIDDEN_SIZE * element_bytes;
            qk_norm = 2 * QWEN_HEAD_DIM * element_bytes;
            qkv = QWEN_HIDDEN_SIZE * (q_dim + 2 * kv_dim) * element_bytes;
            o_proj = q_dim * QWEN_HIDDEN_SIZE * element_bytes;
            router = QWEN_HIDDEN_SIZE * QWEN_EXPERTS * element_bytes;
            experts = (QWEN_EXPERTS div tp_size) * 3 * QWEN_HIDDEN_SIZE
              * QWEN_EXPERT_INTERMEDIATE * element_bytes;
            block = 2 * norm + qk_norm + qkv + o_proj + router + experts;
            lm_head = embedding
        in Inr (embedding + QWEN_LAYERS * block + norm + lm_head))"

section \<open>Hardware\<close>

record hardware =
  gpu_count :: int
  prefill_gpu_count :: int
  decode_gpu_count :: int
  tp_size :: int
  hbm_capacity_bytes_per_gpu :: int
  hbm_bandwidth_gbps_per_gpu :: rat
  gpu_peak_tflops_per_gpu :: rat
  runtime_reserve_bytes_per_gpu :: int
  nvlink_bandwidth_gbps_per_gpu :: rat
  collective_fixed_latency_us :: rat
  pd_peer_fixed_latency_us :: rat
  pcie_bandwidth_gbps_per_gpu :: rat
  pcie_root_count :: int
  gpus_per_pcie_root :: int
  pcie_root_bandwidth_gbps :: rat
  cpu_memory_capacity_bytes :: int
  cpu_memory_bandwidth_gbps :: rat
  cpu_transfer_latency_us :: rat
  ssd_capacity_bytes_per_device :: int
  ssd_device_count :: int
  ssd_read_bandwidth_gbps :: rat
  ssd_write_bandwidth_gbps :: rat
  ssd_read_latency_us :: rat
  ssd_write_latency_us :: rat
  block_size_tokens :: int

definition default_hardware :: hardware where
  "default_hardware =
     \<lparr>gpu_count = 8, prefill_gpu_count = 4, decode_gpu_count = 4, tp_size = 4,
      hbm_capacity_bytes_per_gpu = 80000000000,
      hbm_bandwidth_gbps_per_gpu = 3350, gpu_peak_tflops_per_gpu = 1979 / 2,
      runtime_reserve_bytes_per_gpu = 19893012480,
      nvlink_bandwidth_gbps_per_gpu = 450, collective_fixed_latency_us = 3,
      pd_peer_fixed_latency_us = 1, pcie_bandwidth_gbps_per_gpu = 50,
      pcie_root_count = 2, gpus_per_pcie_root = 4, pcie_root_bandwidth_gbps = 200,
      cpu_memory_capacity_bytes = 512000000000, cpu_memory_bandwidth_gbps = 200,
      cpu_transfer_latency_us = 5,
      ssd_capacity_bytes_per_device = 3840000000000, ssd_device_count = 8,
      ssd_read_bandwidth_gbps = b64 (552 / 10), ssd_write_bandwidth_gbps = b64 (336 / 10),
      ssd_read_latency_us = 20, ssd_write_latency_us = 20, block_size_tokens = 16\<rparr>"

definition model_weight_bytes_per_rank :: "hardware \<Rightarrow> exn + int" where
  "model_weight_bytes_per_rank hw = qwen_model_weight_bytes_per_rank (tp_size hw) 2"

definition usable_hbm_bytes_per_rank :: "hardware \<Rightarrow> exn + int" where
  "usable_hbm_bytes_per_rank hw =
     ebind (model_weight_bytes_per_rank hw)
       (\<lambda>w. Inr (hbm_capacity_bytes_per_gpu hw - w - runtime_reserve_bytes_per_gpu hw))"

definition H100_DENSE_BF16_FLOPS_PER_SECOND :: rat where
  "H100_DENSE_BF16_FLOPS_PER_SECOND = 989500000000000"

definition H100_HBM_BYTES_PER_SECOND :: rat where
  "H100_HBM_BYTES_PER_SECOND = 3350000000000"

text \<open>The range checks of \<^verbatim>\<open>validate\<close>, in the order of its loops.\<close>

definition hardware_range_checks :: "hardware \<Rightarrow> (bool \<times> exn) list" where
  "hardware_range_checks hw =
     [(gpu_count hw \<le> 0, ValueError ''hardware.gpu_count must be a positive integer''),
      (prefill_gpu_count hw \<le> 0, ValueError ''hardware.prefill_gpu_count must be a positive integer''),
      (decode_gpu_count hw \<le> 0, ValueError ''hardware.decode_gpu_count must be a positive integer''),
      (tp_size hw \<le> 0, ValueError ''hardware.tp_size must be a positive integer''),
      (hbm_capacity_bytes_per_gpu hw \<le> 0, ValueError ''hardware.hbm_capacity_bytes_per_gpu must be a positive integer''),
      (runtime_reserve_bytes_per_gpu hw \<le> 0,
        ValueError ''hardware.runtime_reserve_bytes_per_gpu must be a positive integer''),
      (pcie_root_count hw \<le> 0, ValueError ''hardware.pcie_root_count must be a positive integer''),
      (gpus_per_pcie_root hw \<le> 0, ValueError ''hardware.gpus_per_pcie_root must be a positive integer''),
      (cpu_memory_capacity_bytes hw \<le> 0, ValueError ''hardware.cpu_memory_capacity_bytes must be a positive integer''),
      (ssd_capacity_bytes_per_device hw \<le> 0,
        ValueError ''hardware.ssd_capacity_bytes_per_device must be a positive integer''),
      (ssd_device_count hw \<le> 0, ValueError ''hardware.ssd_device_count must be a positive integer''),
      (block_size_tokens hw \<le> 0, ValueError ''hardware.block_size_tokens must be a positive integer''),
      (hbm_bandwidth_gbps_per_gpu hw \<le> 0, ValueError ''hardware.hbm_bandwidth_gbps_per_gpu must be positive and finite''),
      (gpu_peak_tflops_per_gpu hw \<le> 0, ValueError ''hardware.gpu_peak_tflops_per_gpu must be positive and finite''),
      (nvlink_bandwidth_gbps_per_gpu hw \<le> 0,
        ValueError ''hardware.nvlink_bandwidth_gbps_per_gpu must be positive and finite''),
      (pcie_bandwidth_gbps_per_gpu hw \<le> 0, ValueError ''hardware.pcie_bandwidth_gbps_per_gpu must be positive and finite''),
      (pcie_root_bandwidth_gbps hw \<le> 0, ValueError ''hardware.pcie_root_bandwidth_gbps must be positive and finite''),
      (cpu_memory_bandwidth_gbps hw \<le> 0, ValueError ''hardware.cpu_memory_bandwidth_gbps must be positive and finite''),
      (ssd_read_bandwidth_gbps hw \<le> 0, ValueError ''hardware.ssd_read_bandwidth_gbps must be positive and finite''),
      (ssd_write_bandwidth_gbps hw \<le> 0, ValueError ''hardware.ssd_write_bandwidth_gbps must be positive and finite''),
      (collective_fixed_latency_us hw < 0, ValueError ''hardware.collective_fixed_latency_us must be non-negative and finite''),
      (pd_peer_fixed_latency_us hw < 0, ValueError ''hardware.pd_peer_fixed_latency_us must be non-negative and finite''),
      (cpu_transfer_latency_us hw < 0, ValueError ''hardware.cpu_transfer_latency_us must be non-negative and finite''),
      (ssd_read_latency_us hw < 0, ValueError ''hardware.ssd_read_latency_us must be non-negative and finite''),
      (ssd_write_latency_us hw < 0, ValueError ''hardware.ssd_write_latency_us must be non-negative and finite'')]"

definition hardware_topology_checks :: "hardware \<Rightarrow> (bool \<times> exn) list" where
  "hardware_topology_checks hw =
     [(prefill_gpu_count hw + decode_gpu_count hw \<noteq> gpu_count hw,
        ValueError ''P4D4 prefill and decode partitions must use every GPU''),
      (prefill_gpu_count hw \<noteq> tp_size hw \<or> decode_gpu_count hw \<noteq> tp_size hw,
        ValueError ''the P4D4 model requires one TP4 P and one TP4 D group''),
      (pcie_root_count hw * gpus_per_pcie_root hw \<noteq> gpu_count hw,
        ValueError ''PCIe roots must cover every GPU exactly once'')]"

definition validate_hardware :: "hardware \<Rightarrow> exn option" where
  "validate_hardware hw =
     (case first_error (hardware_range_checks hw @ hardware_topology_checks hw) of
        Some e \<Rightarrow> Some e
      | None \<Rightarrow>
        (case usable_hbm_bytes_per_rank hw of
           Inl e \<Rightarrow> Some e
         | Inr usable \<Rightarrow>
             first_error
               [(usable \<le> 0, ValueError ''model weights and workspace do not fit GPU HBM''),
                (\<not> isclose (gpu_peak_tflops_per_gpu hw)
                     (fdiv H100_DENSE_BF16_FLOPS_PER_SECOND e12),
                  ValueError ''GPU compute must match the pinned H100 calibration''),
                (\<not> isclose (hbm_bandwidth_gbps_per_gpu hw) (fdiv H100_HBM_BYTES_PER_SECOND e9),
                  ValueError ''GPU HBM bandwidth must match the pinned H100 calibration'')]))"

definition kv_bytes_per_token_per_rank :: "hardware \<Rightarrow> exn + int" where
  "kv_bytes_per_token_per_rank hw =
     ebind (qwen_logical_kv_bytes_per_token 2) (\<lambda>logical.
       if logical mod tp_size hw \<noteq> 0
       then Inl (ValueError ''logical KV does not divide TP ranks exactly'')
       else Inr (logical div tp_size hw))"

definition kv_capacity_bytes_per_rank :: "hardware \<Rightarrow> int \<Rightarrow> exn + int" where
  "kv_capacity_bytes_per_rank hw token_count =
     (if token_count < 0
      then Inl (ValueError ''KV token count must be a non-negative integer'')
      else
        let blocks = (token_count + block_size_tokens hw - 1) div block_size_tokens hw
        in ebind (kv_bytes_per_token_per_rank hw)
             (\<lambda>per_token. Inr (blocks * block_size_tokens hw * per_token)))"

definition ssd_capacity_bytes :: "hardware \<Rightarrow> int" where
  "ssd_capacity_bytes hw = ssd_capacity_bytes_per_device hw * ssd_device_count hw"

section \<open>Batch shapes\<close>

record batch_shape =
  total_tokens :: int
  prefill_q :: "int list"
  prefill_hbf_k :: "int list"
  prefill_lpddr_k :: "int list"
  decode_hbf_k :: "int list"
  decode_lpddr_k :: "int list"
  lm_head_sequences :: int

definition num_decode :: "batch_shape \<Rightarrow> int" where
  "num_decode sh = int (length (decode_hbf_k sh))"

definition real_query_tokens :: "batch_shape \<Rightarrow> int" where
  "real_query_tokens sh = sum_list (prefill_q sh) + num_decode sh"

definition padding_tokens :: "batch_shape \<Rightarrow> int" where
  "padding_tokens sh = total_tokens sh - real_query_tokens sh"

definition decode_k :: "batch_shape \<Rightarrow> int list" where
  "decode_k sh = map2 (+) (decode_hbf_k sh) (decode_lpddr_k sh)"

fun prefill_error :: "int list \<Rightarrow> int list \<Rightarrow> int list \<Rightarrow> exn option" where
  "prefill_error (q # qs) (h # hs) (l # ls) =
     (if q \<le> 0 \<or> q > 131072 then Some (ValueError ''prefill q must be in the range 1..131072'')
      else if h < 0 \<or> l < 0 then Some (ValueError ''prefill K lengths must be non-negative'')
      else if q + h + l > MAX_CONTEXT_TOKENS
      then Some (ValueError ''prefill context exceeds 1,010,000 tokens'')
      else prefill_error qs hs ls)"
| "prefill_error _ _ _ = None"

fun decode_error :: "int list \<Rightarrow> int list \<Rightarrow> exn option" where
  "decode_error (h # hs) (l # ls) =
     (if h < 0 \<or> l < 0 then Some (ValueError ''decode K lengths must be non-negative'')
      else if \<not> (1 \<le> h + l \<and> h + l \<le> MAX_CONTEXT_TOKENS)
      then Some (ValueError ''decode total K must be in 1..1,010,000'')
      else decode_error hs ls)"
| "decode_error _ _ = None"

definition validate_shape :: "batch_shape \<Rightarrow> exn option" where
  "validate_shape sh =
     (if total_tokens sh \<le> 0 then Some (ValueError ''batch total_tokens must be positive'')
      else if lm_head_sequences sh \<le> 0
      then Some (ValueError ''lm_head_sequences must be positive'')
      else if padding_tokens sh < 0
      then Some (ValueError ''batch total_tokens is smaller than real query tokens'')
      else if \<not> (length (prefill_q sh) = length (prefill_hbf_k sh)
                \<and> length (prefill_hbf_k sh) = length (prefill_lpddr_k sh))
      then Some (ValueError ''prefill q/HBF-K/LPDDR-K vectors must align'')
      else if length (decode_hbf_k sh) \<noteq> length (decode_lpddr_k sh)
      then Some (ValueError ''decode HBF-K/LPDDR-K vectors must align'')
      else if prefill_q sh = [] \<and> decode_hbf_k sh = []
      then Some (ValueError ''batch must contain prefill or decode work'')
      else case prefill_error (prefill_q sh) (prefill_hbf_k sh) (prefill_lpddr_k sh) of
        Some e \<Rightarrow> Some e
      | None \<Rightarrow>
        (case decode_error (decode_hbf_k sh) (decode_lpddr_k sh) of
           Some e \<Rightarrow> Some e
         | None \<Rightarrow>
             if num_decode sh > 128
             then Some (ValueError ''decode batch exceeds calibrated support (128)'')
             else None))"

record online_shape =
  on_total_tokens :: int
  on_prefill_q :: "int list"
  on_prefill_k :: "int list"
  on_decode_k :: "int list"
  on_lm_head_sequences :: int

definition online_shape_of :: "batch_shape \<Rightarrow> exn + online_shape" where
  "online_shape_of sh =
     (case validate_shape sh of
        Some e \<Rightarrow> Inl e
      | None \<Rightarrow> Inr
         \<lparr>on_total_tokens = total_tokens sh, on_prefill_q = prefill_q sh,
          on_prefill_k = map2 (+) (prefill_hbf_k sh) (prefill_lpddr_k sh),
          on_decode_k = decode_k sh, on_lm_head_sequences = lm_head_sequences sh\<rparr>)"

section \<open>Batch latency\<close>

text \<open>
  The kernel calibration is fitted from profile CSV files; what the code reads of it is, for
  one batch, the prologue, per-layer and epilogue compute times, and the time of the router
  kernel for a number of tokens.
\<close>

record provider =
  pv_prologue_ns :: "online_shape \<Rightarrow> int"
  pv_layer_ns :: "online_shape \<Rightarrow> int"
  pv_epilogue_ns :: "online_shape \<Rightarrow> int"
  pv_router_seconds :: "int \<Rightarrow> rat"

definition provider_ok :: "provider \<Rightarrow> bool" where
  "provider_ok pv \<longleftrightarrow>
     (\<forall>sh. 0 \<le> pv_prologue_ns pv sh \<and> 0 \<le> pv_layer_ns pv sh \<and> 0 \<le> pv_epilogue_ns pv sh) \<and>
     (\<forall>n. 0 \<le> pv_router_seconds pv n)"

text \<open>\<^verbatim>\<open>batch_kernel_critical_path_ns\<close>: the total of the provider's phases.\<close>

definition batch_kernel_critical_path_ns :: "provider \<Rightarrow> online_shape \<Rightarrow> int" where
  "batch_kernel_critical_path_ns pv sh =
     pv_prologue_ns pv sh + QWEN_LAYERS * pv_layer_ns pv sh + pv_epilogue_ns pv sh"

record gpu_batch_latency =
  bl_total_ns :: int
  bl_comp_ns :: int
  bl_provider_comp_ns :: int
  bl_router_ns :: int
  bl_collective_ns :: int
  bl_tp_allreduce_ns :: int
  bl_ep_allgather_ns :: int
  bl_ep_reduce_scatter_ns :: int
  bl_collective_bytes_per_rank :: int

record batch_phases =
  ph_prologue_ns :: int
  ph_layer_ns :: int
  ph_layer_count :: int
  ph_epilogue_ns :: int
  ph_total_ns :: int

definition layer_start_offset_ns :: "batch_phases \<Rightarrow> int \<Rightarrow> exn + int" where
  "layer_start_offset_ns ph layer_index =
     (if \<not> (0 \<le> layer_index \<and> layer_index < ph_layer_count ph)
      then Inl (ValueError ''layer_index must identify a modeled transformer layer'')
      else Inr (ph_prologue_ns ph + layer_index * ph_layer_ns ph))"

text \<open>A rank multiplier is a Python int or a Python float; the product with the payload follows.\<close>

datatype pynum = PyInt int | PyFloat rat

fun times_payload :: "pynum \<Rightarrow> int \<Rightarrow> rat" where
  "times_payload (PyInt m) payload = fint (m * payload)"
| "times_payload (PyFloat m) payload = fmul m (fint payload)"

fun pynum_le_0 :: "pynum \<Rightarrow> bool" where
  "pynum_le_0 (PyInt m) = (m \<le> 0)"
| "pynum_le_0 (PyFloat m) = (m \<le> 0)"

definition collective_ns :: "hardware \<Rightarrow> int \<Rightarrow> pynum \<Rightarrow> int" where
  "collective_ns hw payload_bytes rank_multiplier =
     (if payload_bytes \<le> 0 \<or> pynum_le_0 rank_multiplier then 0
      else ceil_ns
        (fadd (fmul (collective_fixed_latency_us hw) e_minus6)
              (fdiv (times_payload rank_multiplier payload_bytes)
                    (fmul (nvlink_bandwidth_gbps_per_gpu hw) e9))))"

definition router_ns :: "provider \<Rightarrow> int \<Rightarrow> int" where
  "router_ns pv tokens = ceil_ns (pv_router_seconds pv tokens)"

definition batch_latency :: "hardware \<Rightarrow> provider \<Rightarrow> batch_shape \<Rightarrow> exn + gpu_batch_latency" where
  "batch_latency hw pv sh =
     ebind (online_shape_of sh) (\<lambda>osh.
       let provider_comp = batch_kernel_critical_path_ns pv osh;
           router = QWEN_LAYERS * router_ns pv (total_tokens sh);
           comp = provider_comp + router;
           tp = tp_size hw;
           hidden_payload = total_tokens sh * QWEN_HIDDEN_SIZE * BF16_BYTES;
           dispatch_local_chunk =
             max 1 (total_tokens sh div tp) * (QWEN_HIDDEN_SIZE + QWEN_EXPERTS) * BF16_BYTES;
           allreduce_mult = fdiv (fmul 2 (fint (tp - 1))) (fint tp);
           scatter_mult = fdiv (fint (tp - 1)) (fint tp);
           allreduce = collective_ns hw hidden_payload (PyFloat allreduce_mult);
           allgather = collective_ns hw dispatch_local_chunk (PyInt (tp - 1));
           reduce_scatter = collective_ns hw hidden_payload (PyFloat scatter_mult);
           tp_allreduce = QWEN_LAYERS * allreduce;
           ep_allgather = QWEN_LAYERS * allgather;
           ep_reduce_scatter = QWEN_LAYERS * reduce_scatter;
           collective = tp_allreduce + ep_allgather + ep_reduce_scatter;
           collective_bytes =
             \<lceil>fmul (fint QWEN_LAYERS)
               (fadd (fadd (fmul allreduce_mult (fint hidden_payload))
                           (fint ((tp - 1) * dispatch_local_chunk)))
                     (fmul scatter_mult (fint hidden_payload)))\<rceil>
       in Inr \<lparr>bl_total_ns = comp + collective, bl_comp_ns = comp,
               bl_provider_comp_ns = provider_comp, bl_router_ns = router,
               bl_collective_ns = collective, bl_tp_allreduce_ns = tp_allreduce,
               bl_ep_allgather_ns = ep_allgather, bl_ep_reduce_scatter_ns = ep_reduce_scatter,
               bl_collective_bytes_per_rank = collective_bytes\<rparr>)"

definition layer_scaled_fields :: "gpu_batch_latency \<Rightarrow> int list" where
  "layer_scaled_fields lat =
     [bl_router_ns lat, bl_tp_allreduce_ns lat, bl_ep_allgather_ns lat, bl_ep_reduce_scatter_ns lat]"

definition assemble_phases :: "provider \<Rightarrow> online_shape \<Rightarrow> gpu_batch_latency \<Rightarrow> batch_phases" where
  "assemble_phases pv osh lat =
     \<lparr>ph_prologue_ns = pv_prologue_ns pv osh,
      ph_layer_ns = pv_layer_ns pv osh
        + sum_list (map (\<lambda>v. v div QWEN_LAYERS) (layer_scaled_fields lat)),
      ph_layer_count = QWEN_LAYERS, ph_epilogue_ns = pv_epilogue_ns pv osh,
      ph_total_ns = bl_total_ns lat\<rparr>"

definition batch_phase_latency :: "hardware \<Rightarrow> provider \<Rightarrow> batch_shape \<Rightarrow> exn + batch_phases" where
  "batch_phase_latency hw pv sh =
     ebind (batch_latency hw pv sh) (\<lambda>lat.
     ebind (online_shape_of sh) (\<lambda>osh.
       let phases = assemble_phases pv osh lat
       in if batch_kernel_critical_path_ns pv osh \<noteq> bl_provider_comp_ns lat
          then Inl (AssertionError ''provider phase decomposition changed aggregate compute'')
          else if list_ex (\<lambda>v. v mod QWEN_LAYERS \<noteq> 0) (layer_scaled_fields lat)
          then Inl (AssertionError ''per-layer GPU timing no longer divides exactly'')
          else if ph_prologue_ns phases + ph_layer_count phases * ph_layer_ns phases
                  + ph_epilogue_ns phases \<noteq> ph_total_ns phases
          then Inl (AssertionError ''GPU phase decomposition changed aggregate latency'')
          else Inr phases))"

section \<open>P-to-D handoff\<close>

record handoff_timing =
  hl_token_count :: int
  hl_bytes_per_rank :: int
  hl_aggregate_bytes :: int
  hl_latency_ns :: int

definition handoff_latency :: "hardware \<Rightarrow> int \<Rightarrow> exn + handoff_timing" where
  "handoff_latency hw token_count =
     (if token_count < 0
      then Inl (ValueError ''handoff token_count must be a non-negative integer'')
      else ebind (kv_bytes_per_token_per_rank hw) (\<lambda>per_token.
        let bytes_per_rank = token_count * per_token;
            latency =
              (if bytes_per_rank = 0 then 0
               else ceil_ns
                 (fadd (fmul (pd_peer_fixed_latency_us hw) e_minus6)
                       (fdiv (fint bytes_per_rank)
                             (fmul (nvlink_bandwidth_gbps_per_gpu hw) e9))))
        in Inr \<lparr>hl_token_count = token_count, hl_bytes_per_rank = bytes_per_rank,
                hl_aggregate_bytes = bytes_per_rank * tp_size hw, hl_latency_ns = latency\<rparr>))"

section \<open>Facts about valid hardware\<close>

definition hw_ok :: "hardware \<Rightarrow> bool" where
  "hw_ok hw \<longleftrightarrow> validate_hardware hw = None"

text \<open>The node the code uses by default is valid.\<close>

lemma default_calibration:
  "fdiv H100_DENSE_BF16_FLOPS_PER_SECOND e12 = 1979 / 2"
  "fdiv H100_HBM_BYTES_PER_SECOND e9 = 3350"
  using b64_exact [of 1979 "- 1"] b64_exact [of 3350 0]
  by (simp_all add: fdiv_def e9_def e12_def H100_DENSE_BF16_FLOPS_PER_SECOND_def
      H100_HBM_BYTES_PER_SECOND_def)

lemma default_hw_ok: "hw_ok default_hardware"
proof -
  have "first_error (hardware_range_checks default_hardware @ hardware_topology_checks default_hardware)
      = None"
    by (simp add: hardware_range_checks_def hardware_topology_checks_def default_hardware_def
        b64_pos not_le)
  moreover have "\<exists>w. usable_hbm_bytes_per_rank default_hardware = Inr w \<and> 0 < w"
    using b64_exact [of 1 0]
    by (simp add: usable_hbm_bytes_per_rank_def model_weight_bytes_per_rank_def default_hardware_def
        qwen_model_weight_bytes_per_rank_def qwen_defs fdiv_def Let_def)
  ultimately show ?thesis
    using default_calibration
    by (auto simp: hw_ok_def validate_hardware_def isclose_def default_hardware_def)
qed

lemma hw_ok_facts:
  assumes "hw_ok hw"
  shows "0 < tp_size hw" "0 < block_size_tokens hw" "tp_size hw \<in> {1, 4, 8}"
    "prefill_gpu_count hw = tp_size hw" "decode_gpu_count hw = tp_size hw"
    "0 < nvlink_bandwidth_gbps_per_gpu hw" "0 \<le> pd_peer_fixed_latency_us hw"
    "0 \<le> collective_fixed_latency_us hw" "0 < pcie_bandwidth_gbps_per_gpu hw"
    "0 < pcie_root_bandwidth_gbps hw" "0 < cpu_memory_bandwidth_gbps hw"
    "0 \<le> cpu_transfer_latency_us hw" "0 < ssd_read_bandwidth_gbps hw"
    "0 < ssd_write_bandwidth_gbps hw" "0 \<le> ssd_read_latency_us hw"
    "0 \<le> ssd_write_latency_us hw" "0 < cpu_memory_capacity_bytes hw"
    "0 < ssd_capacity_bytes hw"
proof -
  have f: "first_error (hardware_range_checks hw @ hardware_topology_checks hw) = None"
    using assms by (auto simp: hw_ok_def validate_hardware_def split: option.splits)
  then have l: "list_all (\<lambda>c. \<not> fst c) (hardware_range_checks hw @ hardware_topology_checks hw)"
    by (simp add: first_error_None)
  show "0 < tp_size hw" "0 < block_size_tokens hw"
    "prefill_gpu_count hw = tp_size hw" "decode_gpu_count hw = tp_size hw"
    "0 < nvlink_bandwidth_gbps_per_gpu hw" "0 \<le> pd_peer_fixed_latency_us hw"
    "0 \<le> collective_fixed_latency_us hw" "0 < pcie_bandwidth_gbps_per_gpu hw"
    "0 < pcie_root_bandwidth_gbps hw" "0 < cpu_memory_bandwidth_gbps hw"
    "0 \<le> cpu_transfer_latency_us hw" "0 < ssd_read_bandwidth_gbps hw"
    "0 < ssd_write_bandwidth_gbps hw" "0 \<le> ssd_read_latency_us hw"
    "0 \<le> ssd_write_latency_us hw" "0 < cpu_memory_capacity_bytes hw"
    "0 < ssd_capacity_bytes hw"
    using l by (simp_all add: hardware_range_checks_def hardware_topology_checks_def
        ssd_capacity_bytes_def)
  have "usable_hbm_bytes_per_rank hw \<noteq> Inl e" for e
    using assms f by (auto simp: hw_ok_def validate_hardware_def split: option.splits sum.splits)
  moreover have "\<exists>e. usable_hbm_bytes_per_rank hw = Inl e" if "tp_size hw \<notin> {1, 4, 8}"
    using that by (simp add: usable_hbm_bytes_per_rank_def model_weight_bytes_per_rank_def
        qwen_model_weight_bytes_per_rank_def)
  ultimately show "tp_size hw \<in> {1, 4, 8}" by blast
qed

lemma usable_hbm_pos:
  assumes "hw_ok hw"
  shows "\<exists>u. usable_hbm_bytes_per_rank hw = Inr u \<and> 0 < u"
proof -
  have f: "first_error (hardware_range_checks hw @ hardware_topology_checks hw) = None"
    using assms by (auto simp: hw_ok_def validate_hardware_def split: option.splits)
  with assms show ?thesis
    by (cases "usable_hbm_bytes_per_rank hw")
      (auto simp: hw_ok_def validate_hardware_def split: if_splits)
qed

text \<open>The exact KV bytes per token and rank: 98304 logical bytes over the TP group.\<close>

definition kv_per_token :: "hardware \<Rightarrow> int" where
  "kv_per_token hw = 98304 div tp_size hw"

lemma kv_bytes_per_token_ok:
  "hw_ok hw \<Longrightarrow> kv_bytes_per_token_per_rank hw = Inr (kv_per_token hw)"
  using hw_ok_facts(3) [of hw]
  by (auto simp: kv_bytes_per_token_per_rank_def qwen_logical_kv_bytes_per_token_def qwen_defs
      kv_per_token_def)

lemma kv_per_token_pos: "hw_ok hw \<Longrightarrow> 0 < kv_per_token hw"
  using hw_ok_facts(3) [of hw] by (auto simp: kv_per_token_def)

text \<open>\<open>kv_capacity\<close> is what \<open>kv_capacity_bytes_per_rank\<close> returns on valid hardware.\<close>

definition kv_capacity :: "hardware \<Rightarrow> int \<Rightarrow> int" where
  "kv_capacity hw n =
     ((n + block_size_tokens hw - 1) div block_size_tokens hw) * block_size_tokens hw
       * kv_per_token hw"

lemma kv_capacity_ok:
  "hw_ok hw \<Longrightarrow> 0 \<le> n \<Longrightarrow> kv_capacity_bytes_per_rank hw n = Inr (kv_capacity hw n)"
  by (simp add: kv_capacity_bytes_per_rank_def kv_bytes_per_token_ok kv_capacity_def Let_def)

lemma kv_capacity_mono: "hw_ok hw \<Longrightarrow> m \<le> n \<Longrightarrow> kv_capacity hw m \<le> kv_capacity hw n"
  using hw_ok_facts(2) [of hw] kv_per_token_pos [of hw]
  by (simp add: kv_capacity_def mult_right_mono zdiv_mono1)

lemma kv_capacity_bounds:
  assumes "hw_ok hw" and "0 \<le> n"
  shows "n * kv_per_token hw \<le> kv_capacity hw n"
    and "kv_capacity hw n < (n + block_size_tokens hw) * kv_per_token hw"
proof -
  let ?b = "block_size_tokens hw"
  let ?m = "(n + ?b - 1) div ?b * ?b"
  have b: "0 < ?b" by (rule hw_ok_facts(2) [OF assms(1)])
  have "?m = n + ?b - 1 - (n + ?b - 1) mod ?b" by (simp add: minus_mod_eq_div_mult)
  moreover have "0 \<le> (n + ?b - 1) mod ?b" "(n + ?b - 1) mod ?b < ?b" using b by simp_all
  ultimately have "n \<le> ?m" "?m < n + ?b" by linarith+
  with kv_per_token_pos [OF assms(1)]
  show "n * kv_per_token hw \<le> kv_capacity hw n"
    and "kv_capacity hw n < (n + ?b) * kv_per_token hw"
    by (simp_all add: kv_capacity_def)
qed

lemma kv_capacity_pos: "hw_ok hw \<Longrightarrow> 0 < n \<Longrightarrow> 0 < kv_capacity hw n"
  using kv_capacity_bounds(1) [of hw n] kv_per_token_pos [of hw]
  by (meson less_le_trans less_imp_le mult_pos_pos)

lemma kv_capacity_nonneg: "hw_ok hw \<Longrightarrow> 0 \<le> n \<Longrightarrow> 0 \<le> kv_capacity hw n"
  using kv_capacity_bounds(1) [of hw n] kv_per_token_pos [of hw]
  by (meson less_imp_le mult_nonneg_nonneg order_trans)

lemma kv_capacity_0: "hw_ok hw \<Longrightarrow> kv_capacity hw 0 = 0"
  using hw_ok_facts(2) [of hw] by (simp add: kv_capacity_def)

lemma kv_capacity_default:
  "kv_capacity default_hardware n = ((n + 15) div 16) * 393216"
  by (simp add: kv_capacity_def kv_per_token_def default_hardware_def qwen_defs)

section \<open>Facts about latencies\<close>

lemma collective_ns_nonneg: "hw_ok hw \<Longrightarrow> 0 \<le> collective_ns hw p m"
  using hw_ok_facts(6,8) [of hw]
  by (cases m) (auto simp: collective_ns_def intro!: ceil_ns_nonneg float_intros)

lemma batch_latency_Inr:
  "batch_latency hw pv sh = Inr lat \<Longrightarrow>
     validate_shape sh = None \<and>
     bl_total_ns lat = bl_comp_ns lat + bl_collective_ns lat \<and>
     bl_comp_ns lat = bl_provider_comp_ns lat + bl_router_ns lat \<and>
     bl_collective_ns lat =
       bl_tp_allreduce_ns lat + bl_ep_allgather_ns lat + bl_ep_reduce_scatter_ns lat"
  by (auto simp: batch_latency_def online_shape_of_def ebind_Inr_iff Let_def split: option.splits)

lemma batch_latency_valid:
  "validate_shape sh = None \<Longrightarrow> \<exists>lat. batch_latency hw pv sh = Inr lat"
  by (auto simp: batch_latency_def online_shape_of_def Let_def)

lemma batch_latency_nonneg:
  assumes "hw_ok hw" and "provider_ok pv" and "batch_latency hw pv sh = Inr lat"
  shows "0 \<le> bl_total_ns lat"
  using assms(3) collective_ns_nonneg [OF assms(1)] assms(2)
  by (auto simp: batch_latency_def online_shape_of_def ebind_Inr_iff Let_def provider_ok_def
      batch_kernel_critical_path_ns_def router_ns_def qwen_defs
      intro!: add_nonneg_nonneg ceil_ns_nonneg split: option.splits)

text \<open>
  The layer decomposition never trips its own assertions: the three checks that guard it are
  consequences of how the aggregate latency is computed.
\<close>

lemma batch_phase_exact:
  assumes "validate_shape sh = None"
  shows "\<exists>lat ph. batch_latency hw pv sh = Inr lat \<and> batch_phase_latency hw pv sh = Inr ph \<and>
    ph_layer_count ph = QWEN_LAYERS \<and> ph_total_ns ph = bl_total_ns lat \<and>
    ph_prologue_ns ph + ph_layer_count ph * ph_layer_ns ph + ph_epilogue_ns ph = bl_total_ns lat"
proof -
  from assms obtain osh where osh: "online_shape_of sh = Inr osh" by (simp add: online_shape_of_def)
  obtain lat where lat: "batch_latency hw pv sh = Inr lat"
    using batch_latency_valid [OF assms] by blast
  have parts: "bl_provider_comp_ns lat = batch_kernel_critical_path_ns pv osh"
    "\<exists>r a g s. bl_router_ns lat = 48 * r \<and> bl_tp_allreduce_ns lat = 48 * a \<and>
       bl_ep_allgather_ns lat = 48 * g \<and> bl_ep_reduce_scatter_ns lat = 48 * s"
    using lat by (auto simp: batch_latency_def osh Let_def QWEN_LAYERS_def)
  then obtain r a g s where m: "bl_router_ns lat = 48 * r" "bl_tp_allreduce_ns lat = 48 * a"
    "bl_ep_allgather_ns lat = 48 * g" "bl_ep_reduce_scatter_ns lat = 48 * s" by blast
  have "bl_total_ns lat = batch_kernel_critical_path_ns pv osh + 48 * r + (48 * a + 48 * g + 48 * s)"
    using batch_latency_Inr [OF lat] parts(1) m by simp
  then show ?thesis
    using lat parts(1) m
    by (auto simp: batch_phase_latency_def osh Let_def QWEN_LAYERS_def assemble_phases_def
        layer_scaled_fields_def batch_kernel_critical_path_ns_def algebra_simps)
qed

lemma batch_phase_nonneg:
  assumes "hw_ok hw" and "provider_ok pv" and "batch_phase_latency hw pv sh = Inr ph"
  shows "0 \<le> ph_layer_ns ph" and "0 \<le> ph_prologue_ns ph"
proof -
  from assms(3) obtain lat osh where lat: "batch_latency hw pv sh = Inr lat"
    and osh: "online_shape_of sh = Inr osh" and ph: "ph = assemble_phases pv osh lat"
    unfolding batch_phase_latency_def ebind_Inr_iff Let_def by (metis sum.distinct(1) sum.inject(2))
  have "0 \<le> bl_router_ns lat" "0 \<le> bl_tp_allreduce_ns lat" "0 \<le> bl_ep_allgather_ns lat"
    "0 \<le> bl_ep_reduce_scatter_ns lat"
    using lat collective_ns_nonneg [OF assms(1)] assms(2)
    by (auto simp: batch_latency_def osh Let_def QWEN_LAYERS_def router_ns_def provider_ok_def
        intro!: ceil_ns_nonneg)
  then have "0 \<le> bl_router_ns lat div 48" "0 \<le> bl_tp_allreduce_ns lat div 48"
    "0 \<le> bl_ep_allgather_ns lat div 48" "0 \<le> bl_ep_reduce_scatter_ns lat div 48"
    by (simp_all add: pos_imp_zdiv_nonneg_iff)
  moreover have "ph_layer_ns ph = pv_layer_ns pv osh + (bl_router_ns lat div 48 +
      (bl_tp_allreduce_ns lat div 48 + (bl_ep_allgather_ns lat div 48 +
        bl_ep_reduce_scatter_ns lat div 48)))"
    and p: "ph_prologue_ns ph = pv_prologue_ns pv osh"
    by (simp_all add: ph assemble_phases_def layer_scaled_fields_def QWEN_LAYERS_def)
  moreover have "0 \<le> pv_layer_ns pv osh" "0 \<le> pv_prologue_ns pv osh"
    using assms(2) by (simp_all add: provider_ok_def)
  ultimately show "0 \<le> ph_layer_ns ph" and "0 \<le> ph_prologue_ns ph" by simp_all
qed

definition handoff_seconds :: "hardware \<Rightarrow> int \<Rightarrow> rat" where
  "handoff_seconds hw bytes_per_rank =
     fadd (fmul (pd_peer_fixed_latency_us hw) e_minus6)
          (fdiv (fint bytes_per_rank) (fmul (nvlink_bandwidth_gbps_per_gpu hw) e9))"

lemma handoff_latency_ok:
  assumes "hw_ok hw" and "0 \<le> n"
  shows "handoff_latency hw n = Inr \<lparr>hl_token_count = n, hl_bytes_per_rank = n * kv_per_token hw,
    hl_aggregate_bytes = n * kv_per_token hw * tp_size hw,
    hl_latency_ns = (if n = 0 then 0 else ceil_ns (handoff_seconds hw (n * kv_per_token hw)))\<rparr>"
  using assms kv_per_token_pos [OF assms(1)]
  by (simp add: handoff_latency_def kv_bytes_per_token_ok Let_def handoff_seconds_def)

lemma handoff_seconds_mono:
  "hw_ok hw \<Longrightarrow> m \<le> n \<Longrightarrow> handoff_seconds hw m \<le> handoff_seconds hw n"
  using hw_ok_facts(6) [of hw] by (auto simp: handoff_seconds_def intro!: float_intros)

lemma handoff_seconds_pos: "hw_ok hw \<Longrightarrow> 0 < n \<Longrightarrow> 0 < handoff_seconds hw n"
  using hw_ok_facts(6,7) [of hw]
  by (auto simp: handoff_seconds_def fadd_def fdiv_def fint_def
      intro!: b64_pos add_nonneg_pos divide_pos_pos float_intros)

lemma handoff_latency_nonneg:
  assumes "hw_ok hw" and "handoff_latency hw n = Inr hl"
  shows "0 \<le> hl_latency_ns hl" and "0 \<le> hl_aggregate_bytes hl" and "0 \<le> hl_bytes_per_rank hl"
    and "hl_latency_ns hl = 0 \<longleftrightarrow> n = 0"
proof -
  have n: "0 \<le> n" using assms(2) by (auto simp: handoff_latency_def split: if_splits)
  have "0 < ceil_ns (handoff_seconds hw (n * kv_per_token hw))" if "n \<noteq> 0"
    using that n kv_per_token_pos [OF assms(1)]
    by (intro ceil_ns_pos handoff_seconds_pos [OF assms(1)]) simp
  with assms(2) n kv_per_token_pos [OF assms(1)] hw_ok_facts(1) [OF assms(1)]
  show "0 \<le> hl_latency_ns hl" and "0 \<le> hl_aggregate_bytes hl" and "0 \<le> hl_bytes_per_rank hl"
    and "hl_latency_ns hl = 0 \<longleftrightarrow> n = 0"
    by (auto simp: handoff_latency_ok [OF assms(1) n] split: if_splits)
qed

section \<open>Properties\<close>

definition unit_provider :: provider where
  "unit_provider = \<lparr>pv_prologue_ns = (\<lambda>sh. 100), pv_layer_ns = (\<lambda>sh. 10 + \<bar>on_total_tokens sh\<bar>),
     pv_epilogue_ns = (\<lambda>sh. 50), pv_router_seconds = (\<lambda>n. 0)\<rparr>"

lemma unit_provider_ok: "provider_ok unit_provider"
  by (simp add: provider_ok_def unit_provider_def)

text \<open>On a validated node the KV capacity of a token count is its size rounded up to whole
  blocks: never below the exact bytes, less than one block above them, a whole number of blocks,
  and a negative count is refused.\<close>
theorem kv_capacity_rounds_up_to_blocks:
  assumes "hw_ok hw"
  shows "case kv_capacity_bytes_per_rank hw n of
      Inl e \<Rightarrow> n < 0
    | Inr bytes \<Rightarrow> 0 \<le> n \<and> n * kv_per_token hw \<le> bytes \<and>
        bytes < (n + block_size_tokens hw) * kv_per_token hw \<and>
        block_size_tokens hw * kv_per_token hw dvd bytes"
proof (cases "n < 0")
  case True
  then show ?thesis by (simp add: kv_capacity_bytes_per_rank_def)
next
  case False
  then have n: "0 \<le> n" by simp
  have "block_size_tokens hw * kv_per_token hw dvd kv_capacity hw n"
    by (simp add: kv_capacity_def mult.assoc)
  with n kv_capacity_bounds [OF assms n] show ?thesis by (simp add: kv_capacity_ok [OF assms n])
qed

theorem kv_capacity_rounds_up_to_blocks_witness:
  "kv_capacity_bytes_per_rank default_hardware 17 = Inr 786432 \<and>
   17 * kv_per_token default_hardware \<le> 786432"
proof -
  have "kv_capacity_bytes_per_rank default_hardware 17 = Inr 786432"
    by (simp add: kv_capacity_ok [OF default_hw_ok] kv_capacity_default)
  with kv_capacity_rounds_up_to_blocks [OF default_hw_ok, of 17] show ?thesis by simp
qed

text \<open>C25: The per-layer decomposition of a batch is exact: for every valid shape \<open>batch_latency\<close> and
  \<open>batch_phase_latency\<close> both return, none of the three assertions of the latter fails, and the
  prologue, 48 equal layers and the epilogue add up to the aggregate latency, which itself is the
  sum of the compute, router and collective times.\<close>
theorem batch_phases_decompose_exactly:
  assumes "validate_shape sh = None"
  shows "\<exists>lat ph. batch_latency hw pv sh = Inr lat \<and> batch_phase_latency hw pv sh = Inr ph \<and>
    ph_layer_count ph = 48 \<and>
    ph_prologue_ns ph + 48 * ph_layer_ns ph + ph_epilogue_ns ph = bl_total_ns lat \<and>
    bl_total_ns lat = bl_provider_comp_ns lat + bl_router_ns lat + bl_tp_allreduce_ns lat
      + bl_ep_allgather_ns lat + bl_ep_reduce_scatter_ns lat"
  using batch_phase_exact [OF assms, of hw pv] batch_latency_Inr
  by (fastforce simp: QWEN_LAYERS_def)

definition two_prompts :: batch_shape where
  "two_prompts = \<lparr>total_tokens = 40, prefill_q = [32, 8], prefill_hbf_k = [0, 64],
     prefill_lpddr_k = [0, 0], decode_hbf_k = [], decode_lpddr_k = [], lm_head_sequences = 2\<rparr>"

theorem batch_phases_decompose_exactly_witness:
  "\<exists>lat ph. batch_latency default_hardware unit_provider two_prompts = Inr lat \<and>
     batch_phase_latency default_hardware unit_provider two_prompts = Inr ph \<and>
     ph_prologue_ns ph + 48 * ph_layer_ns ph + ph_epilogue_ns ph = bl_total_ns lat"
proof -
  have "validate_shape two_prompts = None"
    by (simp add: validate_shape_def two_prompts_def padding_tokens_def real_query_tokens_def
        num_decode_def MAX_CONTEXT_TOKENS_def)
  from batch_phases_decompose_exactly [OF this, of default_hardware unit_provider]
  show ?thesis by blast
qed

text \<open>C26: The handoff of more KV is never cheaper: the latency and the bytes of \<open>handoff_latency\<close> grow
  with the token count, despite the floating-point arithmetic, and the latency is zero exactly for
  no tokens.\<close>
theorem handoff_latency_monotone:
  assumes "hw_ok hw" and "0 \<le> m" and "m \<le> n"
  shows "\<exists>a b. handoff_latency hw m = Inr a \<and> handoff_latency hw n = Inr b \<and>
    hl_latency_ns a \<le> hl_latency_ns b \<and> hl_aggregate_bytes a \<le> hl_aggregate_bytes b \<and>
    0 \<le> hl_latency_ns a \<and> (hl_latency_ns a = 0 \<longleftrightarrow> m = 0)"
proof -
  have n: "0 \<le> n" using assms by simp
  obtain a where a: "handoff_latency hw m = Inr a" using handoff_latency_ok [OF assms(1,2)] by simp
  obtain b where b: "handoff_latency hw n = Inr b" using handoff_latency_ok [OF assms(1) n] by simp
  note pos = kv_per_token_pos [OF assms(1)] hw_ok_facts(1) [OF assms(1)]
  have bytes: "m * kv_per_token hw \<le> n * kv_per_token hw" using assms(3) pos by simp
  then have "hl_aggregate_bytes a \<le> hl_aggregate_bytes b"
    using a b pos by (auto simp: handoff_latency_ok [OF assms(1,2)] handoff_latency_ok [OF assms(1) n])
  moreover have "hl_latency_ns a \<le> hl_latency_ns b"
  proof (cases "m = 0")
    case True
    with handoff_latency_nonneg(1,4) [OF assms(1) a] handoff_latency_nonneg(1) [OF assms(1) b]
    show ?thesis by simp
  next
    case False
    with assms(2,3) have "n \<noteq> 0" by simp
    with False show ?thesis
      using a b ceil_ns_mono [OF handoff_seconds_mono [OF assms(1) bytes]]
      by (auto simp: handoff_latency_ok [OF assms(1,2)] handoff_latency_ok [OF assms(1) n])
  qed
  ultimately show ?thesis using a b handoff_latency_nonneg [OF assms(1) a] by blast
qed

theorem handoff_latency_monotone_witness:
  "\<exists>a b. handoff_latency default_hardware 100 = Inr a \<and> handoff_latency default_hardware 200 = Inr b \<and>
     hl_latency_ns a \<le> hl_latency_ns b \<and> hl_latency_ns a \<noteq> 0"
  using handoff_latency_monotone [OF default_hw_ok, of 100 200] by auto

text \<open>What \<open>validate\<close> guarantees: on every accepted node the two pools are one TP group each and
  cover the GPUs, the tensor-parallel size is one the model supports and divides the KV bytes of a
  token exactly, the weights leave room in HBM, and the pinned H100 calibration is matched up to
  the relative tolerance of the code's check.\<close>
theorem validate_hardware_guarantees:
  assumes "validate_hardware hw = None"
  shows "tp_size hw \<in> {1, 4, 8} \<and> prefill_gpu_count hw = tp_size hw \<and>
    decode_gpu_count hw = tp_size hw \<and> gpu_count hw = 2 * tp_size hw \<and>
    pcie_root_count hw * gpus_per_pcie_root hw = gpu_count hw \<and>
    (\<exists>per_token. kv_bytes_per_token_per_rank hw = Inr per_token \<and> per_token * tp_size hw = 98304) \<and>
    (\<exists>usable. usable_hbm_bytes_per_rank hw = Inr usable \<and> 0 < usable) \<and>
    isclose (hbm_bandwidth_gbps_per_gpu hw) 3350"
proof -
  have ok: "hw_ok hw" using assms by (simp add: hw_ok_def)
  have f: "first_error (hardware_range_checks hw @ hardware_topology_checks hw) = None"
    using assms by (auto simp: validate_hardware_def split: option.splits)
  then have "prefill_gpu_count hw + decode_gpu_count hw = gpu_count hw"
    and "pcie_root_count hw * gpus_per_pcie_root hw = gpu_count hw"
    by (simp_all add: first_error_None hardware_topology_checks_def)
  moreover have "kv_per_token hw * tp_size hw = 98304"
    using hw_ok_facts(3) [OF ok] by (auto simp: kv_per_token_def)
  moreover have "isclose (hbm_bandwidth_gbps_per_gpu hw) 3350"
    using assms f usable_hbm_pos [OF ok] default_calibration
    by (auto simp: validate_hardware_def split: if_splits)
  ultimately show ?thesis
    using hw_ok_facts(3-5) [OF ok] usable_hbm_pos [OF ok] kv_bytes_per_token_ok [OF ok] by simp
qed

theorem validate_hardware_guarantees_witness:
  "gpu_count default_hardware = 2 * tp_size default_hardware \<and>
   isclose (hbm_bandwidth_gbps_per_gpu default_hardware) 3350"
  using validate_hardware_guarantees [of default_hardware] default_hw_ok by (simp add: hw_ok_def)

end
