(* ===== verification/PD_HBM.thy ===== *)
theory PD_HBM
  imports PD_Latency
begin

text \<open>
  \<^verbatim>\<open>serving/core/gpu_pd_hbm.py\<close>: atomic per-rank HBM reservations of one finite P4D4 node.  A
  request reserves its prompt on the prefill (P) ranks and its final context on the decode
  (D) ranks as one transaction; the theory models every operation of \<^verbatim>\<open>AtomicPDHBM\<close>, its
  run-time self check \<^verbatim>\<open>assert_invariants\<close>, and proves the invariant that keeps that check
  from ever failing.
\<close>

section \<open>State\<close>

record admission =
  ad_admission_id :: int
  ad_session_id :: string
  ad_input_tokens :: int
  ad_output_tokens :: int
  ad_final_tokens :: int
  ad_p_bytes :: int
  ad_d_target :: int
  ad_d_held :: int
  ad_prior_d :: int
  ad_needs_d :: bool

record hbm_metrics =
  hm_admission_attempts :: int
  hm_admissions :: int
  hm_capacity_deferrals :: int
  hm_infeasible_requests :: int
  hm_cancellations :: int
  hm_p_releases :: int
  hm_d_source_releases :: int
  hm_terminal_d_releases :: int
  hm_peak_p :: int
  hm_peak_d :: int

record hbm =
  hb_hardware :: hardware
  hb_node_id :: int
  hb_p_capacity :: int
  hb_d_capacity :: int
  hb_metrics :: hbm_metrics
  hb_p_by_session :: "(string, int) dict"
  hb_d_by_session :: "(string, int) dict"
  hb_active_by_id :: "(int, admission) dict"
  hb_active_id_by_session :: "(string, int) dict"
  hb_next_admission_id :: int

definition new_hbm :: "hardware \<Rightarrow> int \<Rightarrow> int option \<Rightarrow> int option \<Rightarrow> exn + hbm" where
  "new_hbm hw node_id p_cap d_cap =
     (case validate_hardware hw of
        Some e \<Rightarrow> Inl e
      | None \<Rightarrow>
        if node_id < 0 then Inl (ValueError ''node_id must be a non-negative integer'')
        else ebind (usable_hbm_bytes_per_rank hw) (\<lambda>default.
          let p = (case p_cap of None \<Rightarrow> default | Some v \<Rightarrow> v);
              d = (case d_cap of None \<Rightarrow> default | Some v \<Rightarrow> v)
          in if p \<le> 0
             then Inl (ValueError ''p_capacity_bytes_per_rank must be a positive integer'')
             else if d \<le> 0
             then Inl (ValueError ''d_capacity_bytes_per_rank must be a positive integer'')
             else Inr \<lparr>hb_hardware = hw, hb_node_id = node_id, hb_p_capacity = p,
               hb_d_capacity = d, hb_metrics = \<lparr>hm_admission_attempts = 0, hm_admissions = 0,
                 hm_capacity_deferrals = 0, hm_infeasible_requests = 0, hm_cancellations = 0,
                 hm_p_releases = 0, hm_d_source_releases = 0, hm_terminal_d_releases = 0,
                 hm_peak_p = 0, hm_peak_d = 0\<rparr>,
               hb_p_by_session = [], hb_d_by_session = [], hb_active_by_id = [],
               hb_active_id_by_session = [], hb_next_admission_id = 1\<rparr>))"

definition p_used_bytes :: "hbm \<Rightarrow> int" where
  "p_used_bytes h = dsum (hb_p_by_session h)"

definition d_used_bytes :: "hbm \<Rightarrow> int" where
  "d_used_bytes h = dsum (hb_d_by_session h)"

definition p_bytes :: "hbm \<Rightarrow> string \<Rightarrow> int" where
  "p_bytes h s = dget_or (hb_p_by_session h) s 0"

definition d_bytes :: "hbm \<Rightarrow> string \<Rightarrow> int" where
  "d_bytes h s = dget_or (hb_d_by_session h) s 0"

definition active_admission :: "hbm \<Rightarrow> string \<Rightarrow> exn + admission option" where
  "active_admission h s =
     (case dget (hb_active_id_by_session h) s of
        None \<Rightarrow> Inr None
      | Some i \<Rightarrow>
          (case dget (hb_active_by_id h) i of None \<Rightarrow> Inl KeyError | Some a \<Rightarrow> Inr (Some a)))"

definition update_peaks :: "hbm \<Rightarrow> hbm" where
  "update_peaks h =
     h\<lparr>hb_metrics := (hb_metrics h)
        \<lparr>hm_peak_p := max (hm_peak_p (hb_metrics h)) (p_used_bytes h),
         hm_peak_d := max (hm_peak_d (hb_metrics h)) (d_used_bytes h)\<rparr>\<rparr>"

section \<open>The self check\<close>

fun check_active :: "hbm \<Rightarrow> (string \<times> int) list \<Rightarrow> exn option" where
  "check_active h [] = None"
| "check_active h ((s, i) # xs) =
     (case dget (hb_active_by_id h) i of
        None \<Rightarrow> Some KeyError
      | Some a \<Rightarrow>
          if ad_session_id a \<noteq> s
          then Some (AssertionError ''active HBM admission session mismatch'')
          else if p_bytes h s \<notin> {0, ad_p_bytes a}
          then Some (AssertionError ''active P reservation has unexpected size'')
          else if d_bytes h s \<notin> {ad_d_held a, ad_d_target a}
          then Some (AssertionError ''active D reservation has unexpected size'')
          else check_active h xs)"

definition hbm_check :: "hbm \<Rightarrow> exn option" where
  "hbm_check h =
     (if \<not> (0 \<le> p_used_bytes h \<and> p_used_bytes h \<le> hb_p_capacity h)
      then Some (AssertionError ''P HBM capacity invariant failed'')
      else if \<not> (0 \<le> d_used_bytes h \<and> d_used_bytes h \<le> hb_d_capacity h)
      then Some (AssertionError ''D HBM capacity invariant failed'')
      else if set (dvalues (hb_active_id_by_session h)) \<noteq> set (dkeys (hb_active_by_id h))
      then Some (AssertionError ''active HBM admission index mismatch'')
      else case check_active h (hb_active_id_by_session h) of
        Some e \<Rightarrow> Some e
      | None \<Rightarrow>
          if list_ex (\<lambda>v. v \<le> 0) (dvalues (hb_p_by_session h))
          then Some (AssertionError ''P reservations must be positive'')
          else if list_ex (\<lambda>v. v \<le> 0) (dvalues (hb_d_by_session h))
          then Some (AssertionError ''D reservations must be positive'')
          else None)"

text \<open>Every mutator ends with \<^verbatim>\<open>self.assert_invariants()\<close>.\<close>

definition hbm_return :: "'a \<Rightarrow> hbm \<Rightarrow> ('a, hbm) outcome" where
  "hbm_return x h = (case hbm_check h of Some e \<Rightarrow> (Inl e, h) | None \<Rightarrow> (Inr x, h))"

section \<open>Operations\<close>

text \<open>The admission transaction after its capacity tests have passed.\<close>

definition commit_admission :: "admission \<Rightarrow> hbm \<Rightarrow> hbm" where
  "commit_admission a h =
     update_peaks
       (h\<lparr>hb_next_admission_id := hb_next_admission_id h + 1,
          hb_p_by_session := dput (ad_session_id a) (ad_p_bytes a) (hb_p_by_session h),
          hb_d_by_session :=
            (if ad_d_held a \<noteq> 0
             then dput (ad_session_id a) (ad_d_held a) (hb_d_by_session h)
             else dpop (ad_session_id a) (hb_d_by_session h)),
          hb_active_by_id := dput (ad_admission_id a) a (hb_active_by_id h),
          hb_active_id_by_session :=
            dput (ad_session_id a) (ad_admission_id a) (hb_active_id_by_session h),
          hb_metrics := (hb_metrics h)\<lparr>hm_admissions := hm_admissions (hb_metrics h) + 1\<rparr>\<rparr>)"

definition try_admit ::
  "hbm \<Rightarrow> string \<Rightarrow> int \<Rightarrow> int \<Rightarrow> bool \<Rightarrow> (admission option, hbm) outcome" where
  "try_admit h session_id input_tokens output_tokens needs_d =
     (let final_tokens = input_tokens + output_tokens - 1 in
      if session_id = [] then (Inl (ValueError ''session_id must be a non-empty string''), h)
      else if input_tokens \<le> 0
      then (Inl (ValueError ''input_tokens must be a positive integer''), h)
      else if output_tokens \<le> 0
      then (Inl (ValueError ''output_tokens must be a positive integer''), h)
      else if final_tokens > 1010000
      then (Inl (ValueError ''request output would exceed 1,010,000-token contract''), h)
      else if session_id \<in> set (dkeys (hb_active_id_by_session h))
      then (Inl (RuntimeError ''session already has an active admission''), h)
      else
        let h1 = h\<lparr>hb_metrics := (hb_metrics h)
              \<lparr>hm_admission_attempts := hm_admission_attempts (hb_metrics h) + 1\<rparr>\<rparr> in
        andthen (lift_err (kv_capacity_bytes_per_rank (hb_hardware h1) input_tokens) h1)
          (\<lambda>p_req h1.
        andthen (lift_err (if needs_d then kv_capacity_bytes_per_rank (hb_hardware h1) final_tokens
                           else Inr 0) h1) (\<lambda>d_target h1.
        let prior_d = d_bytes h1 session_id;
            d_held = max prior_d d_target in
        if p_req > hb_p_capacity h1 \<or> d_target > hb_d_capacity h1
        then (Inl (RuntimeError ''request is individually infeasible for P/D HBM''),
              h1\<lparr>hb_metrics := (hb_metrics h1)
                 \<lparr>hm_infeasible_requests := hm_infeasible_requests (hb_metrics h1) + 1\<rparr>\<rparr>)
        else if p_used_bytes h1 + p_req > hb_p_capacity h1
                \<or> d_used_bytes h1 - prior_d + d_held > hb_d_capacity h1
        then (Inr None,
              h1\<lparr>hb_metrics := (hb_metrics h1)
                 \<lparr>hm_capacity_deferrals := hm_capacity_deferrals (hb_metrics h1) + 1\<rparr>\<rparr>)
        else
          let a = \<lparr>ad_admission_id = hb_next_admission_id h1, ad_session_id = session_id,
                   ad_input_tokens = input_tokens, ad_output_tokens = output_tokens,
                   ad_final_tokens = final_tokens, ad_p_bytes = p_req, ad_d_target = d_target,
                   ad_d_held = d_held, ad_prior_d = prior_d, ad_needs_d = needs_d\<rparr>
          in hbm_return (Some a) (commit_admission a h1))))"

definition require_active :: "hbm \<Rightarrow> admission \<Rightarrow> exn + admission" where
  "require_active h a =
     (if dget (hb_active_by_id h) (ad_admission_id a) \<noteq> Some a
      then Inl (RuntimeError ''stale or inactive P/D HBM admission'') else Inr a)"

definition release_p :: "hbm \<Rightarrow> admission \<Rightarrow> (unit, hbm) outcome" where
  "release_p h a =
     andthen (lift_err (require_active h a) h) (\<lambda>active h.
       if p_bytes h (ad_session_id active) = 0 then (Inr (), h)
       else hbm_return ()
         (h\<lparr>hb_p_by_session := dpop (ad_session_id active) (hb_p_by_session h),
            hb_metrics := (hb_metrics h)\<lparr>hm_p_releases := hm_p_releases (hb_metrics h) + 1\<rparr>\<rparr>))"

definition release_d_source :: "hbm \<Rightarrow> admission \<Rightarrow> (unit, hbm) outcome" where
  "release_d_source h a =
     andthen (lift_err (require_active h a) h) (\<lambda>active h.
       if d_bytes h (ad_session_id active) \<noteq> ad_d_held active
       then (Inl (RuntimeError ''D source reservation changed before source release''), h)
       else
         let h1 = h\<lparr>hb_d_by_session :=
                (if ad_d_target active \<noteq> 0
                 then dput (ad_session_id active) (ad_d_target active) (hb_d_by_session h)
                 else dpop (ad_session_id active) (hb_d_by_session h))\<rparr>;
             h2 = (if ad_d_held active \<noteq> ad_d_target active
                   then h1\<lparr>hb_metrics := (hb_metrics h1)
                      \<lparr>hm_d_source_releases := hm_d_source_releases (hb_metrics h1) + 1\<rparr>\<rparr>
                   else h1)
         in hbm_return () h2)"

definition cancel :: "hbm \<Rightarrow> admission \<Rightarrow> (unit, hbm) outcome" where
  "cancel h a =
     andthen (lift_err (require_active h a) h) (\<lambda>active h.
       hbm_return ()
         (h\<lparr>hb_p_by_session := dpop (ad_session_id active) (hb_p_by_session h),
            hb_d_by_session :=
              (if ad_prior_d active \<noteq> 0
               then dput (ad_session_id active) (ad_prior_d active) (hb_d_by_session h)
               else dpop (ad_session_id active) (hb_d_by_session h)),
            hb_active_by_id := dpop (ad_admission_id active) (hb_active_by_id h),
            hb_active_id_by_session := dpop (ad_session_id active) (hb_active_id_by_session h),
            hb_metrics := (hb_metrics h)
              \<lparr>hm_cancellations := hm_cancellations (hb_metrics h) + 1\<rparr>\<rparr>))"

definition finish :: "hbm \<Rightarrow> admission \<Rightarrow> bool \<Rightarrow> (unit, hbm) outcome" where
  "finish h a has_successor =
     andthen (lift_err (require_active h a) h) (\<lambda>active h.
       let s = ad_session_id active;
           h1 = h\<lparr>hb_p_by_session := dpop s (hb_p_by_session h),
                  hb_metrics := (hb_metrics h)
                    \<lparr>hm_p_releases := hm_p_releases (hb_metrics h)
                       + (if s \<in> set (dkeys (hb_p_by_session h)) then 1 else 0)\<rparr>\<rparr>;
           h2 = (if has_successor \<and> ad_d_target active \<noteq> 0
                 then h1\<lparr>hb_d_by_session := dput s (ad_d_target active) (hb_d_by_session h1)\<rparr>
                 else h1\<lparr>hb_metrics := (hb_metrics h1)
                          \<lparr>hm_terminal_d_releases := hm_terminal_d_releases (hb_metrics h1)
                             + (if d_bytes h1 s \<noteq> 0 then 1 else 0)\<rparr>,
                        hb_d_by_session := dpop s (hb_d_by_session h1)\<rparr>)
       in hbm_return ()
         (h2\<lparr>hb_active_by_id := dpop (ad_admission_id active) (hb_active_by_id h2),
             hb_active_id_by_session := dpop s (hb_active_id_by_session h2)\<rparr>))"

definition release_idle_session :: "hbm \<Rightarrow> string \<Rightarrow> (unit, hbm) outcome" where
  "release_idle_session h session_id =
     (if session_id = [] then (Inl (ValueError ''session_id must be a non-empty string''), h)
      else if session_id \<in> set (dkeys (hb_active_id_by_session h))
      then (Inl (RuntimeError ''cannot release an active HBM session''), h)
      else hbm_return () (h\<lparr>hb_d_by_session := dpop session_id (hb_d_by_session h)\<rparr>))"

section \<open>The invariant\<close>

text \<open>What holds of an active admission and the two ledgers.\<close>

definition admission_ok :: "hbm \<Rightarrow> admission \<Rightarrow> bool" where
  "admission_ok h a \<longleftrightarrow>
     ad_admission_id a < hb_next_admission_id h \<and>
     dget (hb_active_id_by_session h) (ad_session_id a) = Some (ad_admission_id a) \<and>
     0 < ad_p_bytes a \<and> 0 \<le> ad_d_target a \<and> 0 \<le> ad_prior_d a \<and>
     ad_d_held a = max (ad_prior_d a) (ad_d_target a) \<and>
     p_bytes h (ad_session_id a) \<in> {0, ad_p_bytes a} \<and>
     d_bytes h (ad_session_id a) \<in> {ad_d_held a, ad_d_target a}"

definition hbm_ok :: "hbm \<Rightarrow> bool" where
  "hbm_ok h \<longleftrightarrow>
     hw_ok (hb_hardware h) \<and>
     dpos (hb_p_by_session h) \<and> dpos (hb_d_by_session h) \<and>
     p_used_bytes h \<le> hb_p_capacity h \<and> d_used_bytes h \<le> hb_d_capacity h \<and>
     dwf (hb_active_by_id h) \<and> dwf (hb_active_id_by_session h) \<and>
     (\<forall>i a. dget (hb_active_by_id h) i = Some a \<longrightarrow> ad_admission_id a = i \<and> admission_ok h a) \<and>
     (\<forall>s i. dget (hb_active_id_by_session h) s = Some i \<longrightarrow>
        (\<exists>a. dget (hb_active_by_id h) i = Some a \<and> ad_session_id a = s)) \<and>
     (\<forall>s. dget (hb_p_by_session h) s \<noteq> None \<longrightarrow> dget (hb_active_id_by_session h) s \<noteq> None)"

lemma hbm_ok_active:
  "hbm_ok h \<Longrightarrow> dget (hb_active_by_id h) i = Some a \<Longrightarrow> ad_admission_id a = i \<and> admission_ok h a"
  by (simp add: hbm_ok_def)

lemma hbm_ok_index:
  "hbm_ok h \<Longrightarrow> dget (hb_active_id_by_session h) s = Some i \<Longrightarrow>
     \<exists>a. dget (hb_active_by_id h) i = Some a \<and> ad_session_id a = s"
  by (simp add: hbm_ok_def)

lemma check_active_None:
  "check_active h xs = None \<longleftrightarrow>
     (\<forall>(s, i) \<in> set xs. \<exists>a. dget (hb_active_by_id h) i = Some a \<and> ad_session_id a = s \<and>
        p_bytes h s \<in> {0, ad_p_bytes a} \<and> d_bytes h s \<in> {ad_d_held a, ad_d_target a})"
  by (induction h xs rule: check_active.induct) (auto split: option.splits)

lemma hbm_ok_check:
  assumes ok: "hbm_ok h"
  shows "hbm_check h = None"
proof -
  have wf: "dwf (hb_active_by_id h)" "dwf (hb_active_id_by_session h)"
    and pos: "dpos (hb_p_by_session h)" "dpos (hb_d_by_session h)"
    using ok by (simp_all add: hbm_ok_def)
  have index: "set (dvalues (hb_active_id_by_session h)) = set (dkeys (hb_active_by_id h))"
  proof (rule set_eqI)
    fix i
    have "i \<in> set (dvalues (hb_active_id_by_session h)) \<longleftrightarrow>
        (\<exists>s. dget (hb_active_id_by_session h) s = Some i)" by (rule dvalues_iff [OF wf(2)])
    also have "\<dots> \<longleftrightarrow> (\<exists>a. dget (hb_active_by_id h) i = Some a)"
      using hbm_ok_active [OF ok, of i] hbm_ok_index [OF ok] by (fastforce simp: admission_ok_def)
    also have "\<dots> \<longleftrightarrow> i \<in> set (dkeys (hb_active_by_id h))"
      using dget_None_iff [of "hb_active_by_id h" i] by (cases "dget (hb_active_by_id h) i") auto
    finally show "i \<in> set (dvalues (hb_active_id_by_session h)) \<longleftrightarrow>
        i \<in> set (dkeys (hb_active_by_id h))" .
  qed
  have active: "check_active h (hb_active_id_by_session h) = None"
    unfolding check_active_None
  proof (clarify)
    fix s i assume "(s, i) \<in> set (hb_active_id_by_session h)"
    then have "dget (hb_active_id_by_session h) s = Some i" using wf(2) by (simp add: dget_Some_iff)
    with hbm_ok_index [OF ok] obtain a
      where a: "dget (hb_active_by_id h) i = Some a" "ad_session_id a = s" by blast
    with hbm_ok_active [OF ok, of i] show "\<exists>a. dget (hb_active_by_id h) i = Some a \<and>
        ad_session_id a = s \<and> p_bytes h s \<in> {0, ad_p_bytes a} \<and>
        d_bytes h s \<in> {ad_d_held a, ad_d_target a}"
      by (auto simp: admission_ok_def)
  qed
  have "0 < v" if "v \<in> set (dvalues (hb_p_by_session h)) \<or> v \<in> set (dvalues (hb_d_by_session h))" for v
    using that pos dposD by (auto simp: dvalues_iff simp del: set_map)
  then have "\<not> list_ex (\<lambda>v. v \<le> 0) (dvalues (hb_p_by_session h))"
    "\<not> list_ex (\<lambda>v. v \<le> 0) (dvalues (hb_d_by_session h))"
    by (force simp: list_ex_iff)+
  then show ?thesis
    using ok index active dpos_sum [OF pos(1)] dpos_sum [OF pos(2)]
    by (simp add: hbm_check_def hbm_ok_def p_used_bytes_def d_used_bytes_def)
qed

lemma hbm_return_ok: "hbm_ok h \<Longrightarrow> hbm_return x h = (Inr x, h)"
  by (simp add: hbm_return_def hbm_ok_check)

lemma new_hbm_ok:
  assumes "new_hbm hw n p d = Inr h"
  shows "hbm_ok h"
proof -
  from assms obtain default where valid: "validate_hardware hw = None"
    and "usable_hbm_bytes_per_rank hw = Inr default"
    by (cases "validate_hardware hw"; cases "usable_hbm_bytes_per_rank hw")
      (simp_all add: new_hbm_def split: if_split_asm)
  with assms have "hb_hardware h = hw" "0 < hb_p_capacity h" "0 < hb_d_capacity h"
    "hb_p_by_session h = []" "hb_d_by_session h = []" "hb_active_by_id h = []"
    "hb_active_id_by_session h = []"
    by (auto simp: new_hbm_def Let_def not_le [symmetric] split: if_split_asm)
  with valid show ?thesis
    by (simp add: hbm_ok_def hw_ok_def p_used_bytes_def d_used_bytes_def)
qed

text \<open>Counters do not matter.\<close>

lemma hbm_ok_metrics [simp]: "hbm_ok (h\<lparr>hb_metrics := m\<rparr>) = hbm_ok h"
  by (cases h) (simp only: hbm_ok_def admission_ok_def p_used_bytes_def d_used_bytes_def p_bytes_def
      d_bytes_def hbm.simps)

lemma hbm_ok_peaks [simp]: "hbm_ok (update_peaks h) = hbm_ok h"
  by (simp add: update_peaks_def)

section \<open>Every operation keeps the invariant\<close>

text \<open>
  Two sessions never share an admission: the frame of an update at session \<open>s\<close>.
\<close>

lemma admission_other:
  assumes "hbm_ok h" and "dget (hb_active_by_id h) i = Some a" and "dget (hb_active_by_id h) j = Some b"
    and "i \<noteq> j"
  shows "ad_session_id a \<noteq> ad_session_id b"
  using hbm_ok_active [OF assms(1,2)] hbm_ok_active [OF assms(1,3)] assms(4)
  by (auto simp: admission_ok_def)

lemma commit_admission_ok:
  assumes ok: "hbm_ok h" and s: "dget (hb_active_id_by_session h) (ad_session_id a) = None"
    and id: "ad_admission_id a = hb_next_admission_id h"
    and pos: "0 < ad_p_bytes a" "0 \<le> ad_d_target a"
    and prior: "ad_prior_d a = d_bytes h (ad_session_id a)"
    and held: "ad_d_held a = max (ad_prior_d a) (ad_d_target a)"
    and capp: "p_used_bytes h + ad_p_bytes a \<le> hb_p_capacity h"
    and capd: "d_used_bytes h - ad_prior_d a + ad_d_held a \<le> hb_d_capacity h"
  shows "hbm_ok (commit_admission a h)"
proof -
  let ?s = "ad_session_id a"
  have dp: "dpos (hb_p_by_session h)" "dpos (hb_d_by_session h)" using ok by (simp_all add: hbm_ok_def)
  have prior0: "0 \<le> ad_prior_d a" using dpos_get_or [OF dp(2)] by (simp add: prior d_bytes_def)
  have nop: "dget (hb_p_by_session h) ?s = None" using ok s by (auto simp: hbm_ok_def)
  have fresh: "ad_admission_id b < ad_admission_id a" "ad_session_id b \<noteq> ?s"
    "admission_ok h b" "ad_admission_id b = i"
    if "dget (hb_active_by_id h) i = Some b" for i b
    using hbm_ok_active [OF ok that] s by (auto simp: admission_ok_def id)
  have held0: "0 < ad_d_held a" if "ad_d_held a \<noteq> 0" using that held prior0 by simp
  have wf: "dwf (hb_active_by_id h)" "dwf (hb_active_id_by_session h)" using ok by (simp_all add: hbm_ok_def)
  have new: "admission_ok (commit_admission a h) a"
    using pos prior0 held id
    by (simp add: admission_ok_def commit_admission_def update_peaks_def p_bytes_def d_bytes_def)
  have old: "admission_ok (commit_admission a h) b" if "dget (hb_active_by_id h) i = Some b" for i b
    using fresh [OF that] id
    by (auto simp: admission_ok_def commit_admission_def update_peaks_def p_bytes_def d_bytes_def)
  show ?thesis
    unfolding hbm_ok_def
  proof (intro conjI allI impI)
    show "hw_ok (hb_hardware (commit_admission a h))"
      using ok by (simp add: commit_admission_def update_peaks_def hbm_ok_def)
    show "dpos (hb_p_by_session (commit_admission a h))"
      using dp(1) pos(1) by (simp add: commit_admission_def update_peaks_def)
    show "dpos (hb_d_by_session (commit_admission a h))"
      using dp(2) held0 by (simp add: commit_admission_def update_peaks_def)
    show "p_used_bytes (commit_admission a h) \<le> hb_p_capacity (commit_admission a h)"
      using capp dp nop by (simp add: commit_admission_def update_peaks_def p_used_bytes_def)
    show "d_used_bytes (commit_admission a h) \<le> hb_d_capacity (commit_admission a h)"
      using capd dp prior by (simp add: commit_admission_def update_peaks_def d_used_bytes_def d_bytes_def)
    show "dwf (hb_active_by_id (commit_admission a h))"
      "dwf (hb_active_id_by_session (commit_admission a h))"
      using wf by (simp_all add: commit_admission_def update_peaks_def)
    fix i b assume b: "dget (hb_active_by_id (commit_admission a h)) i = Some b"
    show "ad_admission_id b = i"
      using b fresh(4) by (simp add: commit_admission_def update_peaks_def split: if_split_asm)
    show "admission_ok (commit_admission a h) b"
    proof (cases "i = ad_admission_id a")
      case True
      with b have "b = a" by (simp add: commit_admission_def update_peaks_def)
      with new show ?thesis by simp
    next
      case False
      with b have "dget (hb_active_by_id h) i = Some b"
        by (simp add: commit_admission_def update_peaks_def)
      then show ?thesis by (rule old)
    qed
  next
    fix t i assume t: "dget (hb_active_id_by_session (commit_admission a h)) t = Some i"
    show "\<exists>b. dget (hb_active_by_id (commit_admission a h)) i = Some b \<and> ad_session_id b = t"
    proof (cases "t = ?s")
      case True
      with t show ?thesis by (simp add: commit_admission_def update_peaks_def)
    next
      case False
      with t have "dget (hb_active_id_by_session h) t = Some i"
        by (simp add: commit_admission_def update_peaks_def)
      with hbm_ok_index [OF ok] fresh(1,4) show ?thesis
        by (fastforce simp: commit_admission_def update_peaks_def)
    qed
  next
    fix t assume "dget (hb_p_by_session (commit_admission a h)) t \<noteq> None"
    then show "dget (hb_active_id_by_session (commit_admission a h)) t \<noteq> None"
      using ok by (auto simp: commit_admission_def update_peaks_def hbm_ok_def split: if_splits)
  qed
qed

text \<open>Removing a session's admission, leaving \<open>v\<close> bytes of it on the decode ranks.\<close>

lemma dpos_put_or_pop:
  "dpos d \<Longrightarrow> 0 \<le> v \<Longrightarrow> dpos (if v \<noteq> 0 then dput k v d else dpop k d)"
  by simp

lemma dsum_put_or_pop:
  "dwf d \<Longrightarrow> dsum (if v \<noteq> 0 then dput k v d else dpop k d) = dsum d - dget_or d k 0 + v"
  by simp

lemma dget_or_put_or_pop:
  "dget_or (if v \<noteq> 0 then dput k v d else dpop k d) k' 0 = (if k' = k then v else dget_or d k' (0::int))"
  by simp

lemma require_active_Inr: "require_active h a = Inr b \<longleftrightarrow> b = a \<and> dget (hb_active_by_id h) (ad_admission_id a) = Some a"
  by (auto simp: require_active_def)

definition drop_admission :: "admission \<Rightarrow> int \<Rightarrow> hbm \<Rightarrow> hbm" where
  "drop_admission a v h =
     h\<lparr>hb_p_by_session := dpop (ad_session_id a) (hb_p_by_session h),
       hb_d_by_session := (if v \<noteq> 0 then dput (ad_session_id a) v (hb_d_by_session h)
                           else dpop (ad_session_id a) (hb_d_by_session h)),
       hb_active_by_id := dpop (ad_admission_id a) (hb_active_by_id h),
       hb_active_id_by_session := dpop (ad_session_id a) (hb_active_id_by_session h)\<rparr>"

lemma drop_admission_sel:
  "hb_hardware (drop_admission a v h) = hb_hardware h"
  "hb_p_capacity (drop_admission a v h) = hb_p_capacity h"
  "hb_d_capacity (drop_admission a v h) = hb_d_capacity h"
  "hb_next_admission_id (drop_admission a v h) = hb_next_admission_id h"
  "hb_p_by_session (drop_admission a v h) = dpop (ad_session_id a) (hb_p_by_session h)"
  "hb_d_by_session (drop_admission a v h) = (if v \<noteq> 0 then dput (ad_session_id a) v (hb_d_by_session h)
     else dpop (ad_session_id a) (hb_d_by_session h))"
  "hb_active_by_id (drop_admission a v h) = dpop (ad_admission_id a) (hb_active_by_id h)"
  "hb_active_id_by_session (drop_admission a v h) =
     dpop (ad_session_id a) (hb_active_id_by_session h)"
  by (simp_all add: drop_admission_def)

lemma drop_admission_ok:
  assumes ok: "hbm_ok h" and a: "dget (hb_active_by_id h) (ad_admission_id a) = Some a"
    and v: "0 \<le> v" "d_used_bytes h - d_bytes h (ad_session_id a) + v \<le> hb_d_capacity h"
  shows "hbm_ok (drop_admission a v h)"
  unfolding hbm_ok_def
proof (intro conjI allI impI)
  let ?h = "drop_admission a v h"
  have dp: "dpos (hb_p_by_session h)" "dpos (hb_d_by_session h)" using ok by (simp_all add: hbm_ok_def)
  show "hw_ok (hb_hardware ?h)" using ok by (simp add: drop_admission_sel hbm_ok_def)
  show "dpos (hb_p_by_session ?h)" using dp(1) by (simp add: drop_admission_sel)
  show "dpos (hb_d_by_session ?h)"
    unfolding drop_admission_sel using dp(2) v(1) by (rule dpos_put_or_pop)
  show "p_used_bytes ?h \<le> hb_p_capacity ?h"
    using ok dpos_get_or [OF dp(1), of "ad_session_id a"] dp
    by (simp add: hbm_ok_def drop_admission_sel p_used_bytes_def)
  show "d_used_bytes ?h \<le> hb_d_capacity ?h"
    using v(2) dp by (simp add: drop_admission_sel d_used_bytes_def d_bytes_def)
  show "dwf (hb_active_by_id ?h)" "dwf (hb_active_id_by_session ?h)"
    using ok by (simp_all add: drop_admission_sel hbm_ok_def)
  fix i b assume b: "dget (hb_active_by_id ?h) i = Some b"
  then have b': "dget (hb_active_by_id h) i = Some b" "i \<noteq> ad_admission_id a"
    by (simp_all add: drop_admission_sel split: if_split_asm)
  with hbm_ok_active [OF ok b'(1)] admission_other [OF ok b'(1) a b'(2)]
  show "ad_admission_id b = i" "admission_ok ?h b"
    by (auto simp: admission_ok_def drop_admission_sel p_bytes_def d_bytes_def)
next
  let ?h = "drop_admission a v h"
  fix s i assume "dget (hb_active_id_by_session ?h) s = Some i"
  then have s: "s \<noteq> ad_session_id a" "dget (hb_active_id_by_session h) s = Some i"
    by (simp_all add: drop_admission_sel split: if_split_asm)
  from hbm_ok_index [OF ok s(2)] obtain b
    where b: "dget (hb_active_by_id h) i = Some b" "ad_session_id b = s" by blast
  with a s(1) have "i \<noteq> ad_admission_id a" by auto
  with b show "\<exists>b. dget (hb_active_by_id ?h) i = Some b \<and> ad_session_id b = s"
    by (simp add: drop_admission_sel)
next
  let ?h = "drop_admission a v h"
  fix s assume "dget (hb_p_by_session ?h) s \<noteq> None"
  then show "dget (hb_active_id_by_session ?h) s \<noteq> None"
    using ok by (simp add: drop_admission_sel hbm_ok_def split: if_split_asm)
qed

section \<open>The operations, one by one\<close>

lemma d_bytes_active:
  assumes "hbm_ok h" and "dget (hb_active_by_id h) i = Some a"
  shows "ad_d_target a \<le> d_bytes h (ad_session_id a)" "0 \<le> ad_d_target a" "0 \<le> ad_prior_d a"
    "0 < ad_p_bytes a" "ad_d_held a = max (ad_prior_d a) (ad_d_target a)"
    "d_bytes h (ad_session_id a) \<in> {ad_d_held a, ad_d_target a}"
    "p_bytes h (ad_session_id a) \<in> {0, ad_p_bytes a}"
    "dget (hb_active_id_by_session h) (ad_session_id a) = Some i"
  using hbm_ok_active [OF assms] by (auto simp: admission_ok_def)

lemma release_p_ok_state:
  assumes ok: "hbm_ok h"
  shows "hbm_ok (h\<lparr>hb_p_by_session := dpop s (hb_p_by_session h)\<rparr>)"
    (is "hbm_ok ?h")
proof -
  have dp: "dpos (hb_p_by_session h)" using ok by (simp add: hbm_ok_def)
  have "p_used_bytes ?h \<le> hb_p_capacity h"
    using ok dpos_get_or [OF dp, of s] dp by (simp add: hbm_ok_def p_used_bytes_def)
  moreover have "admission_ok ?h a" if "admission_ok h a" for a
    using that by (auto simp: admission_ok_def p_bytes_def d_bytes_def)
  ultimately show ?thesis
    using ok dp by (simp add: hbm_ok_def d_used_bytes_def)
qed

lemma release_d_ok_state:
  assumes ok: "hbm_ok h" and a: "dget (hb_active_by_id h) i = Some a"
  shows "hbm_ok (h\<lparr>hb_d_by_session := (if ad_d_target a \<noteq> 0
           then dput (ad_session_id a) (ad_d_target a) (hb_d_by_session h)
           else dpop (ad_session_id a) (hb_d_by_session h))\<rparr>)" (is "hbm_ok ?h")
proof -
  note act = d_bytes_active [OF ok a]
  have dp: "dpos (hb_d_by_session h)" using ok by (simp add: hbm_ok_def)
  have "d_used_bytes ?h \<le> hb_d_capacity h"
    using ok act(1) dp by (simp add: hbm_ok_def d_used_bytes_def d_bytes_def)
  moreover have "dpos (hb_d_by_session ?h)"
    using dpos_put_or_pop [OF dp act(2)] by simp
  moreover have "admission_ok ?h b" if b: "dget (hb_active_by_id h) j = Some b" for b j
  proof (cases "j = i")
    case True
    with a b hbm_ok_active [OF ok a] show ?thesis
      by (auto simp: admission_ok_def p_bytes_def d_bytes_def)
  next
    case False
    with admission_other [OF ok b a] hbm_ok_active [OF ok b] show ?thesis
      by (auto simp: admission_ok_def p_bytes_def d_bytes_def)
  qed
  ultimately show ?thesis
    using ok by (simp add: hbm_ok_def p_used_bytes_def)
qed

text \<open>\<open>required\<close> unfolds the guard that every operation on an admission starts with.\<close>

lemma require_active_cases:
  obtains (stale) e where "require_active h a = Inl (RuntimeError e)"
  | (active) "require_active h a = Inr a" "dget (hb_active_by_id h) (ad_admission_id a) = Some a"
  by (cases "dget (hb_active_by_id h) (ad_admission_id a) = Some a") (simp_all add: require_active_def)

lemma release_p_result:
  assumes ok: "hbm_ok h" and act: "dget (hb_active_by_id h) (ad_admission_id a) = Some a"
  shows "\<exists>h'. release_p h a = (Inr (), h') \<and> hbm_ok h' \<and> p_bytes h' (ad_session_id a) = 0 \<and>
    (\<forall>s. s \<noteq> ad_session_id a \<longrightarrow> p_bytes h' s = p_bytes h s) \<and>
    hb_d_by_session h' = hb_d_by_session h \<and> hb_active_by_id h' = hb_active_by_id h \<and>
    hb_active_id_by_session h' = hb_active_id_by_session h"
  using ok act release_p_ok_state [OF ok, of "ad_session_id a"]
  by (auto simp: release_p_def require_active_def hbm_return_ok p_bytes_def)

lemma release_d_source_result:
  assumes ok: "hbm_ok h" and act: "dget (hb_active_by_id h) (ad_admission_id a) = Some a"
    and held: "d_bytes h (ad_session_id a) = ad_d_held a"
  shows "\<exists>h'. release_d_source h a = (Inr (), h') \<and> hbm_ok h' \<and>
    d_bytes h' (ad_session_id a) = ad_d_target a \<and>
    (\<forall>s. s \<noteq> ad_session_id a \<longrightarrow> d_bytes h' s = d_bytes h s) \<and>
    hb_p_by_session h' = hb_p_by_session h \<and> hb_active_by_id h' = hb_active_by_id h \<and>
    hb_active_id_by_session h' = hb_active_id_by_session h"
  using act held release_d_ok_state [OF ok act]
  by (simp add: release_d_source_def require_active_def hbm_return_ok Let_def d_bytes_def)

lemma finish_result:
  assumes ok: "hbm_ok h" and act: "dget (hb_active_by_id h) (ad_admission_id a) = Some a"
  shows "\<exists>m. finish h a has_successor = (Inr (),
    (drop_admission a (if has_successor then ad_d_target a else 0) h)\<lparr>hb_metrics := m\<rparr>)"
    and "hbm_ok (drop_admission a (if has_successor then ad_d_target a else 0) h)"
proof -
  let ?v = "if has_successor then ad_d_target a else 0"
  note a = d_bytes_active [OF ok act]
  have "d_used_bytes h \<le> hb_d_capacity h" using ok by (simp add: hbm_ok_def)
  with a show dok: "hbm_ok (drop_admission a ?v h)"
    by (intro drop_admission_ok [OF ok act]) auto
  let ?s = "ad_session_id a"
  let ?r = "(hb_metrics h)\<lparr>hm_p_releases := hm_p_releases (hb_metrics h)
              + (if ?s \<in> set (dkeys (hb_p_by_session h)) then 1 else 0)\<rparr>"
  let ?m = "if has_successor \<and> ad_d_target a \<noteq> 0 then ?r
            else ?r\<lparr>hm_terminal_d_releases := hm_terminal_d_releases (hb_metrics h)
              + (if d_bytes h ?s \<noteq> 0 then 1 else 0)\<rparr>"
  have "finish h a has_successor = hbm_return () ((drop_admission a ?v h)\<lparr>hb_metrics := ?m\<rparr>)"
  proof (cases "has_successor \<and> ad_d_target a \<noteq> 0")
    case True
    with act show ?thesis
      by (cases h) (simp add: finish_def require_active_def Let_def drop_admission_def)
  next
    case False
    with act show ?thesis
      by (cases h) (auto simp: finish_def require_active_def Let_def drop_admission_def d_bytes_def)
  qed
  with dok show "\<exists>m. finish h a has_successor = (Inr (), (drop_admission a ?v h)\<lparr>hb_metrics := m\<rparr>)"
    using hbm_return_ok by (metis hbm_ok_metrics)
qed

lemma cancel_result:
  assumes ok: "hbm_ok h" and act: "dget (hb_active_by_id h) (ad_admission_id a) = Some a"
    and held: "d_bytes h (ad_session_id a) = ad_d_held a"
  shows "\<exists>m. cancel h a = (Inr (), (drop_admission a (ad_prior_d a) h)\<lparr>hb_metrics := m\<rparr>)"
    and "hbm_ok (drop_admission a (ad_prior_d a) h)"
proof -
  note a = d_bytes_active [OF ok act]
  have "d_used_bytes h \<le> hb_d_capacity h" using ok by (simp add: hbm_ok_def)
  with a held show dok: "hbm_ok (drop_admission a (ad_prior_d a) h)"
    by (intro drop_admission_ok [OF ok act]) auto
  have "cancel h a = hbm_return () ((drop_admission a (ad_prior_d a) h)
      \<lparr>hb_metrics := (hb_metrics h)\<lparr>hm_cancellations := hm_cancellations (hb_metrics h) + 1\<rparr>\<rparr>)"
    using act by (simp add: cancel_def require_active_def drop_admission_def)
  with dok show "\<exists>m. cancel h a = (Inr (), (drop_admission a (ad_prior_d a) h)\<lparr>hb_metrics := m\<rparr>)"
    by (auto simp: hbm_return_ok)
qed

text \<open>The request guards, the bytes a request needs, and the admission it becomes.\<close>

definition admissible ::
  "hbm \<Rightarrow> string \<Rightarrow> int \<Rightarrow> int \<Rightarrow> bool" where
  "admissible h session_id input_tokens output_tokens \<longleftrightarrow>
     session_id \<noteq> [] \<and> 0 < input_tokens \<and> 0 < output_tokens \<and>
     input_tokens + output_tokens - 1 \<le> 1010000 \<and>
     dget (hb_active_id_by_session h) session_id = None"

definition p_need :: "hbm \<Rightarrow> int \<Rightarrow> int" where
  "p_need h input_tokens = kv_capacity (hb_hardware h) input_tokens"

definition d_need :: "hbm \<Rightarrow> int \<Rightarrow> int \<Rightarrow> bool \<Rightarrow> int" where
  "d_need h input_tokens output_tokens needs_d =
     (if needs_d then kv_capacity (hb_hardware h) (input_tokens + output_tokens - 1) else 0)"

definition new_admission :: "hbm \<Rightarrow> string \<Rightarrow> int \<Rightarrow> int \<Rightarrow> bool \<Rightarrow> admission" where
  "new_admission h session_id input_tokens output_tokens needs_d =
     \<lparr>ad_admission_id = hb_next_admission_id h, ad_session_id = session_id,
      ad_input_tokens = input_tokens, ad_output_tokens = output_tokens,
      ad_final_tokens = input_tokens + output_tokens - 1, ad_p_bytes = p_need h input_tokens,
      ad_d_target = d_need h input_tokens output_tokens needs_d,
      ad_d_held = max (d_bytes h session_id) (d_need h input_tokens output_tokens needs_d),
      ad_prior_d = d_bytes h session_id, ad_needs_d = needs_d\<rparr>"

text \<open>What an observer sees after an admission is taken or dropped.\<close>

lemma commit_views:
  "p_bytes (commit_admission a h) t = (if t = ad_session_id a then ad_p_bytes a else p_bytes h t)"
  "d_bytes (commit_admission a h) t = (if t = ad_session_id a then ad_d_held a else d_bytes h t)"
  "dget (hb_active_by_id (commit_admission a h)) j =
     (if j = ad_admission_id a then Some a else dget (hb_active_by_id h) j)"
  "dget (hb_active_id_by_session (commit_admission a h)) t =
     (if t = ad_session_id a then Some (ad_admission_id a) else dget (hb_active_id_by_session h) t)"
  by (simp_all add: commit_admission_def update_peaks_def p_bytes_def d_bytes_def)

lemma drop_views:
  "p_bytes (drop_admission a v h) t = (if t = ad_session_id a then 0 else p_bytes h t)"
  "d_bytes (drop_admission a v h) t = (if t = ad_session_id a then v else d_bytes h t)"
  "dget (hb_active_by_id (drop_admission a v h)) j =
     (if j = ad_admission_id a then None else dget (hb_active_by_id h) j)"
  "dget (hb_active_id_by_session (drop_admission a v h)) t =
     (if t = ad_session_id a then None else dget (hb_active_id_by_session h) t)"
  by (simp_all add: drop_admission_def p_bytes_def d_bytes_def)

lemma commit_sel:
  "hb_hardware (commit_admission a h) = hb_hardware h"
  "hb_p_capacity (commit_admission a h) = hb_p_capacity h"
  "hb_d_capacity (commit_admission a h) = hb_d_capacity h"
  "hb_next_admission_id (commit_admission a h) = hb_next_admission_id h + 1"
  by (simp_all add: commit_admission_def update_peaks_def)

lemma metrics_used [simp]:
  "p_used_bytes (h\<lparr>hb_metrics := m\<rparr>) = p_used_bytes h"
  "d_used_bytes (h\<lparr>hb_metrics := m\<rparr>) = d_used_bytes h"
  by (simp_all add: p_used_bytes_def d_used_bytes_def)

lemma metrics_views [simp]:
  "p_bytes (h\<lparr>hb_metrics := m\<rparr>) t = p_bytes h t" "d_bytes (h\<lparr>hb_metrics := m\<rparr>) t = d_bytes h t"
  by (simp_all add: p_bytes_def d_bytes_def)

lemma new_admission_sel [simp]:
  "ad_session_id (new_admission h s i out nd) = s"
  "ad_admission_id (new_admission h s i out nd) = hb_next_admission_id h"
  "ad_p_bytes (new_admission h s i out nd) = p_need h i"
  "ad_d_target (new_admission h s i out nd) = d_need h i out nd"
  "ad_prior_d (new_admission h s i out nd) = d_bytes h s"
  "ad_d_held (new_admission h s i out nd) = max (d_bytes h s) (d_need h i out nd)"
  by (simp_all add: new_admission_def)

text \<open>Admission: what each outcome means for the state.\<close>

lemma try_admit_request_errors:
  "session_id = [] \<or> input_tokens \<le> 0 \<or> output_tokens \<le> 0 \<or>
     input_tokens + output_tokens - 1 > 1010000 \<or>
     dget (hb_active_id_by_session h) session_id \<noteq> None \<Longrightarrow>
   \<exists>e. try_admit h session_id input_tokens output_tokens needs_d = (Inl e, h) \<and>
     (\<exists>m. e = ValueError m \<or> e = RuntimeError m)"
  by (auto simp: try_admit_def Let_def dget_None_iff)

lemma try_admit_eq:
  assumes hw: "hw_ok (hb_hardware h)" and adm: "admissible h s i out"
  shows "try_admit h s i out nd =
    (let m = (hb_metrics h)\<lparr>hm_admission_attempts := hm_admission_attempts (hb_metrics h) + 1\<rparr>;
         a = new_admission h s i out nd
     in if p_need h i > hb_p_capacity h \<or> d_need h i out nd > hb_d_capacity h
        then (Inl (RuntimeError ''request is individually infeasible for P/D HBM''),
              h\<lparr>hb_metrics := m\<lparr>hm_infeasible_requests := hm_infeasible_requests m + 1\<rparr>\<rparr>)
        else if p_used_bytes h + p_need h i > hb_p_capacity h \<or>
                d_used_bytes h - d_bytes h s + max (d_bytes h s) (d_need h i out nd) > hb_d_capacity h
        then (Inr None, h\<lparr>hb_metrics := m\<lparr>hm_capacity_deferrals := hm_capacity_deferrals m + 1\<rparr>\<rparr>)
        else hbm_return (Some a) (commit_admission a (h\<lparr>hb_metrics := m\<rparr>)))"
  using adm kv_capacity_ok [OF hw]
  by (simp add: try_admit_def admissible_def Let_def dget_None_iff new_admission_def p_need_def
      d_need_def d_bytes_def p_used_bytes_def d_used_bytes_def)

lemma try_admit_result:
  assumes ok: "hbm_ok h" and adm: "admissible h s i out"
  obtains (infeasible) m e where "try_admit h s i out nd = (Inl (RuntimeError e), h\<lparr>hb_metrics := m\<rparr>)"
      "p_need h i > hb_p_capacity h \<or> d_need h i out nd > hb_d_capacity h"
  | (deferred) m where "try_admit h s i out nd = (Inr None, h\<lparr>hb_metrics := m\<rparr>)"
      "p_used_bytes h + p_need h i > hb_p_capacity h \<or>
       d_used_bytes h - d_bytes h s + max (d_bytes h s) (d_need h i out nd) > hb_d_capacity h"
  | (admitted) m where "try_admit h s i out nd =
        (Inr (Some (new_admission h s i out nd)),
         commit_admission (new_admission h s i out nd) (h\<lparr>hb_metrics := m\<rparr>))"
      "hbm_ok (commit_admission (new_admission h s i out nd) (h\<lparr>hb_metrics := m\<rparr>))"
      "p_used_bytes h + p_need h i \<le> hb_p_capacity h"
      "d_used_bytes h - d_bytes h s + max (d_bytes h s) (d_need h i out nd) \<le> hb_d_capacity h"
proof -
  let ?m = "(hb_metrics h)\<lparr>hm_admission_attempts := hm_admission_attempts (hb_metrics h) + 1\<rparr>"
  let ?h = "h\<lparr>hb_metrics := ?m\<rparr>"
  let ?a = "new_admission h s i out nd"
  have hw: "hw_ok (hb_hardware h)" using ok by (simp add: hbm_ok_def)
  have pos: "0 < p_need h i" "0 \<le> d_need h i out nd"
    using adm kv_capacity_pos [OF hw] kv_capacity_nonneg [OF hw]
    by (simp_all add: admissible_def p_need_def d_need_def)
  note eq = try_admit_eq [OF hw adm, of nd, unfolded Let_def]
  consider "p_need h i > hb_p_capacity h \<or> d_need h i out nd > hb_d_capacity h"
    | "\<not> (p_need h i > hb_p_capacity h \<or> d_need h i out nd > hb_d_capacity h)"
      "p_used_bytes h + p_need h i > hb_p_capacity h \<or>
       d_used_bytes h - d_bytes h s + max (d_bytes h s) (d_need h i out nd) > hb_d_capacity h"
    | "\<not> (p_need h i > hb_p_capacity h \<or> d_need h i out nd > hb_d_capacity h)"
      "p_used_bytes h + p_need h i \<le> hb_p_capacity h"
      "d_used_bytes h - d_bytes h s + max (d_bytes h s) (d_need h i out nd) \<le> hb_d_capacity h"
    by linarith
  then show thesis
  proof cases
    case 1
    then show thesis using eq by (intro infeasible) auto
  next
    case 2
    then show thesis using eq by (intro deferred) auto
  next
    case 3
    have ok': "hbm_ok (commit_admission ?a ?h)"
      using 3 pos adm ok
      by (intro commit_admission_ok)
        (simp_all add: new_admission_def admissible_def d_bytes_def p_used_bytes_def d_used_bytes_def)
    show thesis
      using 3 eq hbm_return_ok [OF ok'] by (intro admitted [OF _ ok']) auto
  qed
qed

section \<open>Reachable states\<close>

text \<open>
  Everything a caller can do with a node's ledger, in any order and with any arguments,
  successful or not.  Cancelling is restricted to admissions whose decode reservation is still
  the one taken at admission: \<open>hbm_cancel_after_release\<close> shows why.
\<close>

definition cancellable :: "hbm \<Rightarrow> admission \<Rightarrow> bool" where
  "cancellable h a \<longleftrightarrow> d_bytes h (ad_session_id a) = ad_d_held a"

inductive hbm_reach :: "hbm \<Rightarrow> bool" where
  reach_new: "new_hbm hw n p d = Inr h \<Longrightarrow> hbm_reach h"
| reach_admit: "hbm_reach h \<Longrightarrow> try_admit h s i out nd = (r, h') \<Longrightarrow> hbm_reach h'"
| reach_release_p: "hbm_reach h \<Longrightarrow> release_p h a = (r, h') \<Longrightarrow> hbm_reach h'"
| reach_release_d: "hbm_reach h \<Longrightarrow> release_d_source h a = (r, h') \<Longrightarrow> hbm_reach h'"
| reach_finish: "hbm_reach h \<Longrightarrow> finish h a suc = (r, h') \<Longrightarrow> hbm_reach h'"
| reach_idle: "hbm_reach h \<Longrightarrow> release_idle_session h s = (r, h') \<Longrightarrow> hbm_reach h'"
| reach_cancel: "hbm_reach h \<Longrightarrow> cancellable h a \<Longrightarrow> cancel h a = (r, h') \<Longrightarrow> hbm_reach h'"

text \<open>\<open>sound\<close>: the operation leaves a correct ledger and never trips the self check.\<close>

definition sound :: "('a, hbm) outcome \<Rightarrow> bool" where
  "sound r \<longleftrightarrow> keeps hbm_ok r \<and> (\<forall>m. fst r \<noteq> Inl (AssertionError m))"

lemma sound_pair [simp]: "sound (x, h) \<longleftrightarrow> hbm_ok h \<and> (\<forall>m. x \<noteq> Inl (AssertionError m))"
  by (simp add: sound_def)

lemma soundD: "sound r \<Longrightarrow> r = (x, h) \<Longrightarrow> hbm_ok h \<and> (\<forall>m. x \<noteq> Inl (AssertionError m))"
  by (auto simp: sound_def)

lemma sound_required:
  assumes "hbm_ok h"
    and "dget (hb_active_by_id h) (ad_admission_id a) = Some a \<Longrightarrow> sound (f a h)"
  shows "sound (andthen (lift_err (require_active h a) h) f)"
  using assms by (cases rule: require_active_cases [of h a]) auto

lemma try_admit_sound: "hbm_ok h \<Longrightarrow> sound (try_admit h s i out nd)"
proof (cases "admissible h s i out")
  case True
  assume ok: "hbm_ok h"
  from try_admit_result [OF ok True, of nd] show ?thesis by cases (use ok in auto)
next
  case False
  assume ok: "hbm_ok h"
  from False obtain e where "try_admit h s i out nd = (Inl e, h)" "\<exists>m. e = ValueError m \<or> e = RuntimeError m"
    using try_admit_request_errors [of s i out h nd] by (auto simp: admissible_def not_less not_le)
  with ok show ?thesis by auto
qed

lemma release_p_sound: "hbm_ok h \<Longrightarrow> sound (release_p h a)"
  using release_p_result [of h a] unfolding release_p_def
  by (rule_tac sound_required) (auto simp: require_active_def)

lemma release_d_source_sound:
  assumes ok: "hbm_ok h"
  shows "sound (release_d_source h a)"
proof (cases "dget (hb_active_by_id h) (ad_admission_id a) = Some a \<and>
    d_bytes h (ad_session_id a) = ad_d_held a")
  case True
  with release_d_source_result [OF ok, of a] show ?thesis by auto
next
  case False
  with ok show ?thesis
    by (cases rule: require_active_cases [of h a]) (auto simp: release_d_source_def)
qed

lemma finish_sound:
  assumes ok: "hbm_ok h"
  shows "sound (finish h a suc)"
proof (cases "dget (hb_active_by_id h) (ad_admission_id a) = Some a")
  case True
  with finish_result [OF ok True, of suc] show ?thesis by auto
next
  case False
  with ok show ?thesis by (auto simp: finish_def require_active_def)
qed

lemma cancel_sound:
  assumes ok: "hbm_ok h" and held: "cancellable h a"
  shows "sound (cancel h a)"
proof (cases "dget (hb_active_by_id h) (ad_admission_id a) = Some a")
  case True
  with cancel_result [OF ok True] held show ?thesis by (auto simp: cancellable_def)
next
  case False
  with ok show ?thesis by (auto simp: cancel_def require_active_def)
qed

lemma release_idle_ok_state:
  assumes ok: "hbm_ok h" and idle: "dget (hb_active_id_by_session h) s = None"
  shows "hbm_ok (h\<lparr>hb_d_by_session := dpop s (hb_d_by_session h)\<rparr>)" (is "hbm_ok ?h")
proof -
  have dp: "dpos (hb_d_by_session h)" using ok by (simp add: hbm_ok_def)
  have "d_used_bytes ?h \<le> hb_d_capacity h"
    using ok dpos_get_or [OF dp, of s] dp by (simp add: hbm_ok_def d_used_bytes_def)
  moreover have "admission_ok ?h a" if "admission_ok h a" for a
    using that idle by (auto simp: admission_ok_def p_bytes_def d_bytes_def)
  ultimately show ?thesis
    using ok dp by (simp add: hbm_ok_def p_used_bytes_def)
qed

lemma release_idle_sound: "hbm_ok h \<Longrightarrow> sound (release_idle_session h s)"
  using release_idle_ok_state [of h s]
  by (simp add: release_idle_session_def dget_None_iff hbm_return_ok)

lemmas hbm_sound = try_admit_sound release_p_sound release_d_source_sound finish_sound
  release_idle_sound cancel_sound

lemma hbm_reach_ok: "hbm_reach h \<Longrightarrow> hbm_ok h"
  by (induction rule: hbm_reach.induct) (auto intro: new_hbm_ok dest: soundD [OF hbm_sound(1)]
      soundD [OF hbm_sound(2)] soundD [OF hbm_sound(3)] soundD [OF hbm_sound(4)]
      soundD [OF hbm_sound(5)] soundD [OF hbm_sound(6)])

section \<open>Properties\<close>


text \<open>A concrete run: a node with room for two 16-token blocks per rank admits one session,
  defers a second one, and finishes the first.\<close>

definition small_node :: hbm where
  "small_node = projr (new_hbm default_hardware 0 (Some 400000) (Some 400000))"

definition small_run :: hbm where
  "small_run = snd (try_admit (snd (try_admit small_node ''a'' 10 4 True)) ''b'' 10 4 True)"

lemma default_usable: "\<exists>u. usable_hbm_bytes_per_rank default_hardware = Inr u"
  using default_hw_ok by (auto simp: hw_ok_def validate_hardware_def split: option.splits sum.splits)

lemma small_node_new: "new_hbm default_hardware 0 (Some 400000) (Some 400000) = Inr small_node"
  using default_usable default_hw_ok by (auto simp: small_node_def new_hbm_def hw_ok_def)

lemmas small_node_eq = small_node_new [unfolded new_hbm_def]

lemma small_node_sel:
  "hb_hardware small_node = default_hardware" "hb_p_capacity small_node = 400000"
  "hb_d_capacity small_node = 400000" "hb_p_by_session small_node = []"
  "hb_d_by_session small_node = []" "hb_active_by_id small_node = []"
  "hb_active_id_by_session small_node = []" "hb_next_admission_id small_node = 1"
  using default_usable default_hw_ok by (auto simp: small_node_def new_hbm_def hw_ok_def)

lemma small_run_reach: "hbm_reach small_run"
  unfolding small_run_def
  by (rule reach_admit [OF reach_admit [OF reach_new [OF small_node_new]]]) (simp_all add: prod_eq_iff)

definition small_admitted :: hbm where
  "small_admitted = snd (try_admit small_node ''a'' 10 4 True)"

lemmas small_eval = p_need_def d_need_def small_node_sel kv_capacity_default d_bytes_def p_bytes_def
  p_used_bytes_def d_used_bytes_def commit_admission_def update_peaks_def new_admission_def

lemma small_admitted_sel:
  "hb_hardware small_admitted = default_hardware" "hb_p_capacity small_admitted = 400000"
  "hb_d_capacity small_admitted = 400000" "hb_p_by_session small_admitted = [(''a'', 393216)]"
  "hb_d_by_session small_admitted = [(''a'', 393216)]"
  "hb_active_id_by_session small_admitted = [(''a'', 1)]"
  unfolding small_admitted_def
  by (subst try_admit_eq; simp add: small_node_sel default_hw_ok admissible_def small_eval Let_def
      hbm_return_def hbm_check_def)+


text \<open>C19: an admission is all or nothing.  A well-formed request of an idle session is admitted
  exactly when it fits both ranks next to what they hold, in which case the P ledger grows by the
  prompt's blocks and the D ledger of the session becomes the larger of what it held and what the
  request needs; otherwise it is deferred or refused and neither ledger changes.\<close>

theorem hbm_admission_all_or_nothing:
  assumes "hbm_ok h" and "admissible h s i out" and "try_admit h s i out nd = (r, h')"
  shows "(p_need h i + p_used_bytes h \<le> hb_p_capacity h \<and> d_need h i out nd \<le> hb_d_capacity h \<and>
      d_used_bytes h - d_bytes h s + max (d_bytes h s) (d_need h i out nd) \<le> hb_d_capacity h \<longrightarrow>
      r = Inr (Some (new_admission h s i out nd)) \<and> p_bytes h' s = p_need h i \<and>
      d_bytes h' s = max (d_bytes h s) (d_need h i out nd) \<and>
      (\<forall>t. t \<noteq> s \<longrightarrow> p_bytes h' t = p_bytes h t \<and> d_bytes h' t = d_bytes h t)) \<and>
    ((\<nexists>a. r = Inr (Some a)) \<longrightarrow> hb_p_by_session h' = hb_p_by_session h \<and>
      hb_d_by_session h' = hb_d_by_session h \<and> hb_active_by_id h' = hb_active_by_id h) \<and>
    (\<forall>a. r = Inr (Some a) \<longrightarrow> p_used_bytes h + p_need h i \<le> hb_p_capacity h \<and>
      d_used_bytes h - d_bytes h s + max (d_bytes h s) (d_need h i out nd) \<le> hb_d_capacity h)"
proof -
  have pd: "0 \<le> p_used_bytes h" using assms(1) dpos_sum by (auto simp: hbm_ok_def p_used_bytes_def)
  show ?thesis
  proof (cases rule: try_admit_result [OF assms(1,2), of nd])
    case 1
    with assms(3) pd show ?thesis by auto
  next
    case 2
    with assms(3) pd show ?thesis by auto
  next
    case 3
    with assms(3) show ?thesis by (auto simp: commit_views)
  qed
qed

text \<open>The small node again: its first request is admitted.\<close>

theorem hbm_admission_all_or_nothing_witness:
  "p_bytes small_admitted ''a'' = 393216 \<and> d_bytes small_admitted ''b'' = 0"
proof -
  have adm: "admissible small_node ''a'' 10 4" by (simp add: admissible_def small_node_sel)
  show ?thesis
    using hbm_admission_all_or_nothing [OF new_hbm_ok [OF small_node_new] adm
        surjective_pairing [of "try_admit small_node ''a'' 10 4 True"]]
    by (simp add: small_eval small_admitted_def [symmetric])
qed

text \<open>C20: cancelling an admission right after taking it gives back exactly what each session held
  before, on both ranks, and the node is as idle as it was.\<close>

theorem hbm_cancel_restores:
  assumes "hbm_ok h" and "admissible h s i out"
    and "try_admit h s i out nd = (Inr (Some a), h1)" and "cancel h1 a = (r, h2)"
  shows "r = Inr () \<and> (\<forall>t. p_bytes h2 t = p_bytes h t \<and> d_bytes h2 t = d_bytes h t \<and>
    dget (hb_active_id_by_session h2) t = dget (hb_active_id_by_session h) t) \<and>
    (\<forall>j. dget (hb_active_by_id h2) j = dget (hb_active_by_id h) j)"
proof -
  note ok = assms(1)
  from try_admit_result [OF ok assms(2), of nd] assms(3) obtain m
    where a: "a = new_admission h s i out nd"
      and h1: "h1 = commit_admission a (h\<lparr>hb_metrics := m\<rparr>)" and ok1: "hbm_ok h1"
    by cases auto
  have act: "dget (hb_active_by_id h1) (ad_admission_id a) = Some a"
    and held: "d_bytes h1 (ad_session_id a) = ad_d_held a"
    unfolding h1 by (simp_all add: commit_admission_def update_peaks_def d_bytes_def)
  from cancel_result(1) [OF ok1 act held] assms(4) obtain m'
    where r: "r = Inr ()" and h2: "h2 = (drop_admission a (ad_prior_d a) h1)\<lparr>hb_metrics := m'\<rparr>" by auto
  have idle: "dget (hb_active_id_by_session h) s = None" using assms(2) by (simp add: admissible_def)
  have nop: "dget (hb_p_by_session h) s = None" using ok idle by (auto simp: hbm_ok_def)
  have fresh: "dget (hb_active_by_id h) (hb_next_admission_id h) = None"
    using hbm_ok_active [OF ok, of "hb_next_admission_id h"]
    by (cases "dget (hb_active_by_id h) (hb_next_admission_id h)") (auto simp: admission_ok_def)
  show ?thesis
    using idle nop fresh r unfolding h2 h1 a
    by (auto simp: drop_views commit_views p_bytes_def [of h])
qed

theorem hbm_cancel_restores_witness:
  "\<exists>a h2. try_admit small_node ''a'' 10 4 True = (Inr (Some a), small_admitted) \<and>
     cancel small_admitted a = (Inr (), h2) \<and> d_bytes h2 ''a'' = 0"
proof -
  have adm: "admissible small_node ''a'' 10 4" by (simp add: admissible_def small_node_sel)
  have "try_admit small_node ''a'' 10 4 True
      = (Inr (Some (new_admission small_node ''a'' 10 4 True)), small_admitted)"
    unfolding small_admitted_def
    by (subst (1 2) try_admit_eq) (simp_all add: small_node_sel default_hw_ok admissible_def
        small_eval Let_def hbm_return_def hbm_check_def)
  then obtain a where a: "try_admit small_node ''a'' 10 4 True = (Inr (Some a), small_admitted)" by blast
  from hbm_cancel_restores [OF new_hbm_ok [OF small_node_new] adm a
      surjective_pairing [of "cancel small_admitted a"]]
  have "fst (cancel small_admitted a) = Inr ()" "d_bytes (snd (cancel small_admitted a)) ''a'' = 0"
    by (simp_all add: d_bytes_def small_node_sel)
  with a show ?thesis by (metis surjective_pairing)
qed

text \<open>C21: finishing an active admission always succeeds; it gives back the prompt's P bytes and the
  admission, keeps the final context on D exactly when the session has a successor, and touches no
  other session.\<close>

theorem hbm_finish_effect:
  assumes "hbm_ok h" and "dget (hb_active_by_id h) (ad_admission_id a) = Some a"
    and "finish h a has_successor = (r, h')"
  shows "r = Inr () \<and> p_bytes h' (ad_session_id a) = 0 \<and>
    d_bytes h' (ad_session_id a) = (if has_successor then ad_d_target a else 0) \<and>
    dget (hb_active_id_by_session h') (ad_session_id a) = None \<and>
    dget (hb_active_by_id h') (ad_admission_id a) = None \<and>
    (\<forall>t. t \<noteq> ad_session_id a \<longrightarrow> p_bytes h' t = p_bytes h t \<and> d_bytes h' t = d_bytes h t \<and>
       dget (hb_active_id_by_session h') t = dget (hb_active_id_by_session h) t)"
  using finish_result(1) [OF assms(1,2), of has_successor] assms(3) by (auto simp: drop_views)

theorem hbm_finish_effect_witness:
  "\<exists>a h'. finish small_admitted a True = (Inr (), h') \<and> ad_session_id a = ''a'' \<and>
     p_bytes h' ''a'' = 0 \<and> d_bytes h' ''a'' = 393216"
proof -
  let ?a = "new_admission small_node ''a'' 10 4 True"
  have adm: "admissible small_node ''a'' 10 4" by (simp add: admissible_def small_node_sel)
  have "\<exists>m. small_admitted = commit_admission ?a (small_node\<lparr>hb_metrics := m\<rparr>)"
    unfolding small_admitted_def
    by (cases rule: try_admit_result [OF new_hbm_ok [OF small_node_new] adm, of True])
      (auto simp: small_eval)
  then obtain m where m: "small_admitted = commit_admission ?a (small_node\<lparr>hb_metrics := m\<rparr>)" ..
  have act: "dget (hb_active_by_id small_admitted) (ad_admission_id ?a) = Some ?a"
    unfolding m by (simp add: commit_views)
  have ok: "hbm_ok small_admitted"
    unfolding small_admitted_def
    by (rule hbm_reach_ok, rule reach_admit [OF reach_new [OF small_node_new]]) (simp add: prod_eq_iff)
  from hbm_finish_effect [OF ok act surjective_pairing [of "finish small_admitted ?a True"]]
  have "finish small_admitted ?a True = (Inr (), snd (finish small_admitted ?a True))"
    "p_bytes (snd (finish small_admitted ?a True)) ''a'' = 0"
    "d_bytes (snd (finish small_admitted ?a True)) ''a'' = 393216"
    by (simp_all add: prod_eq_iff d_need_def small_node_sel kv_capacity_default)
  then show ?thesis by (intro exI [of _ ?a] exI [of _ "snd (finish small_admitted ?a True)"]) simp
qed

section \<open>Cancelling after the source was released\<close>

text \<open>
  \<^verbatim>\<open>cancel\<close> writes the admission's prior D bytes back whatever the session holds by then.  After
  \<^verbatim>\<open>release_d_source\<close> has shrunk the reservation, another session may have taken the room.
\<close>

lemma used_views:
  assumes "hbm_ok h"
  shows "d_used_bytes (commit_admission a h) = d_used_bytes h - d_bytes h (ad_session_id a) + ad_d_held a"
    and "p_used_bytes (commit_admission a h) = p_used_bytes h - p_bytes h (ad_session_id a) + ad_p_bytes a"
    and "d_used_bytes (drop_admission a v h) = d_used_bytes h - d_bytes h (ad_session_id a) + v"
    and "p_used_bytes (drop_admission a v h) = p_used_bytes h - p_bytes h (ad_session_id a)"
  using assms by (simp_all add: hbm_ok_def commit_admission_def update_peaks_def drop_admission_def
      d_used_bytes_def p_used_bytes_def d_bytes_def p_bytes_def)

lemma cancel_overcommits:
  assumes ok: "hbm_ok h" and act: "dget (hb_active_by_id h) (ad_admission_id a) = Some a"
    and over: "hb_d_capacity h < d_used_bytes h - d_bytes h (ad_session_id a) + ad_prior_d a"
  shows "fst (cancel h a) = Inl (AssertionError ''D HBM capacity invariant failed'')"
proof -
  let ?h = "drop_admission a (ad_prior_d a) h"
  have dp: "dpos (hb_p_by_session h)" using ok by (simp add: hbm_ok_def)
  have p: "0 \<le> p_used_bytes ?h" "p_used_bytes ?h \<le> hb_p_capacity ?h"
    using dpos_sum [OF dpos_dpop [OF dp]] ok dpos_get_or [OF dp, of "ad_session_id a"]
    by (simp_all add: used_views [OF ok] drop_admission_sel p_used_bytes_def p_bytes_def hbm_ok_def)
  have d: "hb_d_capacity ?h < d_used_bytes ?h"
    using over by (simp add: used_views [OF ok] drop_admission_sel)
  let ?m = "(hb_metrics h)\<lparr>hm_cancellations := hm_cancellations (hb_metrics h) + 1\<rparr>"
  have "cancel h a = hbm_return () (?h\<lparr>hb_metrics := ?m\<rparr>)"
    using act by (simp add: cancel_def require_active_def drop_admission_def)
  with p d show ?thesis
    by (simp add: hbm_return_def hbm_check_def p_used_bytes_def d_used_bytes_def)
qed

lemma try_admit_fits:
  assumes ok: "hbm_ok h" and adm: "admissible h s i out"
    and fits: "p_used_bytes h + p_need h i \<le> hb_p_capacity h"
      "d_used_bytes h - d_bytes h s + max (d_bytes h s) (d_need h i out nd) \<le> hb_d_capacity h"
  obtains m where "try_admit h s i out nd = (Inr (Some (new_admission h s i out nd)),
      commit_admission (new_admission h s i out nd) (h\<lparr>hb_metrics := m\<rparr>))"
proof -
  have pd: "0 \<le> p_used_bytes h" "dpos (hb_d_by_session h)"
    using ok dpos_sum by (auto simp: hbm_ok_def p_used_bytes_def)
  have "d_bytes h s \<le> d_used_bytes h"
    using dpos_get_le_sum [OF pd(2)] by (simp add: d_bytes_def d_used_bytes_def)
  then have "\<not> (p_need h i > hb_p_capacity h \<or> d_need h i out nd > hb_d_capacity h)"
    using fits pd(1) by linarith
  with fits that show thesis
    by (cases rule: try_admit_result [OF ok adm, of nd]) auto
qed

definition two_block_node :: hbm where
  "two_block_node = projr (new_hbm default_hardware 0 (Some 800000) (Some 800000))"

lemma two_block_node_new: "new_hbm default_hardware 0 (Some 800000) (Some 800000) = Inr two_block_node"
  using default_usable default_hw_ok by (auto simp: two_block_node_def new_hbm_def hw_ok_def)

lemma two_block_node_sel:
  "hb_hardware two_block_node = default_hardware" "hb_p_capacity two_block_node = 800000"
  "hb_d_capacity two_block_node = 800000" "hb_p_by_session two_block_node = []"
  "hb_d_by_session two_block_node = []" "hb_active_by_id two_block_node = []"
  "hb_active_id_by_session two_block_node = []" "hb_next_admission_id two_block_node = 1"
  using default_usable default_hw_ok by (auto simp: two_block_node_def new_hbm_def hw_ok_def)

text \<open>A node where session \<open>a\<close> keeps two idle blocks, and one where it was re-admitted for a single
  block and released the rest.\<close>

definition kept_two :: "hbm \<Rightarrow> bool" where
  "kept_two h \<longleftrightarrow> hbm_reach h \<and> hb_hardware h = default_hardware \<and> hb_p_capacity h = 800000 \<and> hb_d_capacity h = 800000 \<and>
     p_used_bytes h = 0 \<and> d_used_bytes h = 786432 \<and> d_bytes h ''a'' = 786432 \<and> p_bytes h ''a'' = 0 \<and>
     d_bytes h ''b'' = 0 \<and> dget (hb_active_id_by_session h) ''b'' = None \<and>
     dget (hb_active_id_by_session h) ''a'' = None"

definition released_one :: "hbm \<Rightarrow> admission \<Rightarrow> bool" where
  "released_one h a \<longleftrightarrow> hbm_reach h \<and> hb_hardware h = default_hardware \<and> hb_p_capacity h = 800000 \<and> hb_d_capacity h = 800000 \<and>
     p_used_bytes h = 393216 \<and> d_used_bytes h = 393216 \<and> d_bytes h ''a'' = 393216 \<and> p_bytes h ''a'' = 393216 \<and>
     d_bytes h ''b'' = 0 \<and> dget (hb_active_id_by_session h) ''b'' = None \<and>
     dget (hb_active_by_id h) (ad_admission_id a) = Some a \<and> ad_session_id a = ''a'' \<and>
     ad_prior_d a = 786432"

lemma kept_two_ex: "\<exists>h. kept_two h"
proof -
  note need = p_need_def d_need_def kv_capacity_default
  define h0 where "h0 = two_block_node"
  have r0: "hbm_reach h0" unfolding h0_def by (rule reach_new [OF two_block_node_new])
  note ok0 = hbm_reach_ok [OF r0]
  note sel = two_block_node_sel [folded h0_def]
  have f0: "admissible h0 ''a'' 20 4" "p_used_bytes h0 = 0" "d_used_bytes h0 = 0" "\<And>t. d_bytes h0 t = 0"
    "\<And>t. p_bytes h0 t = 0"
    by (simp_all add: admissible_def sel p_bytes_def p_used_bytes_def d_used_bytes_def d_bytes_def)
  define a1 where "a1 = new_admission h0 ''a'' 20 4 True"
  obtain m1 where e1: "try_admit h0 ''a'' 20 4 True = (Inr (Some a1), commit_admission a1 (h0\<lparr>hb_metrics := m1\<rparr>))"
    unfolding a1_def by (rule try_admit_fits [OF ok0 f0(1), of True]) (simp_all add: f0 sel need)
  define h1 where "h1 = commit_admission a1 (h0\<lparr>hb_metrics := m1\<rparr>)"
  have r1: "hbm_reach h1" using reach_admit [OF r0 e1] by (simp add: h1_def)
  note ok1 = hbm_reach_ok [OF r1]
  have act1: "dget (hb_active_by_id h1) (ad_admission_id a1) = Some a1"
    by (simp add: h1_def commit_views)
  have f1: "hb_hardware h1 = default_hardware" "hb_p_capacity h1 = 800000" "hb_d_capacity h1 = 800000"
    "hb_next_admission_id h1 = 2" "d_used_bytes h1 = 786432" "p_used_bytes h1 = 786432"
    "p_bytes h1 ''a'' = 786432" "d_bytes h1 ''a'' = 786432" "ad_session_id a1 = ''a''"
    "ad_d_target a1 = 786432" "d_bytes h1 ''b'' = 0" "dget (hb_active_id_by_session h1) ''b'' = None"
    using ok0 f0 by (simp_all add: h1_def commit_sel commit_views used_views sel a1_def need)
  obtain m2 where e2: "finish h1 a1 True = (Inr (), (drop_admission a1 (ad_d_target a1) h1)\<lparr>hb_metrics := m2\<rparr>)"
    using finish_result(1) [OF ok1 act1, of True] by auto
  define h2 where "h2 = (drop_admission a1 (ad_d_target a1) h1)\<lparr>hb_metrics := m2\<rparr>"
  have r2: "hbm_reach h2" using reach_finish [OF r1 e2] by (simp add: h2_def)
  note ok2 = hbm_reach_ok [OF r2]
  have f2: "hb_hardware h2 = default_hardware" "hb_p_capacity h2 = 800000" "hb_d_capacity h2 = 800000"
    "hb_next_admission_id h2 = 2" "d_used_bytes h2 = 786432" "p_used_bytes h2 = 0"
    "d_bytes h2 ''a'' = 786432" "d_bytes h2 ''b'' = 0" "p_bytes h2 ''a'' = 0"
    "dget (hb_active_id_by_session h2) ''a'' = None" "dget (hb_active_id_by_session h2) ''b'' = None"
    using ok1 f1 by (simp_all add: h2_def drop_admission_sel drop_views used_views)
  have "kept_two h2" using r2 f2 by (simp add: kept_two_def)
  then show ?thesis ..
qed

lemma released_one_ex:
  assumes "kept_two h2"
  shows "\<exists>h a. released_one h a"
proof -
  note need = p_need_def d_need_def kv_capacity_default
  note f2 = assms [unfolded kept_two_def]
  from f2 have r2: "hbm_reach h2" by blast
  note ok2 = hbm_reach_ok [OF r2]
  have adm2: "admissible h2 ''a'' 10 4" using f2 by (simp add: admissible_def)
  define a2 where "a2 = new_admission h2 ''a'' 10 4 True"
  obtain m3 where e3: "try_admit h2 ''a'' 10 4 True = (Inr (Some a2), commit_admission a2 (h2\<lparr>hb_metrics := m3\<rparr>))"
    unfolding a2_def by (rule try_admit_fits [OF ok2 adm2, of True]) (simp_all add: f2 need)
  define h3 where "h3 = commit_admission a2 (h2\<lparr>hb_metrics := m3\<rparr>)"
  have r3: "hbm_reach h3" using reach_admit [OF r2 e3] by (simp add: h3_def)
  note ok3 = hbm_reach_ok [OF r3]
  have a2: "ad_session_id a2 = ''a''" "ad_d_target a2 = 393216" "ad_prior_d a2 = 786432"
    "ad_d_held a2 = 786432" "ad_p_bytes a2 = 393216"
    by (simp_all add: a2_def f2 need)
  have act3: "dget (hb_active_by_id h3) (ad_admission_id a2) = Some a2"
    by (simp add: h3_def commit_views)
  have f3: "hb_hardware h3 = default_hardware" "hb_p_capacity h3 = 800000" "hb_d_capacity h3 = 800000"
    "d_used_bytes h3 = 786432" "p_used_bytes h3 = 393216" "d_bytes h3 ''a'' = 786432"
    "d_bytes h3 ''b'' = 0" "p_bytes h3 ''a'' = 393216" "dget (hb_active_id_by_session h3) ''b'' = None"
    using ok2 f2 a2 by (simp_all add: h3_def commit_sel commit_views used_views)
  have wf3: "dwf (hb_d_by_session h3)" using ok3 dpos_dwf by (auto simp only: hbm_ok_def)
  define h4 where "h4 = h3\<lparr>hb_d_by_session := dput ''a'' 393216 (hb_d_by_session h3)\<rparr>"
  have h4_ok: "hbm_ok h4" using release_d_ok_state [OF ok3 act3] by (simp add: a2 h4_def)
  have e4: "release_d_source h3 a2 = (Inr (), h4\<lparr>hb_metrics := (hb_metrics h3)
      \<lparr>hm_d_source_releases := hm_d_source_releases (hb_metrics h3) + 1\<rparr>\<rparr>)"
    using act3 f3 h4_ok by (simp add: release_d_source_def require_active_def a2 h4_def hbm_return_ok)
  define h5 where "h5 = h4\<lparr>hb_metrics := (hb_metrics h3)
      \<lparr>hm_d_source_releases := hm_d_source_releases (hb_metrics h3) + 1\<rparr>\<rparr>"
  have r5: "hbm_reach h5" using reach_release_d [OF r3 e4] by (simp add: h5_def)
  note ok5 = hbm_reach_ok [OF r5]
  have f5: "hb_hardware h5 = default_hardware" "hb_p_capacity h5 = 800000" "hb_d_capacity h5 = 800000"
    "d_used_bytes h5 = 393216" "p_used_bytes h5 = 393216" "d_bytes h5 ''a'' = 393216"
    "d_bytes h5 ''b'' = 0" "p_bytes h5 ''a'' = 393216"
    "dget (hb_active_id_by_session h5) ''b'' = None"
    "dget (hb_active_by_id h5) (ad_admission_id a2) = Some a2"
    using wf3 f3 act3 by (simp_all add: h5_def h4_def p_bytes_def d_bytes_def p_used_bytes_def
        d_used_bytes_def)
  have "released_one h5 a2" using r5 f5 a2 by (simp add: released_one_def)
  then show ?thesis by blast
qed

text \<open>C22: the guard in \<open>hbm_reach\<close> is needed: with two blocks per rank, a session that kept two
  blocks, was re-admitted for one and released its source can no longer be cancelled once another
  session was admitted: \<^verbatim>\<open>cancel\<close> overcommits D and raises \<^verbatim>\<open>AssertionError\<close>.\<close>

theorem hbm_cancel_after_release:
  "\<exists>h a. hbm_reach h \<and> dget (hb_active_by_id h) (ad_admission_id a) = Some a \<and>
     fst (cancel h a) = Inl (AssertionError ''D HBM capacity invariant failed'')"
proof -
  obtain h5 a2 where r: "released_one h5 a2" using kept_two_ex released_one_ex by blast
  note f5 = r [unfolded released_one_def]
  from f5 have r5: "hbm_reach h5" and a5: "dget (hb_active_by_id h5) (ad_admission_id a2) = Some a2"
    by blast+
  note ok5 = hbm_reach_ok [OF r5]
  note need = p_need_def d_need_def kv_capacity_default
  have adm5: "admissible h5 ''b'' 10 4" using f5 by (simp add: admissible_def)
  define b where "b = new_admission h5 ''b'' 10 4 True"
  obtain m6 where e6: "try_admit h5 ''b'' 10 4 True = (Inr (Some b), commit_admission b (h5\<lparr>hb_metrics := m6\<rparr>))"
    unfolding b_def by (rule try_admit_fits [OF ok5 adm5, of True]) (simp_all add: f5 need)
  define h6 where "h6 = commit_admission b (h5\<lparr>hb_metrics := m6\<rparr>)"
  have r6: "hbm_reach h6" using reach_admit [OF r5 e6] by (simp add: h6_def)
  note ok6 = hbm_reach_ok [OF r6]
  have new: "ad_admission_id a2 \<noteq> ad_admission_id b"
    using hbm_ok_active [OF ok5 a5] by (auto simp: admission_ok_def b_def)
  have f6: "dget (hb_active_by_id h6) (ad_admission_id a2) = Some a2" "hb_d_capacity h6 = 800000"
    "d_used_bytes h6 = 786432" "d_bytes h6 ''a'' = 393216"
    using ok5 f5 new by (simp_all add: h6_def commit_sel commit_views used_views) (simp_all add: b_def f5 need)
  have "fst (cancel h6 a2) = Inl (AssertionError ''D HBM capacity invariant failed'')"
    by (rule cancel_overcommits [OF ok6 f6(1)]) (simp add: f6 f5)
  with r6 f6(1) show ?thesis by blast
qed

end
