(* ===== verification/PD_Pool.thy ===== *)
theory PD_Pool
  imports PD_Latency Resource_Calendar
begin

text \<open>
  \<^verbatim>\<open>serving/core/gpu_pd_pool.py\<close>: continuous batching on one P4D4 node.  A prefill worker and a
  decode worker each run one batch at a time; a request goes through prefill chunks, a P-to-D
  handoff of its KV cache, and one decode step per remaining output token.  The theory holds the
  pool's state and every operation, with its event loop; \<^verbatim>\<open>PD_Pool_Invariant\<close> proves them correct.
\<close>

section \<open>Requests, batches and workers\<close>

datatype request_state = WAITING_P | P_PREFILL | HANDOFF | D_DECODE | COMPLETE

record request =
  rq_request_id :: int
  rq_session_id :: string
  rq_arrival_ns :: int
  rq_input_tokens :: int
  rq_output_tokens :: int
  rq_p_prefix_tokens :: int
  rq_d_prefix_tokens :: int
  rq_has_successor :: bool
  rq_restore_layer_ready_ns :: "int list"
  rq_state :: request_state
  rq_p_processed_tokens :: int
  rq_generated_tokens :: int
  rq_first_scheduled_ns :: "int option"
  rq_first_token_ns :: "int option"
  rq_completion_ns :: "int option"
  rq_handoff_start_ns :: "int option"
  rq_handoff_completion_ns :: "int option"
  rq_handoff_done :: bool
  rq_token_completion_ns :: "int list"
  rq_p_batch_count :: int
  rq_d_batch_count :: int
  rq_stage_ready_ns :: "int option"

definition new_request ::
  "int \<Rightarrow> string \<Rightarrow> int \<Rightarrow> int \<Rightarrow> int \<Rightarrow> int \<Rightarrow> int \<Rightarrow> bool \<Rightarrow> int list \<Rightarrow> request" where
  "new_request request_id session_id arrival input_tokens output_tokens p_prefix d_prefix
     has_successor restore =
     \<lparr>rq_request_id = request_id, rq_session_id = session_id, rq_arrival_ns = arrival,
      rq_input_tokens = input_tokens, rq_output_tokens = output_tokens,
      rq_p_prefix_tokens = p_prefix, rq_d_prefix_tokens = d_prefix,
      rq_has_successor = has_successor, rq_restore_layer_ready_ns = restore,
      rq_state = WAITING_P, rq_p_processed_tokens = 0, rq_generated_tokens = 0,
      rq_first_scheduled_ns = None, rq_first_token_ns = None, rq_completion_ns = None,
      rq_handoff_start_ns = None, rq_handoff_completion_ns = None, rq_handoff_done = False,
      rq_token_completion_ns = [], rq_p_batch_count = 0, rq_d_batch_count = 0,
      rq_stage_ready_ns = None\<rparr>"

fun restore_nondecreasing :: "int \<Rightarrow> int list \<Rightarrow> bool" where
  "restore_nondecreasing previous [] = True"
| "restore_nondecreasing previous (ready # rs) =
     (if ready < previous then False else restore_nondecreasing ready rs)"

definition pristine :: "request \<Rightarrow> bool" where
  "pristine r \<longleftrightarrow>
     rq_state r = WAITING_P \<and> rq_p_processed_tokens r = 0 \<and> rq_generated_tokens r = 0 \<and>
     rq_first_scheduled_ns r = None \<and> rq_first_token_ns r = None \<and> rq_completion_ns r = None \<and>
     rq_handoff_start_ns r = None \<and> rq_handoff_completion_ns r = None \<and> \<not> rq_handoff_done r \<and>
     rq_token_completion_ns r = [] \<and> rq_p_batch_count r = 0 \<and> rq_d_batch_count r = 0 \<and>
     rq_stage_ready_ns r = None"

definition validate_request :: "request \<Rightarrow> exn option" where
  "validate_request r =
     (if rq_request_id r < 0 \<or> rq_arrival_ns r < 0
      then Some (ValueError ''request_id/arrival_ns must be non-negative'')
      else if rq_input_tokens r \<le> 0 \<or> rq_output_tokens r \<le> 0
      then Some (ValueError ''input/output tokens must be positive'')
      else if \<not> (0 \<le> rq_p_prefix_tokens r \<and> rq_p_prefix_tokens r \<le> rq_input_tokens r)
      then Some (ValueError ''P prefix must be in 0..input_tokens'')
      else if \<not> (0 \<le> rq_d_prefix_tokens r \<and> rq_d_prefix_tokens r \<le> rq_input_tokens r)
      then Some (ValueError ''D prefix must be in 0..input_tokens'')
      else if rq_input_tokens r + rq_output_tokens r - 1 > 1010000
      then Some (ValueError ''request output would exceed 1,010,000-token contract'')
      else if rq_session_id r = [] then Some (ValueError ''session_id must be non-empty'')
      else if rq_restore_layer_ready_ns r \<noteq> []
              \<and> int (length (rq_restore_layer_ready_ns r)) \<noteq> QWEN_LAYERS
      then Some (ValueError ''streaming restore must provide one ready timestamp per transformer layer'')
      else if \<not> restore_nondecreasing (rq_arrival_ns r) (rq_restore_layer_ready_ns r)
      then Some (ValueError ''restore layer readiness must be nondecreasing integer timestamps at or after arrival'')
      else if \<not> pristine r then Some (ValueError ''submitted P/D request must be pristine'')
      else None)"

definition operational_p_prefix_tokens :: "request \<Rightarrow> int" where
  "operational_p_prefix_tokens r = min (rq_p_prefix_tokens r) (rq_input_tokens r - 1)"

definition p_fresh_tokens :: "request \<Rightarrow> int" where
  "p_fresh_tokens r = rq_input_tokens r - operational_p_prefix_tokens r"

definition p_remaining_tokens :: "request \<Rightarrow> int" where
  "p_remaining_tokens r = p_fresh_tokens r - rq_p_processed_tokens r"

definition handoff_tokens :: "request \<Rightarrow> int" where
  "handoff_tokens r = rq_input_tokens r - rq_d_prefix_tokens r"

definition final_materialized_kv_tokens :: "request \<Rightarrow> int" where
  "final_materialized_kv_tokens r = rq_input_tokens r + rq_output_tokens r - 1"

definition ttft_ns :: "request \<Rightarrow> int option" where
  "ttft_ns r = (case rq_first_token_ns r of None \<Rightarrow> None | Some t \<Rightarrow> Some (t - rq_arrival_ns r))"

definition tpot_ns :: "request \<Rightarrow> exn + rat option" where
  "tpot_ns r =
     (if rq_output_tokens r = 1 then Inr None
      else case rq_completion_ns r of
        None \<Rightarrow> Inr None
      | Some c \<Rightarrow>
          (case rq_first_token_ns r of
             None \<Rightarrow> Inl (AssertionError [])
           | Some t \<Rightarrow> Inr (Some (fdiv (of_int (c - t)) (of_int (rq_output_tokens r - 1))))))"

text \<open>The stages are the strings \<^verbatim>\<open>"p"\<close> and \<^verbatim>\<open>"d"\<close>; heap entries compare them as strings.\<close>

datatype stage = D | P

fun stage_name :: "stage \<Rightarrow> string" where
  "stage_name P = ''p''"
| "stage_name D = ''d''"

instantiation stage :: linorder
begin

definition less_eq_stage :: "stage \<Rightarrow> stage \<Rightarrow> bool" where
  "less_eq_stage s t \<longleftrightarrow> stage_name s \<le> stage_name t"

definition less_stage :: "stage \<Rightarrow> stage \<Rightarrow> bool" where
  "less_stage s t \<longleftrightarrow> stage_name s < stage_name t"

instance
proof
  fix s t u :: stage
  show "(s < t) = (s \<le> t \<and> \<not> t \<le> s)" by (auto simp: less_eq_stage_def less_stage_def)
  show "s \<le> s" by (simp add: less_eq_stage_def)
  show "s \<le> t \<Longrightarrow> t \<le> u \<Longrightarrow> s \<le> u" by (auto simp: less_eq_stage_def)
  show "s \<le> t \<Longrightarrow> t \<le> s \<Longrightarrow> s = t"
    by (cases s; cases t) (auto simp: less_eq_stage_def)
  show "s \<le> t \<or> t \<le> s" by (auto simp: less_eq_stage_def)
qed

end

record batch_item =
  bi_request_id :: int
  bi_query_tokens :: int

record serving_batch =
  sb_batch_id :: int
  sb_stage :: stage
  sb_ready_ns :: int
  sb_restore_gate_ns :: int
  sb_start_ns :: int
  sb_completion_ns :: int
  sb_items :: "batch_item list"
  sb_shape :: batch_shape
  sb_latency :: gpu_batch_latency

record handoff_job =
  hj_job_id :: int
  hj_request_id :: int
  hj_token_count :: int
  hj_bytes_per_rank :: int
  hj_aggregate_bytes :: int
  hj_ready_ns :: int
  hj_start_ns :: int
  hj_completion_ns :: int

record worker =
  pw_waiting :: "int list"
  pw_inflight :: "serving_batch option"
  pw_pending_launch_ns :: "int option"
  pw_completed_batches :: int

record pool_metrics =
  pm_submitted_requests :: int
  pm_completed_requests :: int
  pm_p_batches :: int
  pm_d_batches :: int
  pm_p_query_tokens :: int
  pm_d_query_tokens :: int
  pm_p_modeled_ns :: int
  pm_d_modeled_ns :: int
  pm_p_resource_delay_ns :: int
  pm_streaming_restore_requests :: int
  pm_p_streaming_batches :: int
  pm_p_restore_gate_delay_ns :: int
  pm_d_resource_delay_ns :: int
  pm_handoff_jobs :: int
  pm_zero_byte_handoffs :: int
  pm_handoff_bytes_per_rank :: int
  pm_handoff_aggregate_bytes :: int
  pm_handoff_service_ns :: int
  pm_handoff_exposed_ns :: int
  pm_handoff_overlap_hidden_ns :: int
  pm_handoff_queue_delay_ns :: int
  pm_max_p_batch_size :: int
  pm_max_d_batch_size :: int

section \<open>The pool\<close>

record pool =
  pl_hardware :: hardware
  pl_provider :: provider
  pl_node_id :: int
  pl_calendar :: calendar
  pl_max_num_batched_tokens :: int
  pl_max_num_seqs :: int
  pl_p_max_num_seqs :: int
  pl_d_max_num_seqs :: int
  pl_max_prefill_chunk_tokens :: int
  pl_handoff_overlap :: string
  pl_validate_every_event :: bool
  pl_retain_detailed_history :: bool
  pl_p_worker :: worker
  pl_d_worker :: worker
  pl_requests :: "(int, request) dict"
  pl_current_request_by_session :: "(string, int) dict"
  pl_metrics :: pool_metrics
  pl_batch_history :: "serving_batch list"
  pl_handoff_history :: "handoff_job list"
  pl_completed_request_ids :: "int list"
  pl_completed_handoff_request_ids :: "int list"
  pl_batch_completion_heap :: "(int \<times> stage \<times> int) list"
  pl_handoff_completion_heap :: "(int \<times> int \<times> int) list"
  pl_handoff_jobs :: "(int, handoff_job) dict"
  pl_launch_heap :: "(int \<times> stage) list"
  pl_next_batch_id :: int
  pl_next_handoff_id :: int
  pl_current_ns :: int

definition new_worker :: worker where
  "new_worker = \<lparr>pw_waiting = [], pw_inflight = None, pw_pending_launch_ns = None,
     pw_completed_batches = 0\<rparr>"

definition new_pool_metrics :: pool_metrics where
  "new_pool_metrics =
     \<lparr>pm_submitted_requests = 0, pm_completed_requests = 0, pm_p_batches = 0, pm_d_batches = 0,
      pm_p_query_tokens = 0, pm_d_query_tokens = 0, pm_p_modeled_ns = 0, pm_d_modeled_ns = 0,
      pm_p_resource_delay_ns = 0, pm_streaming_restore_requests = 0, pm_p_streaming_batches = 0,
      pm_p_restore_gate_delay_ns = 0, pm_d_resource_delay_ns = 0, pm_handoff_jobs = 0,
      pm_zero_byte_handoffs = 0, pm_handoff_bytes_per_rank = 0, pm_handoff_aggregate_bytes = 0,
      pm_handoff_service_ns = 0, pm_handoff_exposed_ns = 0, pm_handoff_overlap_hidden_ns = 0,
      pm_handoff_queue_delay_ns = 0, pm_max_p_batch_size = 0, pm_max_d_batch_size = 0\<rparr>"

text \<open>The constructor; \<^verbatim>\<open>_default\<close> arguments are the caller's.\<close>

fun stage_limit_error :: "string \<Rightarrow> int \<Rightarrow> exn option" where
  "stage_limit_error stage resolved =
     (if resolved \<le> 0 then Some (ValueError (stage @ ''_max_num_seqs must be a positive integer''))
      else if resolved > 128
      then Some (ValueError (stage @ ''_max_num_seqs exceeds calibrated support''))
      else None)"

definition new_pool_error ::
  "hardware \<Rightarrow> int \<Rightarrow> int \<Rightarrow> int \<Rightarrow> int \<Rightarrow> int \<Rightarrow> int \<Rightarrow> string \<Rightarrow> exn option" where
  "new_pool_error hw node_id budget seqs p_seqs d_seqs chunk overlap =
     (case validate_hardware hw of
        Some e \<Rightarrow> Some e
      | None \<Rightarrow>
        if overlap \<notin> {''serialized'', ''layerwise''}
        then Some (ValueError ''handoff_overlap must be one of serialized, layerwise'')
        else if node_id < 0 then Some (ValueError ''node_id must be non-negative'')
        else if budget \<le> 0
        then Some (ValueError ''max_num_batched_tokens must be a positive integer'')
        else if seqs \<le> 0 then Some (ValueError ''max_num_seqs must be a positive integer'')
        else if chunk \<le> 0
        then Some (ValueError ''max_prefill_chunk_tokens must be a positive integer'')
        else if seqs > 128 then Some (ValueError ''max_num_seqs exceeds calibrated support'')
        else case stage_limit_error ''p'' p_seqs of
          Some e \<Rightarrow> Some e
        | None \<Rightarrow>
          (case stage_limit_error ''d'' d_seqs of
             Some e \<Rightarrow> Some e
           | None \<Rightarrow>
             if \<not> (0 < chunk \<and> chunk \<le> budget)
             then Some (ValueError ''max_prefill_chunk_tokens must be in 1..token budget'')
             else if chunk > 131072
             then Some (ValueError ''max_prefill_chunk_tokens exceeds calibrated support'')
             else None))"

definition new_pool ::
  "hardware \<Rightarrow> provider \<Rightarrow> int \<Rightarrow> calendar option \<Rightarrow> int \<Rightarrow> int \<Rightarrow> int option \<Rightarrow> int option \<Rightarrow> int
     \<Rightarrow> string \<Rightarrow> bool \<Rightarrow> bool \<Rightarrow> exn + pool" where
  "new_pool hw pv node_id cal budget seqs p_seqs d_seqs chunk overlap validate retain =
     (let p_res = (case p_seqs of None \<Rightarrow> seqs | Some v \<Rightarrow> v);
          d_res = (case d_seqs of None \<Rightarrow> seqs | Some v \<Rightarrow> v)
      in case new_pool_error hw node_id budget seqs p_res d_res chunk overlap of
        Some e \<Rightarrow> Inl e
      | None \<Rightarrow> Inr
         \<lparr>pl_hardware = hw, pl_provider = pv, pl_node_id = node_id,
          pl_calendar = (case cal of None \<Rightarrow> new_calendar True | Some c \<Rightarrow> c),
          pl_max_num_batched_tokens = budget, pl_max_num_seqs = seqs, pl_p_max_num_seqs = p_res,
          pl_d_max_num_seqs = d_res, pl_max_prefill_chunk_tokens = chunk,
          pl_handoff_overlap = overlap, pl_validate_every_event = validate,
          pl_retain_detailed_history = retain, pl_p_worker = new_worker,
          pl_d_worker = new_worker, pl_requests = [], pl_current_request_by_session = [],
          pl_metrics = new_pool_metrics, pl_batch_history = [], pl_handoff_history = [],
          pl_completed_request_ids = [], pl_completed_handoff_request_ids = [],
          pl_batch_completion_heap = [], pl_handoff_completion_heap = [], pl_handoff_jobs = [],
          pl_launch_heap = [], pl_next_batch_id = 1, pl_next_handoff_id = 1, pl_current_ns = 0\<rparr>)"

definition worker_of :: "stage \<Rightarrow> pool \<Rightarrow> worker" where
  "worker_of s p = (case s of P \<Rightarrow> pl_p_worker p | D \<Rightarrow> pl_d_worker p)"

definition set_worker :: "stage \<Rightarrow> (worker \<Rightarrow> worker) \<Rightarrow> pool \<Rightarrow> pool" where
  "set_worker s f p =
     (case s of P \<Rightarrow> p\<lparr>pl_p_worker := f (pl_p_worker p)\<rparr> | D \<Rightarrow> p\<lparr>pl_d_worker := f (pl_d_worker p)\<rparr>)"

definition model_resource :: "pool \<Rightarrow> stage \<Rightarrow> string" where
  "model_resource p s = ''gpu-node-'' @ show_int (pl_node_id p) @ ''-'' @ stage_name s @ ''-model''"

definition handoff_resource :: "pool \<Rightarrow> string" where
  "handoff_resource p = ''gpu-node-'' @ show_int (pl_node_id p) @ ''-pd-fabric''"

definition set_request :: "request \<Rightarrow> pool \<Rightarrow> pool" where
  "set_request r p = p\<lparr>pl_requests := dput (rq_request_id r) r (pl_requests p)\<rparr>"

text \<open>\<^verbatim>\<open>self.requests[i]\<close>\<close>

definition get_request :: "pool \<Rightarrow> int \<Rightarrow> exn + request" where
  "get_request p i = (case dget (pl_requests p) i of None \<Rightarrow> Inl KeyError | Some r \<Rightarrow> Inr r)"

definition push_waiting :: "stage \<Rightarrow> int \<Rightarrow> pool \<Rightarrow> pool" where
  "push_waiting s i = set_worker s (\<lambda>w. w\<lparr>pw_waiting := pw_waiting w @ [i]\<rparr>)"

section \<open>Selecting a batch\<close>

text \<open>The loops pop up to \<^verbatim>\<open>waiting_count\<close> requests, while both budgets last.\<close>

fun select_p_loop ::
  "nat \<Rightarrow> int \<Rightarrow> int \<Rightarrow> batch_item list \<Rightarrow> int list \<Rightarrow> pool \<Rightarrow> (batch_item list \<times> int list, pool) outcome"
where
  "select_p_loop 0 token_budget seq_budget items prefill_k p = (Inr (items, prefill_k), p)"
| "select_p_loop (Suc n) token_budget seq_budget items prefill_k p =
     (if token_budget \<le> 0 \<or> seq_budget \<le> 0 then (Inr (items, prefill_k), p)
      else case pw_waiting (pl_p_worker p) of
        [] \<Rightarrow> (Inl IndexError, p)
      | i # rest \<Rightarrow>
          let p = set_worker P (\<lambda>w. w\<lparr>pw_waiting := rest\<rparr>) p in
          andthen (lift_err (get_request p i) p) (\<lambda>r p.
            if rq_state r \<noteq> P_PREFILL
            then (Inl (RuntimeError ''P queue contains non-prefill request''), p)
            else
              let chunk = min (min (p_remaining_tokens r) token_budget) (pl_max_prefill_chunk_tokens p)
              in if chunk \<le> 0
                 then (Inl (RuntimeError ''P request has no remaining prompt work''), p)
                 else select_p_loop n (token_budget - chunk) (seq_budget - 1)
                   (items @ [\<lparr>bi_request_id = i, bi_query_tokens = chunk\<rparr>])
                   (prefill_k @ [operational_p_prefix_tokens r + rq_p_processed_tokens r]) p))"

definition p_shape :: "batch_item list \<Rightarrow> int list \<Rightarrow> batch_shape" where
  "p_shape items prefill_k =
     \<lparr>total_tokens = sum_list (map bi_query_tokens items), prefill_q = map bi_query_tokens items,
      prefill_hbf_k = prefill_k, prefill_lpddr_k = replicate (length items) 0,
      decode_hbf_k = [], decode_lpddr_k = [], lm_head_sequences = int (length items)\<rparr>"

definition select_p_batch :: "pool \<Rightarrow> ((batch_item list \<times> batch_shape) option, pool) outcome" where
  "select_p_batch p =
     andthen (select_p_loop (length (pw_waiting (pl_p_worker p))) (pl_max_num_batched_tokens p)
                (pl_p_max_num_seqs p) [] [] p)
       (\<lambda>(items, prefill_k) p.
          if items = [] then (Inr None, p) else (Inr (Some (items, p_shape items prefill_k)), p))"

fun select_d_loop ::
  "nat \<Rightarrow> int \<Rightarrow> int \<Rightarrow> batch_item list \<Rightarrow> int list \<Rightarrow> pool \<Rightarrow> (batch_item list \<times> int list, pool) outcome"
where
  "select_d_loop 0 token_budget seq_budget items ks p = (Inr (items, ks), p)"
| "select_d_loop (Suc n) token_budget seq_budget items ks p =
     (if token_budget \<le> 0 \<or> seq_budget \<le> 0 then (Inr (items, ks), p)
      else case pw_waiting (pl_d_worker p) of
        [] \<Rightarrow> (Inl IndexError, p)
      | i # rest \<Rightarrow>
          let p = set_worker D (\<lambda>w. w\<lparr>pw_waiting := rest\<rparr>) p in
          andthen (lift_err (get_request p i) p) (\<lambda>r p.
            if rq_state r \<noteq> D_DECODE
            then (Inl (RuntimeError ''D queue contains non-decode request''), p)
            else if \<not> rq_handoff_done r
            then (Inl (RuntimeError ''D request entered before handoff''), p)
            else select_d_loop n (token_budget - 1) (seq_budget - 1)
                   (items @ [\<lparr>bi_request_id = i, bi_query_tokens = 1\<rparr>])
                   (ks @ [rq_input_tokens r + rq_generated_tokens r - 1]) p))"

definition d_shape :: "batch_item list \<Rightarrow> int list \<Rightarrow> batch_shape" where
  "d_shape items ks =
     \<lparr>total_tokens = int (length items), prefill_q = [], prefill_hbf_k = [], prefill_lpddr_k = [],
      decode_hbf_k = ks, decode_lpddr_k = replicate (length ks) 0,
      lm_head_sequences = int (length items)\<rparr>"

definition select_d_batch :: "pool \<Rightarrow> ((batch_item list \<times> batch_shape) option, pool) outcome" where
  "select_d_batch p =
     andthen (select_d_loop (length (pw_waiting (pl_d_worker p))) (pl_max_num_batched_tokens p)
                (pl_d_max_num_seqs p) [] [] p)
       (\<lambda>(items, ks) p.
          if items = [] then (Inr None, p) else (Inr (Some (items, d_shape items ks)), p))"

section \<open>Scheduling\<close>

definition schedule_launch :: "stage \<Rightarrow> int \<Rightarrow> pool \<Rightarrow> pool" where
  "schedule_launch s launch_ns p =
     (if pw_pending_launch_ns (worker_of s p) = Some launch_ns then p
      else (set_worker s (\<lambda>w. w\<lparr>pw_pending_launch_ns := Some launch_ns\<rparr>) p)
             \<lparr>pl_launch_heap := heappush (launch_ns, s) (pl_launch_heap p)\<rparr>)"

text \<open>The latest time at which some layer of some item is not yet restored when it starts.\<close>

fun restore_gate_layers :: "batch_phases \<Rightarrow> int \<Rightarrow> int list \<Rightarrow> int \<Rightarrow> exn + int" where
  "restore_gate_layers phases layer_index [] gate = Inr gate"
| "restore_gate_layers phases layer_index (ready # rs) gate =
     ebind (layer_start_offset_ns phases layer_index) (\<lambda>offset.
       restore_gate_layers phases (layer_index + 1) rs (max gate (ready - offset)))"

fun restore_gate_items :: "batch_phases \<Rightarrow> pool \<Rightarrow> batch_item list \<Rightarrow> int \<Rightarrow> exn + int" where
  "restore_gate_items phases p [] gate = Inr gate"
| "restore_gate_items phases p (it # its) gate =
     ebind (get_request p (bi_request_id it)) (\<lambda>r.
     ebind (restore_gate_layers phases 0 (rq_restore_layer_ready_ns r) gate) (\<lambda>gate.
       restore_gate_items phases p its gate))"

definition p_restore_gate_ns :: "pool \<Rightarrow> batch_item list \<Rightarrow> batch_shape \<Rightarrow> int \<Rightarrow> exn + int" where
  "p_restore_gate_ns p items shape now =
     ebind (batch_phase_latency (pl_hardware p) (pl_provider p) shape)
       (\<lambda>phases. restore_gate_items phases p items now)"

fun ready_values :: "pool \<Rightarrow> batch_item list \<Rightarrow> exn + int option list" where
  "ready_values p [] = Inr []"
| "ready_values p (it # its) =
     ebind (get_request p (bi_request_id it)) (\<lambda>r.
     ebind (ready_values p its) (\<lambda>vs. Inr (rq_stage_ready_ns r # vs)))"

fun min_list1 :: "int list \<Rightarrow> int" where
  "min_list1 [] = 0"
| "min_list1 (x # xs) = foldl min x xs"

text \<open>The loop that stamps the requests of a launched batch.\<close>

fun stamp_items :: "stage \<Rightarrow> int \<Rightarrow> batch_item list \<Rightarrow> pool \<Rightarrow> (unit, pool) outcome" where
  "stamp_items s start [] p = (Inr (), p)"
| "stamp_items s start (it # its) p =
     andthen (lift_err (get_request p (bi_request_id it)) p) (\<lambda>r p.
       let r = (if rq_first_scheduled_ns r = None then r\<lparr>rq_first_scheduled_ns := Some start\<rparr> else r);
           r = (if s = P then r\<lparr>rq_p_batch_count := rq_p_batch_count r + 1\<rparr>
                else r\<lparr>rq_d_batch_count := rq_d_batch_count r + 1\<rparr>)
       in stamp_items s start its (set_request r p))"

definition launch_metrics ::
  "stage \<Rightarrow> batch_item list \<Rightarrow> batch_shape \<Rightarrow> int \<Rightarrow> int \<Rightarrow> int \<Rightarrow> int \<Rightarrow> int \<Rightarrow> pool \<Rightarrow> pool" where
  "launch_metrics s items shape service start ready gate now p =
     (let m = pl_metrics p in
      if s = P then
        let streaming = list_ex (\<lambda>it. case dget (pl_requests p) (bi_request_id it) of
                           None \<Rightarrow> False | Some r \<Rightarrow> rq_restore_layer_ready_ns r \<noteq> []) items
        in p\<lparr>pl_metrics := m
          \<lparr>pm_p_batches := pm_p_batches m + 1,
           pm_p_query_tokens := pm_p_query_tokens m + real_query_tokens shape,
           pm_p_modeled_ns := pm_p_modeled_ns m + service,
           pm_p_resource_delay_ns := pm_p_resource_delay_ns m + (start - ready),
           pm_p_streaming_batches := pm_p_streaming_batches m + (if streaming then 1 else 0),
           pm_p_restore_gate_delay_ns := pm_p_restore_gate_delay_ns m + (gate - now),
           pm_max_p_batch_size := max (pm_max_p_batch_size m) (int (length items))\<rparr>\<rparr>
      else p\<lparr>pl_metrics := m
          \<lparr>pm_d_batches := pm_d_batches m + 1,
           pm_d_query_tokens := pm_d_query_tokens m + real_query_tokens shape,
           pm_d_modeled_ns := pm_d_modeled_ns m + service,
           pm_d_resource_delay_ns := pm_d_resource_delay_ns m + (start - ready),
           pm_max_d_batch_size := max (pm_max_d_batch_size m) (int (length items))\<rparr>\<rparr>)"

text \<open>A selected batch is timed, reserved on the calendar and put in flight.\<close>

definition launch_batch ::
  "stage \<Rightarrow> int \<Rightarrow> batch_item list \<Rightarrow> batch_shape \<Rightarrow> pool \<Rightarrow> (unit, pool) outcome" where
  "launch_batch s now items shape p =
     andthen (lift_err (batch_latency (pl_hardware p) (pl_provider p) shape) p) (\<lambda>latency p.
     andthen (lift_err (if s = P then p_restore_gate_ns p items shape now else Inr now) p)
       (\<lambda>gate p.
     let batch_id = pl_next_batch_id p;
         p = p\<lparr>pl_next_batch_id := pl_next_batch_id p + 1\<rparr> in
     andthen (lift_err (ready_values p items) p) (\<lambda>readies p.
     if None \<in> set readies then (Inl (RuntimeError ''scheduled P/D request lacks ready time''), p)
     else
       let ready = min_list1 (map the readies);
           (res, cal) = reserve_parallel (pl_calendar p) gate batch_id
             (stage_name s @ ''-model-batch'') [(model_resource p s, (bl_total_ns latency, 0))]
             (''gpu-pd-node-'' @ show_int (pl_node_id p));
           p = p\<lparr>pl_calendar := cal\<rparr> in
       andthen (lift_err res p) (\<lambda>(start, completion) p.
         let batch = \<lparr>sb_batch_id = batch_id, sb_stage = s, sb_ready_ns = ready,
               sb_restore_gate_ns = gate, sb_start_ns = start, sb_completion_ns = completion,
               sb_items = items, sb_shape = shape, sb_latency = latency\<rparr>;
             p = set_worker s (\<lambda>w. w\<lparr>pw_inflight := Some batch\<rparr>) p;
             p = (if pl_retain_detailed_history p
                  then p\<lparr>pl_batch_history := pl_batch_history p @ [batch]\<rparr> else p);
             p = p\<lparr>pl_batch_completion_heap :=
                  heappush (completion, s, batch_id) (pl_batch_completion_heap p)\<rparr>
         in andthen (stamp_items s start items p) (\<lambda>_ p.
            (Inr (), launch_metrics s items shape (bl_total_ns latency) start ready gate now p))))))"

definition try_schedule :: "stage \<Rightarrow> int \<Rightarrow> pool \<Rightarrow> (unit, pool) outcome" where
  "try_schedule s now p =
     (if pw_inflight (worker_of s p) \<noteq> None then (Inr (), p)
      else if pw_waiting (worker_of s p) = []
      then (Inr (), set_worker s (\<lambda>w. w\<lparr>pw_pending_launch_ns := None\<rparr>) p)
      else andthen (lift_err (earliest_start (pl_calendar p) now [model_resource p s]) p)
        (\<lambda>available p.
          if available > now then (Inr (), schedule_launch s available p)
          else
            let p = set_worker s (\<lambda>w. w\<lparr>pw_pending_launch_ns := None\<rparr>) p in
            andthen (if s = P then select_p_batch p else select_d_batch p) (\<lambda>selected p.
              case selected of
                None \<Rightarrow> (Inr (), p)
              | Some (items, shape) \<Rightarrow> launch_batch s now items shape p)))"

section \<open>Completing work\<close>

definition complete_request :: "request \<Rightarrow> int \<Rightarrow> pool \<Rightarrow> request \<times> pool" where
  "complete_request r now p =
     (let r = r\<lparr>rq_state := COMPLETE, rq_completion_ns := Some now\<rparr>; m = pl_metrics p
      in (r, (set_request r p)
               \<lparr>pl_completed_request_ids := pl_completed_request_ids p @ [rq_request_id r],
                pl_metrics := m\<lparr>pm_completed_requests := pm_completed_requests m + 1\<rparr>\<rparr>))"

definition handoff_exposed_ns ::
  "pool \<Rightarrow> handoff_timing \<Rightarrow> serving_batch option \<Rightarrow> exn + int" where
  "handoff_exposed_ns p latency p_batch =
     (if pl_handoff_overlap p \<noteq> ''layerwise'' \<or> hl_latency_ns latency = 0 \<or> p_batch = None
      then Inr (hl_latency_ns latency)
      else
        let fixed = \<lceil>fmul (pd_peer_fixed_latency_us (pl_hardware p)) e3\<rceil>;
            transfer = max 0 (hl_latency_ns latency - fixed) in
        ebind (batch_phase_latency (pl_hardware p) (pl_provider p) (sb_shape (the p_batch)))
          (\<lambda>phases.
            let layer_count = ph_layer_count phases;
                overlap_window = (layer_count - 1) * ph_layer_ns phases;
                per_layer_transfer = - ((- transfer) div layer_count);
                exposed_transfer = max per_layer_transfer (transfer - overlap_window)
            in Inr (fixed + exposed_transfer)))"

definition finish_handoff :: "handoff_job \<Rightarrow> pool \<Rightarrow> (unit, pool) outcome" where
  "finish_handoff job p =
     (let stored = dget (pl_handoff_jobs p) (hj_job_id job);
          p = p\<lparr>pl_handoff_jobs := dpop (hj_job_id job) (pl_handoff_jobs p)\<rparr> in
      if stored \<noteq> Some job then (Inl (RuntimeError ''P/D handoff job ownership mismatch''), p)
      else andthen (lift_err (get_request p (hj_request_id job)) p) (\<lambda>r p.
        if rq_handoff_completion_ns r \<noteq> Some (hj_completion_ns job) \<or> rq_handoff_done r
        then (Inl (RuntimeError ''P/D handoff completion identity mismatch''), p)
        else
          let r = r\<lparr>rq_handoff_done := True\<rparr>;
              p = (set_request r p)\<lparr>pl_completed_handoff_request_ids :=
                     pl_completed_handoff_request_ids p @ [rq_request_id r]\<rparr> in
          if rq_output_tokens r > 1 then
            if rq_state r \<noteq> HANDOFF
            then (Inl (RuntimeError ''multi-token handoff completed outside handoff state''), p)
            else (Inr (), push_waiting D (rq_request_id r)
              (set_request (r\<lparr>rq_state := D_DECODE, rq_stage_ready_ns := Some (hj_completion_ns job)\<rparr>) p))
          else (Inr (), p)))"

definition handoff_metrics :: "handoff_timing \<Rightarrow> int \<Rightarrow> int \<Rightarrow> pool_metrics \<Rightarrow> pool_metrics" where
  "handoff_metrics latency exposed queue_delay m =
     m\<lparr>pm_handoff_jobs := pm_handoff_jobs m + 1,
       pm_handoff_bytes_per_rank := pm_handoff_bytes_per_rank m + hl_bytes_per_rank latency,
       pm_handoff_aggregate_bytes := pm_handoff_aggregate_bytes m + hl_aggregate_bytes latency,
       pm_handoff_service_ns := pm_handoff_service_ns m + hl_latency_ns latency,
       pm_handoff_exposed_ns := pm_handoff_exposed_ns m + exposed,
       pm_handoff_overlap_hidden_ns :=
         pm_handoff_overlap_hidden_ns m + (hl_latency_ns latency - exposed),
       pm_handoff_queue_delay_ns := pm_handoff_queue_delay_ns m + queue_delay\<rparr>"

text \<open>The times of a handoff: nothing to move, or a reservation of the node's P/D fabric.\<close>

definition reserve_handoff ::
  "handoff_timing \<Rightarrow> int \<Rightarrow> int \<Rightarrow> int \<Rightarrow> pool \<Rightarrow> (int \<times> int, pool) outcome" where
  "reserve_handoff latency exposed job_id ready p =
     (if hl_latency_ns latency = 0
      then (Inr (ready, ready), p\<lparr>pl_metrics := (pl_metrics p)
              \<lparr>pm_zero_byte_handoffs := pm_zero_byte_handoffs (pl_metrics p) + 1\<rparr>\<rparr>)
      else
        let (res, cal) = reserve_parallel (pl_calendar p) ready job_id ''pd-handoff''
              [(handoff_resource p, (exposed, hl_aggregate_bytes latency))]
              (''gpu-pd-handoff-node-'' @ show_int (pl_node_id p))
        in (res, p\<lparr>pl_calendar := cal\<rparr>))"

definition start_handoff ::
  "request \<Rightarrow> int \<Rightarrow> serving_batch option \<Rightarrow> pool \<Rightarrow> (unit, pool) outcome" where
  "start_handoff r ready p_batch p =
     andthen (lift_err (handoff_latency (pl_hardware p) (handoff_tokens r)) p) (\<lambda>latency p.
     andthen (lift_err (handoff_exposed_ns p latency p_batch) p) (\<lambda>exposed p.
     let job_id = pl_next_handoff_id p;
         p = p\<lparr>pl_next_handoff_id := pl_next_handoff_id p + 1\<rparr> in
     andthen (reserve_handoff latency exposed job_id ready p) (\<lambda>(start, completion) p.
       let job = \<lparr>hj_job_id = job_id, hj_request_id = rq_request_id r,
             hj_token_count = handoff_tokens r, hj_bytes_per_rank = hl_bytes_per_rank latency,
             hj_aggregate_bytes = hl_aggregate_bytes latency, hj_ready_ns = ready,
             hj_start_ns = start, hj_completion_ns = completion\<rparr>;
           p = set_request (r\<lparr>rq_handoff_start_ns := Some start,
                 rq_handoff_completion_ns := Some completion\<rparr>) p;
           p = (if pl_retain_detailed_history p
                then p\<lparr>pl_handoff_history := pl_handoff_history p @ [job]\<rparr> else p);
           p = p\<lparr>pl_handoff_jobs := dput job_id job (pl_handoff_jobs p),
                 pl_metrics := handoff_metrics latency exposed (start - ready) (pl_metrics p)\<rparr>
       in if completion = ready then finish_handoff job p
          else (Inr (), p\<lparr>pl_handoff_completion_heap :=
            heappush (completion, rq_request_id r, job_id) (pl_handoff_completion_heap p)\<rparr>))))"

text \<open>One prompt chunk of a completed prefill batch.\<close>

definition finish_p_item :: "serving_batch \<Rightarrow> batch_item \<Rightarrow> pool \<Rightarrow> (unit, pool) outcome" where
  "finish_p_item batch it p =
     andthen (lift_err (get_request p (bi_request_id it)) p) (\<lambda>r p.
       let r = r\<lparr>rq_p_processed_tokens := rq_p_processed_tokens r + bi_query_tokens it\<rparr> in
       if p_remaining_tokens r \<noteq> 0
       then (Inr (), push_waiting P (rq_request_id r)
              (set_request (r\<lparr>rq_stage_ready_ns := Some (sb_completion_ns batch)\<rparr>) p))
       else
         let r = r\<lparr>rq_generated_tokens := 1, rq_first_token_ns := Some (sb_completion_ns batch)\<rparr>;
             r = (if pl_retain_detailed_history p
                  then r\<lparr>rq_token_completion_ns := rq_token_completion_ns r @ [sb_completion_ns batch]\<rparr>
                  else r);
             (r, p) =
               (if rq_output_tokens r = 1 then complete_request r (sb_completion_ns batch) p
                else let r = r\<lparr>rq_state := HANDOFF, rq_stage_ready_ns := Some (sb_completion_ns batch)\<rparr>
                     in (r, set_request r p))
         in if rq_output_tokens r > 1 \<or> rq_has_successor r
            then start_handoff r (sb_completion_ns batch) (Some batch) p
            else (Inr (), p))"

text \<open>One decode step of a completed decode batch.\<close>

definition finish_d_item :: "serving_batch \<Rightarrow> batch_item \<Rightarrow> pool \<Rightarrow> (unit, pool) outcome" where
  "finish_d_item batch it p =
     andthen (lift_err (get_request p (bi_request_id it)) p) (\<lambda>r p.
       if rq_state r \<noteq> D_DECODE
       then (Inl (RuntimeError ''D batch contains non-decode request''), p)
       else
         let r = r\<lparr>rq_generated_tokens := rq_generated_tokens r + 1\<rparr>;
             r = (if pl_retain_detailed_history p
                  then r\<lparr>rq_token_completion_ns := rq_token_completion_ns r @ [sb_completion_ns batch]\<rparr>
                  else r)
         in if rq_generated_tokens r = rq_output_tokens r
            then (Inr (), snd (complete_request r (sb_completion_ns batch) p))
            else (Inr (), push_waiting D (rq_request_id r)
                   (set_request (r\<lparr>rq_stage_ready_ns := Some (sb_completion_ns batch)\<rparr>) p)))"

fun each_item ::
  "(batch_item \<Rightarrow> pool \<Rightarrow> (unit, pool) outcome) \<Rightarrow> batch_item list \<Rightarrow> pool \<Rightarrow> (unit, pool) outcome" where
  "each_item f [] p = (Inr (), p)"
| "each_item f (it # its) p = andthen (f it p) (\<lambda>_ p. each_item f its p)"

definition finish_batch :: "stage \<Rightarrow> serving_batch \<Rightarrow> pool \<Rightarrow> (unit, pool) outcome" where
  "finish_batch s batch p =
     (if map_option sb_batch_id (pw_inflight (worker_of s p)) \<noteq> Some (sb_batch_id batch)
      then (Inl (RuntimeError (if s = P then ''P batch completion identity mismatch''
                               else ''D batch completion identity mismatch'')), p)
      else andthen
        (each_item (if s = P then finish_p_item batch else finish_d_item batch) (sb_items batch) p)
        (\<lambda>_ p. (Inr (), set_worker s (\<lambda>w. w\<lparr>pw_inflight := None,
                   pw_completed_batches := pw_completed_batches w + 1\<rparr>) p)))"

section \<open>The event loop\<close>

fun drop_stale_launches :: "pool \<Rightarrow> (int \<times> stage) list \<Rightarrow> (int \<times> stage) list" where
  "drop_stale_launches p [] = []"
| "drop_stale_launches p ((launch_ns, s) # h) =
     (if pw_pending_launch_ns (worker_of s p) = Some launch_ns then (launch_ns, s) # h
      else drop_stale_launches p h)"

definition clean_launch_heap :: "pool \<Rightarrow> pool" where
  "clean_launch_heap p = p\<lparr>pl_launch_heap := drop_stale_launches p (pl_launch_heap p)\<rparr>"

definition event_candidates :: "pool \<Rightarrow> int list" where
  "event_candidates p =
     (case heappeek (pl_batch_completion_heap p) of None \<Rightarrow> [] | Some e \<Rightarrow> [fst e]) @
     (case heappeek (pl_handoff_completion_heap p) of None \<Rightarrow> [] | Some e \<Rightarrow> [fst e]) @
     (case heappeek (pl_launch_heap p) of None \<Rightarrow> [] | Some e \<Rightarrow> [fst e])"

definition next_raw_event_ns :: "pool \<Rightarrow> int option \<times> pool" where
  "next_raw_event_ns p =
     (let p = clean_launch_heap p; values = event_candidates p
      in (if values = [] then None else Some (min_list1 values), p))"

text \<open>The loops over a heap are bounded by its length: an iteration removes one entry and adds
  none (\<open>drain_batches_enough\<close> and its companions).\<close>

fun drain_batches :: "nat \<Rightarrow> int \<Rightarrow> pool \<Rightarrow> (unit, pool) outcome" where
  "drain_batches n event_ns p =
     (case pl_batch_completion_heap p of
        [] \<Rightarrow> (Inr (), p)
      | (t, s, batch_id) # h \<Rightarrow>
          if t \<noteq> event_ns then (Inr (), p)
          else (case n of
            0 \<Rightarrow> (Inl OutOfFuel, p)
          | Suc n \<Rightarrow>
              let p = p\<lparr>pl_batch_completion_heap := h\<rparr> in
              (case pw_inflight (worker_of s p) of
                 None \<Rightarrow> (Inl (RuntimeError ''stale P/D batch completion''), p)
               | Some batch \<Rightarrow>
                   if sb_batch_id batch \<noteq> batch_id
                   then (Inl (RuntimeError ''stale P/D batch completion''), p)
                   else andthen (finish_batch s batch p) (\<lambda>_ p. drain_batches n event_ns p))))"

fun drain_handoffs :: "nat \<Rightarrow> int \<Rightarrow> pool \<Rightarrow> (unit, pool) outcome" where
  "drain_handoffs n event_ns p =
     (case pl_handoff_completion_heap p of
        [] \<Rightarrow> (Inr (), p)
      | (t, request_id, job_id) # h \<Rightarrow>
          if t \<noteq> event_ns then (Inr (), p)
          else (case n of
            0 \<Rightarrow> (Inl OutOfFuel, p)
          | Suc n \<Rightarrow>
              let p = p\<lparr>pl_handoff_completion_heap := h\<rparr> in
              andthen (lift_err (get_request p request_id) p) (\<lambda>_ p.
                case dget (pl_handoff_jobs p) job_id of
                  None \<Rightarrow> (Inl (RuntimeError ''missing P/D handoff job''), p)
                | Some job \<Rightarrow>
                    andthen (finish_handoff job p) (\<lambda>_ p.
                    andthen (lift_err (get_request p request_id) p) (\<lambda>r p.
                      if rq_handoff_completion_ns r \<noteq> Some event_ns
                      then (Inl (RuntimeError ''stale P/D handoff completion''), p)
                      else drain_handoffs n event_ns p)))))"

fun drain_launches :: "(int \<times> stage) list \<Rightarrow> int \<Rightarrow> pool \<Rightarrow> pool" where
  "drain_launches [] event_ns p = p\<lparr>pl_launch_heap := []\<rparr>"
| "drain_launches ((t, s) # h) event_ns p =
     (if t \<noteq> event_ns then p\<lparr>pl_launch_heap := (t, s) # h\<rparr>
      else drain_launches h event_ns
        (if pw_pending_launch_ns (worker_of s p) = Some event_ns
         then set_worker s (\<lambda>w. w\<lparr>pw_pending_launch_ns := None\<rparr>) p else p))"

definition process_events_at :: "int \<Rightarrow> pool \<Rightarrow> (unit, pool) outcome" where
  "process_events_at event_ns p =
     andthen (drain_batches (length (pl_batch_completion_heap p)) event_ns p) (\<lambda>_ p.
     andthen (drain_handoffs (length (pl_handoff_completion_heap p)) event_ns p) (\<lambda>_ p.
       let p = clean_launch_heap p in (Inr (), drain_launches (pl_launch_heap p) event_ns p)))"

definition flush_scheduling :: "int \<Rightarrow> pool \<Rightarrow> (unit, pool) outcome" where
  "flush_scheduling now p =
     (if now \<noteq> pl_current_ns p
      then (Inl (ValueError ''flush_scheduling must run at current pool timestamp''), p)
      else andthen (try_schedule P now p) (\<lambda>_ p. try_schedule D now p))"

section \<open>The self check\<close>

definition worker_check :: "worker \<Rightarrow> exn option" where
  "worker_check w =
     (if pw_inflight w \<noteq> None \<and> pw_pending_launch_ns w \<noteq> None
      then Some (AssertionError ''P/D worker cannot be inflight and pending launch'') else None)"

definition inflight_ids :: "worker \<Rightarrow> int list" where
  "inflight_ids w =
     (case pw_inflight w of None \<Rightarrow> [] | Some b \<Rightarrow> map bi_request_id (sb_items b))"

definition queued_ids :: "pool \<Rightarrow> int list" where
  "queued_ids p =
     pw_waiting (pl_p_worker p) @ pw_waiting (pl_d_worker p) @
     inflight_ids (pl_p_worker p) @ inflight_ids (pl_d_worker p)"

definition first_token_check :: "bool \<Rightarrow> request \<Rightarrow> exn option" where
  "first_token_check retain r =
     (case rq_first_token_ns r of
        None \<Rightarrow> None
      | Some t \<Rightarrow>
          if rq_generated_tokens r < 1
          then Some (AssertionError ''invalid first-token accounting'')
          else if retain then
            (case rq_token_completion_ns r of
               [] \<Rightarrow> Some IndexError
             | c # _ \<Rightarrow> if c \<noteq> t then Some (AssertionError ''invalid first-token accounting'') else None)
          else None)"

definition request_check :: "bool \<Rightarrow> int list \<Rightarrow> request \<Rightarrow> exn option" where
  "request_check retain queued r =
     (if \<not> (0 \<le> rq_p_processed_tokens r \<and> rq_p_processed_tokens r \<le> p_fresh_tokens r)
      then Some (AssertionError ''invalid P progress'')
      else if \<not> (0 \<le> rq_generated_tokens r \<and> rq_generated_tokens r \<le> rq_output_tokens r)
      then Some (AssertionError ''invalid output progress'')
      else if int (length (rq_token_completion_ns r)) \<noteq> (if retain then rq_generated_tokens r else 0)
      then Some (AssertionError ''token timestamp mismatch'')
      else case first_token_check retain r of
        Some e \<Rightarrow> Some e
      | None \<Rightarrow>
          if rq_state r = COMPLETE \<and>
             (rq_completion_ns r = None \<or> rq_generated_tokens r \<noteq> rq_output_tokens r
              \<or> rq_request_id r \<in> set queued)
          then Some (AssertionError ''invalid completed request'')
          else if rq_state r = HANDOFF \<and> rq_request_id r \<in> set queued
          then Some (AssertionError ''handoff request remains in compute queue'')
          else if rq_state r \<noteq> COMPLETE \<and> rq_state r \<noteq> HANDOFF
                  \<and> count_list queued (rq_request_id r) \<noteq> 1
          then Some (AssertionError ''live request queue multiplicity is not one'')
          else if rq_state r = D_DECODE \<and> \<not> rq_handoff_done r
          then Some (AssertionError ''D request lacks completed handoff'')
          else if rq_output_tokens r > 1 \<and> rq_state r = HANDOFF \<and> rq_handoff_completion_ns r = None
          then Some (AssertionError ''handoff state lacks job'')
          else if rq_completion_ns r \<noteq> None \<and> rq_output_tokens r = 1
                  \<and> rq_completion_ns r \<noteq> rq_first_token_ns r
          then Some (AssertionError ''one-token completion exceeds TTFT'')
          else None)"

fun first_failure :: "('a \<Rightarrow> exn option) \<Rightarrow> 'a list \<Rightarrow> exn option" where
  "first_failure f [] = None"
| "first_failure f (x # xs) = (case f x of Some e \<Rightarrow> Some e | None \<Rightarrow> first_failure f xs)"

definition pool_check :: "pool \<Rightarrow> exn option" where
  "pool_check p =
     (case first_failure worker_check [pl_p_worker p, pl_d_worker p] of
        Some e \<Rightarrow> Some e
      | None \<Rightarrow>
        (case first_failure (request_check (pl_retain_detailed_history p) (queued_ids p))
                (dvalues (pl_requests p)) of
           Some e \<Rightarrow> Some e
         | None \<Rightarrow>
             if pm_completed_requests (pl_metrics p) > pm_submitted_requests (pl_metrics p)
             then Some (AssertionError ''completed requests exceed submissions'') else None))"

definition run_check :: "pool \<Rightarrow> (unit, pool) outcome" where
  "run_check p = (case pool_check p of Some e \<Rightarrow> (Inl e, p) | None \<Rightarrow> (Inr (), p))"

section \<open>The public operations\<close>

text \<open>
  \<open>pool_work\<close> bounds the number of events left: the unprocessed prompt tokens, the tokens not yet
  generated and the handoffs not yet done.  It is the fuel of \<^verbatim>\<open>advance\<close>'s loop; \<open>advance_returns\<close>
  shows that it is enough.
\<close>

definition request_work :: "request \<Rightarrow> int" where
  "request_work r =
     p_remaining_tokens r + (rq_output_tokens r - rq_generated_tokens r)
       + (if rq_handoff_done r then 0 else 1)"

definition pool_work :: "pool \<Rightarrow> nat" where
  "pool_work p = nat (dtotal request_work (pl_requests p))
     + length (pl_launch_heap p)"

fun advance_loop :: "nat \<Rightarrow> int \<Rightarrow> bool \<Rightarrow> pool \<Rightarrow> (unit, pool) outcome" where
  "advance_loop fuel now defer_schedule p =
     (case next_raw_event_ns p of
        (None, p) \<Rightarrow> (Inr (), p)
      | (Some event_ns, p) \<Rightarrow>
          if event_ns > now then (Inr (), p)
          else (case fuel of
            0 \<Rightarrow> (Inl OutOfFuel, p)
          | Suc fuel \<Rightarrow>
              andthen (process_events_at event_ns p) (\<lambda>_ p.
              let p = p\<lparr>pl_current_ns := event_ns\<rparr> in
              andthen (if \<not> (defer_schedule \<and> event_ns = now) then flush_scheduling event_ns p
                       else (Inr (), p))
                (\<lambda>_ p. advance_loop fuel now defer_schedule p))))"

declare advance_loop.simps [simp del] drain_batches.simps [simp del] drain_handoffs.simps [simp del]

definition advance :: "int \<Rightarrow> bool \<Rightarrow> pool \<Rightarrow> (unit, pool) outcome" where
  "advance now defer_schedule p =
     (if now < pl_current_ns p then (Inl (ValueError ''time cannot move backwards''), p)
      else andthen (advance_loop (pool_work p) now defer_schedule p) (\<lambda>_ p.
        let p = p\<lparr>pl_current_ns := now\<rparr> in
        if pl_validate_every_event p then run_check p else (Inr (), p)))"

text \<open>The admission checks of \<^verbatim>\<open>submit_many\<close>, before anything is changed.\<close>

fun submission_error :: "pool \<Rightarrow> int \<Rightarrow> request list \<Rightarrow> int list \<Rightarrow> string list \<Rightarrow> exn option" where
  "submission_error p now [] seen_ids seen_sessions = None"
| "submission_error p now (r # rs) seen_ids seen_sessions =
     (case validate_request r of
        Some e \<Rightarrow> Some e
      | None \<Rightarrow>
        if rq_arrival_ns r > now
        then Some (ValueError ''request logical arrival cannot be after submit time'')
        else if rq_request_id r \<in> set (dkeys (pl_requests p)) \<or> rq_request_id r \<in> set seen_ids
        then Some (ValueError ''duplicate request_id'')
        else
          (case dget (pl_current_request_by_session p) (rq_session_id r) of
             Some previous \<Rightarrow>
               (case get_request p previous of
                  Inl e \<Rightarrow> Some e
                | Inr prev \<Rightarrow>
                    if rq_state prev \<noteq> COMPLETE
                    then Some (ValueError ''session already has a live P/D request'')
                    else if rq_session_id r \<in> set seen_sessions
                    then Some (ValueError ''duplicate live session'')
                    else submission_error p now rs (rq_request_id r # seen_ids)
                           (rq_session_id r # seen_sessions))
           | None \<Rightarrow>
               if rq_session_id r \<in> set seen_sessions
               then Some (ValueError ''duplicate live session'')
               else submission_error p now rs (rq_request_id r # seen_ids)
                      (rq_session_id r # seen_sessions)))"

definition enqueue_request :: "int \<Rightarrow> request \<Rightarrow> pool \<Rightarrow> pool" where
  "enqueue_request now r p =
     (let r = r\<lparr>rq_state := P_PREFILL, rq_stage_ready_ns := Some now\<rparr>;
          p = set_request r p;
          p = p\<lparr>pl_current_request_by_session :=
                 dput (rq_session_id r) (rq_request_id r) (pl_current_request_by_session p)\<rparr>;
          p = push_waiting P (rq_request_id r) p;
          m = pl_metrics p
      in p\<lparr>pl_metrics := m\<lparr>pm_submitted_requests := pm_submitted_requests m + 1,
            pm_streaming_restore_requests := pm_streaming_restore_requests m
              + (if rq_restore_layer_ready_ns r \<noteq> [] then 1 else 0)\<rparr>\<rparr>)"

definition submit_many :: "request list \<Rightarrow> int \<Rightarrow> pool \<Rightarrow> (unit, pool) outcome" where
  "submit_many rs now p =
     (case submission_error p now rs [] [] of
        Some e \<Rightarrow> (Inl e, p)
      | None \<Rightarrow> andthen (advance now True p) (\<lambda>_ p.
          flush_scheduling now (fold (enqueue_request now) rs p)))"

definition submit :: "request \<Rightarrow> int \<Rightarrow> pool \<Rightarrow> (unit, pool) outcome" where
  "submit r now p = submit_many [r] now p"

definition next_event_ns :: "pool \<Rightarrow> int option \<times> pool" where
  "next_event_ns p = next_raw_event_ns p"

text \<open>The two reporting queues hold identifiers; a popped request is the object \<^verbatim>\<open>requests[i]\<close>, so the
  model returns its identifier.\<close>

fun pop_ids :: "pool \<Rightarrow> int list \<Rightarrow> int list \<Rightarrow> (exn + int list) \<times> int list" where
  "pop_ids p [] completed = (Inr completed, [])"
| "pop_ids p (i # is) completed =
     (case get_request p i of Inl e \<Rightarrow> (Inl e, is) | Inr r \<Rightarrow> pop_ids p is (completed @ [i]))"

definition pop_completed :: "pool \<Rightarrow> (int list, pool) outcome" where
  "pop_completed p =
     (let (res, left) = pop_ids p (pl_completed_request_ids p) []
      in (res, p\<lparr>pl_completed_request_ids := left\<rparr>))"

definition pop_handoff_completed :: "pool \<Rightarrow> (int list, pool) outcome" where
  "pop_handoff_completed p =
     (let (res, left) = pop_ids p (pl_completed_handoff_request_ids p) []
      in (res, p\<lparr>pl_completed_handoff_request_ids := left\<rparr>))"

fun idle_loop :: "nat \<Rightarrow> int list \<Rightarrow> pool \<Rightarrow> (int list, pool) outcome" where
  "idle_loop fuel completed p =
     (case next_event_ns p of
        (None, p) \<Rightarrow> (Inr completed, p)
      | (Some event_ns, p) \<Rightarrow>
          (case fuel of
             0 \<Rightarrow> (Inl OutOfFuel, p)
           | Suc fuel \<Rightarrow>
               andthen (advance event_ns False p) (\<lambda>_ p.
               andthen (pop_completed p) (\<lambda>ids p. idle_loop fuel (completed @ ids) p))))"

declare idle_loop.simps [simp del]

definition stuck :: "pool \<Rightarrow> bool" where
  "stuck p \<longleftrightarrow>
     pw_waiting (pl_p_worker p) \<noteq> [] \<or> pw_waiting (pl_d_worker p) \<noteq> [] \<or>
     pw_inflight (pl_p_worker p) \<noteq> None \<or> pw_inflight (pl_d_worker p) \<noteq> None \<or>
     pw_pending_launch_ns (pl_p_worker p) \<noteq> None \<or> pw_pending_launch_ns (pl_d_worker p) \<noteq> None"

definition run_until_idle :: "pool \<Rightarrow> (int list, pool) outcome" where
  "run_until_idle p =
     andthen (pop_completed p) (\<lambda>completed p.
     andthen (idle_loop (pool_work p) completed p) (\<lambda>completed p.
       if stuck p then (Inl (RuntimeError ''P/D pool became idle with queued work''), p)
       else andthen (run_check p) (\<lambda>_ p. (Inr completed, p))))"

end
