(* ===== verification/PD_Pool_Invariant.thy ===== *)
theory PD_Pool_Invariant
  imports PD_Pool
begin

text \<open>
  The invariant of \<^verbatim>\<open>P4D4ServingPool\<close>.  It is stated over the parts of the pool's state (the
  request table, the queues, the handoff jobs and their heap, the sessions, the workers) and
  each step of the event loop is shown to keep it; the steps inside a batch completion use it
  with the items still to be processed, the request whose handoff is being started and the job
  whose heap entry was already popped as parameters.
\<close>

section \<open>One request\<close>

definition request_static :: "request \<Rightarrow> bool" where
  "request_static r \<longleftrightarrow>
     0 \<le> rq_request_id r \<and> 0 \<le> rq_arrival_ns r \<and> 0 < rq_input_tokens r \<and> 0 < rq_output_tokens r \<and>
     0 \<le> rq_p_prefix_tokens r \<and> rq_p_prefix_tokens r \<le> rq_input_tokens r \<and>
     0 \<le> rq_d_prefix_tokens r \<and> rq_d_prefix_tokens r \<le> rq_input_tokens r \<and>
     rq_input_tokens r + rq_output_tokens r - 1 \<le> 1010000 \<and> rq_session_id r \<noteq> [] \<and>
     (rq_restore_layer_ready_ns r = [] \<or> int (length (rq_restore_layer_ready_ns r)) = QWEN_LAYERS)"

definition progress_ok :: "request \<Rightarrow> bool" where
  "progress_ok r \<longleftrightarrow>
     0 \<le> rq_p_processed_tokens r \<and> rq_p_processed_tokens r \<le> p_fresh_tokens r \<and>
     (rq_handoff_done r \<longrightarrow> rq_handoff_completion_ns r \<noteq> None) \<and>
     (case rq_state r of
        WAITING_P \<Rightarrow> False
      | P_PREFILL \<Rightarrow> rq_p_processed_tokens r < p_fresh_tokens r \<and> rq_generated_tokens r = 0 \<and>
          \<not> rq_handoff_done r \<and> rq_completion_ns r = None
      | HANDOFF \<Rightarrow> rq_p_processed_tokens r = p_fresh_tokens r \<and> rq_generated_tokens r = 1 \<and>
          1 < rq_output_tokens r \<and> \<not> rq_handoff_done r \<and> rq_completion_ns r = None
      | D_DECODE \<Rightarrow> rq_p_processed_tokens r = p_fresh_tokens r \<and> 1 \<le> rq_generated_tokens r \<and>
          rq_generated_tokens r < rq_output_tokens r \<and> rq_handoff_done r \<and> rq_completion_ns r = None
      | COMPLETE \<Rightarrow> rq_p_processed_tokens r = p_fresh_tokens r \<and>
          rq_generated_tokens r = rq_output_tokens r \<and> rq_completion_ns r \<noteq> None \<and>
          (1 < rq_output_tokens r \<longrightarrow> rq_handoff_done r))"

text \<open>The timestamps of a request, at time \<open>now\<close>.\<close>

definition clock_ok :: "bool \<Rightarrow> int \<Rightarrow> request \<Rightarrow> bool" where
  "clock_ok retain now r \<longleftrightarrow>
     rq_arrival_ns r \<le> now \<and>
     length (rq_token_completion_ns r) = (if retain then nat (rq_generated_tokens r) else 0) \<and>
     sorted (rq_token_completion_ns r) \<and>
     (\<forall>t \<in> set (rq_token_completion_ns r). rq_arrival_ns r \<le> t \<and> t \<le> now) \<and>
     (case rq_first_token_ns r of
        None \<Rightarrow> rq_generated_tokens r = 0 \<and> rq_handoff_completion_ns r = None
      | Some t \<Rightarrow> 1 \<le> rq_generated_tokens r \<and> rq_arrival_ns r \<le> t \<and> t \<le> now \<and>
          (retain \<longrightarrow> hd (rq_token_completion_ns r) = t) \<and>
          (\<forall>h. rq_handoff_completion_ns r = Some h \<longrightarrow> t \<le> h) \<and>
          (\<forall>c. rq_completion_ns r = Some c \<longrightarrow> t \<le> c \<and> c \<le> now \<and> (rq_output_tokens r = 1 \<longrightarrow> c = t))) \<and>
     (rq_handoff_done r \<longrightarrow> (\<forall>h. rq_handoff_completion_ns r = Some h \<longrightarrow> h \<le> now)) \<and>
     (\<forall>h. rq_handoff_completion_ns r = Some h \<longrightarrow>
        (\<forall>t \<in> set (tl (rq_token_completion_ns r)). h \<le> t)) \<and>
     (rq_state r \<in> {P_PREFILL, D_DECODE} \<longrightarrow>
        (\<exists>t. rq_stage_ready_ns r = Some t \<and> rq_arrival_ns r \<le> t \<and> t \<le> now))"

definition request_ok :: "bool \<Rightarrow> int \<Rightarrow> request \<Rightarrow> bool" where
  "request_ok retain now r \<longleftrightarrow> request_static r \<and> progress_ok r \<and> clock_ok retain now r"

lemma validate_request_static: "validate_request r = None \<Longrightarrow> request_static r \<and> pristine r"
  by (auto simp: validate_request_def request_static_def split: if_split_asm)

lemma request_static_facts:
  assumes "request_static r"
  shows "0 \<le> operational_p_prefix_tokens r" "0 < p_fresh_tokens r"
    "operational_p_prefix_tokens r + p_fresh_tokens r = rq_input_tokens r" "0 \<le> handoff_tokens r"
    "rq_input_tokens r \<le> 1010000"
  using assms by (auto simp: request_static_def operational_p_prefix_tokens_def p_fresh_tokens_def
      handoff_tokens_def)

lemma clock_ok_mono: "clock_ok retain t r \<Longrightarrow> t \<le> now \<Longrightarrow> clock_ok retain now r"
  unfolding clock_ok_def by (auto split: option.splits)

lemma request_ok_mono: "request_ok retain t r \<Longrightarrow> t \<le> now \<Longrightarrow> request_ok retain now r"
  using clock_ok_mono unfolding request_ok_def by blast

lemma progress_work: "request_static r \<Longrightarrow> progress_ok r \<Longrightarrow> 0 \<le> request_work r"
  by (auto simp: progress_ok_def request_work_def p_remaining_tokens_def request_static_def
      split: request_state.splits)

section \<open>The request table\<close>

definition table_ok :: "bool \<Rightarrow> int \<Rightarrow> (int, request) dict \<Rightarrow> bool" where
  "table_ok retain now reqs \<longleftrightarrow>
     dwf reqs \<and> (\<forall>i r. dget reqs i = Some r \<longrightarrow> rq_request_id r = i \<and> request_ok retain now r)"

lemma table_okD:
  "table_ok retain now reqs \<Longrightarrow> dget reqs i = Some r \<Longrightarrow> rq_request_id r = i \<and> request_ok retain now r"
  by (simp add: table_ok_def)

lemma table_ok_dwf: "table_ok retain now reqs \<Longrightarrow> dwf reqs"
  by (simp add: table_ok_def)

lemma table_ok_put:
  "table_ok retain now reqs \<Longrightarrow> rq_request_id r = i \<Longrightarrow> request_ok retain now r \<Longrightarrow>
     table_ok retain now (dput i r reqs)"
  by (simp add: table_ok_def)

lemma table_ok_mono: "table_ok retain t reqs \<Longrightarrow> t \<le> now \<Longrightarrow> table_ok retain now reqs"
  unfolding table_ok_def using request_ok_mono by blast

text \<open>\<open>queue_ok reqs S ids\<close>: \<open>ids\<close> lists the requests in state \<open>S\<close>, each once.\<close>

definition queue_ok :: "(int, request) dict \<Rightarrow> request_state \<Rightarrow> int list \<Rightarrow> bool" where
  "queue_ok reqs S ids \<longleftrightarrow>
     distinct ids \<and> (\<forall>i. i \<in> set ids \<longleftrightarrow> (\<exists>r. dget reqs i = Some r \<and> rq_state r = S))"

lemma queue_okD: "queue_ok reqs S ids \<Longrightarrow> i \<in> set ids \<Longrightarrow> \<exists>r. dget reqs i = Some r \<and> rq_state r = S"
  by (simp add: queue_ok_def)

lemma queue_ok_iff: "queue_ok reqs S ids \<Longrightarrow> dget reqs i = Some r \<Longrightarrow> i \<in> set ids \<longleftrightarrow> rq_state r = S"
  by (simp add: queue_ok_def)

lemma queue_ok_distinct: "queue_ok reqs S ids \<Longrightarrow> distinct ids"
  by (simp add: queue_ok_def)

lemma queue_ok_put:
  assumes "queue_ok reqs S ids" and "distinct ids'"
    and "set ids' = (if rq_state r = S then insert i (set ids) else set ids - {i})"
  shows "queue_ok (dput i r reqs) S ids'"
  using assms by (auto simp: queue_ok_def)

lemma queue_ok_same:
  "queue_ok reqs S ids \<Longrightarrow> dget reqs i = Some r0 \<Longrightarrow> rq_state r = rq_state r0 \<Longrightarrow>
     queue_ok (dput i r reqs) S ids"
  by (rule queue_ok_put) (auto simp: queue_ok_def)

text \<open>The prefill items of a batch ask for no more than what remains of each prompt.\<close>

definition items_ok :: "(int, request) dict \<Rightarrow> batch_item list \<Rightarrow> bool" where
  "items_ok reqs its \<longleftrightarrow>
     (\<forall>it \<in> set its. \<forall>r. dget reqs (bi_request_id it) = Some r \<longrightarrow>
        0 < bi_query_tokens it \<and> bi_query_tokens it \<le> p_remaining_tokens r)"

section \<open>Handoffs\<close>

text \<open>
  \<open>X\<close> are the requests in state \<open>HANDOFF\<close> whose job is not created yet; \<open>H\<close> are the jobs
  without an entry in the completion heap.
\<close>

definition jobs_ok ::
  "int \<Rightarrow> int set \<Rightarrow> (int, request) dict \<Rightarrow> (int, handoff_job) dict \<Rightarrow> int \<Rightarrow> bool" where
  "jobs_ok now X reqs jobs next_id \<longleftrightarrow>
     dwf jobs \<and>
     (\<forall>j job. dget jobs j = Some job \<longrightarrow>
        hj_job_id job = j \<and> j < next_id \<and> now \<le> hj_completion_ns job \<and> hj_request_id job \<notin> X \<and>
        (\<exists>r. dget reqs (hj_request_id job) = Some r \<and> \<not> rq_handoff_done r \<and>
           rq_handoff_completion_ns r = Some (hj_completion_ns job) \<and>
           rq_state r = (if rq_output_tokens r = 1 then COMPLETE else HANDOFF))) \<and>
     (\<forall>j k a b. dget jobs j = Some a \<longrightarrow> dget jobs k = Some b \<longrightarrow>
        hj_request_id a = hj_request_id b \<longrightarrow> j = k) \<and>
     (\<forall>i r. dget reqs i = Some r \<longrightarrow> rq_state r = HANDOFF \<longrightarrow>
        i \<in> X \<or> (\<exists>j job. dget jobs j = Some job \<and> hj_request_id job = i))"

lemma jobs_okI:
  assumes "dwf jobs"
    and "\<And>j job. dget jobs j = Some job \<Longrightarrow>
        hj_job_id job = j \<and> j < n \<and> now \<le> hj_completion_ns job \<and> hj_request_id job \<notin> X \<and>
        (\<exists>r. dget reqs (hj_request_id job) = Some r \<and> \<not> rq_handoff_done r \<and>
           rq_handoff_completion_ns r = Some (hj_completion_ns job) \<and>
           rq_state r = (if rq_output_tokens r = 1 then COMPLETE else HANDOFF))"
    and "\<And>j k a b. dget jobs j = Some a \<Longrightarrow> dget jobs k = Some b \<Longrightarrow>
        hj_request_id a = hj_request_id b \<Longrightarrow> j = k"
    and "\<And>i r. dget reqs i = Some r \<Longrightarrow> rq_state r = HANDOFF \<Longrightarrow>
        i \<in> X \<or> (\<exists>j job. dget jobs j = Some job \<and> hj_request_id job = i)"
  shows "jobs_ok now X reqs jobs n"
  unfolding jobs_ok_def using assms by (intro conjI allI impI) simp_all

lemma jobs_ok_handoff:
  "jobs_ok now X reqs jobs n \<Longrightarrow> dget reqs i = Some r \<Longrightarrow> rq_state r = HANDOFF \<Longrightarrow> i \<notin> X \<Longrightarrow>
     \<exists>j job. dget jobs j = Some job \<and> hj_request_id job = i"
  unfolding jobs_ok_def by blast

lemma jobs_ok_job:
  assumes "jobs_ok now X reqs jobs n" and "dget jobs j = Some job"
  shows "hj_job_id job = j" "j < n" "now \<le> hj_completion_ns job" "hj_request_id job \<notin> X"
    and "\<exists>r. dget reqs (hj_request_id job) = Some r \<and> \<not> rq_handoff_done r \<and>
       rq_handoff_completion_ns r = Some (hj_completion_ns job) \<and>
       rq_state r = (if rq_output_tokens r = 1 then COMPLETE else HANDOFF)"
  using assms unfolding jobs_ok_def by blast+

lemma jobs_ok_unique:
  "jobs_ok now X reqs jobs n \<Longrightarrow> dget jobs j = Some a \<Longrightarrow> dget jobs k = Some b \<Longrightarrow>
     hj_request_id a = hj_request_id b \<Longrightarrow> j = k"
  unfolding jobs_ok_def by blast

definition heap_ok :: "int set \<Rightarrow> (int, handoff_job) dict \<Rightarrow> (int \<times> int \<times> int) list \<Rightarrow> bool" where
  "heap_ok H jobs heap \<longleftrightarrow>
     sorted heap \<and> distinct heap \<and>
     (\<forall>t i j. (t, i, j) \<in> set heap \<longleftrightarrow>
        j \<notin> H \<and> (\<exists>job. dget jobs j = Some job \<and> hj_completion_ns job = t \<and> hj_request_id job = i))"

definition sessions_ok :: "(int, request) dict \<Rightarrow> (string, int) dict \<Rightarrow> bool" where
  "sessions_ok reqs cur \<longleftrightarrow>
     (\<forall>s i. dget cur s = Some i \<longrightarrow> (\<exists>r. dget reqs i = Some r \<and> rq_session_id r = s)) \<and>
     (\<forall>i r. dget reqs i = Some r \<longrightarrow> rq_state r \<noteq> COMPLETE \<longrightarrow> dget cur (rq_session_id r) = Some i)"

lemma sessions_ok_put:
  assumes "sessions_ok reqs cur" and "dget reqs i = Some r0" and "rq_session_id r = rq_session_id r0"
    and "rq_state r0 = COMPLETE \<Longrightarrow> rq_state r = COMPLETE"
  shows "sessions_ok (dput i r reqs) cur"
  unfolding sessions_ok_def
proof (intro conjI allI impI)
  fix s j assume "dget cur s = Some j"
  with assms(1) obtain q where "dget reqs j = Some q" "rq_session_id q = s"
    unfolding sessions_ok_def by blast
  with assms(2,3) show "\<exists>q. dget (dput i r reqs) j = Some q \<and> rq_session_id q = s"
    by (cases "j = i") auto
next
  fix j q assume "dget (dput i r reqs) j = Some q" "rq_state q \<noteq> COMPLETE"
  with assms show "dget cur (rq_session_id q) = Some j"
    unfolding sessions_ok_def by (cases "j = i") auto
qed

definition is_complete :: "request \<Rightarrow> int" where
  "is_complete r = (if rq_state r = COMPLETE then 1 else 0)"

definition counts_ok ::
  "(int, request) dict \<Rightarrow> pool_metrics \<Rightarrow> int list \<Rightarrow> int list \<Rightarrow> bool" where
  "counts_ok reqs m completed handed \<longleftrightarrow>
     pm_submitted_requests m = int (length reqs) \<and>
     pm_completed_requests m = dtotal is_complete reqs \<and>
     distinct completed \<and>
     (\<forall>i \<in> set completed. \<exists>r. dget reqs i = Some r \<and> rq_state r = COMPLETE) \<and>
     (\<forall>i \<in> set handed. \<exists>r. dget reqs i = Some r)"

section \<open>The pool\<close>

text \<open>What never changes after construction.\<close>

definition pool_config where
  "pool_config p =
     (pl_hardware p, pl_provider p, pl_node_id p, pl_max_num_batched_tokens p, pl_p_max_num_seqs p,
      pl_d_max_num_seqs p, pl_max_prefill_chunk_tokens p, pl_handoff_overlap p,
      pl_validate_every_event p, pl_retain_detailed_history p)"

definition config_ok :: "pool \<Rightarrow> bool" where
  "config_ok p \<longleftrightarrow>
     hw_ok (pl_hardware p) \<and> provider_ok (pl_provider p) \<and> 0 \<le> pl_node_id p \<and>
     0 < pl_max_num_batched_tokens p \<and> 0 < pl_p_max_num_seqs p \<and> 0 < pl_d_max_num_seqs p \<and>
     pl_d_max_num_seqs p \<le> 128 \<and> 0 < pl_max_prefill_chunk_tokens p \<and>
     pl_max_prefill_chunk_tokens p \<le> 131072"

lemma config_ok_cong: "pool_config p' = pool_config p \<Longrightarrow> config_ok p' = config_ok p"
  by (simp add: pool_config_def config_ok_def)

definition pool_core ::
  "int \<Rightarrow> int set \<Rightarrow> int set \<Rightarrow> batch_item list \<Rightarrow> batch_item list \<Rightarrow> pool \<Rightarrow> bool" where
  "pool_core now X H pit dit p \<longleftrightarrow>
     config_ok p \<and> 0 \<le> pl_current_ns p \<and> pl_current_ns p \<le> now \<and>
     table_ok (pl_retain_detailed_history p) now (pl_requests p) \<and>
     queue_ok (pl_requests p) P_PREFILL (pw_waiting (pl_p_worker p) @ map bi_request_id pit) \<and>
     queue_ok (pl_requests p) D_DECODE (pw_waiting (pl_d_worker p) @ map bi_request_id dit) \<and>
     items_ok (pl_requests p) pit \<and>
     jobs_ok now X (pl_requests p) (pl_handoff_jobs p) (pl_next_handoff_id p) \<and>
     heap_ok H (pl_handoff_jobs p) (pl_handoff_completion_heap p) \<and>
     sessions_ok (pl_requests p) (pl_current_request_by_session p) \<and>
     counts_ok (pl_requests p) (pl_metrics p) (pl_completed_request_ids p)
       (pl_completed_handoff_request_ids p)"

text \<open>
  How a request evolves: what the caller submitted never changes, progress is never undone, and
  recorded times are final.
\<close>

definition submitted_part where
  "submitted_part r =
     (rq_request_id r, rq_session_id r, rq_arrival_ns r, rq_input_tokens r, rq_output_tokens r,
      rq_p_prefix_tokens r, rq_d_prefix_tokens r, rq_has_successor r, rq_restore_layer_ready_ns r)"

definition evolves :: "request \<Rightarrow> request \<Rightarrow> bool" where
  "evolves r r' \<longleftrightarrow>
     submitted_part r' = submitted_part r \<and>
     rq_p_processed_tokens r \<le> rq_p_processed_tokens r' \<and>
     rq_generated_tokens r \<le> rq_generated_tokens r' \<and>
     (\<exists>ts. rq_token_completion_ns r' = rq_token_completion_ns r @ ts) \<and>
     (\<forall>t. rq_first_token_ns r = Some t \<longrightarrow> rq_first_token_ns r' = Some t) \<and>
     (\<forall>c. rq_completion_ns r = Some c \<longrightarrow> rq_completion_ns r' = Some c) \<and>
     (rq_state r = COMPLETE \<longrightarrow> rq_state r' = COMPLETE) \<and>
     (rq_handoff_done r \<longrightarrow> rq_handoff_done r')"

lemma evolves_refl [simp]: "evolves r r"
  by (simp add: evolves_def)

lemma evolves_trans:
  assumes a: "evolves r s" and b: "evolves s t"
  shows "evolves r t"
  unfolding evolves_def
proof (intro conjI)
  show "submitted_part t = submitted_part r" using a b by (simp only: evolves_def)
  show "rq_p_processed_tokens r \<le> rq_p_processed_tokens t" "rq_generated_tokens r \<le> rq_generated_tokens t"
    using a b unfolding evolves_def by linarith+
  show "\<exists>ts. rq_token_completion_ns t = rq_token_completion_ns r @ ts"
    using a b unfolding evolves_def by (metis append_assoc)
  show "\<forall>u. rq_first_token_ns r = Some u \<longrightarrow> rq_first_token_ns t = Some u"
    "\<forall>c. rq_completion_ns r = Some c \<longrightarrow> rq_completion_ns t = Some c"
    "rq_state r = COMPLETE \<longrightarrow> rq_state t = COMPLETE" "rq_handoff_done r \<longrightarrow> rq_handoff_done t"
    using a b unfolding evolves_def by blast+
qed

lemma evolves_complete: "evolves r r' \<Longrightarrow> rq_state r = COMPLETE \<Longrightarrow> rq_state r' = COMPLETE"
  by (simp only: evolves_def)

definition table_evolves :: "(int, request) dict \<Rightarrow> (int, request) dict \<Rightarrow> bool" where
  "table_evolves reqs reqs' \<longleftrightarrow>
     (\<forall>i. dget reqs i = None \<longleftrightarrow> dget reqs' i = None) \<and>
     (\<forall>i r. dget reqs i = Some r \<longrightarrow> (\<exists>r'. dget reqs' i = Some r' \<and> evolves r r'))"

lemma table_evolves_refl [simp]: "table_evolves reqs reqs"
  unfolding table_evolves_def by (blast intro: evolves_refl)

lemma table_evolves_trans: "table_evolves a b \<Longrightarrow> table_evolves b c \<Longrightarrow> table_evolves a c"
proof -
  assume ab: "table_evolves a b" and bc: "table_evolves b c"
  have "dget a i = None \<longleftrightarrow> dget c i = None" for i
    using ab bc unfolding table_evolves_def by metis
  moreover have "\<exists>t. dget c i = Some t \<and> evolves r t" if ar: "dget a i = Some r" for i r
  proof -
    obtain s where "dget b i = Some s" "evolves r s" using ab ar unfolding table_evolves_def by blast
    moreover from this(1) obtain t where "dget c i = Some t" "evolves s t"
      using bc unfolding table_evolves_def by blast
    ultimately show ?thesis using evolves_trans by blast
  qed
  ultimately show "table_evolves a c" unfolding table_evolves_def by blast
qed

lemma table_evolves_put: "dget reqs i = Some r \<Longrightarrow> evolves r r' \<Longrightarrow> table_evolves reqs (dput i r' reqs)"
  unfolding table_evolves_def by (metis dget_dput evolves_refl option.distinct(1) option.sel)

definition pool_evolves :: "pool \<Rightarrow> pool \<Rightarrow> bool" where
  "pool_evolves p p' \<longleftrightarrow>
     pool_config p' = pool_config p \<and>
     pl_current_request_by_session p' = pl_current_request_by_session p \<and>
     table_evolves (pl_requests p) (pl_requests p')"

lemma pool_evolves_refl [simp]: "pool_evolves p p"
  by (simp add: pool_evolves_def)

lemma pool_evolves_trans: "pool_evolves p q \<Longrightarrow> pool_evolves q r \<Longrightarrow> pool_evolves p r"
  by (auto simp: pool_evolves_def intro: table_evolves_trans)

lemma pool_evolves_config: "pool_evolves p q \<Longrightarrow> pool_config q = pool_config p"
  by (simp add: pool_evolves_def)

text \<open>What the steps inside a completion leave alone.\<close>

definition worker_frame where
  "worker_frame p =
     (pw_inflight (pl_p_worker p), pw_pending_launch_ns (pl_p_worker p),
      pw_inflight (pl_d_worker p), pw_pending_launch_ns (pl_d_worker p))"

definition batch_frame :: "pool \<Rightarrow> pool \<Rightarrow> bool" where
  "batch_frame p p' \<longleftrightarrow>
     pool_evolves p p' \<and> worker_frame p' = worker_frame p \<and>
     pl_batch_completion_heap p' = pl_batch_completion_heap p \<and>
     pl_launch_heap p' = pl_launch_heap p \<and> pl_next_batch_id p' = pl_next_batch_id p \<and>
     pl_current_ns p' = pl_current_ns p \<and>
     (\<forall>s. free_at (pl_calendar p') (model_resource p s) = free_at (pl_calendar p) (model_resource p s))"

lemma batch_frame_refl [simp]: "batch_frame p p"
  by (simp add: batch_frame_def)

lemma model_resource_config: "pool_config p' = pool_config p \<Longrightarrow> model_resource p' s = model_resource p s"
  by (simp add: pool_config_def model_resource_def)

lemma batch_frame_trans: "batch_frame p q \<Longrightarrow> batch_frame q r \<Longrightarrow> batch_frame p r"
  unfolding batch_frame_def using model_resource_config [of q p] pool_evolves_trans [of p q r]
  by (simp add: pool_evolves_config)

lemma worker_of_simps [simp]:
  "worker_of P p = pl_p_worker p" "worker_of D p = pl_d_worker p"
  by (simp_all add: worker_of_def)

lemma set_worker_simps [simp]:
  "set_worker P f p = p\<lparr>pl_p_worker := f (pl_p_worker p)\<rparr>"
  "set_worker D f p = p\<lparr>pl_d_worker := f (pl_d_worker p)\<rparr>"
  by (simp_all add: set_worker_def)

lemma pool_config_updates [simp]:
  "pool_config (p\<lparr>pl_requests := x\<rparr>) = pool_config p"
  "pool_config (p\<lparr>pl_calendar := x1\<rparr>) = pool_config p"
  "pool_config (p\<lparr>pl_p_worker := x2\<rparr>) = pool_config p"
  "pool_config (p\<lparr>pl_d_worker := x2\<rparr>) = pool_config p"
  "pool_config (p\<lparr>pl_current_request_by_session := x3\<rparr>) = pool_config p"
  "pool_config (p\<lparr>pl_metrics := x4\<rparr>) = pool_config p"
  "pool_config (p\<lparr>pl_batch_history := x5\<rparr>) = pool_config p"
  "pool_config (p\<lparr>pl_handoff_history := x6\<rparr>) = pool_config p"
  "pool_config (p\<lparr>pl_completed_request_ids := x7\<rparr>) = pool_config p"
  "pool_config (p\<lparr>pl_completed_handoff_request_ids := x7\<rparr>) = pool_config p"
  "pool_config (p\<lparr>pl_batch_completion_heap := x8\<rparr>) = pool_config p"
  "pool_config (p\<lparr>pl_handoff_completion_heap := x9\<rparr>) = pool_config p"
  "pool_config (p\<lparr>pl_handoff_jobs := x10\<rparr>) = pool_config p"
  "pool_config (p\<lparr>pl_launch_heap := x11\<rparr>) = pool_config p"
  "pool_config (p\<lparr>pl_next_batch_id := x12\<rparr>) = pool_config p"
  "pool_config (p\<lparr>pl_next_handoff_id := x12\<rparr>) = pool_config p"
  "pool_config (p\<lparr>pl_current_ns := x12\<rparr>) = pool_config p"
  by (simp_all add: pool_config_def)

lemma config_ok_updates [simp]:
  "config_ok (p\<lparr>pl_requests := x\<rparr>) = config_ok p"
  "config_ok (p\<lparr>pl_calendar := x1\<rparr>) = config_ok p"
  "config_ok (p\<lparr>pl_p_worker := x2\<rparr>) = config_ok p"
  "config_ok (p\<lparr>pl_d_worker := x2\<rparr>) = config_ok p"
  "config_ok (p\<lparr>pl_current_request_by_session := x3\<rparr>) = config_ok p"
  "config_ok (p\<lparr>pl_metrics := x4\<rparr>) = config_ok p"
  "config_ok (p\<lparr>pl_batch_history := x5\<rparr>) = config_ok p"
  "config_ok (p\<lparr>pl_handoff_history := x6\<rparr>) = config_ok p"
  "config_ok (p\<lparr>pl_completed_request_ids := x7\<rparr>) = config_ok p"
  "config_ok (p\<lparr>pl_completed_handoff_request_ids := x7\<rparr>) = config_ok p"
  "config_ok (p\<lparr>pl_batch_completion_heap := x8\<rparr>) = config_ok p"
  "config_ok (p\<lparr>pl_handoff_completion_heap := x9\<rparr>) = config_ok p"
  "config_ok (p\<lparr>pl_handoff_jobs := x10\<rparr>) = config_ok p"
  "config_ok (p\<lparr>pl_launch_heap := x11\<rparr>) = config_ok p"
  "config_ok (p\<lparr>pl_next_batch_id := x12\<rparr>) = config_ok p"
  "config_ok (p\<lparr>pl_next_handoff_id := x12\<rparr>) = config_ok p"
  "config_ok (p\<lparr>pl_current_ns := x12\<rparr>) = config_ok p"
  by (simp_all add: config_ok_def)

lemma get_request_Inr: "dget (pl_requests p) i = Some r \<Longrightarrow> get_request p i = Inr r"
  by (simp add: get_request_def)

section \<open>Handoff completion\<close>

lemma request_handed_over:
  assumes r: "request_ok retain now r" and h: "rq_handoff_completion_ns r = Some h" "h \<le> now"
    and st: "rq_state r = (if rq_output_tokens r = 1 then COMPLETE else HANDOFF)"
  shows "rq_output_tokens r = 1 \<Longrightarrow> request_ok retain now (r\<lparr>rq_handoff_done := True\<rparr>)"
    and "1 < rq_output_tokens r \<Longrightarrow> rq_arrival_ns r \<le> h \<Longrightarrow> request_ok retain now
      (r\<lparr>rq_handoff_done := True, rq_state := D_DECODE, rq_stage_ready_ns := Some h\<rparr>)"
  using r h st
  by (auto simp: request_ok_def request_static_def progress_ok_def clock_ok_def p_fresh_tokens_def
      operational_p_prefix_tokens_def split: option.splits)

lemma jobs_ok_pop:
  assumes jobs: "jobs_ok now X reqs jobs n" and job: "dget jobs j = Some job"
    and r: "rq_state r \<noteq> HANDOFF"
  shows "jobs_ok now X (dput (hj_request_id job) r reqs) (dpop j jobs) n"
proof -
  have other: "hj_request_id a \<noteq> hj_request_id job" if "dget (dpop j jobs) k = Some a" for k a
    using that jobs job unfolding jobs_ok_def by (metis dget_dpop option.distinct(1))
  have 1: "dwf (dpop j jobs)" using jobs by (simp add: jobs_ok_def)
  have 2: "hj_job_id a = k \<and> k < n \<and> now \<le> hj_completion_ns a \<and> hj_request_id a \<notin> X \<and>
      (\<exists>q. dget (dput (hj_request_id job) r reqs) (hj_request_id a) = Some q \<and> \<not> rq_handoff_done q \<and>
        rq_handoff_completion_ns q = Some (hj_completion_ns a) \<and>
        rq_state q = (if rq_output_tokens q = 1 then COMPLETE else HANDOFF))"
    if a: "dget (dpop j jobs) k = Some a" for k a
  proof -
    from a have "dget jobs k = Some a" by (simp split: if_split_asm)
    with jobs other [OF a] show ?thesis unfolding jobs_ok_def by simp
  qed
  have 3: "k = l" if "dget (dpop j jobs) k = Some a" "dget (dpop j jobs) l = Some b"
    "hj_request_id a = hj_request_id b" for k l a b
  proof -
    from that have "dget jobs k = Some a" "dget jobs l = Some b" by (simp_all split: if_split_asm)
    with that(3) jobs show ?thesis unfolding jobs_ok_def by blast
  qed
  have 4: "i \<in> X \<or> (\<exists>k a. dget (dpop j jobs) k = Some a \<and> hj_request_id a = i)"
    if q: "dget (dput (hj_request_id job) r reqs) i = Some q" "rq_state q = HANDOFF" for i q
  proof -
    from q r have i: "i \<noteq> hj_request_id job" by (auto split: if_split_asm)
    with q have "dget reqs i = Some q" by simp
    with jobs q(2) consider "i \<in> X" | k a where "dget jobs k = Some a" "hj_request_id a = i"
      unfolding jobs_ok_def by blast
    then show ?thesis
    proof cases
      case 2
      with job i have "k \<noteq> j" by auto
      with 2 have "dget (dpop j jobs) k = Some a" by simp
      with 2(2) show ?thesis by blast
    qed simp
  qed
  show ?thesis unfolding jobs_ok_def using 1 2 3 4 by blast
qed

lemma heap_ok_pop: "heap_ok {j} jobs heap \<Longrightarrow> heap_ok {} (dpop j jobs) heap"
  unfolding heap_ok_def by auto

text \<open>Two facts used whenever one request changes: the order of the table and its totals.\<close>

lemma items_ok_put:
  "items_ok reqs its \<Longrightarrow> i \<notin> bi_request_id ` set its \<Longrightarrow> items_ok (dput i r reqs) its"
  by (auto simp: items_ok_def)

lemma items_ok_same:
  "items_ok reqs its \<Longrightarrow> dget reqs i = Some r0 \<Longrightarrow> p_remaining_tokens r = p_remaining_tokens r0 \<Longrightarrow>
     items_ok (dput i r reqs) its"
  by (auto simp: items_ok_def)

lemma counts_ok_put:
  assumes "counts_ok reqs m completed handed" and "dget reqs i = Some r0" and "dwf reqs"
    and "rq_state r0 = COMPLETE \<longleftrightarrow> rq_state r = COMPLETE"
  shows "counts_ok (dput i r reqs) m completed handed"
  using assms by (auto simp: counts_ok_def length_dput_old dtotal_dput is_complete_def)

lemma counts_ok_handed:
  "counts_ok reqs m completed handed \<Longrightarrow> dget reqs i = Some r \<Longrightarrow>
     counts_ok reqs m completed (handed @ [i])"
  by (auto simp: counts_ok_def)

lemma arrival_le_first:
  "request_ok retain now r \<Longrightarrow> rq_handoff_completion_ns r = Some h \<Longrightarrow> rq_arrival_ns r \<le> h"
  by (auto simp: request_ok_def clock_ok_def split: option.splits)

lemma handoff_work:
  "request_work (r\<lparr>rq_handoff_done := True\<rparr>) = request_work r - (if rq_handoff_done r then 0 else 1)"
  "request_work (r\<lparr>rq_handoff_done := True, rq_state := S, rq_stage_ready_ns := t\<rparr>)
     = request_work r - (if rq_handoff_done r then 0 else 1)"
  by (simp_all add: request_work_def p_remaining_tokens_def p_fresh_tokens_def
      operational_p_prefix_tokens_def)

text \<open>
  Completing a handoff: the request is handed over, and joins the decode queue when it has more
  tokens to generate.
\<close>

lemma finish_handoff_ok:
  assumes core: "pool_core now X {j} pit dit p" and job: "dget (pl_handoff_jobs p) j = Some job"
    and now: "hj_completion_ns job = now"
  shows "\<exists>p'. finish_handoff job p = (Inr (), p') \<and> pool_core now X {} pit dit p' \<and> batch_frame p p' \<and>
    dtotal request_work (pl_requests p') = dtotal request_work (pl_requests p) - 1 \<and>
    pl_handoff_completion_heap p' = pl_handoff_completion_heap p \<and>
    (\<exists>r. dget (pl_requests p') (hj_request_id job) = Some r \<and> rq_handoff_completion_ns r = Some now)"
proof -
  let ?i = "hj_request_id job"
  note c = core [unfolded pool_core_def]
  let ?retain = "pl_retain_detailed_history p"
  from c have table: "table_ok ?retain now (pl_requests p)"
    and jobs: "jobs_ok now X (pl_requests p) (pl_handoff_jobs p) (pl_next_handoff_id p)"
    and heap: "heap_ok {j} (pl_handoff_jobs p) (pl_handoff_completion_heap p)"
    and qp: "queue_ok (pl_requests p) P_PREFILL (pw_waiting (pl_p_worker p) @ map bi_request_id pit)"
    and qd: "queue_ok (pl_requests p) D_DECODE (pw_waiting (pl_d_worker p) @ map bi_request_id dit)"
    and its: "items_ok (pl_requests p) pit"
    and sess: "sessions_ok (pl_requests p) (pl_current_request_by_session p)"
    and cnt: "counts_ok (pl_requests p) (pl_metrics p) (pl_completed_request_ids p)
       (pl_completed_handoff_request_ids p)" by simp_all
  from jobs job have j: "hj_job_id job = j" unfolding jobs_ok_def by blast
  from jobs job obtain r where r: "dget (pl_requests p) ?i = Some r" "\<not> rq_handoff_done r"
    "rq_handoff_completion_ns r = Some now"
    "rq_state r = (if rq_output_tokens r = 1 then COMPLETE else HANDOFF)"
    unfolding jobs_ok_def now [symmetric] by blast
  note rok = table_okD [OF table r(1)]
  have wf: "dwf (pl_requests p)" by (rule table_ok_dwf [OF table])
  let ?r1 = "r\<lparr>rq_handoff_done := True\<rparr>"
  let ?r2 = "r\<lparr>rq_handoff_done := True, rq_state := D_DECODE, rq_stage_ready_ns := Some now\<rparr>"
  show ?thesis
  proof (cases "rq_output_tokens r = 1")
    case True
    let ?p = "p\<lparr>pl_handoff_jobs := dpop j (pl_handoff_jobs p),
      pl_requests := dput ?i ?r1 (pl_requests p),
      pl_completed_handoff_request_ids := pl_completed_handoff_request_ids p @ [?i]\<rparr>"
    have eq: "finish_handoff job p = (Inr (), ?p)"
      using r rok True by (simp add: finish_handoff_def j job get_request_def Let_def now set_request_def)
    have "pool_core now X {} pit dit ?p"
      unfolding pool_core_def
      using c True r rok request_handed_over(1) [of ?retain now r now] heap_ok_pop [OF heap]
        jobs_ok_pop [OF jobs job, of ?r1] table_ok_put [OF table, of ?r1 ?i]
        queue_ok_same [OF qp r(1), of ?r1] queue_ok_same [OF qd r(1), of ?r1]
        items_ok_same [OF its r(1), of ?r1] sessions_ok_put [OF sess r(1), of ?r1]
        counts_ok_handed [OF counts_ok_put [OF cnt r(1) wf, of ?r1], of ?i ?r1]
      by (simp add: p_remaining_tokens_def p_fresh_tokens_def operational_p_prefix_tokens_def)
    moreover have "evolves r ?r1" by (simp add: evolves_def submitted_part_def)
    then have "batch_frame p ?p"
      using table_evolves_put [OF r(1)]
      by (simp add: batch_frame_def worker_frame_def pool_evolves_def)
    ultimately show ?thesis
      using eq r(2,3) by (intro exI [of _ ?p]) (simp add: dtotal_dput [OF r(1) wf] handoff_work)
  next
    case False
    then have out: "1 < rq_output_tokens r" using rok by (simp add: request_ok_def request_static_def)
    let ?p = "p\<lparr>pl_handoff_jobs := dpop j (pl_handoff_jobs p),
      pl_requests := dput ?i ?r2 (pl_requests p),
      pl_completed_handoff_request_ids := pl_completed_handoff_request_ids p @ [?i],
      pl_d_worker := (pl_d_worker p)\<lparr>pw_waiting := pw_waiting (pl_d_worker p) @ [?i]\<rparr>\<rparr>"
    have eq: "finish_handoff job p = (Inr (), ?p)"
      using r rok out job by (cases p) (simp add: finish_handoff_def j job get_request_def Let_def now
          set_request_def push_waiting_def)
    have i: "?i \<notin> set (pw_waiting (pl_d_worker p) @ map bi_request_id dit)"
      "?i \<notin> set (pw_waiting (pl_p_worker p) @ map bi_request_id pit)"
      using queue_ok_iff [OF qd r(1)] queue_ok_iff [OF qp r(1)] r(4) False by auto
    have "queue_ok (dput ?i ?r2 (pl_requests p)) D_DECODE
        ((pw_waiting (pl_d_worker p) @ [?i]) @ map bi_request_id dit)"
      by (rule queue_ok_put [OF qd]) (use i queue_ok_distinct [OF qd] in auto)
    moreover have "queue_ok (dput ?i ?r2 (pl_requests p)) P_PREFILL
        (pw_waiting (pl_p_worker p) @ map bi_request_id pit)"
      by (rule queue_ok_put [OF qp]) (use i queue_ok_distinct [OF qp] in auto)
    ultimately have "pool_core now X {} pit dit ?p"
      unfolding pool_core_def
      using c out r rok request_handed_over(2) [of ?retain now r now] heap_ok_pop [OF heap]
        jobs_ok_pop [OF jobs job, of ?r2] table_ok_put [OF table, of ?r2 ?i]
        items_ok_same [OF its r(1), of ?r2] sessions_ok_put [OF sess r(1), of ?r2]
        counts_ok_handed [OF counts_ok_put [OF cnt r(1) wf, of ?r2], of ?i ?r2]
        arrival_le_first [OF conjunct2 [OF rok] r(3)]
      by (simp add: p_remaining_tokens_def p_fresh_tokens_def operational_p_prefix_tokens_def)
    moreover have "evolves r ?r2" using r(4) out by (simp add: evolves_def submitted_part_def)
    then have "batch_frame p ?p"
      using table_evolves_put [OF r(1)]
      by (simp add: batch_frame_def worker_frame_def pool_evolves_def)
    ultimately show ?thesis
      using eq r(2,3) by (intro exI [of _ ?p]) (simp add: dtotal_dput [OF r(1) wf] handoff_work)
  qed
qed

section \<open>Starting a handoff\<close>

text \<open>The exposed time is at least the fixed latency's share and, unless the fixed latency alone
  exceeds the modelled latency, at most that latency.\<close>

definition handoff_fixed_ns :: "hardware \<Rightarrow> int" where
  "handoff_fixed_ns hw = \<lceil>fmul (pd_peer_fixed_latency_us hw) e3\<rceil>"

lemma handoff_fixed_nonneg: "hw_ok hw \<Longrightarrow> 0 \<le> handoff_fixed_ns hw"
  using hw_ok_facts(7) [of hw] fmul_nonneg [of "pd_peer_fixed_latency_us hw" e3]
  by (simp add: handoff_fixed_ns_def ceiling_mono le_ceiling_iff)

lemma ceil_share_bounds:
  assumes "0 \<le> (t::int)" and "0 < n"
  shows "0 \<le> - ((- t) div n)" and "- ((- t) div n) \<le> t"
proof -
  have "(- t) div n \<le> 0" using assms by (simp add: div_nonpos_pos_le0)
  then show "0 \<le> - ((- t) div n)" by simp
  have "- t * n \<le> - t" using assms by (simp add: mult_le_cancel_left1)
  then have "(- t * n) div n \<le> (- t) div n" using assms(2) by (rule zdiv_mono1)
  moreover have "(- t * n) div n = - t" using assms(2) by (intro nonzero_mult_div_cancel_right) simp
  ultimately have "- t \<le> (- t) div n" by simp
  then show "- ((- t) div n) \<le> t" by simp
qed

lemma handoff_exposed_bounds:
  assumes hw: "hw_ok (pl_hardware p)" and pv: "provider_ok (pl_provider p)"
    and lat: "0 \<le> hl_latency_ns hl" and shape: "\<And>b. pb = Some b \<Longrightarrow> validate_shape (sb_shape b) = None"
  shows "\<exists>e. handoff_exposed_ns p hl pb = Inr e \<and> 0 \<le> e \<and>
    e \<le> max (hl_latency_ns hl) (handoff_fixed_ns (pl_hardware p)) \<and>
    (pl_handoff_overlap p = ''layerwise'' \<and> hl_latency_ns hl \<noteq> 0 \<and> pb \<noteq> None \<longrightarrow>
       handoff_fixed_ns (pl_hardware p) \<le> e)"
proof (cases "pl_handoff_overlap p \<noteq> ''layerwise'' \<or> hl_latency_ns hl = 0 \<or> pb = None")
  case True
  with lat show ?thesis by (auto simp: handoff_exposed_ns_def)
next
  case False
  then obtain b where b: "pb = Some b" by blast
  from batch_phase_exact [OF shape [OF b]] obtain ph
    where ph: "batch_phase_latency (pl_hardware p) (pl_provider p) (sb_shape b) = Inr ph"
      and n: "ph_layer_count ph = QWEN_LAYERS" by blast
  note layer = batch_phase_nonneg(1) [OF hw pv ph]
  let ?f = "handoff_fixed_ns (pl_hardware p)"
  let ?t = "max 0 (hl_latency_ns hl - ?f)"
  let ?share = "- ((- ?t) div QWEN_LAYERS)"
  let ?x = "max ?share (?t - (QWEN_LAYERS - 1) * ph_layer_ns ph)"
  have e: "handoff_exposed_ns p hl pb = Inr (?f + ?x)"
    using False b ph n by (simp add: handoff_exposed_ns_def Let_def handoff_fixed_ns_def)
  have s: "0 \<le> ?share" "?share \<le> ?t"
    by (rule ceil_share_bounds; simp add: qwen_defs)+
  have "0 \<le> (QWEN_LAYERS - 1) * ph_layer_ns ph" using layer by (simp add: qwen_defs)
  with s have "0 \<le> ?x" "?x \<le> ?t" by linarith+
  with e handoff_fixed_nonneg [OF hw] show ?thesis by auto
qed

lemma resource_names:
  "model_resource p s \<noteq> handoff_resource p" "model_resource p s \<noteq> []" "handoff_resource p \<noteq> []"
  "model_resource p s = model_resource p t \<longleftrightarrow> s = t"
  by (cases s; cases t; simp add: model_resource_def handoff_resource_def)+

lemma reserve_single:
  assumes "0 \<le> arrival" and "ns \<noteq> []" and "r \<noteq> []" and "0 \<le> sv" and "0 \<le> b"
  shows "\<exists>st c'. reserve_parallel c arrival j k [(r, (sv, b))] ns = (Inr (st, st + sv), c') \<and>
    arrival \<le> st \<and> st = max arrival (free_at c r) \<and> free_at c' r = st + sv \<and>
    (\<forall>r'. r' \<noteq> r \<longrightarrow> free_at c' r' = free_at c r')"
proof -
  let ?ds = "[(r, (sv, b))]"
  have v: "reserve_valid arrival ?ds ns" using assms by (simp add: reserve_valid_def)
  then obtain st en c' where res: "reserve_parallel c arrival j k ?ds ns = (Inr (st, en), c')"
    using reserve_parallel_valid [of arrival ?ds ns c j k] by (metis surj_pair)
  have "en = st + sv" using reserve_end [OF res] by simp
  moreover have "st = max arrival (free_at c r)"
    using reserve_parallel_Inr [OF res] by (auto simp: reserve_start_def)
  moreover have "free_at c' r = st + sv" "\<And>r'. r' \<noteq> r \<Longrightarrow> free_at c' r' = free_at c r'"
    using cal.free_after [OF res, of r sv b] cal.free_other [OF res] by simp_all
  ultimately show ?thesis using res by auto
qed

lemma reserve_handoff_ok:
  assumes conf: "config_ok p" and ready: "0 \<le> ready" and lat: "0 \<le> hl_aggregate_bytes hl"
    and e: "0 \<le> e"
  shows "\<exists>st en cal m. (\<forall>q. pool_config q = pool_config p \<longrightarrow> pl_calendar q = pl_calendar p \<longrightarrow>
      pl_metrics q = pl_metrics p \<longrightarrow> reserve_handoff hl e j ready q
      = (Inr (st, en), q\<lparr>pl_calendar := cal, pl_metrics := m\<rparr>)) \<and>
    ready \<le> st \<and> st \<le> en \<and>
    (\<forall>s. free_at cal (model_resource p s) = free_at (pl_calendar p) (model_resource p s)) \<and>
    pm_submitted_requests m = pm_submitted_requests (pl_metrics p) \<and>
    pm_completed_requests m = pm_completed_requests (pl_metrics p)"
proof (cases "hl_latency_ns hl = 0")
  case True
  let ?m = "(pl_metrics p)\<lparr>pm_zero_byte_handoffs := pm_zero_byte_handoffs (pl_metrics p) + 1\<rparr>"
  have "reserve_handoff hl e j ready q
      = (Inr (ready, ready), q\<lparr>pl_calendar := pl_calendar p, pl_metrics := ?m\<rparr>)"
    if "pl_calendar q = pl_calendar p" "pl_metrics q = pl_metrics p" for q
    using that True by (cases q) (simp add: reserve_handoff_def)
  then show ?thesis
    by (intro exI [of _ ready] exI [of _ "pl_calendar p"] exI [of _ ?m]) simp
next
  case False
  let ?ns = "''gpu-pd-handoff-node-'' @ show_int (pl_node_id p)"
  have ns: "?ns \<noteq> []" by simp
  from reserve_single [OF ready ns resource_names(3) [of p] e lat, of "pl_calendar p" j "''pd-handoff''"]
  obtain st c' where res: "reserve_parallel (pl_calendar p) ready j ''pd-handoff''
        [(handoff_resource p, (e, hl_aggregate_bytes hl))] ?ns = (Inr (st, st + e), c')" "ready \<le> st"
    "\<forall>r'. r' \<noteq> handoff_resource p \<longrightarrow> free_at c' r' = free_at (pl_calendar p) r'" by blast
  have "reserve_handoff hl e j ready q
      = (Inr (st, st + e), q\<lparr>pl_calendar := c', pl_metrics := pl_metrics p\<rparr>)"
    if q: "pool_config q = pool_config p" "pl_calendar q = pl_calendar p" "pl_metrics q = pl_metrics p" for q
  proof -
    have "pl_node_id q = pl_node_id p" using q(1) by (simp add: pool_config_def)
    then have "handoff_resource q = handoff_resource p" by (simp add: handoff_resource_def)
    with res(1) q False \<open>pl_node_id q = pl_node_id p\<close>
    have "reserve_handoff hl e j ready q = (Inr (st, st + e), q\<lparr>pl_calendar := c'\<rparr>)"
      by (simp add: reserve_handoff_def)
    also have "q\<lparr>pl_calendar := c'\<rparr> = q\<lparr>pl_calendar := c', pl_metrics := pl_metrics p\<rparr>"
      using q(3) by (cases q) simp
    finally show ?thesis .
  qed
  moreover have "free_at c' (model_resource p s) = free_at (pl_calendar p) (model_resource p s)" for s
    using res(3) resource_names(1) by blast
  ultimately show ?thesis
    using res(2) e by (intro exI [of _ st] exI [of _ "st + e"] exI [of _ c'] exI [of _ "pl_metrics p"]) simp
qed

lemma jobs_ok_exempt:
  assumes jobs: "jobs_ok now X reqs jobs n" and r0: "dget reqs i = Some r0"
    and st: "rq_state r0 \<noteq> HANDOFF" "rq_state r0 \<noteq> COMPLETE"
  shows "jobs_ok now (insert i X) (dput i r reqs) jobs n"
proof -
  have other: "hj_request_id job \<noteq> i" if "dget jobs j = Some job" for j job
    using jobs that r0 st unfolding jobs_ok_def by (metis option.sel)
  show ?thesis
    using jobs other unfolding jobs_ok_def by (auto split: if_split_asm)
qed

lemma jobs_ok_put:
  assumes jobs: "jobs_ok now {i} reqs jobs n"
    and job: "hj_job_id job = n" "hj_request_id job = i" "now \<le> hj_completion_ns job"
    and r: "\<not> rq_handoff_done r" "rq_handoff_completion_ns r = Some (hj_completion_ns job)"
      "rq_state r = (if rq_output_tokens r = 1 then COMPLETE else HANDOFF)"
  shows "jobs_ok now {} (dput i r reqs) (dput n job jobs) (n + 1)"
proof -
  have other: "hj_request_id a \<noteq> i" "j < n" if "dget jobs j = Some a" for j a
    using jobs that unfolding jobs_ok_def by blast+
  have 1: "dwf (dput n job jobs)" using jobs by (simp add: jobs_ok_def)
  have 2: "hj_job_id a = j \<and> j < n + 1 \<and> now \<le> hj_completion_ns a \<and> hj_request_id a \<notin> {} \<and>
      (\<exists>q. dget (dput i r reqs) (hj_request_id a) = Some q \<and> \<not> rq_handoff_done q \<and>
        rq_handoff_completion_ns q = Some (hj_completion_ns a) \<and>
        rq_state q = (if rq_output_tokens q = 1 then COMPLETE else HANDOFF))"
    if a: "dget (dput n job jobs) j = Some a" for j a
  proof (cases "j = n")
    case True
    with a job r show ?thesis by simp
  next
    case False
    with a have a': "dget jobs j = Some a" by simp
    with jobs other(1) [OF a'] show ?thesis unfolding jobs_ok_def by fastforce
  qed
  have 3: "j = k" if a: "dget (dput n job jobs) j = Some a" "dget (dput n job jobs) k = Some b"
    "hj_request_id a = hj_request_id b" for j k a b
  proof (cases "j = n \<or> k = n")
    case True
    with a job other(1) show ?thesis by (auto split: if_split_asm)
  next
    case False
    with a have "dget jobs j = Some a" "dget jobs k = Some b" by simp_all
    with a(3) jobs show ?thesis unfolding jobs_ok_def by blast
  qed
  have 4: "k \<in> {} \<or> (\<exists>j a. dget (dput n job jobs) j = Some a \<and> hj_request_id a = k)"
    if q: "dget (dput i r reqs) k = Some q" "rq_state q = HANDOFF" for k q
  proof (cases "k = i")
    case True
    with job show ?thesis by (intro disjI2 exI [of _ n]) simp
  next
    case False
    with q have "dget reqs k = Some q" by simp
    with jobs_ok_handoff [OF jobs this q(2)] False
    obtain j a where a: "dget jobs j = Some a" "hj_request_id a = k" by blast
    with other(2) [OF a(1)] show ?thesis by (intro disjI2 exI [of _ j]) simp
  qed
  show ?thesis by (rule jobs_okI [OF 1 2 3 4])
qed

lemma heap_ok_put:
  assumes "heap_ok {} jobs heap" and "\<And>j a. dget jobs j = Some a \<Longrightarrow> j < (n::int)"
  shows "heap_ok {n} (dput n job jobs) heap"
    and "heap_ok {} (dput n job jobs) (heappush (hj_completion_ns job, hj_request_id job, n) heap)"
proof -
  have fresh: "(t, i, n) \<notin> set heap" for t i using assms unfolding heap_ok_def by fastforce
  have none: "dget jobs n = None" using assms(2) [of n] by (cases "dget jobs n") auto
  show "heap_ok {n} (dput n job jobs) heap"
    using assms(1) fresh none unfolding heap_ok_def by auto
  show "heap_ok {} (dput n job jobs) (heappush (hj_completion_ns job, hj_request_id job, n) heap)"
    using assms(1) fresh none unfolding heap_ok_def
    by (auto simp: heappush_def distinct_insort sorted_insort set_insort_key)
qed

lemma counts_ok_metrics:
  "counts_ok reqs m completed handed \<Longrightarrow> pm_submitted_requests m' = pm_submitted_requests m \<Longrightarrow>
     pm_completed_requests m' = pm_completed_requests m \<Longrightarrow> counts_ok reqs m' completed handed"
  by (simp add: counts_ok_def)

lemma handoff_metrics_counts [simp]:
  "pm_submitted_requests (handoff_metrics hl e q m) = pm_submitted_requests m"
  "pm_completed_requests (handoff_metrics hl e q m) = pm_completed_requests m"
  by (simp_all add: handoff_metrics_def)

lemma pool_core_parts:
  assumes "pool_core now X H pit dit p"
  shows "config_ok p" "0 \<le> pl_current_ns p" "pl_current_ns p \<le> now"
    "table_ok (pl_retain_detailed_history p) now (pl_requests p)"
    "queue_ok (pl_requests p) P_PREFILL (pw_waiting (pl_p_worker p) @ map bi_request_id pit)"
    "queue_ok (pl_requests p) D_DECODE (pw_waiting (pl_d_worker p) @ map bi_request_id dit)"
    "items_ok (pl_requests p) pit"
    "jobs_ok now X (pl_requests p) (pl_handoff_jobs p) (pl_next_handoff_id p)"
    "heap_ok H (pl_handoff_jobs p) (pl_handoff_completion_heap p)"
    "sessions_ok (pl_requests p) (pl_current_request_by_session p)"
    "counts_ok (pl_requests p) (pl_metrics p) (pl_completed_request_ids p)
       (pl_completed_handoff_request_ids p)"
  using assms by (simp_all add: pool_core_def)

text \<open>The request after its handoff was booked, and the pool with the new job.\<close>

definition booked :: "request \<Rightarrow> int \<Rightarrow> int \<Rightarrow> request" where
  "booked r st en = r\<lparr>rq_handoff_start_ns := Some st, rq_handoff_completion_ns := Some en\<rparr>"

lemma booked_ok:
  assumes r: "request_ok retain now r" and h: "\<not> rq_handoff_done r" "rq_first_token_ns r = Some now"
    and g: "rq_generated_tokens r = 1" and en: "now \<le> en"
  shows "request_ok retain now (booked r st en)"
proof -
  have "length (rq_token_completion_ns r) \<le> 1" using r g by (simp add: request_ok_def clock_ok_def)
  then have "tl (rq_token_completion_ns r) = []" by (cases "rq_token_completion_ns r") auto
  with r h en show ?thesis
    by (auto simp: request_ok_def booked_def request_static_def progress_ok_def clock_ok_def
        p_fresh_tokens_def operational_p_prefix_tokens_def cong: request_state.case_cong)
qed

lemma booked_sel [simp]:
  "rq_request_id (booked r st en) = rq_request_id r" "rq_state (booked r st en) = rq_state r"
  "rq_session_id (booked r st en) = rq_session_id r"
  "rq_handoff_done (booked r st en) = rq_handoff_done r"
  "rq_output_tokens (booked r st en) = rq_output_tokens r"
  "rq_handoff_completion_ns (booked r st en) = Some en"
  "p_remaining_tokens (booked r st en) = p_remaining_tokens r"
  "request_work (booked r st en) = request_work r"
  by (simp_all add: booked_def p_remaining_tokens_def p_fresh_tokens_def
      operational_p_prefix_tokens_def request_work_def)

definition book_handoff ::
  "request \<Rightarrow> handoff_job \<Rightarrow> calendar \<Rightarrow> pool_metrics \<Rightarrow> pool \<Rightarrow> pool" where
  "book_handoff r job cal m p =
     p\<lparr>pl_calendar := cal,
       pl_requests := dput (rq_request_id r) (booked r (hj_start_ns job) (hj_completion_ns job))
         (pl_requests p),
       pl_metrics := m,
       pl_handoff_history :=
         (if pl_retain_detailed_history p then pl_handoff_history p @ [job] else pl_handoff_history p),
       pl_handoff_jobs := dput (pl_next_handoff_id p) job (pl_handoff_jobs p),
       pl_next_handoff_id := pl_next_handoff_id p + 1\<rparr>"

lemma start_handoff_eq:
  assumes hl: "handoff_latency (pl_hardware p) (handoff_tokens r) = Inr hl"
    and e: "handoff_exposed_ns p hl pb = Inr e"
    and res: "\<And>q. pool_config q = pool_config p \<Longrightarrow> pl_calendar q = pl_calendar p \<Longrightarrow>
      pl_metrics q = pl_metrics p \<Longrightarrow> reserve_handoff hl e (pl_next_handoff_id p) ready q
      = (Inr (st, en), q\<lparr>pl_calendar := cal, pl_metrics := m\<rparr>)"
    and job: "job = \<lparr>hj_job_id = pl_next_handoff_id p, hj_request_id = rq_request_id r,
      hj_token_count = handoff_tokens r, hj_bytes_per_rank = hl_bytes_per_rank hl,
      hj_aggregate_bytes = hl_aggregate_bytes hl, hj_ready_ns = ready, hj_start_ns = st,
      hj_completion_ns = en\<rparr>"
    and q: "q = book_handoff r job cal (handoff_metrics hl e (st - ready) m) p"
  shows "start_handoff r ready pb p =
    (if en = ready then finish_handoff job q
     else (Inr (), q\<lparr>pl_handoff_completion_heap :=
       heappush (en, rq_request_id r, pl_next_handoff_id p) (pl_handoff_completion_heap p)\<rparr>))"
proof -
  let ?p1 = "p\<lparr>pl_next_handoff_id := pl_next_handoff_id p + 1\<rparr>"
  have "reserve_handoff hl e (pl_next_handoff_id p) ready ?p1
      = (Inr (st, en), ?p1\<lparr>pl_calendar := cal, pl_metrics := m\<rparr>)"
    by (rule res) simp_all
  then show ?thesis
    using hl e unfolding q job
    by (cases p) (simp add: start_handoff_def Let_def set_request_def book_handoff_def booked_def)
qed

lemma start_handoff_ok:
  assumes core: "pool_core now {i} {} pit dit p" and r: "dget (pl_requests p) i = Some r"
    and h: "\<not> rq_handoff_done r" "rq_first_token_ns r = Some now"
    and st: "rq_state r = (if rq_output_tokens r = 1 then COMPLETE else HANDOFF)"
    and shape: "\<And>b. pb = Some b \<Longrightarrow> validate_shape (sb_shape b) = None"
  shows "\<exists>p'. start_handoff r now pb p = (Inr (), p') \<and> pool_core now {} {} pit dit p' \<and>
    batch_frame p p' \<and> dtotal request_work (pl_requests p') \<le> dtotal request_work (pl_requests p)"
proof -
  note c = pool_core_parts [OF core]
  let ?n = "pl_next_handoff_id p" and ?hw = "pl_hardware p"
  note rok = table_okD [OF c(4) r]
  have wf: "dwf (pl_requests p)" by (rule table_ok_dwf [OF c(4)])
  have conf: "hw_ok ?hw" "provider_ok (pl_provider p)" using c(1) by (simp_all add: config_ok_def)
  have now: "0 \<le> now" using c(2,3) by simp
  have "0 \<le> handoff_tokens r" using rok request_static_facts(4) by (simp add: request_ok_def)
  then obtain hl where hl: "handoff_latency ?hw (handoff_tokens r) = Inr hl"
    using handoff_latency_ok [OF conf(1)] by blast
  note hlpos = handoff_latency_nonneg [OF conf(1) hl]
  obtain e where e: "handoff_exposed_ns p hl pb = Inr e" "0 \<le> e"
    using handoff_exposed_bounds [OF conf hlpos(1) shape] by blast
  obtain s en cal m where res: "\<And>q. pool_config q = pool_config p \<Longrightarrow> pl_calendar q = pl_calendar p \<Longrightarrow>
      pl_metrics q = pl_metrics p \<Longrightarrow> reserve_handoff hl e ?n now q
      = (Inr (s, en), q\<lparr>pl_calendar := cal, pl_metrics := m\<rparr>)"
    and t: "now \<le> s" "s \<le> en"
    and free: "\<And>s. free_at cal (model_resource p s) = free_at (pl_calendar p) (model_resource p s)"
    and m: "pm_submitted_requests m = pm_submitted_requests (pl_metrics p)"
      "pm_completed_requests m = pm_completed_requests (pl_metrics p)"
    using reserve_handoff_ok [OF c(1) now hlpos(2) e(2), of ?n] by blast
  have gen: "rq_generated_tokens r = 1"
    using rok st by (auto simp: request_ok_def progress_ok_def split: if_split_asm)
  define job where "job = \<lparr>hj_job_id = ?n, hj_request_id = rq_request_id r,
      hj_token_count = handoff_tokens r, hj_bytes_per_rank = hl_bytes_per_rank hl,
      hj_aggregate_bytes = hl_aggregate_bytes hl, hj_ready_ns = now, hj_start_ns = s,
      hj_completion_ns = en\<rparr>"
  let ?m = "handoff_metrics hl e (s - now) m"
  define q where "q = book_handoff r job cal ?m p"
  let ?r = "booked r s en"
  have id: "rq_request_id r = i" using rok by simp
  have job: "hj_job_id job = ?n" "hj_request_id job = i" "hj_completion_ns job = en" "hj_start_ns job = s"
    by (simp_all add: job_def id)
  have eq: "start_handoff r now pb p = (if en = now then finish_handoff job q
     else (Inr (), q\<lparr>pl_handoff_completion_heap :=
       heappush (en, rq_request_id r, ?n) (pl_handoff_completion_heap p)\<rparr>))"
    by (rule start_handoff_eq [OF hl e(1) _ job_def q_def]) (rule res)
  have en: "now \<le> en" using t by simp
  have bok: "request_ok (pl_retain_detailed_history p) now ?r"
    using booked_ok [OF conjunct2 [OF rok] h gen en] .
  have jobs: "jobs_ok now {} (dput i ?r (pl_requests p)) (dput ?n job (pl_handoff_jobs p)) (?n + 1)"
    by (rule jobs_ok_put [OF c(8)]) (simp_all add: job en h st)
  note heap = heap_ok_put [where job = job, OF c(9) jobs_ok_job(2) [OF c(8)], unfolded job]
  have core_q: "pool_core now {} H pit dit (q\<lparr>pl_handoff_completion_heap := hp\<rparr>)"
    if "heap_ok H (dput ?n job (pl_handoff_jobs p)) hp" for H hp
  proof -
    have "table_ok (pl_retain_detailed_history p) now (dput i ?r (pl_requests p))"
      by (rule table_ok_put [OF c(4) _ bok]) (simp add: id)
    moreover have "queue_ok (dput i ?r (pl_requests p)) P_PREFILL
        (pw_waiting (pl_p_worker p) @ map bi_request_id pit)"
      "queue_ok (dput i ?r (pl_requests p)) D_DECODE
        (pw_waiting (pl_d_worker p) @ map bi_request_id dit)"
      by (rule queue_ok_same [OF c(5) r] queue_ok_same [OF c(6) r]; simp)+
    moreover have "items_ok (dput i ?r (pl_requests p)) pit"
      by (rule items_ok_same [OF c(7) r]) simp
    moreover have "sessions_ok (dput i ?r (pl_requests p)) (pl_current_request_by_session p)"
      by (rule sessions_ok_put [OF c(10) r]) simp_all
    moreover have "counts_ok (dput i ?r (pl_requests p)) ?m (pl_completed_request_ids p)
        (pl_completed_handoff_request_ids p)"
      by (rule counts_ok_metrics [OF counts_ok_put [OF c(11) r wf]]) (simp_all add: m)
    ultimately show ?thesis
      unfolding pool_core_def using that c(1-3) jobs by (simp add: q_def book_handoff_def id job)
  qed
  have "evolves r ?r" by (simp add: evolves_def booked_def submitted_part_def)
  then have frame: "batch_frame p (q\<lparr>pl_handoff_completion_heap := hp\<rparr>)" for hp
    using free table_evolves_put [OF r, of ?r]
    by (simp add: batch_frame_def worker_frame_def q_def book_handoff_def pool_evolves_def job id)
  have work: "dtotal request_work (pl_requests q) = dtotal request_work (pl_requests p)"
    by (simp add: q_def book_handoff_def id job dtotal_dput [OF r wf])
  show ?thesis
  proof (cases "en = now")
    case True
    have "q\<lparr>pl_handoff_completion_heap := pl_handoff_completion_heap p\<rparr> = q"
      by (cases p) (simp add: q_def book_handoff_def)
    with core_q [OF heap(1)] frame [of "pl_handoff_completion_heap p"]
    have q: "pool_core now {} {?n} pit dit q" "batch_frame p q" by simp_all
    have "dget (pl_handoff_jobs q) ?n = Some job" by (simp add: q_def book_handoff_def)
    from finish_handoff_ok [OF q(1) this] True work q(2) show ?thesis
      unfolding eq by (auto simp: job intro: batch_frame_trans)
  next
    case False
    with core_q [OF heap(2)] frame work show ?thesis unfolding eq by (auto simp: id)
  qed
qed

end
