(* ===== verification/PD_Pool_Steps.thy ===== *)
theory PD_Pool_Steps
  imports PD_Pool_Invariant
begin

text \<open>
  Every step of the pool's event loop keeps the invariant of \<^verbatim>\<open>PD_Pool_Invariant\<close> and never raises:
  the items of a completed batch, the completion events of a timestamp, batch selection, launch and
  scheduling, and the loop itself, which ends within \<open>pool_work\<close> events.
\<close>

section \<open>Items of a completed prefill batch\<close>

lemma p_prefill_facts:
  assumes "request_ok retain now r" and "rq_state r = P_PREFILL"
  shows "rq_token_completion_ns r = []" "rq_first_token_ns r = None" "rq_generated_tokens r = 0"
    "rq_handoff_completion_ns r = None" "\<not> rq_handoff_done r" "rq_completion_ns r = None"
    "0 < p_remaining_tokens r" "rq_arrival_ns r \<le> now"
  using assms by (auto simp: request_ok_def progress_ok_def clock_ok_def p_remaining_tokens_def
      split: option.splits if_splits)

lemma p_chunk_ok:
  assumes "request_ok retain now r" and "rq_state r = P_PREFILL" and "0 < q" and "q < p_remaining_tokens r"
  shows "request_ok retain now
    (r\<lparr>rq_p_processed_tokens := rq_p_processed_tokens r + q, rq_stage_ready_ns := Some now\<rparr>)"
  using assms by (auto simp: request_ok_def request_static_def progress_ok_def clock_ok_def
      p_remaining_tokens_def p_fresh_tokens_def operational_p_prefix_tokens_def split: option.splits)

text \<open>The request after its last prompt chunk.\<close>

definition first_token :: "bool \<Rightarrow> int \<Rightarrow> int \<Rightarrow> request \<Rightarrow> request" where
  "first_token retain now q r =
     (let r = r\<lparr>rq_p_processed_tokens := rq_p_processed_tokens r + q, rq_generated_tokens := 1,
                rq_first_token_ns := Some now\<rparr>
      in if retain then r\<lparr>rq_token_completion_ns := rq_token_completion_ns r @ [now]\<rparr> else r)"

lemma first_token_sel [simp]:
  "rq_request_id (first_token retain now q r) = rq_request_id r"
  "rq_session_id (first_token retain now q r) = rq_session_id r"
  "rq_output_tokens (first_token retain now q r) = rq_output_tokens r"
  "rq_has_successor (first_token retain now q r) = rq_has_successor r"
  "rq_handoff_done (first_token retain now q r) = rq_handoff_done r"
  "rq_first_token_ns (first_token retain now q r) = Some now"
  "request_work (first_token retain now q r) = request_work r - q - 1 + rq_generated_tokens r"
  by (simp_all add: first_token_def Let_def request_work_def p_remaining_tokens_def p_fresh_tokens_def
      operational_p_prefix_tokens_def)

lemma first_token_complete:
  assumes "request_ok retain now r" and "rq_state r = P_PREFILL" and "q = p_remaining_tokens r"
    and "rq_output_tokens r = 1"
  shows "request_ok retain now
    ((first_token retain now q r)\<lparr>rq_state := COMPLETE, rq_completion_ns := Some now\<rparr>)"
  using assms p_prefill_facts [OF assms(1,2)]
  by (auto simp: first_token_def Let_def request_ok_def request_static_def progress_ok_def clock_ok_def
      p_remaining_tokens_def p_fresh_tokens_def operational_p_prefix_tokens_def)

lemma first_token_handoff:
  assumes "request_ok retain now r" and "rq_state r = P_PREFILL" and "q = p_remaining_tokens r"
    and "1 < rq_output_tokens r"
  shows "request_ok retain now
    ((first_token retain now q r)\<lparr>rq_state := HANDOFF, rq_stage_ready_ns := Some now\<rparr>)"
  using assms p_prefill_facts [OF assms(1,2)]
  by (auto simp: first_token_def Let_def request_ok_def request_static_def progress_ok_def clock_ok_def
      p_remaining_tokens_def p_fresh_tokens_def operational_p_prefix_tokens_def)

lemma evolves_chunk: "0 \<le> q \<Longrightarrow> rq_state r = P_PREFILL \<Longrightarrow>
    evolves r (r\<lparr>rq_p_processed_tokens := rq_p_processed_tokens r + q, rq_stage_ready_ns := t\<rparr>)"
  by (simp add: evolves_def submitted_part_def)

lemma evolves_first_token:
  assumes "request_ok retain now r" and "rq_state r = P_PREFILL" and "0 \<le> q"
  shows "evolves r ((first_token retain now q r)\<lparr>rq_state := S, rq_completion_ns := c\<rparr>)"
    and "evolves r ((first_token retain now q r)\<lparr>rq_state := S, rq_stage_ready_ns := c\<rparr>)"
  using assms p_prefill_facts [OF assms(1,2)]
  by (simp_all add: evolves_def submitted_part_def first_token_def Let_def)

lemma request_work_state [simp]:
  "request_work (r\<lparr>rq_state := S, rq_completion_ns := c\<rparr>) = request_work r"
  "request_work (r\<lparr>rq_state := S, rq_stage_ready_ns := t\<rparr>) = request_work r"
  "request_work (r\<lparr>rq_p_processed_tokens := rq_p_processed_tokens r + q, rq_stage_ready_ns := t\<rparr>)
     = request_work r - q"
  by (simp_all add: request_work_def p_remaining_tokens_def p_fresh_tokens_def
      operational_p_prefix_tokens_def)

lemma jobs_ok_unexempt:
  assumes jobs: "jobs_ok now {i} reqs jobs n" and r: "dget reqs i = Some r" "rq_state r \<noteq> HANDOFF"
  shows "jobs_ok now {} reqs jobs n"
proof (rule jobs_okI)
  show "dwf jobs" using jobs by (simp add: jobs_ok_def)
  fix j job assume "dget jobs j = Some job"
  from jobs_ok_job [OF jobs this]
  show "hj_job_id job = j \<and> j < n \<and> now \<le> hj_completion_ns job \<and> hj_request_id job \<notin> {} \<and>
      (\<exists>r. dget reqs (hj_request_id job) = Some r \<and> \<not> rq_handoff_done r \<and>
         rq_handoff_completion_ns r = Some (hj_completion_ns job) \<and>
         rq_state r = (if rq_output_tokens r = 1 then COMPLETE else HANDOFF))" by simp
next
  fix j k a b assume "dget jobs j = Some a" "dget jobs k = Some b" "hj_request_id a = hj_request_id b"
  then show "j = k" by (rule jobs_ok_unique [OF jobs])
next
  fix k q assume q: "dget reqs k = Some q" "rq_state q = HANDOFF"
  with r have "k \<notin> {i}" by auto
  with jobs_ok_handoff [OF jobs q]
  show "k \<in> {} \<or> (\<exists>j job. dget jobs j = Some job \<and> hj_request_id job = k)" by blast
qed

lemma counts_ok_complete:
  assumes cnt: "counts_ok reqs m completed handed" and r0: "dget reqs i = Some r0" "rq_state r0 \<noteq> COMPLETE"
    and wf: "dwf reqs" and r: "rq_state r = COMPLETE"
  shows "counts_ok (dput i r reqs) (m\<lparr>pm_completed_requests := pm_completed_requests m + 1\<rparr>)
    (completed @ [i]) handed"
proof -
  have "i \<notin> set completed" using cnt r0 by (auto simp: counts_ok_def)
  with assms show ?thesis
    by (auto simp: counts_ok_def length_dput_old dtotal_dput is_complete_def)
qed

text \<open>What the completion of a prompt leaves before the handoff is started.\<close>

definition prompt_done :: "int \<Rightarrow> int \<Rightarrow> request \<Rightarrow> pool \<Rightarrow> request \<times> pool" where
  "prompt_done now q r p =
     (let r = first_token (pl_retain_detailed_history p) now q r
      in if rq_output_tokens r = 1 then complete_request r now p
         else let r = r\<lparr>rq_state := HANDOFF, rq_stage_ready_ns := Some now\<rparr> in (r, set_request r p))"

lemma finish_p_item_eq:
  assumes "dget (pl_requests p) (bi_request_id it) = Some r"
  shows "finish_p_item b it p =
    (if bi_query_tokens it \<noteq> p_remaining_tokens r
     then (Inr (), push_waiting P (rq_request_id r) (set_request
            (r\<lparr>rq_p_processed_tokens := rq_p_processed_tokens r + bi_query_tokens it,
               rq_stage_ready_ns := Some (sb_completion_ns b)\<rparr>) p))
     else let (r', p') = prompt_done (sb_completion_ns b) (bi_query_tokens it) r p
          in if rq_output_tokens r > 1 \<or> rq_has_successor r
             then start_handoff r' (sb_completion_ns b) (Some b) p' else (Inr (), p'))"
  using assms
  by (simp add: finish_p_item_def get_request_def Let_def prompt_done_def first_token_def
      complete_request_def p_remaining_tokens_def p_fresh_tokens_def operational_p_prefix_tokens_def)

lemma prompt_done_core:
  assumes core: "pool_core now {} {} (it # pit) dit p" and i: "bi_request_id it = i"
    and r: "dget (pl_requests p) i = Some r" and q: "q = p_remaining_tokens r"
    and res: "prompt_done now q r p = (r', p')"
  shows "pool_core now {i} {} pit dit p'" "dget (pl_requests p') i = Some r'"
    "\<not> rq_handoff_done r'" "rq_first_token_ns r' = Some now"
    "rq_state r' = (if rq_output_tokens r' = 1 then COMPLETE else HANDOFF)"
    "rq_output_tokens r' = rq_output_tokens r"
    "batch_frame p p'" "dtotal request_work (pl_requests p') < dtotal request_work (pl_requests p)"
proof -
  note c = pool_core_parts [OF core]
  note rok = table_okD [OF c(4) r]
  have wf: "dwf (pl_requests p)" by (rule table_ok_dwf [OF c(4)])
  have st: "rq_state r = P_PREFILL"
    using queue_ok_iff [OF c(5) r] i by simp
  note facts = p_prefill_facts [OF conjunct2 [OF rok] st]
  let ?retain = "pl_retain_detailed_history p"
  let ?f = "first_token ?retain now q r"
  have id: "rq_request_id r = i" using rok by simp
  have sess: "rq_session_id ?f = rq_session_id r" by simp
  have ids: "i \<notin> set (pw_waiting (pl_p_worker p) @ map bi_request_id pit)"
    "i \<notin> set (pw_waiting (pl_d_worker p) @ map bi_request_id dit)"
    "distinct (pw_waiting (pl_p_worker p) @ map bi_request_id pit)"
    using queue_ok_distinct [OF c(5)] queue_ok_iff [OF c(6) r] i st by auto
  have upd: "queue_ok (dput i s (pl_requests p)) P_PREFILL (pw_waiting (pl_p_worker p) @ map bi_request_id pit)"
    "queue_ok (dput i s (pl_requests p)) D_DECODE (pw_waiting (pl_d_worker p) @ map bi_request_id dit)"
    "items_ok (dput i s (pl_requests p)) pit"
    "jobs_ok now {i} (dput i s (pl_requests p)) (pl_handoff_jobs p) (pl_next_handoff_id p)"
    "sessions_ok (dput i s (pl_requests p)) (pl_current_request_by_session p)"
    if s: "rq_state s = COMPLETE \<or> rq_state s = HANDOFF" "rq_session_id s = rq_session_id r" for s
  proof -
    show "queue_ok (dput i s (pl_requests p)) P_PREFILL (pw_waiting (pl_p_worker p) @ map bi_request_id pit)"
      by (rule queue_ok_put [OF c(5) ids(3)]) (use ids s i in auto)
    show "queue_ok (dput i s (pl_requests p)) D_DECODE (pw_waiting (pl_d_worker p) @ map bi_request_id dit)"
      by (rule queue_ok_put [OF c(6) queue_ok_distinct [OF c(6)]]) (use ids s i in auto)
    show "items_ok (dput i s (pl_requests p)) pit"
      using c(7) ids(1) by (intro items_ok_put) (auto simp: items_ok_def)
    show "jobs_ok now {i} (dput i s (pl_requests p)) (pl_handoff_jobs p) (pl_next_handoff_id p)"
      using jobs_ok_exempt [OF c(8) r, of s] st by simp
    show "sessions_ok (dput i s (pl_requests p)) (pl_current_request_by_session p)"
      using s st by (intro sessions_ok_put [OF c(10) r]) simp_all
  qed
  have pos: "0 < q" using facts(7) q by simp
  have "pool_core now {i} {} pit dit p' \<and> dget (pl_requests p') i = Some r' \<and>
    \<not> rq_handoff_done r' \<and> rq_first_token_ns r' = Some now \<and>
    rq_state r' = (if rq_output_tokens r' = 1 then COMPLETE else HANDOFF) \<and>
    rq_output_tokens r' = rq_output_tokens r \<and> batch_frame p p' \<and>
    dtotal request_work (pl_requests p') < dtotal request_work (pl_requests p)"
  proof (cases "rq_output_tokens r = 1")
    case True
    let ?r = "?f\<lparr>rq_state := COMPLETE, rq_completion_ns := Some now\<rparr>"
    have eq: "r' = ?r" "p' = (p\<lparr>pl_requests := dput i ?r (pl_requests p),
        pl_completed_request_ids := pl_completed_request_ids p @ [i],
        pl_metrics := (pl_metrics p)\<lparr>pm_completed_requests := pm_completed_requests (pl_metrics p) + 1\<rparr>\<rparr>)"
      using res True by (auto simp: prompt_done_def Let_def complete_request_def set_request_def id)
    have "request_ok ?retain now ?r" using first_token_complete rok st q True by blast
    then have "table_ok ?retain now (dput i ?r (pl_requests p))"
      by (intro table_ok_put [OF c(4)]) (simp_all add: id)
    moreover have "counts_ok (dput i ?r (pl_requests p))
        ((pl_metrics p)\<lparr>pm_completed_requests := pm_completed_requests (pl_metrics p) + 1\<rparr>)
        (pl_completed_request_ids p @ [i]) (pl_completed_handoff_request_ids p)"
      by (rule counts_ok_complete [OF c(11) r _ wf]) (simp_all add: st)
    ultimately have "pool_core now {i} {} pit dit p'"
      unfolding pool_core_def eq using c(1-3,9) upd [of ?r] by simp
    moreover have "batch_frame p p'"
      using table_evolves_put [OF r evolves_first_token(1) [OF conjunct2 [OF rok] st less_imp_le [OF pos]]]
      by (simp add: eq batch_frame_def worker_frame_def pool_evolves_def)
    ultimately show ?thesis
      using facts pos True by (simp add: eq dtotal_dput [OF r wf])
  next
    case False
    then have out: "1 < rq_output_tokens r" using rok by (simp add: request_ok_def request_static_def)
    let ?r = "?f\<lparr>rq_state := HANDOFF, rq_stage_ready_ns := Some now\<rparr>"
    have eq: "r' = ?r" "p' = p\<lparr>pl_requests := dput i ?r (pl_requests p)\<rparr>"
      using res False by (auto simp: prompt_done_def Let_def set_request_def id)
    have "request_ok ?retain now ?r" using first_token_handoff rok st q out by blast
    then have "table_ok ?retain now (dput i ?r (pl_requests p))"
      by (intro table_ok_put [OF c(4)]) (simp_all add: id)
    moreover have "counts_ok (dput i ?r (pl_requests p)) (pl_metrics p)
        (pl_completed_request_ids p) (pl_completed_handoff_request_ids p)"
      by (rule counts_ok_put [OF c(11) r wf]) (simp add: st)
    ultimately have "pool_core now {i} {} pit dit p'"
      unfolding pool_core_def eq using c(1-3,9) upd [of ?r] by simp
    moreover have "batch_frame p p'"
      using table_evolves_put [OF r evolves_first_token(2) [OF conjunct2 [OF rok] st less_imp_le [OF pos]]]
      by (simp add: eq batch_frame_def worker_frame_def pool_evolves_def)
    ultimately show ?thesis
      using facts pos False by (simp add: eq dtotal_dput [OF r wf])
  qed
  then show "pool_core now {i} {} pit dit p'" "dget (pl_requests p') i = Some r'"
    "\<not> rq_handoff_done r'" "rq_first_token_ns r' = Some now"
    "rq_state r' = (if rq_output_tokens r' = 1 then COMPLETE else HANDOFF)"
    "rq_output_tokens r' = rq_output_tokens r"
    "batch_frame p p'" "dtotal request_work (pl_requests p') < dtotal request_work (pl_requests p)"
    by blast+
qed

text \<open>
  \<open>step_ok\<close>: a step that processes one item returns normally, keeps the invariant for the items left,
  touches nothing of the workers' batches and the batch heap, and does some of the work.
\<close>

definition step_ok ::
  "int \<Rightarrow> batch_item list \<Rightarrow> batch_item list \<Rightarrow> pool \<Rightarrow> (unit, pool) outcome \<Rightarrow> bool" where
  "step_ok now pit dit p res \<longleftrightarrow>
     (\<exists>p'. res = (Inr (), p') \<and> pool_core now {} {} pit dit p' \<and> batch_frame p p' \<and>
        dtotal request_work (pl_requests p') < dtotal request_work (pl_requests p))"

lemma finish_p_item_ok:
  assumes core: "pool_core now {} {} (it # pit) dit p" and b: "sb_completion_ns b = now"
    and shape: "validate_shape (sb_shape b) = None"
  shows "step_ok now pit dit p (finish_p_item b it p)"
proof -
  let ?i = "bi_request_id it" and ?q = "bi_query_tokens it"
  note c = pool_core_parts [OF core]
  from queue_okD [OF c(5), of ?i] obtain r
    where r: "dget (pl_requests p) ?i = Some r" and st: "rq_state r = P_PREFILL" by auto
  note rok = table_okD [OF c(4) r]
  have wf: "dwf (pl_requests p)" by (rule table_ok_dwf [OF c(4)])
  have q: "0 < ?q" "?q \<le> p_remaining_tokens r" using c(7) r by (auto simp: items_ok_def)
  note eq = finish_p_item_eq [OF r, of b, unfolded b]
  show ?thesis
  proof (cases "?q = p_remaining_tokens r")
    case False
    let ?r = "r\<lparr>rq_p_processed_tokens := rq_p_processed_tokens r + ?q, rq_stage_ready_ns := Some now\<rparr>"
    let ?w = "pw_waiting (pl_p_worker p)"
    have dist: "distinct ((?w @ [?i]) @ map bi_request_id pit)"
      using queue_ok_distinct [OF c(5)] by auto
    have "queue_ok (dput ?i ?r (pl_requests p)) P_PREFILL ((?w @ [?i]) @ map bi_request_id pit)"
      by (rule queue_ok_put [OF c(5) dist]) (auto simp: st)
    moreover have "queue_ok (dput ?i ?r (pl_requests p)) D_DECODE
        (pw_waiting (pl_d_worker p) @ map bi_request_id dit)"
      by (rule queue_ok_same [OF c(6) r]) simp
    moreover have "items_ok (dput ?i ?r (pl_requests p)) pit"
      using c(7) dist by (intro items_ok_put) (auto simp: items_ok_def)
    moreover have "jobs_ok now {} (dput ?i ?r (pl_requests p)) (pl_handoff_jobs p) (pl_next_handoff_id p)"
    proof (rule jobs_ok_unexempt)
      show "jobs_ok now {?i} (dput ?i ?r (pl_requests p)) (pl_handoff_jobs p) (pl_next_handoff_id p)"
        using jobs_ok_exempt [OF c(8) r, of ?r] st by simp
      show "dget (dput ?i ?r (pl_requests p)) ?i = Some ?r" by simp
      show "rq_state ?r \<noteq> HANDOFF" using st by simp
    qed
    moreover have "sessions_ok (dput ?i ?r (pl_requests p)) (pl_current_request_by_session p)"
      using st by (intro sessions_ok_put [OF c(10) r]) simp_all
    moreover have "table_ok (pl_retain_detailed_history p) now (dput ?i ?r (pl_requests p))"
      using p_chunk_ok rok st q False by (intro table_ok_put [OF c(4)]) auto
    moreover have "counts_ok (dput ?i ?r (pl_requests p)) (pl_metrics p)
        (pl_completed_request_ids p) (pl_completed_handoff_request_ids p)"
      by (rule counts_ok_put [OF c(11) r wf]) (simp add: st)
    ultimately have "pool_core now {} {} pit dit (push_waiting P ?i (set_request ?r p))"
      using c(1-3,9) rok by (simp add: pool_core_def push_waiting_def set_request_def)
    moreover have "batch_frame p (push_waiting P ?i (set_request ?r p))"
      using table_evolves_put [OF r evolves_chunk [OF less_imp_le [OF q(1)] st]] rok
      by (simp add: batch_frame_def worker_frame_def push_waiting_def set_request_def pool_evolves_def)
    ultimately show ?thesis
      using rok False q unfolding step_ok_def eq
      by (simp add: push_waiting_def set_request_def dtotal_dput [OF r wf])
  next
    case True
    obtain r' p' where res: "prompt_done now ?q r p = (r', p')" by (cases "prompt_done now ?q r p")
    note d = prompt_done_core [OF core refl r True res]
    show ?thesis
    proof (cases "rq_output_tokens r > 1 \<or> rq_has_successor r")
      case h: True
      from start_handoff_ok [OF d(1-5), of "Some b"] shape obtain p''
        where "start_handoff r' now (Some b) p' = (Inr (), p'')" "pool_core now {} {} pit dit p''"
          "batch_frame p' p''"
          "dtotal request_work (pl_requests p'') \<le> dtotal request_work (pl_requests p')" by auto
      with d(7,8) True h show ?thesis
        unfolding step_ok_def eq res by (auto intro: batch_frame_trans)
    next
      case h: False
      then have "rq_state r' = COMPLETE"
        using d(5,6) rok by (auto simp: request_ok_def request_static_def)
      then have "jobs_ok now {} (pl_requests p') (pl_handoff_jobs p') (pl_next_handoff_id p')"
        using jobs_ok_unexempt [OF pool_core_parts(8) [OF d(1)] d(2)] by simp
      then have "pool_core now {} {} pit dit p'" using d(1) by (simp add: pool_core_def)
      with d(7,8) True h show ?thesis unfolding step_ok_def eq res by auto
    qed
  qed
qed

section \<open>Items of a completed decode batch\<close>

definition next_token :: "bool \<Rightarrow> int \<Rightarrow> request \<Rightarrow> request" where
  "next_token retain now r =
     (let r = r\<lparr>rq_generated_tokens := rq_generated_tokens r + 1\<rparr>
      in if retain then r\<lparr>rq_token_completion_ns := rq_token_completion_ns r @ [now]\<rparr> else r)"

lemma next_token_sel [simp]:
  "rq_request_id (next_token retain now r) = rq_request_id r"
  "rq_session_id (next_token retain now r) = rq_session_id r"
  "rq_output_tokens (next_token retain now r) = rq_output_tokens r"
  "rq_generated_tokens (next_token retain now r) = rq_generated_tokens r + 1"
  "rq_state (next_token retain now r) = rq_state r"
  "request_work (next_token retain now r) = request_work r - 1"
  "request_work (r\<lparr>rq_stage_ready_ns := t\<rparr>) = request_work r"
  by (simp_all add: next_token_def Let_def request_work_def p_remaining_tokens_def p_fresh_tokens_def
      operational_p_prefix_tokens_def)

lemma d_decode_facts:
  assumes "request_ok retain now r" and "rq_state r = D_DECODE"
  shows "1 \<le> rq_generated_tokens r" "rq_generated_tokens r < rq_output_tokens r" "rq_handoff_done r"
    "rq_arrival_ns r \<le> now"
    "\<exists>t. rq_first_token_ns r = Some t \<and> t \<le> now"
    "\<exists>h. rq_handoff_completion_ns r = Some h \<and> h \<le> now"
    "retain \<Longrightarrow> rq_token_completion_ns r \<noteq> []"
  using assms by (auto simp: request_ok_def progress_ok_def clock_ok_def split: option.splits)

lemma clock_next_token:
  assumes r: "request_ok retain now r" and st: "rq_state r = D_DECODE"
  shows "sorted (rq_token_completion_ns (next_token retain now r))"
    "\<forall>t \<in> set (rq_token_completion_ns (next_token retain now r)). rq_arrival_ns r \<le> t \<and> t \<le> now"
    "length (rq_token_completion_ns (next_token retain now r)) =
       (if retain then nat (rq_generated_tokens r + 1) else 0)"
    "retain \<Longrightarrow> hd (rq_token_completion_ns (next_token retain now r)) = hd (rq_token_completion_ns r)"
    "set (tl (rq_token_completion_ns (next_token retain now r)))
       \<subseteq> insert now (set (tl (rq_token_completion_ns r)))"
  using r st d_decode_facts [OF r st]
  by (auto simp: next_token_def Let_def request_ok_def clock_ok_def sorted_append nat_add_distrib
      tl_append split: list.splits)

lemma next_token_frame:
  "rq_arrival_ns (next_token retain now r) = rq_arrival_ns r"
  "rq_first_token_ns (next_token retain now r) = rq_first_token_ns r"
  "rq_completion_ns (next_token retain now r) = rq_completion_ns r"
  "rq_handoff_completion_ns (next_token retain now r) = rq_handoff_completion_ns r"
  "rq_handoff_done (next_token retain now r) = rq_handoff_done r"
  "rq_p_processed_tokens (next_token retain now r) = rq_p_processed_tokens r"
  "rq_stage_ready_ns (next_token retain now r) = rq_stage_ready_ns r"
  "p_fresh_tokens (next_token retain now r) = p_fresh_tokens r"
  "request_static (next_token retain now r) = request_static r"
  by (simp_all add: next_token_def Let_def p_fresh_tokens_def operational_p_prefix_tokens_def
      request_static_def)

lemma evolves_next_token:
  assumes "request_ok retain now r" and "rq_state r = D_DECODE"
  shows "evolves r ((next_token retain now r)\<lparr>rq_state := S, rq_completion_ns := c\<rparr>)"
    and "evolves r ((next_token retain now r)\<lparr>rq_stage_ready_ns := t\<rparr>)"
  using assms
  by (auto simp: evolves_def submitted_part_def next_token_def Let_def request_ok_def progress_ok_def)

lemma request_updates [simp]:
  "request_static (r\<lparr>rq_state := S, rq_completion_ns := c\<rparr>) = request_static r"
  "request_static (r\<lparr>rq_stage_ready_ns := t\<rparr>) = request_static r"
  "p_fresh_tokens (r\<lparr>rq_state := S, rq_completion_ns := c\<rparr>) = p_fresh_tokens r"
  "p_fresh_tokens (r\<lparr>rq_stage_ready_ns := t\<rparr>) = p_fresh_tokens r"
  by (simp_all add: request_static_def p_fresh_tokens_def operational_p_prefix_tokens_def)

lemma next_token_handoff_before:
  assumes r: "request_ok retain now r" and st: "rq_state r = D_DECODE"
    and h: "rq_handoff_completion_ns r = Some h"
  shows "\<forall>t \<in> set (tl (rq_token_completion_ns (next_token retain now r))). h \<le> t"
  using r d_decode_facts(6) [OF r st] h clock_next_token(5) [OF r st]
  by (auto simp: request_ok_def clock_ok_def)

lemma next_token_complete:
  assumes r: "request_ok retain now r" and st: "rq_state r = D_DECODE"
    and g: "rq_generated_tokens r + 1 = rq_output_tokens r"
  shows "request_ok retain now ((next_token retain now r)\<lparr>rq_state := COMPLETE, rq_completion_ns := Some now\<rparr>)"
  using r st g clock_next_token [OF r st] next_token_handoff_before [OF r st]
  unfolding request_ok_def progress_ok_def clock_ok_def
  by (auto simp: next_token_frame split: option.splits)

lemma next_token_more:
  assumes r: "request_ok retain now r" and st: "rq_state r = D_DECODE"
    and g: "rq_generated_tokens r + 1 \<noteq> rq_output_tokens r"
  shows "request_ok retain now ((next_token retain now r)\<lparr>rq_stage_ready_ns := Some now\<rparr>)"
  using r st g clock_next_token [OF r st] next_token_handoff_before [OF r st]
  unfolding request_ok_def progress_ok_def clock_ok_def
  by (auto simp: next_token_frame split: option.splits)

lemma finish_d_item_eq:
  assumes "dget (pl_requests p) (bi_request_id it) = Some r" and "rq_state r = D_DECODE"
  shows "finish_d_item b it p =
    (let s = next_token (pl_retain_detailed_history p) (sb_completion_ns b) r
     in if rq_generated_tokens r + 1 = rq_output_tokens r
        then (Inr (), snd (complete_request s (sb_completion_ns b) p))
        else (Inr (), push_waiting D (rq_request_id r)
                (set_request (s\<lparr>rq_stage_ready_ns := Some (sb_completion_ns b)\<rparr>) p)))"
  using assms by (simp add: finish_d_item_def get_request_def Let_def next_token_def)

lemma jobs_ok_same:
  assumes jobs: "jobs_ok now X reqs jobs n" and r0: "dget reqs i = Some r0"
    and no: "rq_handoff_done r0" and st: "rq_state r \<noteq> HANDOFF"
  shows "jobs_ok now X (dput i r reqs) jobs n"
proof (rule jobs_okI)
  show "dwf jobs" using jobs by (simp add: jobs_ok_def)
next
  fix j job assume j: "dget jobs j = Some job"
  note jj = jobs_ok_job [OF jobs j]
  then have "hj_request_id job \<noteq> i" using r0 no by auto
  with jj show "hj_job_id job = j \<and> j < n \<and> now \<le> hj_completion_ns job \<and> hj_request_id job \<notin> X \<and>
      (\<exists>q. dget (dput i r reqs) (hj_request_id job) = Some q \<and> \<not> rq_handoff_done q \<and>
         rq_handoff_completion_ns q = Some (hj_completion_ns job) \<and>
         rq_state q = (if rq_output_tokens q = 1 then COMPLETE else HANDOFF))" by simp
next
  fix j k a b assume "dget jobs j = Some a" "dget jobs k = Some b" "hj_request_id a = hj_request_id b"
  then show "j = k" by (rule jobs_ok_unique [OF jobs])
next
  fix k q assume q: "dget (dput i r reqs) k = Some q" "rq_state q = HANDOFF"
  with st have "dget reqs k = Some q" by (auto split: if_split_asm)
  with jobs_ok_handoff [OF jobs this q(2)]
  show "k \<in> X \<or> (\<exists>j job. dget jobs j = Some job \<and> hj_request_id job = k)" by blast
qed

lemma finish_d_item_ok:
  assumes core: "pool_core now {} {} pit (it # dit) p" and b: "sb_completion_ns b = now"
  shows "step_ok now pit dit p (finish_d_item b it p)"
proof -
  let ?i = "bi_request_id it"
  note c = pool_core_parts [OF core]
  from queue_okD [OF c(6), of ?i] obtain r
    where r: "dget (pl_requests p) ?i = Some r" and st: "rq_state r = D_DECODE" by auto
  note rok = table_okD [OF c(4) r]
  have id: "rq_request_id r = ?i" using rok by simp
  have wf: "dwf (pl_requests p)" by (rule table_ok_dwf [OF c(4)])
  note facts = d_decode_facts [OF conjunct2 [OF rok] st]
  let ?s = "next_token (pl_retain_detailed_history p) now r"
  let ?w = "pw_waiting (pl_d_worker p)"
  note eq = finish_d_item_eq [OF r st, of b, unfolded b, unfolded Let_def id]
  have dist: "distinct ((?w @ [?i]) @ map bi_request_id dit)" "distinct (?w @ map bi_request_id dit)"
    and notp: "?i \<notin> set (pw_waiting (pl_p_worker p) @ map bi_request_id pit)"
    using queue_ok_distinct [OF c(6)] queue_ok_iff [OF c(5) r] st by auto
  have upd: "queue_ok (dput ?i q (pl_requests p)) P_PREFILL (pw_waiting (pl_p_worker p) @ map bi_request_id pit)"
    "items_ok (dput ?i q (pl_requests p)) pit"
    "jobs_ok now {} (dput ?i q (pl_requests p)) (pl_handoff_jobs p) (pl_next_handoff_id p)"
    "sessions_ok (dput ?i q (pl_requests p)) (pl_current_request_by_session p)"
    if q: "rq_state q = COMPLETE \<or> rq_state q = D_DECODE" "rq_session_id q = rq_session_id r" for q
  proof -
    show "queue_ok (dput ?i q (pl_requests p)) P_PREFILL (pw_waiting (pl_p_worker p) @ map bi_request_id pit)"
      by (rule queue_ok_put [OF c(5) queue_ok_distinct [OF c(5)]]) (use notp q in auto)
    show "items_ok (dput ?i q (pl_requests p)) pit"
      using c(7) notp by (intro items_ok_put) auto
    show "jobs_ok now {} (dput ?i q (pl_requests p)) (pl_handoff_jobs p) (pl_next_handoff_id p)"
      using q by (intro jobs_ok_same [OF c(8) r facts(3)]) auto
    show "sessions_ok (dput ?i q (pl_requests p)) (pl_current_request_by_session p)"
      using q st by (intro sessions_ok_put [OF c(10) r]) simp_all
  qed
  show ?thesis
  proof (cases "rq_generated_tokens r + 1 = rq_output_tokens r")
    case True
    let ?r = "?s\<lparr>rq_state := COMPLETE, rq_completion_ns := Some now\<rparr>"
    let ?p = "p\<lparr>pl_requests := dput ?i ?r (pl_requests p),
        pl_completed_request_ids := pl_completed_request_ids p @ [?i],
        pl_metrics := (pl_metrics p)\<lparr>pm_completed_requests := pm_completed_requests (pl_metrics p) + 1\<rparr>\<rparr>"
    have p: "snd (complete_request ?s now p) = ?p"
      by (simp add: complete_request_def Let_def set_request_def id)
    have "table_ok (pl_retain_detailed_history p) now (dput ?i ?r (pl_requests p))"
      using next_token_complete rok st True by (intro table_ok_put [OF c(4)]) (simp_all add: id)
    moreover have "counts_ok (dput ?i ?r (pl_requests p))
        ((pl_metrics p)\<lparr>pm_completed_requests := pm_completed_requests (pl_metrics p) + 1\<rparr>)
        (pl_completed_request_ids p @ [?i]) (pl_completed_handoff_request_ids p)"
      by (rule counts_ok_complete [OF c(11) r _ wf]) (simp_all add: st)
    moreover have "queue_ok (dput ?i ?r (pl_requests p)) D_DECODE (?w @ map bi_request_id dit)"
      by (rule queue_ok_put [OF c(6) dist(2)]) (use dist in auto)
    ultimately have "pool_core now {} {} pit dit ?p"
      unfolding pool_core_def using c(1-3,9) upd [of ?r] by simp
    moreover have "batch_frame p ?p"
      using table_evolves_put [OF r evolves_next_token(1) [OF conjunct2 [OF rok] st]]
      by (simp add: batch_frame_def worker_frame_def pool_evolves_def)
    ultimately show ?thesis
      using True unfolding step_ok_def eq by (simp add: p dtotal_dput [OF r wf])
  next
    case False
    let ?r = "?s\<lparr>rq_stage_ready_ns := Some now\<rparr>"
    have "table_ok (pl_retain_detailed_history p) now (dput ?i ?r (pl_requests p))"
      using next_token_more rok st False by (intro table_ok_put [OF c(4)]) (simp_all add: id)
    moreover have "counts_ok (dput ?i ?r (pl_requests p)) (pl_metrics p)
        (pl_completed_request_ids p) (pl_completed_handoff_request_ids p)"
      by (rule counts_ok_put [OF c(11) r wf]) (simp add: st)
    moreover have "queue_ok (dput ?i ?r (pl_requests p)) D_DECODE ((?w @ [?i]) @ map bi_request_id dit)"
      by (rule queue_ok_put [OF c(6) dist(1)]) (auto simp: st)
    ultimately have "pool_core now {} {} pit dit (push_waiting D ?i (set_request ?r p))"
      using c(1-3,9) upd [of ?r] st by (simp add: pool_core_def push_waiting_def set_request_def id)
    moreover have "batch_frame p (push_waiting D ?i (set_request ?r p))"
      using table_evolves_put [OF r evolves_next_token(2) [OF conjunct2 [OF rok] st]]
      by (simp add: batch_frame_def worker_frame_def push_waiting_def set_request_def pool_evolves_def id)
    ultimately show ?thesis
      using False unfolding step_ok_def eq
      by (simp add: push_waiting_def set_request_def id dtotal_dput [OF r wf])
  qed
qed

section \<open>Completing a batch\<close>

definition inflight_items :: "stage \<Rightarrow> pool \<Rightarrow> batch_item list" where
  "inflight_items s p = (case pw_inflight (worker_of s p) of None \<Rightarrow> [] | Some b \<Rightarrow> sb_items b)"

definition batch_ok :: "int \<Rightarrow> stage \<Rightarrow> pool \<Rightarrow> serving_batch \<Rightarrow> bool" where
  "batch_ok now s p b \<longleftrightarrow>
     sb_stage b = s \<and> now \<le> sb_completion_ns b \<and> sb_items b \<noteq> [] \<and>
     validate_shape (sb_shape b) = None \<and> sb_batch_id b < pl_next_batch_id p \<and>
     free_at (pl_calendar p) (model_resource p s) = sb_completion_ns b"

text \<open>\<open>B\<close> are the stages whose completion event was just popped.\<close>

definition stages_ok :: "int \<Rightarrow> stage set \<Rightarrow> pool \<Rightarrow> bool" where
  "stages_ok now B p \<longleftrightarrow>
     (\<forall>s. pw_pending_launch_ns (worker_of s p) = None) \<and> pl_launch_heap p = [] \<and>
     (\<forall>s. case pw_inflight (worker_of s p) of
        None \<Rightarrow> free_at (pl_calendar p) (model_resource p s) \<le> now
      | Some b \<Rightarrow> batch_ok now s p b) \<and>
     sorted (pl_batch_completion_heap p) \<and> distinct (pl_batch_completion_heap p) \<and>
     (\<forall>t s i. (t, s, i) \<in> set (pl_batch_completion_heap p) \<longleftrightarrow>
        s \<notin> B \<and> (\<exists>b. pw_inflight (worker_of s p) = Some b \<and> sb_completion_ns b = t \<and> sb_batch_id b = i))"

lemma stages_okD:
  assumes "stages_ok now B p"
  shows "pw_pending_launch_ns (pl_p_worker p) = None" "pw_pending_launch_ns (pl_d_worker p) = None"
    "pl_launch_heap p = []"
    "\<And>s. pw_inflight (worker_of s p) = None \<Longrightarrow> free_at (pl_calendar p) (model_resource p s) \<le> now"
    "\<And>s b. pw_inflight (worker_of s p) = Some b \<Longrightarrow> batch_ok now s p b"
    "sorted (pl_batch_completion_heap p)" "distinct (pl_batch_completion_heap p)"
    "\<And>t s i. (t, s, i) \<in> set (pl_batch_completion_heap p) \<longleftrightarrow>
        s \<notin> B \<and> (\<exists>b. pw_inflight (worker_of s p) = Some b \<and> sb_completion_ns b = t \<and> sb_batch_id b = i)"
proof -
  have "\<forall>s. pw_pending_launch_ns (worker_of s p) = None" using assms by (simp add: stages_ok_def)
  from this [rule_format, of P] this [rule_format, of D]
  show "pw_pending_launch_ns (pl_p_worker p) = None" "pw_pending_launch_ns (pl_d_worker p) = None"
    by simp_all
  have c: "case pw_inflight (worker_of s p) of
        None \<Rightarrow> free_at (pl_calendar p) (model_resource p s) \<le> now
      | Some b \<Rightarrow> batch_ok now s p b" for s using assms by (simp add: stages_ok_def)
  show "pw_inflight (worker_of s p) = None \<Longrightarrow> free_at (pl_calendar p) (model_resource p s) \<le> now" for s
    using c [of s] by simp
  show "pw_inflight (worker_of s p) = Some b \<Longrightarrow> batch_ok now s p b" for s b using c [of s] by simp
qed (use assms in \<open>simp_all add: stages_ok_def\<close>)

lemma stages_okI:
  assumes "pw_pending_launch_ns (pl_p_worker p) = None" "pw_pending_launch_ns (pl_d_worker p) = None"
    "pl_launch_heap p = []"
    "\<And>s. pw_inflight (worker_of s p) = None \<Longrightarrow> free_at (pl_calendar p) (model_resource p s) \<le> now"
    "\<And>s b. pw_inflight (worker_of s p) = Some b \<Longrightarrow> batch_ok now s p b"
    "sorted (pl_batch_completion_heap p)" "distinct (pl_batch_completion_heap p)"
    "\<And>t s i. (t, s, i) \<in> set (pl_batch_completion_heap p) \<longleftrightarrow>
        s \<notin> B \<and> (\<exists>b. pw_inflight (worker_of s p) = Some b \<and> sb_completion_ns b = t \<and> sb_batch_id b = i)"
  shows "stages_ok now B p"
proof -
  have "pw_pending_launch_ns (worker_of s p) = None" for s using assms(1,2) by (cases s) simp_all
  then show ?thesis unfolding stages_ok_def using assms(3-8) by (auto split: option.split)
qed

definition pool_ok :: "int \<Rightarrow> pool \<Rightarrow> bool" where
  "pool_ok now p \<longleftrightarrow>
     pool_core now {} {} (inflight_items P p) (inflight_items D p) p \<and> stages_ok now {} p"

lemma frame_worker: "batch_frame p p' \<Longrightarrow>
    pw_inflight (worker_of s p') = pw_inflight (worker_of s p) \<and>
    pw_pending_launch_ns (worker_of s p') = pw_pending_launch_ns (worker_of s p)"
  by (cases s) (simp_all add: batch_frame_def worker_frame_def)

lemma frame_config: "batch_frame p p' \<Longrightarrow> pool_config p' = pool_config p"
  by (simp add: batch_frame_def pool_evolves_def)

lemma stages_ok_frame: "batch_frame p p' \<Longrightarrow> stages_ok now B p' = stages_ok now B p"
  using frame_worker [of p p'] model_resource_config [of p' p] frame_config [of p p']
  by (simp add: stages_ok_def batch_frame_def batch_ok_def cong: option.case_cong)

lemma inflight_items_frame: "batch_frame p p' \<Longrightarrow> inflight_items s p' = inflight_items s p"
  using frame_worker [of p p' s] by (simp add: inflight_items_def)

lemma each_item_ok:
  assumes "\<And>it its p. I (it # its) p \<Longrightarrow> \<exists>p'. f it p = (Inr (), p') \<and> I its p' \<and> batch_frame p p' \<and>
      dtotal request_work (pl_requests p') < dtotal request_work (pl_requests p)"
  shows "I its p \<Longrightarrow> \<exists>p'. each_item f its p = (Inr (), p') \<and> I [] p' \<and> batch_frame p p' \<and>
    dtotal request_work (pl_requests p') \<le> dtotal request_work (pl_requests p) \<and>
    (its \<noteq> [] \<longrightarrow> dtotal request_work (pl_requests p') < dtotal request_work (pl_requests p))"
proof (induction its arbitrary: p)
  case Nil
  then show ?case by simp
next
  case (Cons it its)
  from assms [OF Cons.prems] obtain p1 where p1: "f it p = (Inr (), p1)" "I its p1" "batch_frame p p1"
    "dtotal request_work (pl_requests p1) < dtotal request_work (pl_requests p)" by blast
  from Cons.IH [OF p1(2)] obtain p2 where "each_item f its p1 = (Inr (), p2)" "I [] p2"
    "batch_frame p1 p2" "dtotal request_work (pl_requests p2) \<le> dtotal request_work (pl_requests p1)"
    by blast
  with p1 show ?case by (auto intro: batch_frame_trans)
qed

lemma finish_items_ok:
  assumes "pool_core now {} {} (inflight_items P p) (inflight_items D p) p"
    and b: "pw_inflight (worker_of s p) = Some b" "sb_completion_ns b = now"
    and "validate_shape (sb_shape b) = None"
  shows "\<exists>p'. each_item (if s = P then finish_p_item b else finish_d_item b) (sb_items b) p = (Inr (), p') \<and>
    pool_core now {} {} (if s = P then [] else inflight_items P p)
      (if s = P then inflight_items D p else []) p' \<and> batch_frame p p' \<and>
    dtotal request_work (pl_requests p') \<le> dtotal request_work (pl_requests p) \<and>
    (sb_items b \<noteq> [] \<longrightarrow> dtotal request_work (pl_requests p') < dtotal request_work (pl_requests p))"
proof (cases s)
  case P
  have "pool_core now {} {} (sb_items b) (inflight_items D p) p"
    using assms(1) b P by (simp add: inflight_items_def)
  then show ?thesis
    unfolding P using finish_p_item_ok [OF _ b(2) assms(4), unfolded step_ok_def]
      each_item_ok [of "\<lambda>its. pool_core now {} {} its (inflight_items D p)" "finish_p_item b" "sb_items b" p]
    by simp
next
  case D
  have "pool_core now {} {} (inflight_items P p) (sb_items b) p"
    using assms(1) b D by (simp add: inflight_items_def)
  then show ?thesis
    unfolding D using finish_d_item_ok [OF _ b(2), unfolded step_ok_def]
      each_item_ok [of "\<lambda>its. pool_core now {} {} (inflight_items P p) its" "finish_d_item b" "sb_items b" p]
    by simp
qed

text \<open>Batch completion: the worker is idle again, and the work left has shrunk.\<close>

lemma finish_batch_ok:
  assumes core: "pool_core now {} {} (inflight_items P p) (inflight_items D p) p"
    and st: "stages_ok now {s} p" and b: "pw_inflight (worker_of s p) = Some b" "sb_completion_ns b = now"
  shows "\<exists>p'. finish_batch s b p = (Inr (), p') \<and> pool_ok now p' \<and>
    dtotal request_work (pl_requests p') < dtotal request_work (pl_requests p) \<and>
    pl_batch_completion_heap p' = pl_batch_completion_heap p \<and> pl_current_ns p' = pl_current_ns p \<and>
    pool_evolves p p'"
proof -
  have bo: "batch_ok now s p b"
    using st b(1) unfolding stages_ok_def by (metis option.simps(5))
  then have shape: "validate_shape (sb_shape b) = None" and ne: "sb_items b \<noteq> []"
    by (simp_all add: batch_ok_def)
  from finish_items_ok [OF core b shape] ne obtain q
    where q: "each_item (if s = P then finish_p_item b else finish_d_item b) (sb_items b) p = (Inr (), q)"
      "pool_core now {} {} (if s = P then [] else inflight_items P p)
        (if s = P then inflight_items D p else []) q" "batch_frame p q"
      "dtotal request_work (pl_requests q) < dtotal request_work (pl_requests p)" by blast
  let ?f = "\<lambda>w. w\<lparr>pw_inflight := None, pw_completed_batches := pw_completed_batches w + 1\<rparr>"
  let ?q = "set_worker s ?f q"
  have st': "stages_ok now {s} q" using stages_ok_frame [OF q(3)] st by simp
  have eq: "finish_batch s b p = (Inr (), ?q)" using b q(1) by (simp add: finish_batch_def)
  have free: "free_at (pl_calendar q) (model_resource q s) = now"
    using bo b(2) q(3) model_resource_config [of q p s] frame_config [OF q(3)]
    by (simp add: batch_ok_def batch_frame_def)
  have core': "pool_core now {} {} (inflight_items P ?q) (inflight_items D ?q) ?q"
    using q(2) frame_worker [OF q(3), of P] frame_worker [OF q(3), of D]
    by (cases s) (simp_all add: pool_core_def inflight_items_def)
  have res: "model_resource ?q t = model_resource q t" for t
    by (cases s) (simp_all add: model_resource_def)
  note so = stages_okD [OF st']
  have keep: "batch_ok now t ?q c = batch_ok now t q c" for t c
    using res by (cases s) (simp_all add: batch_ok_def)
  have "stages_ok now {} ?q"
  proof (rule stages_okI)
    fix t assume none: "pw_inflight (worker_of t ?q) = None"
    show "free_at (pl_calendar ?q) (model_resource ?q t) \<le> now"
    proof (cases "t = s")
      case True
      then show ?thesis using free res by (cases s) simp_all
    next
      case False
      then have "pw_inflight (worker_of t q) = None" using none by (cases s; cases t) simp_all
      with so(4) [of t] res show ?thesis by (cases s) simp_all
    qed
  next
    fix t c assume c: "pw_inflight (worker_of t ?q) = Some c"
    then have "pw_inflight (worker_of t q) = Some c" by (cases s; cases t) simp_all
    with so(5) show "batch_ok now t ?q c" unfolding keep by blast
  next
    fix t u i
    show "(t, u, i) \<in> set (pl_batch_completion_heap ?q) \<longleftrightarrow> u \<notin> {} \<and>
      (\<exists>c. pw_inflight (worker_of u ?q) = Some c \<and> sb_completion_ns c = t \<and> sb_batch_id c = i)"
      using so(8) [of t u i] by (cases s; cases u) simp_all
  qed (use so in \<open>cases s; simp\<close>)+
  with core' have "pool_ok now ?q" by (simp add: pool_ok_def)
  moreover have "pl_batch_completion_heap ?q = pl_batch_completion_heap p"
    "pl_current_ns ?q = pl_current_ns p" "pool_evolves p ?q" "pl_requests ?q = pl_requests q"
    using q(3) by (cases s; simp add: batch_frame_def pool_evolves_def)+
  ultimately show ?thesis using eq q(4) by auto
qed

section \<open>The events of one timestamp\<close>

abbreviation table_work :: "pool \<Rightarrow> int" where
  "table_work p \<equiv> dtotal request_work (pl_requests p)"

lemma pool_ok_parts:
  assumes "pool_ok now p"
  shows "pool_core now {} {} (inflight_items P p) (inflight_items D p) p" "stages_ok now {} p"
  using assms by (simp_all add: pool_ok_def)

lemma batch_heap_ge:
  assumes "stages_ok now B p" and "e \<in> set (pl_batch_completion_heap p)"
  shows "now \<le> fst e"
proof -
  note so = stages_okD [OF assms(1)]
  obtain t s i where e: "e = (t, s, i)" by (cases e)
  with assms(2) so(8) [of t s i] obtain b
    where "pw_inflight (worker_of s p) = Some b" "sb_completion_ns b = t" by blast
  with so(5) show ?thesis by (auto simp: e batch_ok_def)
qed

lemma handoff_heap_ge:
  assumes "pool_core now X H pit dit p" and "e \<in> set (pl_handoff_completion_heap p)"
  shows "now \<le> fst e"
proof -
  note c = pool_core_parts [OF assms(1)]
  obtain t i j where e: "e = (t, i, j)" by (cases e)
  with assms(2) c(9) obtain job
    where "dget (pl_handoff_jobs p) j = Some job" "hj_completion_ns job = t" unfolding heap_ok_def by blast
  with jobs_ok_job(3) [OF c(8)] show ?thesis by (auto simp: e)
qed

lemma pop_batch_event:
  assumes ok: "pool_ok now p" and heap: "pl_batch_completion_heap p = (t, s, i) # h" and t: "t = now"
  defines "q \<equiv> p\<lparr>pl_batch_completion_heap := h\<rparr>"
  shows "\<exists>b. pw_inflight (worker_of s q) = Some b \<and> sb_batch_id b = i \<and> sb_completion_ns b = now \<and>
    stages_ok now {s} q \<and> pool_core now {} {} (inflight_items P q) (inflight_items D q) q"
proof -
  note so = stages_okD [OF pool_ok_parts(2) [OF ok]]
  have w: "worker_of u q = worker_of u p" for u by (cases u) (simp_all add: q_def)
  obtain b where b: "pw_inflight (worker_of s p) = Some b" "sb_completion_ns b = now" "sb_batch_id b = i"
    using so(8) [of t s i] heap t by auto
  have dist: "distinct ((t, s, i) # h)" "sorted ((t, s, i) # h)" using so(6,7) heap by simp_all
  have "stages_ok now {s} q"
  proof (rule stages_okI)
    fix t' u j
    have "(t', u, j) \<in> set h \<longleftrightarrow> (t', u, j) \<in> set ((t, s, i) # h) \<and> (t', u, j) \<noteq> (t, s, i)"
      using dist(1) by auto
    also have "\<dots> \<longleftrightarrow> u \<notin> {s} \<and>
        (\<exists>c. pw_inflight (worker_of u q) = Some c \<and> sb_completion_ns c = t' \<and> sb_batch_id c = j)"
      using so(8) [of t' u j] b t unfolding w heap by auto
    finally show "(t', u, j) \<in> set (pl_batch_completion_heap q) \<longleftrightarrow> u \<notin> {s} \<and>
        (\<exists>c. pw_inflight (worker_of u q) = Some c \<and> sb_completion_ns c = t' \<and> sb_batch_id c = j)"
      by (simp add: q_def)
  next
    show "sorted (pl_batch_completion_heap q)" using dist(2) by (simp add: q_def)
  qed (use so dist in \<open>simp_all add: w, simp_all add: q_def batch_ok_def model_resource_def\<close>)
  moreover have "pool_core now {} {} (inflight_items P q) (inflight_items D q) q"
    using pool_ok_parts(1) [OF ok] by (simp add: pool_core_def inflight_items_def q_def)
  ultimately show ?thesis using b by (auto simp: w)
qed

lemma drain_batches_ok:
  "pool_ok now p \<Longrightarrow> length (pl_batch_completion_heap p) \<le> n \<Longrightarrow>
   \<exists>p'. drain_batches n now p = (Inr (), p') \<and> pool_ok now p' \<and> pool_evolves p p' \<and>
     pl_current_ns p' = pl_current_ns p \<and> (\<forall>e \<in> set (pl_batch_completion_heap p'). now < fst e) \<and>
     table_work p' \<le> table_work p \<and>
     ((\<exists>e \<in> set (pl_batch_completion_heap p). fst e = now) \<longrightarrow> table_work p' < table_work p)"
proof (induction n arbitrary: p)
  case 0
  then show ?case by (subst drain_batches.simps) auto
next
  case (Suc n)
  note so = stages_okD [OF pool_ok_parts(2) [OF Suc.prems(1)]]
  have ge: "now \<le> fst e" if "e \<in> set (pl_batch_completion_heap p)" for e
    by (rule batch_heap_ge [OF pool_ok_parts(2) [OF Suc.prems(1)] that])
  show ?case
  proof (cases "pl_batch_completion_heap p")
    case Nil
    with Suc.prems show ?thesis by (subst drain_batches.simps) auto
  next
    case (Cons x h)
    obtain t s i where x: "x = (t, s, i)" by (cases x)
    have le: "t \<le> fst e" if "e \<in> set h" for e
      using that so(6) by (cases e) (auto simp: Cons x less_eq_prod_def)
    show ?thesis
    proof (cases "t = now")
      case False
      with ge [of x] have "now < t" by (simp add: Cons x)
      then have "now < fst e" if "e \<in> set ((t, s, i) # h)" for e
        using that le [of e] by auto
      with False Suc.prems show ?thesis
        by (subst drain_batches.simps) (fastforce simp: Cons x)
    next
      case True
      let ?q = "p\<lparr>pl_batch_completion_heap := h\<rparr>"
      from pop_batch_event [OF Suc.prems(1) Cons [unfolded x] True] obtain b
        where b: "pw_inflight (worker_of s ?q) = Some b" "sb_batch_id b = i" "sb_completion_ns b = now"
          and q: "stages_ok now {s} ?q"
            "pool_core now {} {} (inflight_items P ?q) (inflight_items D ?q) ?q" by blast
      from finish_batch_ok [OF q(2,1) b(1,3)] obtain p1
        where p1: "finish_batch s b ?q = (Inr (), p1)" "pool_ok now p1" "table_work p1 < table_work p"
          "pl_batch_completion_heap p1 = h" "pl_current_ns p1 = pl_current_ns p"
          "pool_evolves ?q p1" by auto
      then have ev1: "pool_evolves p p1" by (simp add: pool_evolves_def)
      from Suc.IH [OF p1(2)] Suc.prems(2) obtain p2
        where "drain_batches n now p1 = (Inr (), p2)" "pool_ok now p2" "pool_evolves p1 p2"
          "pl_current_ns p2 = pl_current_ns p1" "\<forall>e \<in> set (pl_batch_completion_heap p2). now < fst e"
          "table_work p2 \<le> table_work p1" by (auto simp: Cons p1(4))
      with p1 b pool_evolves_trans [OF ev1] show ?thesis
        by (subst drain_batches.simps) (auto simp: Cons x True)
    qed
  qed
qed

lemma pop_handoff_event:
  assumes ok: "pool_ok now p" and heap: "pl_handoff_completion_heap p = (t, i, j) # h" and t: "t = now"
  defines "q \<equiv> p\<lparr>pl_handoff_completion_heap := h\<rparr>"
  shows "\<exists>job. dget (pl_handoff_jobs q) j = Some job \<and> hj_completion_ns job = now \<and> hj_request_id job = i \<and>
    pool_core now {} {j} (inflight_items P q) (inflight_items D q) q \<and> stages_ok now {} q \<and>
    (\<exists>r. dget (pl_requests q) i = Some r)"
proof -
  note c = pool_core_parts [OF pool_ok_parts(1) [OF ok]]
  obtain job where job: "dget (pl_handoff_jobs p) j = Some job" "hj_completion_ns job = now" "hj_request_id job = i"
    using c(9) heap t unfolding heap_ok_def by (metis list.set_intros(1))
  have "distinct ((t, i, j) # h)" "sorted ((t, i, j) # h)" using c(9) heap by (simp_all add: heap_ok_def)
  moreover have "(t', i', j') \<in> set h \<longleftrightarrow> j' \<notin> {j} \<and>
      (\<exists>a. dget (pl_handoff_jobs p) j' = Some a \<and> hj_completion_ns a = t' \<and> hj_request_id a = i')" for t' i' j'
  proof -
    have "(t', i', j') \<in> set h \<longleftrightarrow> (t', i', j') \<in> set ((t, i, j) # h) \<and> (t', i', j') \<noteq> (t, i, j)"
      using calculation(1) by auto
    also have "\<dots> \<longleftrightarrow> j' \<notin> {j} \<and>
      (\<exists>a. dget (pl_handoff_jobs p) j' = Some a \<and> hj_completion_ns a = t' \<and> hj_request_id a = i')"
      using c(9) heap job t unfolding heap_ok_def by auto
    finally show ?thesis .
  qed
  ultimately have "heap_ok {j} (pl_handoff_jobs p) h" by (simp add: heap_ok_def)
  then have "pool_core now {} {j} (inflight_items P q) (inflight_items D q) q"
    using pool_ok_parts(1) [OF ok] by (simp add: pool_core_def inflight_items_def q_def)
  moreover have "stages_ok now {} q"
    using stages_ok_frame [of p q now "{}"] pool_ok_parts(2) [OF ok]
    by (simp add: q_def batch_frame_def worker_frame_def pool_evolves_def)
  moreover have "\<exists>r. dget (pl_requests p) i = Some r" using jobs_ok_job(5) [OF c(8) job(1)] job(3) by blast
  ultimately show ?thesis using job by (simp add: q_def)
qed

lemma drain_handoffs_ok:
  "pool_ok now p \<Longrightarrow> length (pl_handoff_completion_heap p) \<le> n \<Longrightarrow>
   \<exists>p'. drain_handoffs n now p = (Inr (), p') \<and> pool_ok now p' \<and> pool_evolves p p' \<and>
     pl_current_ns p' = pl_current_ns p \<and>
     pl_batch_completion_heap p' = pl_batch_completion_heap p \<and>
     (\<forall>e \<in> set (pl_handoff_completion_heap p'). now < fst e) \<and> table_work p' \<le> table_work p \<and>
     ((\<exists>e \<in> set (pl_handoff_completion_heap p). fst e = now) \<longrightarrow> table_work p' < table_work p)"
proof (induction n arbitrary: p)
  case 0
  then show ?case by (subst drain_handoffs.simps) auto
next
  case (Suc n)
  note c = pool_core_parts [OF pool_ok_parts(1) [OF Suc.prems(1)]]
  have ge: "now \<le> fst e" if "e \<in> set (pl_handoff_completion_heap p)" for e
    by (rule handoff_heap_ge [OF pool_ok_parts(1) [OF Suc.prems(1)] that])
  show ?case
  proof (cases "pl_handoff_completion_heap p")
    case Nil
    with Suc.prems show ?thesis by (subst drain_handoffs.simps) auto
  next
    case (Cons x h)
    obtain t i j where x: "x = (t, i, j)" by (cases x)
    have le: "t \<le> fst e" if "e \<in> set h" for e
      using that c(9) by (cases e) (auto simp: Cons x less_eq_prod_def heap_ok_def)
    show ?thesis
    proof (cases "t = now")
      case False
      with ge [of x] have "now < t" by (simp add: Cons x)
      then have "now < fst e" if "e \<in> set ((t, i, j) # h)" for e
        using that le [of e] by auto
      with False Suc.prems show ?thesis
        by (subst drain_handoffs.simps) (fastforce simp: Cons x)
    next
      case True
      let ?q = "p\<lparr>pl_handoff_completion_heap := h\<rparr>"
      from pop_handoff_event [OF Suc.prems(1) Cons [unfolded x] True] obtain job r0
        where job: "dget (pl_handoff_jobs ?q) j = Some job" "hj_completion_ns job = now" "hj_request_id job = i"
          and q: "pool_core now {} {j} (inflight_items P ?q) (inflight_items D ?q) ?q" "stages_ok now {} ?q"
          and r0: "dget (pl_requests ?q) i = Some r0" by blast
      from finish_handoff_ok [OF q(1) job(1,2)] obtain p1 r
        where p1: "finish_handoff job ?q = (Inr (), p1)"
          "pool_core now {} {} (inflight_items P ?q) (inflight_items D ?q) p1" "batch_frame ?q p1"
          "table_work p1 = table_work p - 1" "pl_handoff_completion_heap p1 = h"
          and r: "dget (pl_requests p1) i = Some r" "rq_handoff_completion_ns r = Some now"
        by (auto simp: job(3))
      have ok1: "pool_ok now p1"
        using p1(2) q(2) stages_ok_frame [OF p1(3)] inflight_items_frame [OF p1(3)]
        by (simp add: pool_ok_def)
      from Suc.IH [OF ok1] Suc.prems(2) obtain p2
        where "drain_handoffs n now p1 = (Inr (), p2)" "pool_ok now p2" "pool_evolves p1 p2"
          "pl_current_ns p2 = pl_current_ns p1"
          "pl_batch_completion_heap p2 = pl_batch_completion_heap p1"
          "\<forall>e \<in> set (pl_handoff_completion_heap p2). now < fst e"
          "table_work p2 \<le> table_work p1" by (auto simp: Cons p1(5))
      moreover have "pl_current_ns p1 = pl_current_ns p"
        "pl_batch_completion_heap p1 = pl_batch_completion_heap p"
        using p1(3) by (simp_all add: batch_frame_def)
      moreover have "pool_evolves p p1" using p1(3) by (simp add: batch_frame_def pool_evolves_def)
      note pool_evolves_trans [OF this]
      ultimately show ?thesis
        using p1 job r r0 by (subst drain_handoffs.simps) (simp add: Cons x True get_request_def)
    qed
  qed
qed

end
