(* ===== verification/PD_Pool_Loop.thy ===== *)
theory PD_Pool_Loop
  imports PD_Pool_Steps
begin

text \<open>
  Batch selection, launch and scheduling, the event loop, and the public operations of the pool:
  none of them raises on a pool that satisfies the invariant, and each keeps it.
\<close>

section \<open>Time passes between events\<close>

lemma jobs_ok_advance:
  assumes jobs: "jobs_ok t X reqs jobs n" and ge: "\<And>j job. dget jobs j = Some job \<Longrightarrow> now \<le> hj_completion_ns job"
  shows "jobs_ok now X reqs jobs n"
proof (rule jobs_okI)
  show "dwf jobs" using jobs by (simp add: jobs_ok_def)
  fix j job assume j: "dget jobs j = Some job"
  from jobs_ok_job [OF jobs j] ge [OF j]
  show "hj_job_id job = j \<and> j < n \<and> now \<le> hj_completion_ns job \<and> hj_request_id job \<notin> X \<and>
      (\<exists>r. dget reqs (hj_request_id job) = Some r \<and> \<not> rq_handoff_done r \<and>
         rq_handoff_completion_ns r = Some (hj_completion_ns job) \<and>
         rq_state r = (if rq_output_tokens r = 1 then COMPLETE else HANDOFF))" by simp
next
  fix j k a b assume "dget jobs j = Some a" "dget jobs k = Some b" "hj_request_id a = hj_request_id b"
  then show "j = k" by (rule jobs_ok_unique [OF jobs])
next
  fix i r assume "dget reqs i = Some r" "rq_state r = HANDOFF"
  then show "i \<in> X \<or> (\<exists>j job. dget jobs j = Some job \<and> hj_request_id job = i)"
    using jobs_ok_handoff [OF jobs] by blast
qed

definition events_from :: "int \<Rightarrow> pool \<Rightarrow> bool" where
  "events_from now p \<longleftrightarrow>
     (\<forall>e \<in> set (pl_batch_completion_heap p). now \<le> fst e) \<and>
     (\<forall>e \<in> set (pl_handoff_completion_heap p). now \<le> fst e)"

lemma pool_ok_advance:
  assumes ok: "pool_ok t p" and le: "t \<le> now" and ev: "events_from now p"
  shows "pool_ok now p"
proof -
  note c = pool_core_parts [OF pool_ok_parts(1) [OF ok]] and so = stages_okD [OF pool_ok_parts(2) [OF ok]]
  have jobs: "now \<le> hj_completion_ns job" if j: "dget (pl_handoff_jobs p) j = Some job" for j job
  proof -
    have "(hj_completion_ns job, hj_request_id job, j) \<in> set (pl_handoff_completion_heap p)"
      using c(9) j unfolding heap_ok_def by blast
    with ev show ?thesis by (force simp: events_from_def)
  qed
  have "pool_core now {} {} (inflight_items P p) (inflight_items D p) p"
    using pool_ok_parts(1) [OF ok] le table_ok_mono [OF c(4) le] jobs_ok_advance [OF c(8) jobs]
    by (simp add: pool_core_def)
  moreover have "stages_ok now {} p"
  proof (rule stages_okI)
    fix s assume "pw_inflight (worker_of s p) = None"
    from so(4) [OF this] le show "free_at (pl_calendar p) (model_resource p s) \<le> now" by simp
  next
    fix s b assume b: "pw_inflight (worker_of s p) = Some b"
    then have "(sb_completion_ns b, s, sb_batch_id b) \<in> set (pl_batch_completion_heap p)"
      using so(8) by blast
    with ev have "now \<le> sb_completion_ns b" by (force simp: events_from_def)
    with so(5) [OF b] show "batch_ok now s p b" by (simp add: batch_ok_def)
  qed (use so in simp_all)
  ultimately show ?thesis by (simp add: pool_ok_def)
qed

lemma pool_ok_current: "pool_ok now p \<Longrightarrow> 0 \<le> t \<Longrightarrow> t \<le> now \<Longrightarrow> pool_ok now (p\<lparr>pl_current_ns := t\<rparr>)"
proof -
  assume ok: "pool_ok now p" and t: "0 \<le> t" "t \<le> now"
  have "pool_core now {} {} (inflight_items P p) (inflight_items D p) (p\<lparr>pl_current_ns := t\<rparr>)"
    using pool_ok_parts(1) [OF ok] t by (simp add: pool_core_def)
  moreover have "stages_ok now {} (p\<lparr>pl_current_ns := t\<rparr>)"
  proof -
    note so = stages_okD [OF pool_ok_parts(2) [OF ok]]
    have w: "worker_of s (p\<lparr>pl_current_ns := t\<rparr>) = worker_of s p" for s by (cases s) simp_all
    show ?thesis
      by (rule stages_okI) (use so in \<open>simp_all add: w batch_ok_def model_resource_def\<close>)
  qed
  ultimately show ?thesis by (simp add: pool_ok_def inflight_items_def)
qed

section \<open>One event time\<close>

lemma drain_batches_idle:
  assumes "\<forall>e \<in> set (pl_batch_completion_heap p). now < fst e"
  shows "drain_batches n now p = (Inr (), p)"
  using assms by (subst drain_batches.simps) (auto split: list.splits)

lemma process_events_ok:
  assumes ok: "pool_ok now p"
    and ev: "\<exists>e. (e \<in> set (pl_batch_completion_heap p) \<and> fst e = now) \<or>
      (\<exists>f \<in> set (pl_handoff_completion_heap p). fst f = now)"
  shows "\<exists>p'. process_events_at now p = (Inr (), p') \<and> pool_ok now p' \<and> pool_evolves p p' \<and>
    pl_current_ns p' = pl_current_ns p \<and> table_work p' < table_work p"
proof -
  from drain_batches_ok [OF ok order_refl] obtain p1
    where p1: "drain_batches (length (pl_batch_completion_heap p)) now p = (Inr (), p1)"
      "pool_ok now p1" "pool_evolves p p1" "pl_current_ns p1 = pl_current_ns p"
      "table_work p1 \<le> table_work p"
      "(\<exists>e \<in> set (pl_batch_completion_heap p). fst e = now) \<longrightarrow> table_work p1 < table_work p" by blast
  from drain_handoffs_ok [OF p1(2) order_refl] obtain p2
    where p2: "drain_handoffs (length (pl_handoff_completion_heap p1)) now p1 = (Inr (), p2)"
      "pool_ok now p2" "pool_evolves p1 p2" "pl_current_ns p2 = pl_current_ns p1"
      "table_work p2 \<le> table_work p1"
      "(\<exists>e \<in> set (pl_handoff_completion_heap p1). fst e = now) \<longrightarrow> table_work p2 < table_work p1" by blast
  have "table_work p2 < table_work p"
  proof (cases "\<exists>e \<in> set (pl_batch_completion_heap p). fst e = now")
    case True
    with p1(6) p2(5) show ?thesis by simp
  next
    case False
    then have "\<forall>e \<in> set (pl_batch_completion_heap p). now < fst e"
      using batch_heap_ge [OF pool_ok_parts(2) [OF ok]] by force
    from drain_batches_idle [OF this] p1(1) have "p1 = p" by simp
    with p2(6) ev False show ?thesis by auto
  qed
  moreover have "pl_launch_heap p2 = []" using stages_okD(3) [OF pool_ok_parts(2) [OF p2(2)]] .
  moreover have "p2\<lparr>pl_launch_heap := []\<rparr> = p2" using calculation(2) by (cases p2) simp
  ultimately have "process_events_at now p = (Inr (), p2)"
    using p1(1) p2(1) by (simp add: process_events_at_def clean_launch_heap_def)
  with p1 p2 \<open>table_work p2 < table_work p\<close> pool_evolves_trans [OF p1(3) p2(3)] show ?thesis by auto
qed

section \<open>Selecting a batch\<close>

text \<open>What selection takes from a queue, and what each item asks for.\<close>

definition p_pick :: "pool \<Rightarrow> batch_item \<Rightarrow> int \<Rightarrow> bool" where
  "p_pick p it k \<longleftrightarrow>
     (\<exists>r. dget (pl_requests p) (bi_request_id it) = Some r \<and> 0 < bi_query_tokens it \<and>
        bi_query_tokens it \<le> pl_max_prefill_chunk_tokens p \<and>
        bi_query_tokens it \<le> p_remaining_tokens r \<and>
        k = operational_p_prefix_tokens r + rq_p_processed_tokens r)"

definition d_pick :: "pool \<Rightarrow> batch_item \<Rightarrow> int \<Rightarrow> bool" where
  "d_pick p it k \<longleftrightarrow>
     (\<exists>r. dget (pl_requests p) (bi_request_id it) = Some r \<and> rq_state r = D_DECODE \<and>
        bi_query_tokens it = 1 \<and>
        k = rq_input_tokens r + rq_generated_tokens r - 1)"

definition with_waiting :: "stage \<Rightarrow> int list \<Rightarrow> pool \<Rightarrow> pool" where
  "with_waiting s ids p = set_worker s (\<lambda>w. w\<lparr>pw_waiting := ids\<rparr>) p"

lemma with_waiting_sel [simp]:
  "pl_requests (with_waiting s ids p) = pl_requests p"
  "pl_max_prefill_chunk_tokens (with_waiting s ids p) = pl_max_prefill_chunk_tokens p"
  "pool_config (with_waiting s ids p) = pool_config p"
  "pw_waiting (worker_of s (with_waiting s ids p)) = ids"
  "with_waiting s js (with_waiting s ids p) = with_waiting s js p"
  "pw_inflight (worker_of t (with_waiting s ids p)) = pw_inflight (worker_of t p)"
  by (cases s; cases t; simp add: with_waiting_def)+

lemma get_request_waiting [simp]: "get_request (with_waiting s ids p) i = get_request p i"
  by (simp add: get_request_def)

lemma pick_waiting [simp]:
  "p_pick (with_waiting s ids p) it k = p_pick p it k" "d_pick (with_waiting s ids p) it k = d_pick p it k"
  by (simp_all add: p_pick_def d_pick_def)

lemma select_p_loop_ok:
  assumes "\<And>i. i \<in> set (pw_waiting (pl_p_worker p)) \<Longrightarrow>
      \<exists>r. dget (pl_requests p) i = Some r \<and> rq_state r = P_PREFILL \<and> 0 < p_remaining_tokens r"
    and "n \<le> length (pw_waiting (pl_p_worker p))" and "0 < pl_max_prefill_chunk_tokens p"
  shows "\<exists>its ks' rest. select_p_loop n tb sb items ks p
      = (Inr (items @ its, ks @ ks'), with_waiting P rest p) \<and>
    pw_waiting (pl_p_worker p) = map bi_request_id its @ rest \<and> list_all2 (p_pick p) its ks' \<and>
    sum_list (map bi_query_tokens its) \<le> max 0 tb \<and> int (length its) \<le> max 0 sb \<and>
    (0 < n \<and> 0 < tb \<and> 0 < sb \<longrightarrow> its \<noteq> []) \<and>
    (n = length (pw_waiting (pl_p_worker p)) \<and> rest \<noteq> [] \<longrightarrow>
       tb \<le> sum_list (map bi_query_tokens its) \<or> sb \<le> int (length its))"
  using assms
proof (induction n arbitrary: tb sb items ks p)
  case 0
  then show ?case
    by (intro exI [of _ "[]"] exI [of _ "pw_waiting (pl_p_worker p)"]) (simp add: with_waiting_def)
next
  case (Suc n)
  show ?case
  proof (cases "tb \<le> 0 \<or> sb \<le> 0")
    case True
    then show ?thesis
      by (intro exI [of _ "[]"] exI [of _ "pw_waiting (pl_p_worker p)"]) (auto simp: with_waiting_def)
  next
    case False
    with Suc.prems(2) obtain i rest where w: "pw_waiting (pl_p_worker p) = i # rest"
      by (cases "pw_waiting (pl_p_worker p)") auto
    with Suc.prems(1) obtain r where r: "dget (pl_requests p) i = Some r" "rq_state r = P_PREFILL"
      "0 < p_remaining_tokens r" by auto
    let ?q = "min (min (p_remaining_tokens r) tb) (pl_max_prefill_chunk_tokens p)"
    let ?it = "\<lparr>bi_request_id = i, bi_query_tokens = ?q\<rparr>"
    let ?k = "operational_p_prefix_tokens r + rq_p_processed_tokens r"
    let ?p = "with_waiting P rest p"
    have q: "0 < ?q" using False r(3) Suc.prems(3) by simp
    have wp: "pw_waiting (pl_p_worker ?p) = rest" by (simp add: with_waiting_def)
    have "\<exists>r. dget (pl_requests ?p) j = Some r \<and> rq_state r = P_PREFILL \<and> 0 < p_remaining_tokens r"
      if "j \<in> set (pw_waiting (pl_p_worker ?p))" for j
      using Suc.prems(1) [of j] that by (simp add: w wp)
    moreover have "n \<le> length (pw_waiting (pl_p_worker ?p))" "0 < pl_max_prefill_chunk_tokens ?p"
      using Suc.prems(2,3) by (simp_all add: w wp)
    ultimately obtain its ks' rest'
      where ih: "select_p_loop n (tb - ?q) (sb - 1) (items @ [?it]) (ks @ [?k]) ?p
          = (Inr ((items @ [?it]) @ its, (ks @ [?k]) @ ks'), with_waiting P rest' ?p)"
        "pw_waiting (pl_p_worker ?p) = map bi_request_id its @ rest'" "list_all2 (p_pick ?p) its ks'"
        "sum_list (map bi_query_tokens its) \<le> max 0 (tb - ?q)" "int (length its) \<le> max 0 (sb - 1)"
        "n = length (pw_waiting (pl_p_worker ?p)) \<and> rest' \<noteq> [] \<longrightarrow>
           tb - ?q \<le> sum_list (map bi_query_tokens its) \<or> sb - 1 \<le> int (length its)"
      using Suc.IH [of ?p "tb - ?q" "sb - 1" "items @ [?it]" "ks @ [?k]"] by blast
    note ih = ih [unfolded wp pick_waiting]
    have "select_p_loop (Suc n) tb sb items ks p
        = (Inr (items @ ?it # its, ks @ ?k # ks'), with_waiting P rest' p)"
      using False w r q ih(1) by (simp add: with_waiting_def [symmetric, of P, unfolded set_worker_simps]
          get_request_Inr Let_def not_le)
    moreover have "p_pick p ?it ?k" using r q by (simp add: p_pick_def)
    ultimately show ?thesis
      using ih(2-6) False w q
      by (intro exI [of _ "?it # its"] exI [of _ "?k # ks'"] exI [of _ rest'])
        (auto simp del: select_p_loop.simps)
  qed
qed

lemma select_d_loop_ok:
  assumes "\<And>i. i \<in> set (pw_waiting (pl_d_worker p)) \<Longrightarrow>
      \<exists>r. dget (pl_requests p) i = Some r \<and> rq_state r = D_DECODE \<and> rq_handoff_done r"
    and "n \<le> length (pw_waiting (pl_d_worker p))"
  shows "\<exists>its ks' rest. select_d_loop n tb sb items ks p
      = (Inr (items @ its, ks @ ks'), with_waiting D rest p) \<and>
    pw_waiting (pl_d_worker p) = map bi_request_id its @ rest \<and> list_all2 (d_pick p) its ks' \<and>
    int (length its) \<le> max 0 tb \<and> int (length its) \<le> max 0 sb \<and>
    (0 < n \<and> 0 < tb \<and> 0 < sb \<longrightarrow> its \<noteq> []) \<and>
    (n = length (pw_waiting (pl_d_worker p)) \<and> rest \<noteq> [] \<longrightarrow>
       tb \<le> int (length its) \<or> sb \<le> int (length its))"
  using assms
proof (induction n arbitrary: tb sb items ks p)
  case 0
  then show ?case
    by (intro exI [of _ "[]"] exI [of _ "pw_waiting (pl_d_worker p)"]) (simp add: with_waiting_def)
next
  case (Suc n)
  show ?case
  proof (cases "tb \<le> 0 \<or> sb \<le> 0")
    case True
    then show ?thesis
      by (intro exI [of _ "[]"] exI [of _ "pw_waiting (pl_d_worker p)"]) (auto simp: with_waiting_def)
  next
    case False
    with Suc.prems(2) obtain i rest where w: "pw_waiting (pl_d_worker p) = i # rest"
      by (cases "pw_waiting (pl_d_worker p)") auto
    with Suc.prems(1) obtain r where r: "dget (pl_requests p) i = Some r" "rq_state r = D_DECODE"
      "rq_handoff_done r" by auto
    let ?it = "\<lparr>bi_request_id = i, bi_query_tokens = 1\<rparr>"
    let ?k = "rq_input_tokens r + rq_generated_tokens r - 1"
    let ?p = "with_waiting D rest p"
    have wp: "pw_waiting (pl_d_worker ?p) = rest" by (simp add: with_waiting_def)
    have "\<exists>r. dget (pl_requests ?p) j = Some r \<and> rq_state r = D_DECODE \<and> rq_handoff_done r"
      if "j \<in> set (pw_waiting (pl_d_worker ?p))" for j
      using Suc.prems(1) [of j] that by (simp add: w wp)
    moreover have "n \<le> length (pw_waiting (pl_d_worker ?p))" using Suc.prems(2) by (simp add: w wp)
    ultimately obtain its ks' rest'
      where ih: "select_d_loop n (tb - 1) (sb - 1) (items @ [?it]) (ks @ [?k]) ?p
          = (Inr ((items @ [?it]) @ its, (ks @ [?k]) @ ks'), with_waiting D rest' ?p)"
        "pw_waiting (pl_d_worker ?p) = map bi_request_id its @ rest'" "list_all2 (d_pick ?p) its ks'"
        "int (length its) \<le> max 0 (tb - 1)" "int (length its) \<le> max 0 (sb - 1)"
        "n = length (pw_waiting (pl_d_worker ?p)) \<and> rest' \<noteq> [] \<longrightarrow>
           tb - 1 \<le> int (length its) \<or> sb - 1 \<le> int (length its)"
      using Suc.IH [of ?p "tb - 1" "sb - 1" "items @ [?it]" "ks @ [?k]"] by blast
    note ih = ih [unfolded wp pick_waiting]
    have "select_d_loop (Suc n) tb sb items ks p
        = (Inr (items @ ?it # its, ks @ ?k # ks'), with_waiting D rest' p)"
      using False w r ih(1) by (simp add: with_waiting_def [symmetric, of D, unfolded set_worker_simps]
          get_request_Inr Let_def not_le)
    moreover have "d_pick p ?it ?k" using r by (simp add: d_pick_def)
    ultimately show ?thesis
      using ih(2-6) False w
      by (intro exI [of _ "?it # its"] exI [of _ "?k # ks'"] exI [of _ rest'])
        (auto simp del: select_d_loop.simps)
  qed
qed

text \<open>The shape of a selected batch is one the latency model accepts.\<close>

lemma p_prefill_error:
  assumes "list_all2 (p_pick p) its ks" and "table_ok retain now (pl_requests p)"
    and "pl_max_prefill_chunk_tokens p \<le> 131072"
  shows "prefill_error (map bi_query_tokens its) ks (replicate (length its) 0) = None \<and>
    length ks = length its \<and> (its \<noteq> [] \<longrightarrow> 0 < sum_list (map bi_query_tokens its))"
  using assms(1)
proof (induction its ks rule: list_all2_induct)
  case Nil
  then show ?case by simp
next
  case (Cons it its k ks)
  from Cons.hyps(1) obtain r where r: "dget (pl_requests p) (bi_request_id it) = Some r"
    "0 < bi_query_tokens it" "bi_query_tokens it \<le> pl_max_prefill_chunk_tokens p"
    "bi_query_tokens it \<le> p_remaining_tokens r"
    "k = operational_p_prefix_tokens r + rq_p_processed_tokens r" by (auto simp: p_pick_def)
  from table_okD [OF assms(2) r(1)] have st: "request_static r" "0 \<le> rq_p_processed_tokens r"
    by (simp_all add: request_ok_def progress_ok_def)
  note f = request_static_facts [OF st(1)]
  have "0 \<le> k" "bi_query_tokens it + k \<le> 1010000"
    using r(4,5) f st(2) by (simp_all add: p_remaining_tokens_def)
  moreover have "0 \<le> sum_list (map bi_query_tokens its)" using Cons.IH by (cases its) auto
  ultimately show ?case using r(2,3) assms(3) Cons.IH by (simp add: MAX_CONTEXT_TOKENS_def)
qed

lemma p_shape_valid:
  assumes "list_all2 (p_pick p) its ks" and "table_ok retain now (pl_requests p)"
    and "pl_max_prefill_chunk_tokens p \<le> 131072" and "its \<noteq> []"
  shows "validate_shape (p_shape its ks) = None"
  using p_prefill_error [OF assms(1-3)] assms(4)
  by (simp add: validate_shape_def p_shape_def padding_tokens_def real_query_tokens_def num_decode_def)

lemma d_decode_error:
  assumes "list_all2 (d_pick p) its ks" and "table_ok retain now (pl_requests p)"
  shows "decode_error ks (replicate (length ks) 0) = None \<and> length ks = length its"
  using assms(1)
proof (induction its ks rule: list_all2_induct)
  case Nil
  then show ?case by simp
next
  case (Cons it its k ks)
  from Cons.hyps(1) obtain r where r: "dget (pl_requests p) (bi_request_id it) = Some r"
    "rq_state r = D_DECODE"
    "k = rq_input_tokens r + rq_generated_tokens r - 1" by (auto simp: d_pick_def)
  from table_okD [OF assms(2) r(1)] have ok: "request_ok retain now r" by simp
  note d = d_decode_facts [OF ok r(2)]
  from ok have "0 < rq_input_tokens r" "rq_input_tokens r + rq_output_tokens r - 1 \<le> 1010000"
    by (simp_all add: request_ok_def request_static_def)
  with d(1,2) r(3) have "1 \<le> k" "k \<le> 1010000" by simp_all
  then show ?case using Cons.IH by (auto simp: MAX_CONTEXT_TOKENS_def)
qed

lemma d_shape_valid:
  assumes "list_all2 (d_pick p) its ks" and "table_ok retain now (pl_requests p)"
    and "its \<noteq> []" and "int (length its) \<le> 128"
  shows "validate_shape (d_shape its ks) = None"
  using d_decode_error [OF assms(1,2)] assms(3,4)
  by (auto simp: validate_shape_def d_shape_def padding_tokens_def real_query_tokens_def num_decode_def)

section \<open>Launching a batch\<close>

text \<open>Stamping a request changes only bookkeeping the invariant does not mention.\<close>

definition touch :: "int option \<Rightarrow> int \<Rightarrow> int \<Rightarrow> request \<Rightarrow> request" where
  "touch t c d r = r\<lparr>rq_first_scheduled_ns := t, rq_p_batch_count := c, rq_d_batch_count := d\<rparr>"

lemma touch_sel [simp]:
  "rq_request_id (touch t c d r) = rq_request_id r" "rq_state (touch t c d r) = rq_state r"
  "rq_session_id (touch t c d r) = rq_session_id r"
  "rq_handoff_done (touch t c d r) = rq_handoff_done r"
  "rq_handoff_completion_ns (touch t c d r) = rq_handoff_completion_ns r"
  "rq_output_tokens (touch t c d r) = rq_output_tokens r"
  "rq_stage_ready_ns (touch t c d r) = rq_stage_ready_ns r"
  "p_remaining_tokens (touch t c d r) = p_remaining_tokens r"
  "request_work (touch t c d r) = request_work r"
  "request_ok retain now (touch t c d r) = request_ok retain now r"
  by (simp_all add: touch_def p_remaining_tokens_def p_fresh_tokens_def operational_p_prefix_tokens_def
      request_work_def request_ok_def request_static_def progress_ok_def clock_ok_def
      cong: request_state.case_cong option.case_cong)

lemma jobs_ok_touch:
  assumes jobs: "jobs_ok now X reqs jobs n" and r: "dget reqs i = Some r"
  shows "jobs_ok now X (dput i (touch t c d r) reqs) jobs n"
proof (rule jobs_okI)
  show "dwf jobs" using jobs by (simp add: jobs_ok_def)
  fix j job assume j: "dget jobs j = Some job"
  from jobs_ok_job [OF jobs j] r
  show "hj_job_id job = j \<and> j < n \<and> now \<le> hj_completion_ns job \<and> hj_request_id job \<notin> X \<and>
      (\<exists>q. dget (dput i (touch t c d r) reqs) (hj_request_id job) = Some q \<and> \<not> rq_handoff_done q \<and>
         rq_handoff_completion_ns q = Some (hj_completion_ns job) \<and>
         rq_state q = (if rq_output_tokens q = 1 then COMPLETE else HANDOFF))" by auto
next
  fix j k a b assume "dget jobs j = Some a" "dget jobs k = Some b" "hj_request_id a = hj_request_id b"
  then show "j = k" by (rule jobs_ok_unique [OF jobs])
next
  fix k q assume "dget (dput i (touch t c d r) reqs) k = Some q" "rq_state q = HANDOFF"
  with r obtain q' where "dget reqs k = Some q'" "rq_state q' = HANDOFF" by (auto split: if_split_asm)
  from jobs_ok_handoff [OF jobs this] show "k \<in> X \<or> (\<exists>j job. dget jobs j = Some job \<and> hj_request_id job = k)"
    by blast
qed

lemma pool_core_touch:
  assumes core: "pool_core now X H pit dit p" and r: "dget (pl_requests p) i = Some r"
  shows "pool_core now X H pit dit (set_request (touch t c d r) p)"
    "batch_frame p (set_request (touch t c d r) p)"
    "table_work (set_request (touch t c d r) p) = table_work p"
proof -
  note k = pool_core_parts [OF core]
  have wf: "dwf (pl_requests p)" by (rule table_ok_dwf [OF k(4)])
  have id: "rq_request_id r = i" and rok: "request_ok (pl_retain_detailed_history p) now r"
    using table_okD [OF k(4) r] by simp_all
  let ?r = "touch t c d r"
  have "table_ok (pl_retain_detailed_history p) now (dput i ?r (pl_requests p))"
    by (rule table_ok_put [OF k(4)]) (simp_all add: id rok)
  moreover have "queue_ok (dput i ?r (pl_requests p)) P_PREFILL (pw_waiting (pl_p_worker p) @ map bi_request_id pit)"
    "queue_ok (dput i ?r (pl_requests p)) D_DECODE (pw_waiting (pl_d_worker p) @ map bi_request_id dit)"
    by (rule queue_ok_same [OF k(5) r] queue_ok_same [OF k(6) r]; simp)+
  moreover have "items_ok (dput i ?r (pl_requests p)) pit" by (rule items_ok_same [OF k(7) r]) simp
  moreover have "jobs_ok now X (dput i ?r (pl_requests p)) (pl_handoff_jobs p) (pl_next_handoff_id p)"
    by (rule jobs_ok_touch [OF k(8) r])
  moreover have "sessions_ok (dput i ?r (pl_requests p)) (pl_current_request_by_session p)"
    by (rule sessions_ok_put [OF k(10) r]) simp_all
  moreover have "counts_ok (dput i ?r (pl_requests p)) (pl_metrics p) (pl_completed_request_ids p)
      (pl_completed_handoff_request_ids p)" by (rule counts_ok_put [OF k(11) r wf]) simp
  ultimately show "pool_core now X H pit dit (set_request ?r p)"
    unfolding pool_core_def using k(1-3,9) by (simp add: set_request_def id)
  have "evolves r ?r" by (simp add: evolves_def submitted_part_def touch_def)
  from table_evolves_put [OF r this] show "batch_frame p (set_request ?r p)"
    by (simp add: set_request_def batch_frame_def worker_frame_def pool_evolves_def id)
  show "table_work (set_request ?r p) = table_work p"
    by (simp add: set_request_def id dtotal_dput [OF r wf])
qed

lemma stamp_items_ok:
  "pool_core now X H pit dit p \<Longrightarrow> (\<And>it. it \<in> set its \<Longrightarrow> dget (pl_requests p) (bi_request_id it) \<noteq> None) \<Longrightarrow>
   \<exists>p'. stamp_items s start its p = (Inr (), p') \<and> pool_core now X H pit dit p' \<and> batch_frame p p' \<and>
     table_work p' = table_work p \<and> (\<forall>t. pw_waiting (worker_of t p') = pw_waiting (worker_of t p))"
proof (induction its arbitrary: p)
  case Nil
  then show ?case by simp
next
  case (Cons it its)
  from Cons.prems(2) [of it] obtain r where r: "dget (pl_requests p) (bi_request_id it) = Some r" by auto
  define t where "t = (if rq_first_scheduled_ns r = None then Some start else rq_first_scheduled_ns r)"
  define c where "c = (if s = P then rq_p_batch_count r + 1 else rq_p_batch_count r)"
  define d where "d = (if s = P then rq_d_batch_count r else rq_d_batch_count r + 1)"
  let ?p = "set_request (touch t c d r) p"
  note k = pool_core_touch [OF Cons.prems(1) r, of t c d]
  have "dget (pl_requests ?p) (bi_request_id x) \<noteq> None" if "x \<in> set its" for x
    using Cons.prems(2) [of x] that by (simp add: set_request_def)
  from Cons.IH [OF k(1) this] obtain p'
    where p': "stamp_items s start its ?p = (Inr (), p')" "pool_core now X H pit dit p'" "batch_frame ?p p'"
      "table_work p' = table_work ?p" "\<forall>t. pw_waiting (worker_of t p') = pw_waiting (worker_of t ?p)" by blast
  have "stamp_items s start (it # its) p = stamp_items s start its ?p"
    using r by (cases r) (simp add: get_request_def Let_def touch_def t_def c_def d_def)
  moreover have "worker_of t ?p = worker_of t p" for t by (cases t) (simp_all add: set_request_def)
  ultimately show ?case using p' k by (auto intro: batch_frame_trans)
qed

lemma restore_gate_ok:
  assumes n: "ph_layer_count ph = QWEN_LAYERS"
  shows "0 \<le> i \<Longrightarrow> i + int (length rs) \<le> QWEN_LAYERS \<Longrightarrow>
    \<exists>g. restore_gate_layers ph i rs gate = Inr g \<and> gate \<le> g"
proof (induction rs arbitrary: i gate)
  case Nil
  then show ?case by simp
next
  case (Cons x rs)
  then have off: "layer_start_offset_ns ph i = Inr (ph_prologue_ns ph + i * ph_layer_ns ph)"
    by (simp add: layer_start_offset_ns_def n)
  let ?g = "max gate (x - (ph_prologue_ns ph + i * ph_layer_ns ph))"
  from Cons.IH [of "i + 1" ?g] Cons.prems obtain g
    where "restore_gate_layers ph (i + 1) rs ?g = Inr g" "?g \<le> g" by auto
  then show ?case using off by (auto intro: order_trans)
qed

lemma restore_gate_items_ok:
  assumes n: "ph_layer_count ph = QWEN_LAYERS" and table: "table_ok retain now (pl_requests p)"
  shows "(\<And>it. it \<in> set its \<Longrightarrow> dget (pl_requests p) (bi_request_id it) \<noteq> None) \<Longrightarrow>
    \<exists>g. restore_gate_items ph p its gate = Inr g \<and> gate \<le> g"
proof (induction its arbitrary: gate)
  case Nil
  then show ?case by simp
next
  case (Cons it its)
  from Cons.prems [of it] obtain r where r: "dget (pl_requests p) (bi_request_id it) = Some r" by auto
  with table_okD [OF table] have "int (length (rq_restore_layer_ready_ns r)) \<le> QWEN_LAYERS"
    by (fastforce simp: request_ok_def request_static_def qwen_defs)
  with restore_gate_ok [OF n, of 0 "rq_restore_layer_ready_ns r" gate] obtain g
    where g: "restore_gate_layers ph 0 (rq_restore_layer_ready_ns r) gate = Inr g" "gate \<le> g" by auto
  with Cons.IH [of g] Cons.prems show ?case by (auto simp: get_request_Inr [OF r] intro: order_trans)
qed

lemma ready_values_ok:
  "(\<And>it. it \<in> set its \<Longrightarrow> \<exists>r. dget (pl_requests p) (bi_request_id it) = Some r \<and> rq_stage_ready_ns r \<noteq> None) \<Longrightarrow>
   \<exists>vs. ready_values p its = Inr vs \<and> None \<notin> set vs"
proof (induction its)
  case Nil
  then show ?case by simp
next
  case (Cons it its)
  from Cons.prems [of it] obtain r
    where r: "dget (pl_requests p) (bi_request_id it) = Some r" "rq_stage_ready_ns r \<noteq> None" by auto
  from Cons.IH Cons.prems obtain vs where "ready_values p its = Inr vs" "None \<notin> set vs" by auto
  with r(2) show ?case by (auto simp: get_request_Inr [OF r(1)])
qed

lemma ready_values_next [simp]: "ready_values (p\<lparr>pl_next_batch_id := n\<rparr>) its = ready_values p its"
  by (induction its) (simp_all add: get_request_def)

lemma launch_metrics_eq:
  "\<exists>m. launch_metrics s its sh sv st rd g now p = p\<lparr>pl_metrics := m\<rparr> \<and>
     pm_submitted_requests m = pm_submitted_requests (pl_metrics p) \<and>
     pm_completed_requests m = pm_completed_requests (pl_metrics p)"
  by (cases "s = P") (auto simp: launch_metrics_def Let_def)

lemma pool_core_metrics:
  "pool_core now X H pit dit p \<Longrightarrow> pm_submitted_requests m = pm_submitted_requests (pl_metrics p) \<Longrightarrow>
   pm_completed_requests m = pm_completed_requests (pl_metrics p) \<Longrightarrow>
   pool_core now X H pit dit (p\<lparr>pl_metrics := m\<rparr>)"
  by (simp add: pool_core_def counts_ok_def)

text \<open>The pool with the batch in flight.\<close>

definition put_in_flight :: "stage \<Rightarrow> serving_batch \<Rightarrow> calendar \<Rightarrow> pool \<Rightarrow> pool" where
  "put_in_flight s b cal p =
     (let p = p\<lparr>pl_next_batch_id := pl_next_batch_id p + 1, pl_calendar := cal\<rparr>;
          p = set_worker s (\<lambda>w. w\<lparr>pw_inflight := Some b\<rparr>) p;
          p = (if pl_retain_detailed_history p
               then p\<lparr>pl_batch_history := pl_batch_history p @ [b]\<rparr> else p)
      in p\<lparr>pl_batch_completion_heap :=
             heappush (sb_completion_ns b, s, sb_batch_id b) (pl_batch_completion_heap p)\<rparr>)"

lemma put_in_flight_sel:
  "pl_requests (put_in_flight s b cal p) = pl_requests p"
  "pool_config (put_in_flight s b cal p) = pool_config p"
  "config_ok (put_in_flight s b cal p) = config_ok p"
  "pl_current_ns (put_in_flight s b cal p) = pl_current_ns p"
  "pl_retain_detailed_history (put_in_flight s b cal p) = pl_retain_detailed_history p"
  "pw_waiting (pl_p_worker (put_in_flight s b cal p)) = pw_waiting (pl_p_worker p)"
  "pw_waiting (pl_d_worker (put_in_flight s b cal p)) = pw_waiting (pl_d_worker p)"
  "pw_inflight (worker_of t (put_in_flight s b cal p)) =
     (if t = s then Some b else pw_inflight (worker_of t p))"
  "pw_pending_launch_ns (worker_of t (put_in_flight s b cal p)) = pw_pending_launch_ns (worker_of t p)"
  "pl_handoff_jobs (put_in_flight s b cal p) = pl_handoff_jobs p"
  "pl_next_handoff_id (put_in_flight s b cal p) = pl_next_handoff_id p"
  "pl_handoff_completion_heap (put_in_flight s b cal p) = pl_handoff_completion_heap p"
  "pl_current_request_by_session (put_in_flight s b cal p) = pl_current_request_by_session p"
  "pl_metrics (put_in_flight s b cal p) = pl_metrics p"
  "pl_completed_request_ids (put_in_flight s b cal p) = pl_completed_request_ids p"
  "pl_completed_handoff_request_ids (put_in_flight s b cal p) = pl_completed_handoff_request_ids p"
  "pl_launch_heap (put_in_flight s b cal p) = pl_launch_heap p"
  "pl_next_batch_id (put_in_flight s b cal p) = pl_next_batch_id p + 1"
  "pl_calendar (put_in_flight s b cal p) = cal"
  "pl_batch_completion_heap (put_in_flight s b cal p) =
     heappush (sb_completion_ns b, s, sb_batch_id b) (pl_batch_completion_heap p)"
  "model_resource (put_in_flight s b cal p) t = model_resource p t"
  by (cases s; cases t; simp add: put_in_flight_def Let_def model_resource_def)+

lemma stages_ok_launch:
  assumes st: "stages_ok now {} p" and idle: "pw_inflight (worker_of s p) = None"
    and b: "sb_stage b = s" "now \<le> sb_completion_ns b" "sb_items b \<noteq> []"
      "validate_shape (sb_shape b) = None" "sb_batch_id b = pl_next_batch_id p"
    and cal: "free_at cal (model_resource p s) = sb_completion_ns b"
      "\<And>r. r \<noteq> model_resource p s \<Longrightarrow> free_at cal r = free_at (pl_calendar p) r"
  shows "stages_ok now {} (put_in_flight s b cal p)"
proof -
  note so = stages_okD [OF st]
  have other: "free_at cal (model_resource p t) = free_at (pl_calendar p) (model_resource p t)" if "t \<noteq> s" for t
    using cal(2) [of "model_resource p t"] that resource_names(4) [of p t s] by simp
  show ?thesis
  proof (rule stages_okI)
    show "pw_pending_launch_ns (pl_p_worker (put_in_flight s b cal p)) = None"
      "pw_pending_launch_ns (pl_d_worker (put_in_flight s b cal p)) = None"
      using so(1,2) put_in_flight_sel(9) [of P s b cal p] put_in_flight_sel(9) [of D s b cal p] by simp_all
    show "pl_launch_heap (put_in_flight s b cal p) = []" by (simp add: put_in_flight_sel so)
    show "sorted (pl_batch_completion_heap (put_in_flight s b cal p))"
      using so(6) by (simp add: put_in_flight_sel)
    have "(sb_completion_ns b, s, sb_batch_id b) \<notin> set (pl_batch_completion_heap p)"
      using so(8) idle by simp
    then show "distinct (pl_batch_completion_heap (put_in_flight s b cal p))"
      using so(7) by (simp add: put_in_flight_sel heappush_def distinct_insort)
  next
    fix t assume "pw_inflight (worker_of t (put_in_flight s b cal p)) = None"
    then have "t \<noteq> s" "pw_inflight (worker_of t p) = None" by (simp_all add: put_in_flight_sel split: if_split_asm)
    with so(4) [of t] other show "free_at (pl_calendar (put_in_flight s b cal p))
        (model_resource (put_in_flight s b cal p) t) \<le> now" by (simp add: put_in_flight_sel)
  next
    fix t c assume c: "pw_inflight (worker_of t (put_in_flight s b cal p)) = Some c"
    show "batch_ok now t (put_in_flight s b cal p) c"
    proof (cases "t = s")
      case True
      with b cal(1) c show ?thesis by (simp add: batch_ok_def put_in_flight_sel)
    next
      case False
      with c so(5) [of t c] other show ?thesis by (simp add: batch_ok_def put_in_flight_sel)
    qed
  next
    fix t u i
    show "(t, u, i) \<in> set (pl_batch_completion_heap (put_in_flight s b cal p)) \<longleftrightarrow> u \<notin> {} \<and>
        (\<exists>c. pw_inflight (worker_of u (put_in_flight s b cal p)) = Some c \<and>
             sb_completion_ns c = t \<and> sb_batch_id c = i)"
      using so(8) [of t u i] idle by (auto simp: put_in_flight_sel)
  qed
qed

lemma launch_batch_ok:
  assumes core: "pool_core now {} {} pit dit p" and st: "stages_ok now {} p"
    and idle: "pw_inflight (worker_of s p) = None" and ne: "its \<noteq> []"
    and its: "if s = P then pit = its \<and> dit = inflight_items D p else pit = inflight_items P p \<and> dit = its"
    and shape: "validate_shape shape = None"
  shows "\<exists>p'. launch_batch s now its shape p = (Inr (), p') \<and> pool_ok now p' \<and>
    pool_evolves p p' \<and> pl_current_ns p' = pl_current_ns p \<and> table_work p' = table_work p \<and>
    (\<forall>t. pw_waiting (worker_of t p') = pw_waiting (worker_of t p)) \<and>
    (\<forall>t. pw_inflight (worker_of t p') = None \<longleftrightarrow> t \<noteq> s \<and> pw_inflight (worker_of t p) = None)"
proof -
  note c = pool_core_parts [OF core]
  have now: "0 \<le> now" using c(2,3) by simp
  have conf: "hw_ok (pl_hardware p)" "provider_ok (pl_provider p)" using c(1) by (simp_all add: config_ok_def)
  have item: "\<exists>r. dget (pl_requests p) (bi_request_id it) = Some r \<and> rq_stage_ready_ns r \<noteq> None"
    if "it \<in> set its" for it
  proof -
    have "\<exists>r. dget (pl_requests p) (bi_request_id it) = Some r \<and> rq_state r \<in> {P_PREFILL, D_DECODE}"
      using queue_okD [OF c(5), of "bi_request_id it"] queue_okD [OF c(6), of "bi_request_id it"] that its
      by (cases s) auto
    then obtain r where r: "dget (pl_requests p) (bi_request_id it) = Some r"
      "rq_state r \<in> {P_PREFILL, D_DECODE}" by blast
    with table_okD [OF c(4) r(1)] show ?thesis by (auto simp: request_ok_def clock_ok_def)
  qed
  obtain lat ph where lat: "batch_latency (pl_hardware p) (pl_provider p) shape = Inr lat"
    and ph: "batch_phase_latency (pl_hardware p) (pl_provider p) shape = Inr ph" "ph_layer_count ph = QWEN_LAYERS"
    using batch_phase_exact [OF shape] by blast
  have total: "0 \<le> bl_total_ns lat" by (rule batch_latency_nonneg [OF conf lat])
  have "\<exists>g. restore_gate_items ph p its now = Inr g \<and> now \<le> g"
    using item by (intro restore_gate_items_ok [OF ph(2) c(4)]) auto
  then obtain g where g: "(if s = P then p_restore_gate_ns p its shape now else Inr now) = Inr g" "now \<le> g"
    by (cases "s = P") (auto simp: p_restore_gate_ns_def ph(1))
  obtain vs where vs: "ready_values p its = Inr vs" "None \<notin> set vs" using ready_values_ok [OF item] by blast
  let ?ns = "''gpu-pd-node-'' @ show_int (pl_node_id p)"
  have ns: "?ns \<noteq> []" by simp
  have g0: "0 \<le> g" using now g(2) by simp
  from reserve_single [OF g0 ns resource_names(2) [of p s] total order_refl, of "pl_calendar p"
      "pl_next_batch_id p" "stage_name s @ ''-model-batch''"]
  obtain start cal where res: "reserve_parallel (pl_calendar p) g (pl_next_batch_id p)
      (stage_name s @ ''-model-batch'') [(model_resource p s, (bl_total_ns lat, 0))] ?ns
      = (Inr (start, start + bl_total_ns lat), cal)" "g \<le> start"
    "free_at cal (model_resource p s) = start + bl_total_ns lat"
    "\<forall>r. r \<noteq> model_resource p s \<longrightarrow> free_at cal r = free_at (pl_calendar p) r" by blast
  define b where "b = \<lparr>sb_batch_id = pl_next_batch_id p, sb_stage = s, sb_ready_ns = min_list1 (map the vs),
      sb_restore_gate_ns = g, sb_start_ns = start, sb_completion_ns = start + bl_total_ns lat,
      sb_items = its, sb_shape = shape, sb_latency = lat\<rparr>"
  let ?q = "put_in_flight s b cal p"
  have eq: "launch_batch s now its shape p = andthen (stamp_items s start its ?q)
      (\<lambda>_ p'. (Inr (), launch_metrics s its shape (bl_total_ns lat) start (min_list1 (map the vs)) g now p'))"
    using lat g(1) vs res(1)
    by (cases s) (simp_all add: launch_batch_def Let_def b_def put_in_flight_def model_resource_def)
  have stq: "stages_ok now {} ?q"
    by (rule stages_ok_launch [OF st idle]) (use ne shape total g(2) res in \<open>simp_all add: b_def\<close>)
  have coreq: "pool_core now {} {} pit dit ?q"
    using core by (simp add: pool_core_def put_in_flight_sel)
  have "dget (pl_requests ?q) (bi_request_id it) \<noteq> None" if "it \<in> set its" for it
    using item [OF that] by (auto simp: put_in_flight_sel)
  from stamp_items_ok [OF coreq this, of its s start] obtain p1
    where p1: "stamp_items s start its ?q = (Inr (), p1)" "pool_core now {} {} pit dit p1" "batch_frame ?q p1"
      "table_work p1 = table_work p" "\<forall>t. pw_waiting (worker_of t p1) = pw_waiting (worker_of t ?q)"
    by (auto simp: put_in_flight_sel)
  obtain m where m: "launch_metrics s its shape (bl_total_ns lat) start (min_list1 (map the vs)) g now p1
      = p1\<lparr>pl_metrics := m\<rparr>" "pm_submitted_requests m = pm_submitted_requests (pl_metrics p1)"
      "pm_completed_requests m = pm_completed_requests (pl_metrics p1)" using launch_metrics_eq by blast
  let ?p = "p1\<lparr>pl_metrics := m\<rparr>"
  have frame: "batch_frame ?q ?p" using p1(3) by (simp add: batch_frame_def worker_frame_def pool_evolves_def)
  have infl: "pw_inflight (worker_of t ?p) = (if t = s then Some b else pw_inflight (worker_of t p))" for t
    using frame_worker [OF frame, of t] by (simp add: put_in_flight_sel)
  have "inflight_items P ?p = pit" "inflight_items D ?p = dit"
    using its infl [of P] infl [of D] by (cases s; simp add: inflight_items_def b_def)+
  with pool_core_metrics [OF p1(2) m(2,3)] stq stages_ok_frame [OF frame] have "pool_ok now ?p"
    by (simp add: pool_ok_def)
  moreover have "pool_evolves p ?p" "pl_current_ns ?p = pl_current_ns p"
    using frame by (simp_all add: batch_frame_def pool_evolves_def put_in_flight_sel)
  moreover have "pw_waiting (worker_of t ?p) = pw_waiting (worker_of t p)" for t
    using p1(5) [rule_format, of t] by (cases t) (simp_all add: put_in_flight_sel)
  moreover have "launch_batch s now its shape p = (Inr (), ?p)" using eq p1(1) m(1) by simp
  ultimately show ?thesis using p1(4) infl by auto
qed

section \<open>Scheduling\<close>

lemma stages_ok_waiting:
  "stages_ok now B (with_waiting s ids p) = stages_ok now B p"
proof -
  have "pw_pending_launch_ns (worker_of t (with_waiting s ids p)) = pw_pending_launch_ns (worker_of t p)"
    "model_resource (with_waiting s ids p) t = model_resource p t" for t
    by (cases s; cases t; simp add: with_waiting_def model_resource_def)+
  moreover have "pl_launch_heap (with_waiting s ids p) = pl_launch_heap p"
    "pl_calendar (with_waiting s ids p) = pl_calendar p"
    "pl_batch_completion_heap (with_waiting s ids p) = pl_batch_completion_heap p"
    "pl_next_batch_id (with_waiting s ids p) = pl_next_batch_id p"
    by (cases s; simp add: with_waiting_def)+
  ultimately show ?thesis by (simp add: stages_ok_def batch_ok_def cong: option.case_cong)
qed

lemma inflight_items_waiting [simp]: "inflight_items t (with_waiting s ids p) = inflight_items t p"
  by (simp add: inflight_items_def)

text \<open>\<open>progressed p s\<close>: a stage with queued work has a batch in flight.\<close>

definition progressed :: "pool \<Rightarrow> stage \<Rightarrow> bool" where
  "progressed p s \<longleftrightarrow> pw_waiting (worker_of s p) = [] \<or> pw_inflight (worker_of s p) \<noteq> None"

definition schedule_ok :: "int \<Rightarrow> pool \<Rightarrow> stage \<Rightarrow> (unit, pool) outcome \<Rightarrow> bool" where
  "schedule_ok now p s res \<longleftrightarrow>
     (\<exists>p'. res = (Inr (), p') \<and> pool_ok now p' \<and> pool_evolves p p' \<and>
        pl_current_ns p' = pl_current_ns p \<and> table_work p' = table_work p \<and> progressed p' s \<and>
        (\<forall>t. t \<noteq> s \<longrightarrow> progressed p t \<longrightarrow> progressed p' t))"

lemma select_p_ok:
  assumes ok: "pool_ok now p" and idle: "pw_inflight (pl_p_worker p) = None"
    and ne: "pw_waiting (pl_p_worker p) \<noteq> []"
  shows "\<exists>its ks rest. select_p_batch p = (Inr (Some (its, p_shape its ks)), with_waiting P rest p) \<and>
    its \<noteq> [] \<and> pw_waiting (pl_p_worker p) = map bi_request_id its @ rest \<and>
    list_all2 (p_pick p) its ks \<and> validate_shape (p_shape its ks) = None \<and>
    sum_list (map bi_query_tokens its) \<le> pl_max_num_batched_tokens p \<and>
    int (length its) \<le> pl_p_max_num_seqs p \<and>
    (rest \<noteq> [] \<longrightarrow> sum_list (map bi_query_tokens its) = pl_max_num_batched_tokens p \<or>
       int (length its) = pl_p_max_num_seqs p) \<and>
    pool_core now {} {} its (inflight_items D p) (with_waiting P rest p)"
proof -
  note c = pool_core_parts [OF pool_ok_parts(1) [OF ok]]
  have conf: "0 < pl_max_prefill_chunk_tokens p" "pl_max_prefill_chunk_tokens p \<le> 131072"
    "0 < pl_max_num_batched_tokens p" "0 < pl_p_max_num_seqs p" using c(1) by (simp_all add: config_ok_def)
  have q: "\<exists>r. dget (pl_requests p) i = Some r \<and> rq_state r = P_PREFILL \<and> 0 < p_remaining_tokens r"
    if "i \<in> set (pw_waiting (pl_p_worker p))" for i
  proof -
    from queue_okD [OF c(5), of i] that obtain r
      where r: "dget (pl_requests p) i = Some r" "rq_state r = P_PREFILL" by auto
    with table_okD [OF c(4) r(1)] p_prefill_facts(7) show ?thesis by blast
  qed
  let ?n = "length (pw_waiting (pl_p_worker p))"
  have n: "0 < ?n" using ne by simp
  from select_p_loop_ok [OF q order_refl conf(1), of "pl_max_num_batched_tokens p" "pl_p_max_num_seqs p" "[]" "[]"]
  obtain its ks rest where sel0: "select_p_loop ?n (pl_max_num_batched_tokens p) (pl_p_max_num_seqs p) [] [] p
      = (Inr ([] @ its, [] @ ks), with_waiting P rest p)"
    "pw_waiting (pl_p_worker p) = map bi_request_id its @ rest" "list_all2 (p_pick p) its ks"
    "0 < ?n \<and> 0 < pl_max_num_batched_tokens p \<and> 0 < pl_p_max_num_seqs p \<longrightarrow> its \<noteq> []"
    "sum_list (map bi_query_tokens its) \<le> max 0 (pl_max_num_batched_tokens p)"
    "int (length its) \<le> max 0 (pl_p_max_num_seqs p)"
    "?n = ?n \<and> rest \<noteq> [] \<longrightarrow> pl_max_num_batched_tokens p \<le> sum_list (map bi_query_tokens its) \<or>
       pl_p_max_num_seqs p \<le> int (length its)" by blast
  have sel: "select_p_loop ?n (pl_max_num_batched_tokens p) (pl_p_max_num_seqs p) [] [] p
      = (Inr (its, ks), with_waiting P rest p)"
    "pw_waiting (pl_p_worker p) = map bi_request_id its @ rest" "list_all2 (p_pick p) its ks" "its \<noteq> []"
    using sel0(1-4) n conf by simp_all
  have bounds: "sum_list (map bi_query_tokens its) \<le> pl_max_num_batched_tokens p"
    "int (length its) \<le> pl_p_max_num_seqs p"
    "rest \<noteq> [] \<longrightarrow> sum_list (map bi_query_tokens its) = pl_max_num_batched_tokens p \<or>
       int (length its) = pl_p_max_num_seqs p" using sel0(5-7) conf by linarith+
  have "items_ok (pl_requests p) its"
    using sel(3) unfolding items_ok_def list_all2_conv_all_nth p_pick_def
    by (metis in_set_conv_nth option.sel)
  then have "pool_core now {} {} its (inflight_items D p) (with_waiting P rest p)"
    using pool_ok_parts(1) [OF ok] idle sel(2) ne
    by (auto simp: pool_core_def inflight_items_def with_waiting_def queue_ok_def)
  with sel bounds p_shape_valid [OF sel(3) c(4) conf(2) sel(4)] show ?thesis
    by (intro exI [of _ its] exI [of _ ks] exI [of _ rest]) (simp add: select_p_batch_def)
qed

lemma select_d_ok:
  assumes ok: "pool_ok now p" and idle: "pw_inflight (pl_d_worker p) = None"
    and ne: "pw_waiting (pl_d_worker p) \<noteq> []"
  shows "\<exists>its ks rest. select_d_batch p = (Inr (Some (its, d_shape its ks)), with_waiting D rest p) \<and>
    its \<noteq> [] \<and> pw_waiting (pl_d_worker p) = map bi_request_id its @ rest \<and>
    list_all2 (d_pick p) its ks \<and> validate_shape (d_shape its ks) = None \<and>
    int (length its) \<le> min (pl_max_num_batched_tokens p) (pl_d_max_num_seqs p) \<and>
    (rest \<noteq> [] \<longrightarrow> int (length its) = min (pl_max_num_batched_tokens p) (pl_d_max_num_seqs p)) \<and>
    pool_core now {} {} (inflight_items P p) its (with_waiting D rest p)"
proof -
  note c = pool_core_parts [OF pool_ok_parts(1) [OF ok]]
  have conf: "0 < pl_max_num_batched_tokens p" "0 < pl_d_max_num_seqs p" "pl_d_max_num_seqs p \<le> 128"
    using c(1) by (simp_all add: config_ok_def)
  have q: "\<exists>r. dget (pl_requests p) i = Some r \<and> rq_state r = D_DECODE \<and> rq_handoff_done r"
    if "i \<in> set (pw_waiting (pl_d_worker p))" for i
  proof -
    from queue_okD [OF c(6), of i] that obtain r
      where r: "dget (pl_requests p) i = Some r" "rq_state r = D_DECODE" by auto
    with table_okD [OF c(4) r(1)] d_decode_facts(3) show ?thesis by blast
  qed
  let ?n = "length (pw_waiting (pl_d_worker p))"
  have n: "0 < ?n" using ne by simp
  from select_d_loop_ok [OF q order_refl, of "pl_max_num_batched_tokens p" "pl_d_max_num_seqs p" "[]" "[]"]
  obtain its ks rest where sel0: "select_d_loop ?n (pl_max_num_batched_tokens p) (pl_d_max_num_seqs p) [] [] p
      = (Inr ([] @ its, [] @ ks), with_waiting D rest p)"
    "pw_waiting (pl_d_worker p) = map bi_request_id its @ rest" "list_all2 (d_pick p) its ks"
    "0 < ?n \<and> 0 < pl_max_num_batched_tokens p \<and> 0 < pl_d_max_num_seqs p \<longrightarrow> its \<noteq> []"
    "int (length its) \<le> max 0 (pl_max_num_batched_tokens p)"
    "int (length its) \<le> max 0 (pl_d_max_num_seqs p)"
    "?n = ?n \<and> rest \<noteq> [] \<longrightarrow> pl_max_num_batched_tokens p \<le> int (length its) \<or>
       pl_d_max_num_seqs p \<le> int (length its)" by blast
  have sel: "select_d_loop ?n (pl_max_num_batched_tokens p) (pl_d_max_num_seqs p) [] [] p
      = (Inr (its, ks), with_waiting D rest p)"
    "pw_waiting (pl_d_worker p) = map bi_request_id its @ rest" "list_all2 (d_pick p) its ks" "its \<noteq> []"
    "int (length its) \<le> 128"
    using sel0 n conf by simp_all
  have bounds: "int (length its) \<le> min (pl_max_num_batched_tokens p) (pl_d_max_num_seqs p)"
    "rest \<noteq> [] \<longrightarrow> int (length its) = min (pl_max_num_batched_tokens p) (pl_d_max_num_seqs p)"
    using sel0(5-7) conf by linarith+
  have "pool_core now {} {} (inflight_items P p) its (with_waiting D rest p)"
    using pool_ok_parts(1) [OF ok] idle sel(2) ne
    by (auto simp: pool_core_def inflight_items_def with_waiting_def queue_ok_def)
  with sel bounds d_shape_valid [OF sel(3) c(4) sel(4,5)] show ?thesis
    by (intro exI [of _ its] exI [of _ ks] exI [of _ rest]) (simp add: select_d_batch_def)
qed

lemma clear_pending:
  assumes "stages_ok now B p"
  shows "set_worker s (\<lambda>w. w\<lparr>pw_pending_launch_ns := None\<rparr>) p = p"
  using stages_okD(1,2) [OF assms] by (cases s; cases p) simp_all

lemma try_schedule_ok:
  assumes ok: "pool_ok now p"
  shows "schedule_ok now p s (try_schedule s now p)"
proof -
  note c = pool_core_parts [OF pool_ok_parts(1) [OF ok]] and st = pool_ok_parts(2) [OF ok]
  have now: "0 \<le> now" using c(2,3) by simp
  show ?thesis
  proof (cases "pw_inflight (worker_of s p) = None \<and> pw_waiting (worker_of s p) \<noteq> []")
    case False
    then have "try_schedule s now p = (Inr (), p)"
      using clear_pending [OF st] by (auto simp: try_schedule_def)
    with False ok show ?thesis by (auto simp: schedule_ok_def progressed_def)
  next
    case True
    have avail: "earliest_start (pl_calendar p) now [model_resource p s] = Inr now"
      using stages_okD(4) [OF st, of s] True now resource_names(2) [of p s]
      by (simp add: earliest_start_def)
    define sel where "sel = (if s = P then select_p_batch p else select_d_batch p)"
    have eq: "try_schedule s now p = andthen sel (\<lambda>selected p. case selected of
        None \<Rightarrow> (Inr (), p) | Some (items, shape) \<Rightarrow> launch_batch s now items shape p)"
      using True by (simp add: try_schedule_def avail clear_pending [OF st] sel_def)
    obtain its shape rest where r: "sel = (Inr (Some (its, shape)), with_waiting s rest p)"
      "its \<noteq> []" "validate_shape shape = None"
      "pool_core now {} {} (if s = P then its else inflight_items P p)
        (if s = P then inflight_items D p else its) (with_waiting s rest p)"
      using select_p_ok [OF ok] select_d_ok [OF ok] True unfolding sel_def by (cases s) auto
    let ?p = "with_waiting s rest p"
    have "if s = P then (if s = P then its else inflight_items P p) = its \<and>
        (if s = P then inflight_items D p else its) = inflight_items D ?p
      else (if s = P then its else inflight_items P p) = inflight_items P ?p \<and>
        (if s = P then inflight_items D p else its) = its"
      by simp
    from launch_batch_ok [OF r(4) _ _ r(2) this r(3)] st True stages_ok_waiting obtain p'
      where p': "launch_batch s now its shape ?p = (Inr (), p')" "pool_ok now p'"
        "pool_evolves ?p p'" "pl_current_ns p' = pl_current_ns ?p"
        "table_work p' = table_work ?p"
        "\<And>t. pw_waiting (worker_of t p') = pw_waiting (worker_of t ?p)"
        "\<And>t. pw_inflight (worker_of t p') = None \<longleftrightarrow> t \<noteq> s \<and> pw_inflight (worker_of t ?p) = None"
      by auto
    have "progressed p' s" using p'(7) [of s] by (simp add: progressed_def)
    moreover have "progressed p' t" if "t \<noteq> s" "progressed p t" for t
      using that p'(6,7) [of t] by (cases s; cases t) (auto simp: progressed_def with_waiting_def)
    moreover have "pl_current_ns ?p = pl_current_ns p" "pool_evolves p ?p"
      by (cases s; simp add: with_waiting_def pool_evolves_def)+
    moreover note pool_evolves_trans [OF calculation(4) p'(3)]
    ultimately show ?thesis
      unfolding eq r(1) schedule_ok_def using p'(1-5) by simp
  qed
qed

text \<open>\<open>settled\<close>: no stage has queued work without a batch in flight.\<close>

definition settled :: "pool \<Rightarrow> bool" where
  "settled p \<longleftrightarrow> progressed p P \<and> progressed p D"

lemma flush_scheduling_ok:
  assumes ok: "pool_ok now p" and cur: "pl_current_ns p = now"
  shows "\<exists>p'. flush_scheduling now p = (Inr (), p') \<and> pool_ok now p' \<and> pool_evolves p p' \<and>
    pl_current_ns p' = now \<and> table_work p' = table_work p \<and> settled p'"
proof -
  from try_schedule_ok [OF ok, of P] obtain p1
    where p1: "try_schedule P now p = (Inr (), p1)" "pool_ok now p1" "pool_evolves p p1"
      "pl_current_ns p1 = pl_current_ns p" "table_work p1 = table_work p" "progressed p1 P"
    unfolding schedule_ok_def by blast
  from try_schedule_ok [OF p1(2), of D] obtain p2
    where p2: "try_schedule D now p1 = (Inr (), p2)" "pool_ok now p2" "pool_evolves p1 p2"
      "pl_current_ns p2 = pl_current_ns p1" "table_work p2 = table_work p1" "progressed p2 D"
      "progressed p1 P \<longrightarrow> progressed p2 P"
    unfolding schedule_ok_def by blast
  show ?thesis
    using p1 p2 cur pool_evolves_trans [OF p1(3) p2(3)]
    by (intro exI [of _ p2]) (simp add: flush_scheduling_def settled_def)
qed

section \<open>The self check never fails\<close>

lemma count_list_distinct: "distinct xs \<Longrightarrow> count_list xs x = (if x \<in> set xs then 1 else 0)"
  by (induction xs) auto

lemma first_token_check_ok:
  assumes "request_ok retain now r"
  shows "first_token_check retain r = None"
proof (cases "rq_first_token_ns r")
  case None
  then show ?thesis by (simp add: first_token_check_def)
next
  case (Some t)
  with assms have "1 \<le> rq_generated_tokens r"
    "retain \<Longrightarrow> length (rq_token_completion_ns r) = nat (rq_generated_tokens r)"
    "retain \<Longrightarrow> hd (rq_token_completion_ns r) = t" by (simp_all add: request_ok_def clock_ok_def)
  then show ?thesis
    by (cases "rq_token_completion_ns r") (auto simp: first_token_check_def Some)
qed

lemma request_check_ok:
  assumes ok: "pool_ok now p" and r: "dget (pl_requests p) i = Some r"
  shows "request_check (pl_retain_detailed_history p) (queued_ids p) r = None"
proof -
  note c = pool_core_parts [OF pool_ok_parts(1) [OF ok]]
  let ?retain = "pl_retain_detailed_history p"
  have id: "rq_request_id r = i" and rok: "request_ok ?retain now r" using table_okD [OF c(4) r] by simp_all
  let ?qp = "pw_waiting (pl_p_worker p) @ map bi_request_id (inflight_items P p)"
  let ?qd = "pw_waiting (pl_d_worker p) @ map bi_request_id (inflight_items D p)"
  have ids: "inflight_ids (worker_of s p) = map bi_request_id (inflight_items s p)" for s
    by (simp add: inflight_ids_def inflight_items_def split: option.split)
  have q: "set (queued_ids p) = set ?qp \<union> set ?qd"
    "count_list (queued_ids p) i = count_list ?qp i + count_list ?qd i"
    using ids [of P] ids [of D] by (auto simp: queued_ids_def)
  have mem: "i \<in> set ?qp \<longleftrightarrow> rq_state r = P_PREFILL" "i \<in> set ?qd \<longleftrightarrow> rq_state r = D_DECODE"
    by (rule queue_ok_iff [OF c(5) r] queue_ok_iff [OF c(6) r])+
  have cnt: "count_list ?qp i = (if rq_state r = P_PREFILL then 1 else 0)"
    "count_list ?qd i = (if rq_state r = D_DECODE then 1 else 0)"
    using mem count_list_distinct [OF queue_ok_distinct [OF c(5)], of i]
      count_list_distinct [OF queue_ok_distinct [OF c(6)], of i] by simp_all
  have hand: "rq_handoff_completion_ns r \<noteq> None" if "rq_state r = HANDOFF"
    using jobs_ok_handoff [OF c(8) r that] jobs_ok_job(5) [OF c(8)] r by fastforce
  have prog: "progress_ok r" and static: "request_static r" and clock: "clock_ok ?retain now r"
    using rok by (simp_all add: request_ok_def)
  have 1: "0 \<le> rq_p_processed_tokens r \<and> rq_p_processed_tokens r \<le> p_fresh_tokens r"
    "0 \<le> rq_generated_tokens r \<and> rq_generated_tokens r \<le> rq_output_tokens r"
    using prog static by (auto simp: progress_ok_def request_static_def split: request_state.splits)
  have 2: "int (length (rq_token_completion_ns r)) = (if ?retain then rq_generated_tokens r else 0)"
    using clock 1(2) by (simp add: clock_ok_def)
  have 3: "rq_state r = COMPLETE \<Longrightarrow> rq_completion_ns r \<noteq> None \<and> rq_generated_tokens r = rq_output_tokens r"
    "rq_state r = D_DECODE \<Longrightarrow> rq_handoff_done r" "rq_state r \<noteq> WAITING_P"
    using prog by (auto simp: progress_ok_def)
  have 4: "rq_completion_ns r = rq_first_token_ns r" if "rq_completion_ns r \<noteq> None" "rq_output_tokens r = 1"
  proof -
    from that prog have "rq_state r = COMPLETE" by (auto simp: progress_ok_def split: request_state.splits)
    with that clock prog show ?thesis by (auto simp: clock_ok_def progress_ok_def split: option.splits)
  qed
  have 5: "rq_completion_ns r = None" if "rq_state r \<noteq> COMPLETE"
    using that prog by (auto simp: progress_ok_def split: request_state.splits)
  have notin: "rq_state r = COMPLETE \<or> rq_state r = HANDOFF \<Longrightarrow> i \<notin> set (queued_ids p)"
    unfolding q(1) using mem by auto
  have one: "rq_state r \<noteq> COMPLETE \<Longrightarrow> rq_state r \<noteq> HANDOFF \<Longrightarrow> count_list (queued_ids p) i = 1"
    unfolding q(2) cnt using 3(3) by (cases "rq_state r") auto
  show ?thesis
    unfolding request_check_def id
    using 1 2 3 4 5 notin one hand first_token_check_ok [OF rok] by (cases "rq_state r") auto
qed

lemma first_failure_None: "first_failure f xs = None \<longleftrightarrow> (\<forall>x \<in> set xs. f x = None)"
  by (induction xs) (auto split: option.split)

lemma pool_check_ok:
  assumes ok: "pool_ok now p"
  shows "pool_check p = None"
proof -
  note c = pool_core_parts [OF pool_ok_parts(1) [OF ok]]
  note so = stages_okD [OF pool_ok_parts(2) [OF ok]]
  have "first_failure (request_check (pl_retain_detailed_history p) (queued_ids p)) (dvalues (pl_requests p)) = None"
    unfolding first_failure_None
    using request_check_ok [OF ok] dvalues_iff [OF table_ok_dwf [OF c(4)]] by blast
  moreover have "dtotal is_complete (pl_requests p) \<le> int (length (pl_requests p))"
    using dtotal_mono [of is_complete "\<lambda>_. 1" "pl_requests p"] by (simp add: dtotal_one is_complete_def)
  moreover have "first_failure worker_check [pl_p_worker p, pl_d_worker p] = None"
    using so(1,2) by (simp add: worker_check_def)
  ultimately show ?thesis
    using c(11) unfolding pool_check_def by (simp only: option.case) (simp add: counts_ok_def)
qed

lemma run_check_ok: "pool_ok now p \<Longrightarrow> run_check p = (Inr (), p)"
  by (simp add: run_check_def pool_check_ok)

section \<open>Advancing time\<close>

lemma table_work_nonneg: "pool_ok now p \<Longrightarrow> 0 \<le> table_work p"
proof -
  assume ok: "pool_ok now p"
  note c = pool_core_parts [OF pool_ok_parts(1) [OF ok]]
  show ?thesis
    using table_okD [OF c(4)] progress_work
    by (intro dtotal_nonneg [OF _ table_ok_dwf [OF c(4)]]) (auto simp: request_ok_def)
qed

lemma next_raw_event_ok:
  assumes ok: "pool_ok now p"
  shows "\<exists>m. next_raw_event_ns p = (m, p) \<and>
    (m = None \<longleftrightarrow> pl_batch_completion_heap p = [] \<and> pl_handoff_completion_heap p = []) \<and>
    (\<forall>e. m = Some e \<longrightarrow> events_from e p \<and> now \<le> e \<and>
       ((\<exists>x \<in> set (pl_batch_completion_heap p). fst x = e) \<or> (\<exists>x \<in> set (pl_handoff_completion_heap p). fst x = e)))"
proof -
  note c = pool_core_parts [OF pool_ok_parts(1) [OF ok]] and so = stages_okD [OF pool_ok_parts(2) [OF ok]]
  let ?b = "pl_batch_completion_heap p" and ?h = "pl_handoff_completion_heap p"
  have "clean_launch_heap p = p" using so(3) by (cases p) (simp add: clean_launch_heap_def)
  moreover have "sorted ?h" using c(9) by (simp add: heap_ok_def)
  moreover have gb: "\<And>x. x \<in> set ?b \<Longrightarrow> now \<le> fst x" and gh: "\<And>x. x \<in> set ?h \<Longrightarrow> now \<le> fst x"
    by (rule batch_heap_ge [OF pool_ok_parts(2) [OF ok]], assumption)
      (rule handoff_heap_ge [OF pool_ok_parts(1) [OF ok]])
  ultimately show ?thesis
    using so(3,6)
    by (cases ?b; cases ?h)
      (auto simp: next_raw_event_ns_def event_candidates_def events_from_def Let_def less_eq_prod_def
        min_def)
qed

definition advanced :: "int \<Rightarrow> pool \<Rightarrow> pool \<Rightarrow> bool" where
  "advanced now p p' \<longleftrightarrow>
     pool_ok (pl_current_ns p') p' \<and> pl_current_ns p' \<le> now \<and> events_from (now + 1) p' \<and>
     pool_evolves p p' \<and> table_work p' \<le> table_work p"

text \<open>One iteration: the events of the next timestamp, then scheduling unless it is deferred.\<close>

lemma event_step_ok:
  assumes ok: "pool_ok (pl_current_ns p) p" and e: "next_raw_event_ns p = (Some e, p)"
  shows "\<exists>p1 p2. process_events_at e p = (Inr (), p1) \<and>
    (if sched then flush_scheduling e (p1\<lparr>pl_current_ns := e\<rparr>) else (Inr (), p1\<lparr>pl_current_ns := e\<rparr>))
      = (Inr (), p2) \<and>
    pool_ok e p2 \<and> pl_current_ns p2 = e \<and> pool_evolves p p2 \<and>
    table_work p2 < table_work p \<and> (sched \<longrightarrow> settled p2)"
proof -
  from next_raw_event_ok [OF ok] e
  have ev: "events_from e p" "pl_current_ns p \<le> e"
    "\<exists>x. (x \<in> set (pl_batch_completion_heap p) \<and> fst x = e) \<or> (\<exists>y \<in> set (pl_handoff_completion_heap p). fst y = e)"
    by auto
  have e0: "0 \<le> e" using pool_core_parts(2) [OF pool_ok_parts(1) [OF ok]] ev(2) by simp
  from process_events_ok [OF pool_ok_advance [OF ok ev(2,1)] ev(3)] obtain p1
    where p1: "process_events_at e p = (Inr (), p1)" "pool_ok e p1" "pool_evolves p p1"
      "table_work p1 < table_work p" by blast
  let ?q = "p1\<lparr>pl_current_ns := e\<rparr>"
  have q: "pool_ok e ?q" by (rule pool_ok_current [OF p1(2) e0]) simp
  show ?thesis
  proof (cases sched)
    case True
    from flush_scheduling_ok [OF q] obtain p2
      where "flush_scheduling e ?q = (Inr (), p2)" "pool_ok e p2" "pool_evolves ?q p2"
        "pl_current_ns p2 = e" "table_work p2 = table_work ?q" "settled p2" by auto
    moreover from this(3) have "pool_evolves p p2"
      using pool_evolves_trans [OF p1(3)] by (simp add: pool_evolves_def)
    ultimately show ?thesis using p1 True by (intro exI [of _ p1] exI [of _ p2]) simp
  next
    case False
    with p1 q show ?thesis by (intro exI [of _ p1] exI [of _ ?q]) (simp add: pool_evolves_def)
  qed
qed

lemma advance_loop_done:
  assumes ok: "pool_ok (pl_current_ns p) p" and le: "pl_current_ns p \<le> now"
    and none: "\<And>e. next_raw_event_ns p = (Some e, p) \<Longrightarrow> now < e"
  shows "advance_loop fuel now defer p = (Inr (), p) \<and> advanced now p p"
proof -
  from next_raw_event_ok [OF ok] obtain m where m: "next_raw_event_ns p = (m, p)"
    "m = None \<longleftrightarrow> pl_batch_completion_heap p = [] \<and> pl_handoff_completion_heap p = []"
    "\<And>e. m = Some e \<Longrightarrow> events_from e p" by blast
  have "events_from (now + 1) p"
    using m(2,3) none m(1) by (cases m) (force simp: events_from_def)+
  with ok le m none show ?thesis
    by (cases m) (auto simp: advanced_def advance_loop.simps [of fuel])
qed

lemma advance_loop_ok:
  "pool_ok (pl_current_ns p) p \<Longrightarrow> table_work p \<le> int fuel \<Longrightarrow> pl_current_ns p \<le> now \<Longrightarrow>
   \<exists>p'. advance_loop fuel now defer p = (Inr (), p') \<and> advanced now p p' \<and>
     (settled p \<and> \<not> defer \<longrightarrow> settled p') \<and>
     ((\<exists>e. next_raw_event_ns p = (Some e, p) \<and> e \<le> now) \<longrightarrow> table_work p' < table_work p)"
proof (induction fuel arbitrary: p)
  case 0
  note ok = "0.prems"(1)
  have "now < e" if "next_raw_event_ns p = (Some e, p)" for e
  proof -
    from event_step_ok [OF ok that, of False] obtain p2 where "pool_ok e p2" "table_work p2 < table_work p"
      by auto
    with table_work_nonneg [of e p2] "0.prems"(2) show ?thesis by simp
  qed
  note none = this
  then have "\<not> (\<exists>e. next_raw_event_ns p = (Some e, p) \<and> e \<le> now)" by force
  with advance_loop_done [OF ok "0.prems"(3) none] show ?case by auto
next
  case (Suc fuel)
  note ok = Suc.prems(1)
  show ?case
  proof (cases "\<exists>e. next_raw_event_ns p = (Some e, p) \<and> e \<le> now")
    case False
    then have "now < e" if "next_raw_event_ns p = (Some e, p)" for e using that by force
    from advance_loop_done [OF ok Suc.prems(3) this] False show ?thesis by auto
  next
    case True
    then obtain e where e: "next_raw_event_ns p = (Some e, p)" "e \<le> now" by blast
    let ?s = "\<not> (defer \<and> e = now)"
    from event_step_ok [OF ok e(1), of ?s] obtain p1 p2
      where p1: "process_events_at e p = (Inr (), p1)"
        "(if ?s then flush_scheduling e (p1\<lparr>pl_current_ns := e\<rparr>) else (Inr (), p1\<lparr>pl_current_ns := e\<rparr>))
          = (Inr (), p2)"
        "pool_ok e p2" "pl_current_ns p2 = e" "pool_evolves p p2"
        "table_work p2 < table_work p" "?s \<longrightarrow> settled p2" by blast
    have "advance_loop (Suc fuel) now defer p = advance_loop fuel now defer p2"
      using e p1(1,2) by (subst advance_loop.simps) (auto simp: Let_def)
    moreover from Suc.IH [of p2] p1 Suc.prems(2) e(2) obtain p3
      where "advance_loop fuel now defer p2 = (Inr (), p3)" "advanced now p2 p3"
        "settled p2 \<and> \<not> defer \<longrightarrow> settled p3" by auto
    ultimately show ?thesis using p1 pool_evolves_trans [OF p1(5)] by (auto simp: advanced_def)
  qed
qed

lemma advance_ok:
  assumes ok: "pool_ok (pl_current_ns p) p" and le: "pl_current_ns p \<le> now"
  shows "\<exists>p'. advance now defer p = (Inr (), p') \<and> pool_ok now p' \<and> pl_current_ns p' = now \<and>
    events_from (now + 1) p' \<and> pool_evolves p p' \<and> table_work p' \<le> table_work p \<and>
    (settled p \<and> \<not> defer \<longrightarrow> settled p') \<and>
    ((\<exists>e. next_raw_event_ns p = (Some e, p) \<and> e \<le> now) \<longrightarrow> table_work p' < table_work p)"
proof -
  have "table_work p \<le> int (pool_work p)" by (simp add: pool_work_def)
  from advance_loop_ok [OF ok this le] obtain q
    where q: "advance_loop (pool_work p) now defer p = (Inr (), q)" "advanced now p q"
      "settled p \<and> \<not> defer \<longrightarrow> settled q"
      "(\<exists>e. next_raw_event_ns p = (Some e, p) \<and> e \<le> now) \<longrightarrow> table_work q < table_work p" by blast
  let ?q = "q\<lparr>pl_current_ns := now\<rparr>"
  have qq: "pool_ok (pl_current_ns q) q" "pl_current_ns q \<le> now" "events_from (now + 1) q"
    using q(2) by (simp_all add: advanced_def)
  have "events_from now q" using qq(3) by (force simp: events_from_def)
  from pool_ok_advance [OF qq(1,2) this] have "pool_ok now q" .
  moreover have "0 \<le> now"
    using pool_core_parts(2) [OF pool_ok_parts(1) [OF ok]] le by simp
  ultimately have okq: "pool_ok now ?q" by (intro pool_ok_current) simp_all
  have "advance now defer p = (Inr (), ?q)"
    using le q(1) run_check_ok [OF okq] by (simp add: advance_def Let_def)
  with okq qq(3) q show ?thesis
    by (auto simp: advanced_def events_from_def settled_def progressed_def worker_of_def pool_evolves_def)
qed

end
