(* ===== verification/PD_Pool_Runs.thy ===== *)
theory PD_Pool_Runs
  imports PD_Pool_Loop
begin

text \<open>
  The public operations of \<^verbatim>\<open>P4D4ServingPool\<close> over whole runs: construction, submission of new
  requests, and running until idle.  \<open>pool_reach\<close> are the states a caller can bring a pool into;
  every one of them satisfies the invariant at its current time, and no operation raises on valid
  input.
\<close>

section \<open>Construction\<close>

lemma new_pool_ok:
  assumes new: "new_pool hw pv n cal budget seqs ps ds chunk overlap v retain = Inr p"
    and pv: "provider_ok pv" and free: "\<And>s. free_at (pl_calendar p) (model_resource p s) \<le> 0"
  shows "pool_ok 0 p" "settled p" "pl_current_ns p = 0" "pl_requests p = []"
    "events_from t p"
proof -
  let ?p = "case ps of None \<Rightarrow> seqs | Some v \<Rightarrow> v" and ?d = "case ds of None \<Rightarrow> seqs | Some v \<Rightarrow> v"
  have ne: "new_pool_error hw n budget seqs ?p ?d chunk overlap = None"
    using new by (simp add: new_pool_def Let_def split: option.splits)
  then have v: "validate_hardware hw = None" by (simp add: new_pool_error_def split: option.splits)
  have lims: "stage_limit_error ''p'' ?p = None" "stage_limit_error ''d'' ?d = None"
    using ne by (simp_all add: new_pool_error_def v split: option.splits if_splits)
  have b: "0 \<le> n" "0 < budget" "0 < chunk" "chunk \<le> 131072"
    using ne by (simp_all add: new_pool_error_def v lims not_le split: if_splits)
  note p = new [unfolded new_pool_def Let_def ne option.case, THEN sum.inject(2) [THEN iffD1], symmetric]
  have config: "config_ok p"
    using v b lims pv by (simp add: p config_ok_def hw_ok_def split: if_splits)
  have core: "pool_core 0 {} {} (inflight_items P p) (inflight_items D p) p"
    using config
    by (simp add: pool_core_def p inflight_items_def new_worker_def table_ok_def queue_ok_def items_ok_def
        jobs_ok_def heap_ok_def sessions_ok_def counts_ok_def new_pool_metrics_def)
  have stages: "stages_ok 0 {} p"
    by (rule stages_okI) (use free in \<open>auto simp: p new_worker_def worker_of_def split: stage.splits\<close>)
  show "pool_ok 0 p" using core stages by (simp add: pool_ok_def)
  show "settled p" by (simp add: p settled_def progressed_def new_worker_def)
  show "pl_current_ns p = 0" "pl_requests p = []" "events_from t p" by (simp_all add: p events_from_def)
qed

section \<open>Submission\<close>

text \<open>A session that has no live request.\<close>

definition idle_session :: "pool \<Rightarrow> string \<Rightarrow> bool" where
  "idle_session p s \<longleftrightarrow>
     (\<forall>i q. dget (pl_requests p) i = Some q \<longrightarrow> rq_session_id q = s \<longrightarrow> rq_state q = COMPLETE)"

text \<open>What \<open>submission_error\<close> demands of one request.\<close>

definition submittable :: "pool \<Rightarrow> int \<Rightarrow> request \<Rightarrow> bool" where
  "submittable p now r \<longleftrightarrow>
     validate_request r = None \<and> rq_arrival_ns r \<le> now \<and> dget (pl_requests p) (rq_request_id r) = None \<and>
     idle_session p (rq_session_id r)"

lemma current_request_idle:
  assumes sess: "sessions_ok (pl_requests p) (pl_current_request_by_session p)"
  shows "idle_session p s \<longleftrightarrow>
    (case dget (pl_current_request_by_session p) s of
       None \<Rightarrow> True
     | Some i \<Rightarrow> (\<exists>q. get_request p i = Inr q \<and> rq_state q = COMPLETE))"
proof (cases "dget (pl_current_request_by_session p) s")
  case None
  then show ?thesis using sess unfolding idle_session_def sessions_ok_def by force
next
  case (Some i)
  from sess Some obtain q where q: "dget (pl_requests p) i = Some q" "rq_session_id q = s"
    unfolding sessions_ok_def by blast
  have "j = i" if "dget (pl_requests p) j = Some r" "rq_session_id r = s" "rq_state r \<noteq> COMPLETE" for j r
    using sess that Some unfolding sessions_ok_def by force
  with q have "idle_session p s \<longleftrightarrow> rq_state q = COMPLETE"
    unfolding idle_session_def by (metis option.inject)
  then show ?thesis using q Some by (simp add: get_request_def)
qed

lemma submission_error_None:
  assumes sess: "sessions_ok (pl_requests p) (pl_current_request_by_session p)"
  shows "submission_error p now rs ids ss = None \<longleftrightarrow>
    (\<forall>r \<in> set rs. submittable p now r \<and> rq_request_id r \<notin> set ids \<and> rq_session_id r \<notin> set ss) \<and>
    distinct (map rq_request_id rs) \<and> distinct (map rq_session_id rs)"
proof (induction rs arbitrary: ids ss)
  case Nil
  then show ?case by simp
next
  case (Cons r rs)
  have none: "rq_request_id r \<in> set (dkeys (pl_requests p)) \<longleftrightarrow> dget (pl_requests p) (rq_request_id r) \<noteq> None"
    by (simp only: dget_None_iff not_not)
  note idle = current_request_idle [OF sess, of "rq_session_id r"]
  show ?case
  proof (cases "submittable p now r \<and> rq_request_id r \<notin> set ids \<and> rq_session_id r \<notin> set ss")
    case True
    then have step: "submission_error p now (r # rs) ids ss =
        submission_error p now rs (rq_request_id r # ids) (rq_session_id r # ss)"
      using idle none by (auto simp: submittable_def split: option.splits)
    show ?thesis unfolding step Cons.IH using True by (auto simp: image_iff)
  next
    case False
    have "submission_error p now (r # rs) ids ss \<noteq> None"
    proof (cases "validate_request r = None \<and> rq_arrival_ns r \<le> now \<and>
        rq_request_id r \<notin> set (dkeys (pl_requests p)) \<and> rq_request_id r \<notin> set ids")
      case no: False
      then show ?thesis by (cases "validate_request r") auto
    next
      case True
      with False none have s: "\<not> idle_session p (rq_session_id r) \<or> rq_session_id r \<in> set ss"
        by (auto simp: submittable_def)
      show ?thesis
      proof (cases "dget (pl_current_request_by_session p) (rq_session_id r)")
        case None
        with s idle True show ?thesis by simp
      next
        case (Some i)
        with s idle True show ?thesis by (cases "get_request p i") auto
      qed
    qed
    moreover from False have "\<not> (\<forall>x \<in> set (r # rs). submittable p now x \<and>
        rq_request_id x \<notin> set ids \<and> rq_session_id x \<notin> set ss)" by auto
    ultimately show ?thesis by blast
  qed
qed

text \<open>The request as \<open>enqueue_request\<close> puts it in the table.\<close>

definition started :: "int \<Rightarrow> request \<Rightarrow> request" where
  "started now r = r\<lparr>rq_state := P_PREFILL, rq_stage_ready_ns := Some now\<rparr>"

lemma started_sel [simp]:
  "rq_request_id (started now r) = rq_request_id r" "rq_session_id (started now r) = rq_session_id r"
  "rq_state (started now r) = P_PREFILL" "rq_output_tokens (started now r) = rq_output_tokens r"
  by (simp_all add: started_def)

lemma started_ok:
  assumes "validate_request r = None" and "rq_arrival_ns r \<le> now"
  shows "request_ok retain now (started now r)"
proof -
  from validate_request_static [OF assms(1)] have s: "request_static r" and p: "pristine r" by simp_all
  have "request_static (started now r)" using s by (simp add: request_static_def started_def)
  moreover have "p_fresh_tokens (started now r) = p_fresh_tokens r"
    by (simp add: started_def p_fresh_tokens_def operational_p_prefix_tokens_def)
  ultimately show ?thesis
    using p assms(2) request_static_facts(2) [OF s]
    by (simp add: request_ok_def progress_ok_def clock_ok_def started_def pristine_def)
qed

lemma jobs_ok_fresh:
  assumes jobs: "jobs_ok now X reqs jobs n" and new: "dget reqs i = None" and r: "rq_state r \<noteq> HANDOFF"
  shows "jobs_ok now X (dput i r reqs) jobs n"
proof (rule jobs_okI)
  show "dwf jobs" using jobs by (simp add: jobs_ok_def)
next
  fix j job assume j: "dget jobs j = Some job"
  note jj = jobs_ok_job [OF jobs j]
  then have "hj_request_id job \<noteq> i" using new by auto
  with jj show "hj_job_id job = j \<and> j < n \<and> now \<le> hj_completion_ns job \<and> hj_request_id job \<notin> X \<and>
      (\<exists>q. dget (dput i r reqs) (hj_request_id job) = Some q \<and> \<not> rq_handoff_done q \<and>
         rq_handoff_completion_ns q = Some (hj_completion_ns job) \<and>
         rq_state q = (if rq_output_tokens q = 1 then COMPLETE else HANDOFF))" by simp
next
  fix j k a b assume "dget jobs j = Some a" "dget jobs k = Some b" "hj_request_id a = hj_request_id b"
  then show "j = k" by (rule jobs_ok_unique [OF jobs])
next
  fix k q assume q: "dget (dput i r reqs) k = Some q" "rq_state q = HANDOFF"
  with r have "dget reqs k = Some q" by (auto split: if_split_asm)
  with jobs_ok_handoff [OF jobs this q(2)]
  show "k \<in> X \<or> (\<exists>j job. dget jobs j = Some job \<and> hj_request_id job = k)" by blast
qed

lemma sessions_ok_new:
  assumes sess: "sessions_ok reqs cur" and new: "dget reqs i = None"
    and idle: "\<And>j q. dget reqs j = Some q \<Longrightarrow> rq_session_id q = rq_session_id r \<Longrightarrow> rq_state q = COMPLETE"
  shows "sessions_ok (dput i r reqs) (dput (rq_session_id r) i cur)"
  unfolding sessions_ok_def
proof (intro conjI allI impI)
  fix s j assume "dget (dput (rq_session_id r) i cur) s = Some j"
  then show "\<exists>q. dget (dput i r reqs) j = Some q \<and> rq_session_id q = s"
    using sess new unfolding sessions_ok_def by (force split: if_split_asm)
next
  fix j q assume "dget (dput i r reqs) j = Some q" "rq_state q \<noteq> COMPLETE"
  then show "dget (dput (rq_session_id r) i cur) (rq_session_id q) = Some j"
    using sess idle unfolding sessions_ok_def by (force split: if_split_asm)
qed

lemma enqueue_request_sel:
  "pl_requests (enqueue_request now r p) = dput (rq_request_id r) (started now r) (pl_requests p)"
  "pl_current_request_by_session (enqueue_request now r p) =
     dput (rq_session_id r) (rq_request_id r) (pl_current_request_by_session p)"
  "pool_config (enqueue_request now r p) = pool_config p"
  "pl_current_ns (enqueue_request now r p) = pl_current_ns p"
  "pw_waiting (pl_p_worker (enqueue_request now r p)) = pw_waiting (pl_p_worker p) @ [rq_request_id r]"
  "pl_d_worker (enqueue_request now r p) = pl_d_worker p"
  "pw_inflight (pl_p_worker (enqueue_request now r p)) = pw_inflight (pl_p_worker p)"
  "pw_pending_launch_ns (pl_p_worker (enqueue_request now r p)) = pw_pending_launch_ns (pl_p_worker p)"
  "pl_handoff_jobs (enqueue_request now r p) = pl_handoff_jobs p"
  "pl_next_handoff_id (enqueue_request now r p) = pl_next_handoff_id p"
  "pl_handoff_completion_heap (enqueue_request now r p) = pl_handoff_completion_heap p"
  "pl_completed_request_ids (enqueue_request now r p) = pl_completed_request_ids p"
  "pl_completed_handoff_request_ids (enqueue_request now r p) = pl_completed_handoff_request_ids p"
  "pl_launch_heap (enqueue_request now r p) = pl_launch_heap p"
  "pl_calendar (enqueue_request now r p) = pl_calendar p"
  "pl_next_batch_id (enqueue_request now r p) = pl_next_batch_id p"
  "pl_batch_completion_heap (enqueue_request now r p) = pl_batch_completion_heap p"
  "model_resource (enqueue_request now r p) s = model_resource p s"
  "pm_submitted_requests (pl_metrics (enqueue_request now r p)) = pm_submitted_requests (pl_metrics p) + 1"
  "pm_completed_requests (pl_metrics (enqueue_request now r p)) = pm_completed_requests (pl_metrics p)"
  by (simp_all add: enqueue_request_def started_def Let_def set_request_def push_waiting_def
      model_resource_def)

lemma enqueue_request_ok:
  assumes ok: "pool_ok now p" and r: "submittable p now r"
  shows "pool_ok now (enqueue_request now r p)"
proof -
  let ?i = "rq_request_id r" and ?r = "started now r" and ?q = "enqueue_request now r p"
  note sel = enqueue_request_sel [of now r p]
  note c = pool_core_parts [OF pool_ok_parts(1) [OF ok]] and so = stages_okD [OF pool_ok_parts(2) [OF ok]]
  have new: "dget (pl_requests p) ?i = None" and idle: "idle_session p (rq_session_id r)"
    and v: "validate_request r = None" "rq_arrival_ns r \<le> now" using r by (simp_all add: submittable_def)
  have ret: "pl_retain_detailed_history ?q = pl_retain_detailed_history p"
    using sel(3) by (simp add: pool_config_def)
  have infl: "inflight_items s ?q = inflight_items s p" for s
    by (cases s) (simp_all add: inflight_items_def sel)
  have ids: "?i \<notin> set (pw_waiting (pl_p_worker p) @ map bi_request_id (inflight_items P p))"
    "?i \<notin> set (pw_waiting (pl_d_worker p) @ map bi_request_id (inflight_items D p))"
    using c(5,6) new by (auto simp: queue_ok_def)
  have "table_ok (pl_retain_detailed_history p) now (dput ?i ?r (pl_requests p))"
    by (rule table_ok_put [OF c(4)]) (simp_all add: started_ok [OF v])
  moreover have "queue_ok (dput ?i ?r (pl_requests p)) P_PREFILL
      ((pw_waiting (pl_p_worker p) @ [?i]) @ map bi_request_id (inflight_items P p))"
    by (rule queue_ok_put [OF c(5)]) (use ids queue_ok_distinct [OF c(5)] in auto)
  moreover have "queue_ok (dput ?i ?r (pl_requests p)) D_DECODE
      (pw_waiting (pl_d_worker p) @ map bi_request_id (inflight_items D p))"
    by (rule queue_ok_put [OF c(6)]) (use ids queue_ok_distinct [OF c(6)] in auto)
  moreover have "items_ok (dput ?i ?r (pl_requests p)) (inflight_items P p)"
    using ids by (intro items_ok_put [OF c(7)]) auto
  moreover have "jobs_ok now {} (dput ?i ?r (pl_requests p)) (pl_handoff_jobs p) (pl_next_handoff_id p)"
    by (rule jobs_ok_fresh [OF c(8) new]) simp
  moreover have "sessions_ok (dput ?i ?r (pl_requests p))
      (dput (rq_session_id r) ?i (pl_current_request_by_session p))"
    using sessions_ok_new [OF c(10) new, of ?r] idle by (simp add: idle_session_def)
  moreover have "counts_ok (dput ?i ?r (pl_requests p)) (pl_metrics ?q) (pl_completed_request_ids p)
      (pl_completed_handoff_request_ids p)"
    using c(11) new
    by (auto simp: counts_ok_def sel length_dput_new dtotal_dput_new is_complete_def)
  ultimately have "pool_core now {} {} (inflight_items P ?q) (inflight_items D ?q) ?q"
    using c(1-3,9) config_ok_cong [OF sel(3)] by (simp add: pool_core_def infl sel ret)
  moreover have "stages_ok now {} ?q"
  proof (rule stages_okI)
    fix s assume "pw_inflight (worker_of s ?q) = None"
    then have "pw_inflight (worker_of s p) = None" by (cases s) (simp_all add: sel)
    from so(4) [OF this] show "free_at (pl_calendar ?q) (model_resource ?q s) \<le> now" by (simp add: sel)
  next
    fix s b assume "pw_inflight (worker_of s ?q) = Some b"
    then have "pw_inflight (worker_of s p) = Some b" by (cases s) (simp_all add: sel)
    from so(5) [OF this] show "batch_ok now s ?q b" by (simp add: batch_ok_def sel)
  next
    fix t u i
    have "pw_inflight (worker_of u ?q) = pw_inflight (worker_of u p)" by (cases u) (simp_all add: sel)
    with so(8) [of t u i] show "(t, u, i) \<in> set (pl_batch_completion_heap ?q) \<longleftrightarrow> u \<notin> {} \<and>
        (\<exists>b. pw_inflight (worker_of u ?q) = Some b \<and> sb_completion_ns b = t \<and> sb_batch_id b = i)"
      by (simp add: sel)
  qed (use so in \<open>simp_all add: sel\<close>)
  ultimately show ?thesis by (simp add: pool_ok_def)
qed

text \<open>All requests of one submission, in order.\<close>

lemma submittable_enqueue:
  assumes "submittable p now q" and "rq_request_id r \<noteq> rq_request_id q"
    and "rq_session_id r \<noteq> rq_session_id q"
  shows "submittable (enqueue_request now r p) now q"
  using assms by (auto simp: submittable_def idle_session_def enqueue_request_sel split: if_split_asm)

lemma enqueue_all_ok:
  "pool_ok now p \<Longrightarrow> \<forall>r \<in> set rs. submittable p now r \<Longrightarrow> distinct (map rq_request_id rs) \<Longrightarrow>
   distinct (map rq_session_id rs) \<Longrightarrow>
   pool_ok now (fold (enqueue_request now) rs p) \<and>
   pl_current_ns (fold (enqueue_request now) rs p) = pl_current_ns p \<and>
   pool_config (fold (enqueue_request now) rs p) = pool_config p \<and>
   (\<forall>i. dget (pl_requests (fold (enqueue_request now) rs p)) i =
      (case find (\<lambda>r. rq_request_id r = i) rs of
         Some r \<Rightarrow> Some (started now r) | None \<Rightarrow> dget (pl_requests p) i))"
proof (induction rs arbitrary: p)
  case Nil
  then show ?case by simp
next
  case (Cons r rs)
  let ?q = "enqueue_request now r p"
  have ok: "pool_ok now ?q" using Cons.prems by (intro enqueue_request_ok) simp_all
  have rest: "\<forall>x \<in> set rs. submittable ?q now x"
    using Cons.prems by (auto intro!: submittable_enqueue)
  have no: "find (\<lambda>x. rq_request_id x = rq_request_id r) rs = None"
    using Cons.prems(3) by (auto simp: find_None_iff image_iff)
  from Cons.IH [OF ok rest] Cons.prems(3,4)
  show ?case by (auto simp: enqueue_request_sel no split: option.splits)
qed

lemma submittable_evolves:
  assumes ev: "pool_evolves p q" and s: "submittable p now r"
  shows "submittable q now r"
proof -
  have t: "table_evolves (pl_requests p) (pl_requests q)" using ev by (simp add: pool_evolves_def)
  have "dget (pl_requests q) (rq_request_id r) = None"
    using t s unfolding table_evolves_def submittable_def by blast
  moreover have "idle_session q (rq_session_id r)"
    unfolding idle_session_def
  proof (intro allI impI)
    fix i x assume x: "dget (pl_requests q) i = Some x" "rq_session_id x = rq_session_id r"
    then obtain y where y: "dget (pl_requests p) i = Some y"
      using t unfolding table_evolves_def by (metis option.exhaust option.distinct(1))
    then have e: "evolves y x" using t x(1) unfolding table_evolves_def by (metis option.inject)
    then have "rq_session_id y = rq_session_id r" using x(2) by (simp add: evolves_def submitted_part_def)
    then have "rq_state y = COMPLETE" using s y unfolding submittable_def idle_session_def by blast
    with evolves_complete [OF e] show "rq_state x = COMPLETE" .
  qed
  ultimately show ?thesis using s by (simp add: submittable_def)
qed

text \<open>
  A submission that passes its checks is carried out: time advances to \<open>now\<close>, every request is in the
  table and has started, the requests already there have only evolved.
\<close>

lemma submit_many_ok:
  assumes ok: "pool_ok (pl_current_ns p) p" and le: "pl_current_ns p \<le> now"
    and sub: "submission_error p now rs [] [] = None"
  shows "\<exists>p'. submit_many rs now p = (Inr (), p') \<and> pool_ok now p' \<and> pl_current_ns p' = now \<and> settled p' \<and>
    pool_config p' = pool_config p \<and>
    (\<forall>r \<in> set rs. \<exists>r'. dget (pl_requests p') (rq_request_id r) = Some r' \<and> evolves (started now r) r') \<and>
    (\<forall>i r. dget (pl_requests p) i = Some r \<longrightarrow> (\<exists>r'. dget (pl_requests p') i = Some r' \<and> evolves r r'))"
proof -
  note sess = pool_core_parts(10) [OF pool_ok_parts(1) [OF ok]]
  have rs: "\<forall>r \<in> set rs. submittable p now r" "distinct (map rq_request_id rs)" "distinct (map rq_session_id rs)"
    using sub by (simp_all add: submission_error_None [OF sess])
  from advance_ok [OF ok le, of True] obtain p1
    where p1: "advance now True p = (Inr (), p1)" "pool_ok now p1" "pl_current_ns p1 = now"
      "pool_evolves p p1" by blast
  let ?q = "fold (enqueue_request now) rs p1"
  have "\<forall>r \<in> set rs. submittable p1 now r" using rs(1) submittable_evolves [OF p1(4)] by blast
  from enqueue_all_ok [OF p1(2) this rs(2,3)]
  have q: "pool_ok now ?q" "pl_current_ns ?q = now" "pool_config ?q = pool_config p1"
    "\<And>i. dget (pl_requests ?q) i = (case find (\<lambda>r. rq_request_id r = i) rs of
         Some r \<Rightarrow> Some (started now r) | None \<Rightarrow> dget (pl_requests p1) i)" using p1(3) by simp_all
  from flush_scheduling_ok [OF q(1,2)] obtain p2
    where p2: "flush_scheduling now ?q = (Inr (), p2)" "pool_ok now p2" "pool_evolves ?q p2"
      "pl_current_ns p2 = now" "settled p2" by blast
  have t: "table_evolves (pl_requests p) (pl_requests p1)" "table_evolves (pl_requests ?q) (pl_requests p2)"
    using p1(4) p2(3) by (simp_all add: pool_evolves_def)
  have new: "\<exists>r'. dget (pl_requests p2) (rq_request_id r) = Some r' \<and> evolves (started now r) r'"
    if r: "r \<in> set rs" for r
  proof -
    have "find (\<lambda>x. rq_request_id x = rq_request_id r) rs = Some r"
      using rs(2) r by (induction rs) auto
    then have "dget (pl_requests ?q) (rq_request_id r) = Some (started now r)" by (simp add: q(4))
    with t(2) show ?thesis unfolding table_evolves_def by blast
  qed
  have old: "\<exists>r'. dget (pl_requests p2) i = Some r' \<and> evolves r r'" if i: "dget (pl_requests p) i = Some r" for i r
  proof -
    from t(1) i obtain r1 where r1: "dget (pl_requests p1) i = Some r1" "evolves r r1"
      unfolding table_evolves_def by blast
    have "rq_request_id x \<noteq> i" if "x \<in> set rs" for x
      using rs(1) i that by (auto simp: submittable_def)
    then have "find (\<lambda>x. rq_request_id x = i) rs = None" by (auto simp: find_None_iff)
    with r1 have "dget (pl_requests ?q) i = Some r1" by (simp add: q(4))
    with t(2) obtain r2 where "dget (pl_requests p2) i = Some r2" "evolves r1 r2"
      unfolding table_evolves_def by blast
    with r1(2) show ?thesis using evolves_trans by blast
  qed
  have "pool_config p2 = pool_config p"
    using pool_evolves_config [OF p1(4)] pool_evolves_config [OF p2(3)] q(3) by simp
  moreover have "submit_many rs now p = (Inr (), p2)" using sub p1(1) p2(1) by (simp add: submit_many_def)
  ultimately show ?thesis using p2 new old by blast
qed

section \<open>Reporting\<close>

lemma pop_ids_ok:
  "\<forall>i \<in> set ids. \<exists>r. dget (pl_requests p) i = Some r \<Longrightarrow> pop_ids p ids done = (Inr (done @ ids), [])"
  by (induction ids arbitrary: "done") (auto simp: get_request_def)

lemma pool_ok_popped:
  assumes "pool_ok now p"
  shows "pool_ok now (p\<lparr>pl_completed_request_ids := []\<rparr>)"
    and "pool_ok now (p\<lparr>pl_completed_handoff_request_ids := []\<rparr>)"
  using assms
  by (simp_all add: pool_ok_def pool_core_def stages_ok_def inflight_items_def batch_ok_def counts_ok_def
      worker_of_def model_resource_def cong: option.case_cong stage.case_cong)

lemma pop_completed_ok:
  assumes ok: "pool_ok now p"
  shows "pop_completed p = (Inr (pl_completed_request_ids p), p\<lparr>pl_completed_request_ids := []\<rparr>)"
    and "pop_handoff_completed p =
      (Inr (pl_completed_handoff_request_ids p), p\<lparr>pl_completed_handoff_request_ids := []\<rparr>)"
  using pool_core_parts(11) [OF pool_ok_parts(1) [OF ok]]
    pop_ids_ok [of "pl_completed_request_ids p" p "[]"]
    pop_ids_ok [of "pl_completed_handoff_request_ids p" p "[]"]
  by (fastforce simp: counts_ok_def pop_completed_def pop_handoff_completed_def)+

section \<open>Running until idle\<close>

lemma handoff_heap_empty:
  assumes ok: "pool_ok now p" and none: "pl_batch_completion_heap p = []" "pl_handoff_completion_heap p = []"
    and set: "settled p" and r: "dget (pl_requests p) i = Some r"
  shows "rq_state r = COMPLETE" "\<not> stuck p"
proof -
  note c = pool_core_parts [OF pool_ok_parts(1) [OF ok]] and so = stages_okD [OF pool_ok_parts(2) [OF ok]]
  have infl: "pw_inflight (worker_of s p) = None" for s
    using so(8) [of _ s] none(1) by (cases "pw_inflight (worker_of s p)") auto
  have wait: "pw_waiting (worker_of s p) = []" for s
    using set infl [of P] infl [of D] by (cases s) (auto simp: settled_def progressed_def)
  have "i \<notin> set (pw_waiting (pl_p_worker p) @ map bi_request_id (inflight_items P p))"
    "i \<notin> set (pw_waiting (pl_d_worker p) @ map bi_request_id (inflight_items D p))"
    using infl [of P] infl [of D] wait [of P] wait [of D] by (simp_all add: inflight_items_def)
  then have "rq_state r \<noteq> P_PREFILL" "rq_state r \<noteq> D_DECODE"
    using queue_ok_iff [OF c(5) r] queue_ok_iff [OF c(6) r] by blast+
  moreover have "rq_state r \<noteq> HANDOFF"
  proof
    assume "rq_state r = HANDOFF"
    with jobs_ok_handoff [OF c(8) r] obtain j job where "dget (pl_handoff_jobs p) j = Some job" by blast
    with c(9) none(2) show False unfolding heap_ok_def by force
  qed
  moreover have "rq_state r \<noteq> WAITING_P"
    using table_okD [OF c(4) r] by (auto simp: request_ok_def progress_ok_def)
  ultimately show "rq_state r = COMPLETE" by (cases "rq_state r") simp_all
  show "\<not> stuck p" using infl [of P] infl [of D] wait [of P] wait [of D] so(1,2) by (simp add: stuck_def)
qed

lemma idle_not_stuck:
  assumes "pool_ok now p" and "pl_batch_completion_heap p = []" and "settled p"
  shows "\<not> stuck p"
proof -
  note so = stages_okD [OF pool_ok_parts(2) [OF assms(1)]]
  have infl: "pw_inflight (worker_of s p) = None" for s
    using so(8) [of _ s] assms(2) by (cases "pw_inflight (worker_of s p)") auto
  have "pw_waiting (worker_of s p) = []" for s
    using assms(3) infl [of P] infl [of D] by (cases s) (auto simp: settled_def progressed_def)
  from this [of P] this [of D] infl [of P] infl [of D] so(1,2) show ?thesis by (simp add: stuck_def)
qed

lemma settled_popped [simp]: "settled (p\<lparr>pl_completed_request_ids := x\<rparr>) = settled p"
  by (simp add: settled_def progressed_def)

definition quiet :: "pool \<Rightarrow> pool \<Rightarrow> bool" where
  "quiet p p' \<longleftrightarrow> pool_ok (pl_current_ns p') p' \<and> settled p' \<and> pl_batch_completion_heap p' = [] \<and>
     pl_handoff_completion_heap p' = [] \<and> pl_current_ns p \<le> pl_current_ns p' \<and> pool_evolves p p'"

lemma idle_loop_ok:
  "pool_ok (pl_current_ns p) p \<Longrightarrow> settled p \<Longrightarrow> table_work p \<le> int fuel \<Longrightarrow>
   \<exists>ids p'. idle_loop fuel completed p = (Inr (completed @ ids), p') \<and> quiet p p' \<and>
     (\<forall>i \<in> set ids. \<exists>r. dget (pl_requests p') i = Some r \<and> rq_state r = COMPLETE)"
proof (induction fuel arbitrary: p completed)
  case 0
  note ok = "0.prems"(1)
  have "next_raw_event_ns p \<noteq> (Some e, p)" for e
  proof
    assume "next_raw_event_ns p = (Some e, p)"
    from event_step_ok [OF ok this, of False] obtain p2 where "pool_ok e p2" "table_work p2 < table_work p"
      by auto
    with table_work_nonneg [of e p2] "0.prems"(3) show False by simp
  qed
  with next_raw_event_ok [OF ok] have "next_raw_event_ns p = (None, p)"
    "pl_batch_completion_heap p = []" "pl_handoff_completion_heap p = []" by (metis option.exhaust)+
  then show ?case
    using "0.prems" by (intro exI [of _ "[]"] exI [of _ p])
      (simp add: idle_loop.simps [of 0] next_event_ns_def quiet_def)
next
  case (Suc fuel)
  note ok = Suc.prems(1)
  from next_raw_event_ok [OF ok] obtain m where m: "next_raw_event_ns p = (m, p)"
    "m = None \<longleftrightarrow> pl_batch_completion_heap p = [] \<and> pl_handoff_completion_heap p = []"
    "\<And>e. m = Some e \<Longrightarrow> pl_current_ns p \<le> e" by blast
  show ?case
  proof (cases m)
    case None
    then show ?thesis
      using Suc.prems m by (intro exI [of _ "[]"] exI [of _ p])
        (simp add: idle_loop.simps [of "Suc fuel"] next_event_ns_def quiet_def)
  next
    case (Some e)
    from advance_ok [OF ok m(3) [OF Some], of False] obtain p1
      where p1: "advance e False p = (Inr (), p1)" "pool_ok e p1" "pl_current_ns p1 = e" "pool_evolves p p1"
        "settled p1" "table_work p1 < table_work p" using m(1) Some Suc.prems(2) by auto
    let ?ids = "pl_completed_request_ids p1" and ?q = "p1\<lparr>pl_completed_request_ids := []\<rparr>"
    have ids: "\<forall>i \<in> set ?ids. \<exists>r. dget (pl_requests p1) i = Some r \<and> rq_state r = COMPLETE"
      using pool_core_parts(11) [OF pool_ok_parts(1) [OF p1(2)]] by (simp add: counts_ok_def)
    have q: "pool_ok (pl_current_ns ?q) ?q" "settled ?q" "table_work ?q \<le> int fuel" "pool_evolves p ?q"
      using pool_ok_popped(1) [OF p1(2)] p1(3-6) Suc.prems(3) by (simp_all add: pool_evolves_def)
    from Suc.IH [OF q(1-3)] obtain ids p2
      where p2: "idle_loop fuel (completed @ ?ids) ?q = (Inr ((completed @ ?ids) @ ids), p2)" "quiet ?q p2"
        "\<forall>i \<in> set ids. \<exists>r. dget (pl_requests p2) i = Some r \<and> rq_state r = COMPLETE" by blast
    have "idle_loop (Suc fuel) completed p = (Inr (completed @ (?ids @ ids)), p2)"
      using m(1) Some p1(1) p2(1) pop_completed_ok(1) [OF p1(2)]
      by (subst idle_loop.simps) (simp add: next_event_ns_def)
    moreover have "quiet p p2"
      using p2(2) pool_evolves_trans [OF q(4)] p1(3) m(3) [OF Some] by (simp add: quiet_def)
    moreover have "\<exists>r. dget (pl_requests p2) i = Some r \<and> rq_state r = COMPLETE" if i: "i \<in> set ?ids" for i
    proof -
      from ids i obtain r where r: "dget (pl_requests ?q) i = Some r" "rq_state r = COMPLETE" by auto
      have "table_evolves (pl_requests ?q) (pl_requests p2)" using p2(2) by (simp add: quiet_def pool_evolves_def)
      with r evolves_complete show ?thesis unfolding table_evolves_def by blast
    qed
    ultimately show ?thesis using p2(3) by (intro exI [of _ "?ids @ ids"] exI [of _ p2]) auto
  qed
qed

lemma run_until_idle_ok:
  assumes ok: "pool_ok (pl_current_ns p) p" and set: "settled p"
  shows "\<exists>ids p'. run_until_idle p = (Inr ids, p') \<and> quiet p p' \<and>
    (\<forall>i \<in> set ids. \<exists>r. dget (pl_requests p') i = Some r \<and> rq_state r = COMPLETE)"
proof -
  let ?c = "pl_completed_request_ids p" and ?q = "p\<lparr>pl_completed_request_ids := []\<rparr>"
  have q: "pool_ok (pl_current_ns ?q) ?q" "settled ?q" "table_work ?q \<le> int (pool_work ?q)"
    using pool_ok_popped(1) [OF ok] set by (simp_all add: pool_work_def)
  from idle_loop_ok [OF q] obtain ids p2
    where p2: "idle_loop (pool_work ?q) ?c ?q = (Inr (?c @ ids), p2)" "quiet ?q p2"
      "\<forall>i \<in> set ids. \<exists>r. dget (pl_requests p2) i = Some r \<and> rq_state r = COMPLETE" by blast
  have ok2: "pool_ok (pl_current_ns p2) p2" "\<not> stuck p2"
    using p2(2) idle_not_stuck by (auto simp: quiet_def)
  have "run_until_idle p = (Inr (?c @ ids), p2)"
    using pop_completed_ok(1) [OF ok] p2(1) ok2 run_check_ok by (simp add: run_until_idle_def)
  moreover have "quiet p p2" using p2(2) by (simp add: quiet_def pool_evolves_def)
  moreover have "\<exists>r. dget (pl_requests p2) i = Some r \<and> rq_state r = COMPLETE" if i: "i \<in> set ?c" for i
  proof -
    from pool_core_parts(11) [OF pool_ok_parts(1) [OF ok]] i
    obtain r where r: "dget (pl_requests p) i = Some r" "rq_state r = COMPLETE" by (auto simp: counts_ok_def)
    have "table_evolves (pl_requests p) (pl_requests p2)" using p2(2) by (simp add: quiet_def pool_evolves_def)
    with r evolves_complete show ?thesis unfolding table_evolves_def by blast
  qed
  ultimately show ?thesis using p2(3) by (intro exI [of _ "?c @ ids"] exI [of _ p2]) auto
qed

section \<open>Reachable pools\<close>

text \<open>
  A pool is constructed over a calendar on which nothing has booked its model groups, and then used:
  submissions, advances of time, flushes, reports, runs until idle.  Only a successful call leads to a
  new state here; that no call of the list fails is part of the theorems.
\<close>

inductive pool_reach :: "pool \<Rightarrow> bool" where
  reach_new: "new_pool hw pv n cal budget seqs ps ds chunk overlap v retain = Inr p \<Longrightarrow> provider_ok pv \<Longrightarrow>
    \<forall>s. free_at (pl_calendar p) (model_resource p s) \<le> 0 \<Longrightarrow> pool_reach p"
| reach_submit: "pool_reach p \<Longrightarrow> submit_many rs now p = (Inr (), p') \<Longrightarrow> pool_reach p'"
| reach_advance: "pool_reach p \<Longrightarrow> advance now False p = (Inr (), p') \<Longrightarrow> pool_reach p'"
| reach_pop: "pool_reach p \<Longrightarrow> pop_completed p = (Inr ids, p') \<Longrightarrow> pool_reach p'"
| reach_pop_handoff: "pool_reach p \<Longrightarrow> pop_handoff_completed p = (Inr ids, p') \<Longrightarrow> pool_reach p'"
| reach_idle: "pool_reach p \<Longrightarrow> run_until_idle p = (Inr ids, p') \<Longrightarrow> pool_reach p'"

lemma submit_many_Inr:
  assumes "submit_many rs now p = (Inr (), p')"
  shows "submission_error p now rs [] [] = None" "pl_current_ns p \<le> now"
  using assms by (auto simp: submit_many_def advance_def andthen_def split: option.splits if_splits)

lemma pool_reach_ok: "pool_reach p \<Longrightarrow> pool_ok (pl_current_ns p) p \<and> settled p"
proof (induction rule: pool_reach.induct)
  case (reach_new hw pv n cal budget seqs ps ds chunk overlap v retain p)
  then show ?case using new_pool_ok(1-3) [OF reach_new(1,2)] by simp
next
  case (reach_submit p rs now p')
  from submit_many_Inr [OF reach_submit(2)] reach_submit(2,3) submit_many_ok [of p now rs]
  show ?case by auto
next
  case (reach_advance p now p')
  have "pl_current_ns p \<le> now"
    using reach_advance(2) by (auto simp: advance_def split: if_splits)
  with reach_advance(2,3) advance_ok [of p now False] show ?case by auto
next
  case (reach_pop p ids p')
  then show ?case using pop_completed_ok(1) [of "pl_current_ns p" p] pool_ok_popped(1) by auto
next
  case (reach_pop_handoff p ids p')
  then show ?case using pop_completed_ok(2) [of "pl_current_ns p" p] pool_ok_popped(2)
    by (auto simp: settled_def progressed_def)
next
  case (reach_idle p ids p')
  then show ?case using run_until_idle_ok [of p] by (auto simp: quiet_def)
qed

end
