(* ===== verification/PD_Pool_Props.thy ===== *)
theory PD_Pool_Props
  imports PD_Pool_Runs
begin

text \<open>
  What the serving pool guarantees, stated over the pools a caller can reach, with a concrete pool
  and two concrete requests as witness.
\<close>

section \<open>A concrete pool\<close>

definition demo_pool :: pool where
  "demo_pool = projr (new_pool default_hardware unit_provider 0 None 64 8 None None 32
     ''layerwise'' True True)"

definition demo_requests :: "request list" where
  "demo_requests = [new_request 1 ''a'' 0 40 3 0 0 True [], new_request 2 ''b'' 0 10 1 4 0 False []]"

lemma demo_pool_new:
  "new_pool default_hardware unit_provider 0 None 64 8 None None 32 ''layerwise'' True True = Inr demo_pool"
  using default_hw_ok by (simp add: demo_pool_def new_pool_def new_pool_error_def hw_ok_def)

lemma demo_pool_sel:
  "pl_requests demo_pool = []" "pl_current_request_by_session demo_pool = []"
  "pl_current_ns demo_pool = 0" "pl_calendar demo_pool = new_calendar True"
  "pl_max_num_batched_tokens demo_pool = 64" "pl_p_max_num_seqs demo_pool = 8"
  "pl_max_prefill_chunk_tokens demo_pool = 32" "pl_p_worker demo_pool = new_worker"
  "pl_hardware demo_pool = default_hardware" "pl_provider demo_pool = unit_provider"
  "pl_handoff_overlap demo_pool = ''layerwise''"
  using default_hw_ok by (simp_all add: demo_pool_def new_pool_def new_pool_error_def hw_ok_def)

lemma demo_pool_free: "free_at (pl_calendar demo_pool) r \<le> 0"
  by (simp add: demo_pool_sel new_calendar_def free_at_def)

lemma demo_pool_reach: "pool_reach demo_pool"
  using reach_new [OF demo_pool_new unit_provider_ok] demo_pool_free by blast

lemma demo_requests_accepted: "submission_error demo_pool 5 demo_requests [] [] = None"
  by (simp add: demo_requests_def demo_pool_sel new_request_def validate_request_def pristine_def)

definition demo_running :: pool where
  "demo_running = snd (submit_many demo_requests 5 demo_pool)"

lemma demo_submitted: "submit_many demo_requests 5 demo_pool = (Inr (), demo_running)"
proof -
  have "pool_ok (pl_current_ns demo_pool) demo_pool" using pool_reach_ok [OF demo_pool_reach] by blast
  from submit_many_ok [OF this _ demo_requests_accepted] show ?thesis
    by (auto simp: demo_running_def demo_pool_sel)
qed

lemma demo_running_reach: "pool_reach demo_running"
  by (rule reach_submit [OF demo_pool_reach demo_submitted])

lemma demo_running_request:
  "\<exists>r. dget (pl_requests demo_running) 1 = Some r \<and> rq_session_id r = ''a'' \<and> rq_output_tokens r = 3 \<and>
     rq_arrival_ns r = 0 \<and> rq_request_id r = 1"
proof -
  have "pool_ok (pl_current_ns demo_pool) demo_pool" using pool_reach_ok [OF demo_pool_reach] by blast
  from submit_many_ok [OF this _ demo_requests_accepted] demo_submitted
  have "\<forall>r \<in> set demo_requests.
      \<exists>r'. dget (pl_requests demo_running) (rq_request_id r) = Some r' \<and> evolves (started 5 r) r'"
    by (auto simp: demo_pool_sel)
  then obtain r' where "dget (pl_requests demo_running) 1 = Some r'"
    "evolves (started 5 (new_request 1 ''a'' 0 40 3 0 0 True [])) r'"
    by (force simp: demo_requests_def new_request_def)
  then show ?thesis by (simp add: evolves_def submitted_part_def started_def new_request_def)
qed

section \<open>Properties\<close>

text \<open>C1: The pool's run-time self check never fails: in every reachable pool \<open>assert_invariants\<close> passes,
  that is, every live request is in exactly one queue or batch, completed ones are in none, progress
  counters stay in range, decoding only happens after the handoff, and the timestamps it looks at
  agree.\<close>
theorem pool_self_check_never_fails:
  assumes "pool_reach p"
  shows "pool_check p = None"
  using pool_check_ok pool_reach_ok [OF assms] by blast

theorem pool_self_check_never_fails_witness: "pool_check demo_running = None"
  by (rule pool_self_check_never_fails [OF demo_running_reach])





text \<open>C11: Submission is exact: at a time not in the past \<open>submit_many\<close> accepts a list of requests
  exactly when each is valid, has arrived, has a fresh id and a session without live request, and the
  ids and sessions of the list are distinct.  Accepted requests are in the table afterwards, started;
  those already there only evolve.  A rejected list changes nothing.\<close>
theorem pool_submission_exact:
  assumes "pool_reach p" and "pl_current_ns p \<le> now"
  shows "if (\<forall>r \<in> set rs. submittable p now r) \<and> distinct (map rq_request_id rs) \<and>
        distinct (map rq_session_id rs)
    then \<exists>p'. submit_many rs now p = (Inr (), p') \<and> pl_current_ns p' = now \<and>
      (\<forall>r \<in> set rs. \<exists>r'. dget (pl_requests p') (rq_request_id r) = Some r' \<and> evolves (started now r) r') \<and>
      (\<forall>i r. dget (pl_requests p) i = Some r \<longrightarrow> (\<exists>r'. dget (pl_requests p') i = Some r' \<and> evolves r r'))
    else \<exists>e. submit_many rs now p = (Inl e, p)"
proof -
  have ok: "pool_ok (pl_current_ns p) p" using pool_reach_ok [OF assms(1)] by blast
  note e = submission_error_None [OF pool_core_parts(10) [OF pool_ok_parts(1) [OF ok]], of now rs "[]" "[]"]
  show ?thesis
  proof (cases "submission_error p now rs [] []")
    case None
    from submit_many_ok [OF ok assms(2) None] show ?thesis using e None by auto
  next
    case (Some x)
    then have "submit_many rs now p = (Inl x, p)" by (simp add: submit_many_def)
    with e Some show ?thesis by auto
  qed
qed

theorem pool_submission_exact_witness:
  "\<exists>p'. submit_many demo_requests 5 demo_pool = (Inr (), p') \<and> pl_current_ns p' = 5"
proof -
  have "\<forall>r \<in> set demo_requests. submittable demo_pool 5 r"
    by (simp add: demo_requests_def submittable_def idle_session_def demo_pool_sel new_request_def
        validate_request_def pristine_def)
  moreover have "distinct (map rq_request_id demo_requests)" "distinct (map rq_session_id demo_requests)"
    by (simp_all add: demo_requests_def new_request_def)
  ultimately show ?thesis
    using pool_submission_exact [OF demo_pool_reach, of 5 demo_requests] by (auto simp: demo_pool_sel)
qed

text \<open>C12: The recorded times of a request are causal: in every reachable pool the arrival is not after
  the first token, the first token not after the handoff's completion nor after the request's
  completion, the token times are ordered, those after the first are not before the completion of the
  handoff, and nothing recorded as done lies in the future.\<close>
theorem pool_timestamps_causal:
  assumes "pool_reach p" and "dget (pl_requests p) i = Some r"
  shows "rq_request_id r = i \<and> sorted (rq_token_completion_ns r) \<and>
    (\<forall>t \<in> set (rq_token_completion_ns r). rq_arrival_ns r \<le> t \<and> t \<le> pl_current_ns p) \<and>
    (\<forall>t. rq_first_token_ns r = Some t \<longrightarrow> rq_arrival_ns r \<le> t \<and> t \<le> pl_current_ns p \<and>
       (\<forall>h. rq_handoff_completion_ns r = Some h \<longrightarrow> t \<le> h) \<and>
       (\<forall>c. rq_completion_ns r = Some c \<longrightarrow> t \<le> c \<and> c \<le> pl_current_ns p)) \<and>
    (\<forall>h. rq_handoff_completion_ns r = Some h \<longrightarrow>
       (\<forall>t \<in> set (tl (rq_token_completion_ns r)). h \<le> t)) \<and>
    (rq_state r = D_DECODE \<longrightarrow> (\<exists>h. rq_handoff_completion_ns r = Some h \<and> h \<le> pl_current_ns p))"
proof -
  have ok: "pool_ok (pl_current_ns p) p" using pool_reach_ok [OF assms(1)] by blast
  note t = table_okD [OF pool_core_parts(4) [OF pool_ok_parts(1) [OF ok]] assms(2)]
  have "\<exists>h. rq_handoff_completion_ns r = Some h \<and> h \<le> pl_current_ns p" if "rq_state r = D_DECODE"
    using d_decode_facts(6) [OF conjunct2 [OF t] that] .
  with t show ?thesis by (auto simp: request_ok_def clock_ok_def)
qed

theorem pool_timestamps_causal_witness:
  "\<exists>r. dget (pl_requests demo_running) 1 = Some r \<and> rq_request_id r = 1 \<and>
     sorted (rq_token_completion_ns r)"
  using demo_running_request pool_timestamps_causal [OF demo_running_reach] by blast

text \<open>The demo requests before the first batch is launched.\<close>

definition demo_queued :: pool where
  "demo_queued = fold (enqueue_request 0) demo_requests demo_pool"

lemma demo_queued_ok: "pool_ok 0 demo_queued"
proof -
  have "pool_ok 0 demo_pool" using pool_reach_ok [OF demo_pool_reach] by (simp add: demo_pool_sel)
  moreover have "\<forall>r \<in> set demo_requests. submittable demo_pool 0 r"
    by (simp add: demo_requests_def submittable_def idle_session_def demo_pool_sel new_request_def
        validate_request_def pristine_def)
  ultimately show ?thesis
    unfolding demo_queued_def using enqueue_all_ok [of 0 demo_pool demo_requests]
    by (simp add: demo_requests_def new_request_def)
qed

lemma demo_queued_sel:
  "pw_waiting (pl_p_worker demo_queued) = [1, 2]" "pw_inflight (pl_p_worker demo_queued) = None"
  "pl_max_num_batched_tokens demo_queued = 64"
  by (simp_all add: demo_queued_def demo_requests_def enqueue_request_def set_request_def push_waiting_def
      Let_def new_request_def demo_pool_sel new_worker_def)



text \<open>C14: Prefill batches are first come, first served and fill the budget: when the prefill worker is
  idle, \<open>select_p_batch\<close> takes a non-empty prefix of the queue in order, each request contributes a
  positive chunk no larger than the chunk limit and its remaining prompt, the batch stays within the
  token and sequence budgets, requests are left only when one of the two is used up, and the shape is
  one the latency model accepts.\<close>
theorem prefill_batches_fifo_within_budget:
  assumes "pool_ok now p" and "pw_inflight (pl_p_worker p) = None" and "pw_waiting (pl_p_worker p) \<noteq> []"
  shows "\<exists>its ks rest p'. select_p_batch p = (Inr (Some (its, p_shape its ks)), p') \<and> its \<noteq> [] \<and>
    pw_waiting (pl_p_worker p) = map bi_request_id its @ rest \<and> pw_waiting (pl_p_worker p') = rest \<and>
    (\<forall>it \<in> set its. \<exists>r. dget (pl_requests p) (bi_request_id it) = Some r \<and> 0 < bi_query_tokens it \<and>
       bi_query_tokens it \<le> min (pl_max_prefill_chunk_tokens p) (p_remaining_tokens r)) \<and>
    sum_list (map bi_query_tokens its) \<le> pl_max_num_batched_tokens p \<and>
    int (length its) \<le> pl_p_max_num_seqs p \<and>
    (rest \<noteq> [] \<longrightarrow> sum_list (map bi_query_tokens its) = pl_max_num_batched_tokens p \<or>
       int (length its) = pl_p_max_num_seqs p) \<and>
    validate_shape (p_shape its ks) = None"
proof -
  from select_p_ok [OF assms] obtain its ks rest
    where s: "select_p_batch p = (Inr (Some (its, p_shape its ks)), with_waiting P rest p)"
    "its \<noteq> []" "pw_waiting (pl_p_worker p) = map bi_request_id its @ rest"
    "list_all2 (p_pick p) its ks" "validate_shape (p_shape its ks) = None"
    "sum_list (map bi_query_tokens its) \<le> pl_max_num_batched_tokens p"
    "int (length its) \<le> pl_p_max_num_seqs p"
    "rest \<noteq> [] \<longrightarrow> sum_list (map bi_query_tokens its) = pl_max_num_batched_tokens p \<or>
       int (length its) = pl_p_max_num_seqs p" by blast
  have "\<exists>k. p_pick p it k" if "it \<in> set its" for it
    using s(4) that by (metis in_set_conv_nth list_all2_nthD)
  then have "\<exists>r. dget (pl_requests p) (bi_request_id it) = Some r \<and> 0 < bi_query_tokens it \<and>
       bi_query_tokens it \<le> min (pl_max_prefill_chunk_tokens p) (p_remaining_tokens r)"
    if "it \<in> set its" for it
    using that unfolding p_pick_def by (meson min.boundedI)
  moreover have "pw_waiting (pl_p_worker (with_waiting P rest p)) = rest" by (simp add: with_waiting_def)
  ultimately show ?thesis using s by blast
qed

theorem prefill_batches_fifo_within_budget_witness:
  "\<exists>(its :: batch_item list) rest. [1, 2] = map bi_request_id its @ rest \<and> its \<noteq> [] \<and>
     sum_list (map bi_query_tokens its) \<le> 64"
proof -
  have "pw_waiting (pl_p_worker demo_queued) \<noteq> []" by (simp add: demo_queued_sel)
  from prefill_batches_fifo_within_budget [OF demo_queued_ok demo_queued_sel(2) this]
  show ?thesis
  proof (elim exE conjE)
    fix its :: "batch_item list" and ks rest p'
    assume "its \<noteq> []" "pw_waiting (pl_p_worker demo_queued) = map bi_request_id its @ rest"
      "sum_list (map bi_query_tokens its) \<le> pl_max_num_batched_tokens demo_queued"
    then show ?thesis
      unfolding demo_queued_sel by (intro exI [of _ its] exI [of _ rest]) simp
  qed
qed


definition demo_batch :: serving_batch where
  "demo_batch = \<lparr>sb_batch_id = 1, sb_stage = P, sb_ready_ns = 0, sb_restore_gate_ns = 0, sb_start_ns = 0,
     sb_completion_ns = 9, sb_items = [], sb_shape = two_prompts,
     sb_latency = projr (batch_latency default_hardware unit_provider two_prompts)\<rparr>"


end
