(* ===== verification/Tier_Resources.thy ===== *)
theory Tier_Resources
  imports PD_Latency Resource_Calendar
begin

text \<open>
  \<^verbatim>\<open>serving/core/gpu_pd_tier_resources.py\<close>: the transfer stages of one P4D4 node between the HBM
  of its two TP4 groups, CPU memory and the SSDs.  A stage is a gang reservation: every resource
  it occupies is held for the whole transfer.  The seconds of a stage are float arithmetic
  (\<^verbatim>\<open>Binary64\<close>); \<open>hardware.validate\<close> in the constructor makes every bandwidth positive, so no
  division by zero is reachable.
\<close>

section \<open>Stages\<close>

record resource_demand =
  rd_resource :: string
  rd_service_ns :: int
  rd_byte_count :: int

record tier_stage =
  ts_kind :: string
  ts_direction :: string
  ts_token_count :: int
  ts_block_rounded :: bool
  ts_bytes_per_rank :: int
  ts_aggregate_bytes :: int
  ts_latency_ns :: int
  ts_demands :: "resource_demand list"
  ts_partition_index :: int
  ts_partition_count :: int

definition stage_resources :: "tier_stage \<Rightarrow> string list" where
  "stage_resources st = map rd_resource (ts_demands st)"

text \<open>The dict comprehension: a repeated resource name overwrites the earlier entry.\<close>

definition calendar_demands :: "tier_stage \<Rightarrow> demands" where
  "calendar_demands st =
     foldl (\<lambda>d x. dput (rd_resource x) (rd_service_ns x, rd_byte_count x) d) [] (ts_demands st)"

definition stage_reserve ::
  "tier_stage \<Rightarrow> calendar \<Rightarrow> int \<Rightarrow> int \<Rightarrow> string \<Rightarrow> (int \<times> int, calendar) outcome" where
  "stage_reserve st cal ready_ns job_id namespace =
     reserve_parallel cal ready_ns job_id (ts_kind st) (calendar_demands st) namespace"

section \<open>Node resources\<close>

record tier_resources =
  tr_hardware :: hardware
  tr_node_id :: int

definition new_tier_resources :: "hardware \<Rightarrow> int \<Rightarrow> exn + tier_resources" where
  "new_tier_resources hw node_id =
     (case validate_hardware hw of
        Some e \<Rightarrow> Inl e
      | None \<Rightarrow>
          if node_id < 0 then Inl (ValueError ''node_id must be a non-negative integer'')
          else Inr \<lparr>tr_hardware = hw, tr_node_id = node_id\<rparr>)"

definition hbm_kv_capacity_bytes_per_rank :: "tier_resources \<Rightarrow> exn + int" where
  "hbm_kv_capacity_bytes_per_rank tr = usable_hbm_bytes_per_rank (tr_hardware tr)"

definition cpu_capacity_bytes :: "tier_resources \<Rightarrow> int" where
  "cpu_capacity_bytes tr = cpu_memory_capacity_bytes (tr_hardware tr)"

definition tr_ssd_capacity_bytes :: "tier_resources \<Rightarrow> int" where
  "tr_ssd_capacity_bytes tr = ssd_capacity_bytes (tr_hardware tr)"

definition max_hbm_kv_blocks_per_rank :: "tier_resources \<Rightarrow> exn + int" where
  "max_hbm_kv_blocks_per_rank tr =
     ebind (kv_capacity_bytes_per_rank (tr_hardware tr) (block_size_tokens (tr_hardware tr)))
       (\<lambda>block_bytes. ebind (hbm_kv_capacity_bytes_per_rank tr)
         (\<lambda>capacity. Inr (capacity div block_bytes)))"

definition max_hbm_kv_tokens_per_rank :: "tier_resources \<Rightarrow> exn + int" where
  "max_hbm_kv_tokens_per_rank tr =
     ebind (max_hbm_kv_blocks_per_rank tr)
       (\<lambda>blocks. Inr (blocks * block_size_tokens (tr_hardware tr)))"

definition validate_tokens :: "int \<Rightarrow> exn option" where
  "validate_tokens token_count =
     (if token_count < 0
      then Some (ValueError ''transfer token_count must be a non-negative integer'') else None)"

definition tier_bytes :: "tier_resources \<Rightarrow> int \<Rightarrow> bool \<Rightarrow> exn + int \<times> int" where
  "tier_bytes tr token_count block_rounded =
     (case validate_tokens token_count of
        Some e \<Rightarrow> Inl e
      | None \<Rightarrow>
          ebind (if block_rounded then kv_capacity_bytes_per_rank (tr_hardware tr) token_count
                 else ebind (kv_bytes_per_token_per_rank (tr_hardware tr))
                        (\<lambda>per_token. Inr (token_count * per_token)))
            (\<lambda>per_rank. Inr (per_rank, per_rank * tp_size (tr_hardware tr))))"

definition transfer_ns :: "rat \<Rightarrow> exn + int" where
  "transfer_ns seconds =
     (if seconds < 0 then Inl (ValueError ''transfer latency must be finite/non-negative'')
      else Inr (ceil_ns seconds))"

definition gpu_root :: "string \<Rightarrow> exn + int" where
  "gpu_root gpu_role =
     (if gpu_role = ''p'' then Inr 0
      else if gpu_role = ''d'' then Inr 1
      else Inl (ValueError (''gpu_role must be '' @ py_repr ''p'' @ '' or '' @ py_repr ''d'')))"

definition validate_byte_partition :: "int \<Rightarrow> int \<Rightarrow> int \<Rightarrow> exn option" where
  "validate_byte_partition bytes_per_rank partition_index partition_count =
     (if bytes_per_rank < 0
      then Some (ValueError ''bytes_per_rank must be a non-negative integer'')
      else if partition_count \<le> 0
      then Some (ValueError ''partition_count must be a positive integer'')
      else if \<not> (0 \<le> partition_index \<and> partition_index < partition_count)
      then Some (ValueError ''partition_index must be in 0..partition_count-1'')
      else None)"

text \<open>\<^verbatim>\<open>direction.replace("_", "-")\<close>\<close>

definition dashed :: "string \<Rightarrow> string" where
  "dashed = map (\<lambda>c. if c = CHR ''_'' then CHR ''-'' else c)"

definition node_name :: "tier_resources \<Rightarrow> string" where
  "node_name tr = ''gpu-node-'' @ show_int (tr_node_id tr)"

text \<open>The latency expressions, shared by the token and the byte variants of each stage.\<close>

definition gpu_cpu_ns :: "hardware \<Rightarrow> int \<Rightarrow> int \<Rightarrow> exn + int" where
  "gpu_cpu_ns hw per_rank aggregate =
     (if aggregate = 0 then Inr 0
      else transfer_ns
        (fadd (fmul (cpu_transfer_latency_us hw) e_minus6)
          (max (max (fdiv (fint per_rank) (fmul (pcie_bandwidth_gbps_per_gpu hw) e9))
                    (fdiv (fint aggregate) (fmul (pcie_root_bandwidth_gbps hw) e9)))
               (fdiv (fint aggregate) (fmul (cpu_memory_bandwidth_gbps hw) e9)))))"

definition ssd_ns :: "hardware \<Rightarrow> string \<Rightarrow> int \<Rightarrow> exn + int" where
  "ssd_ns hw direction aggregate =
     (if aggregate = 0 then Inr 0
      else if direction = ''ssd_to_cpu'' then transfer_ns
        (fadd (fmul (ssd_read_latency_us hw) e_minus6)
          (max (fdiv (fint aggregate) (fmul (ssd_read_bandwidth_gbps hw) e9))
               (fdiv (fint aggregate) (fmul (cpu_memory_bandwidth_gbps hw) e9))))
      else transfer_ns
        (fadd (fmul (ssd_write_latency_us hw) e_minus6)
          (max (fdiv (fint aggregate) (fmul (ssd_write_bandwidth_gbps hw) e9))
               (fdiv (fint aggregate) (fmul (cpu_memory_bandwidth_gbps hw) e9)))))"

definition gpu_cpu_demands :: "tier_resources \<Rightarrow> string \<Rightarrow> int \<Rightarrow> int \<Rightarrow> int \<Rightarrow> int \<Rightarrow> resource_demand list" where
  "gpu_cpu_demands tr gpu_role root_id latency per_rank aggregate =
     map (\<lambda>rank. \<lparr>rd_resource = node_name tr @ ''-'' @ gpu_role @ ''-pcie-rank-'' @ show_int rank,
                  rd_service_ns = latency, rd_byte_count = per_rank\<rparr>)
       [0..tp_size (tr_hardware tr) - 1]
     @ [\<lparr>rd_resource = node_name tr @ ''-pcie-root-'' @ show_int root_id,
          rd_service_ns = latency, rd_byte_count = aggregate\<rparr>,
        \<lparr>rd_resource = node_name tr @ ''-cpu-dram'',
          rd_service_ns = latency, rd_byte_count = aggregate\<rparr>]"

definition ssd_demands :: "tier_resources \<Rightarrow> string \<Rightarrow> int \<Rightarrow> int \<Rightarrow> resource_demand list" where
  "ssd_demands tr direction latency aggregate =
     [\<lparr>rd_resource = node_name tr @ ''-''
          @ (if direction = ''ssd_to_cpu'' then ''ssd-read'' else ''ssd-write''),
        rd_service_ns = latency, rd_byte_count = aggregate\<rparr>,
      \<lparr>rd_resource = node_name tr @ ''-cpu-dram'',
        rd_service_ns = latency, rd_byte_count = aggregate\<rparr>]"

definition gpu_cpu_bytes_stage ::
  "tier_resources \<Rightarrow> int \<Rightarrow> int \<Rightarrow> string \<Rightarrow> string \<Rightarrow> bool \<Rightarrow> int \<Rightarrow> int \<Rightarrow> exn + tier_stage" where
  "gpu_cpu_bytes_stage tr logical_token_count bytes_per_rank gpu_role direction block_rounded
     partition_index partition_count =
     (case validate_tokens logical_token_count of Some e \<Rightarrow> Inl e | None \<Rightarrow>
      (case validate_byte_partition bytes_per_rank partition_index partition_count of
        Some e \<Rightarrow> Inl e | None \<Rightarrow>
      if direction \<notin> {''cpu_to_gpu'', ''gpu_to_cpu''}
      then Inl (ValueError ''GPU/CPU direction must be cpu_to_gpu or gpu_to_cpu'')
      else ebind (gpu_root gpu_role) (\<lambda>root_id.
        let aggregate = bytes_per_rank * tp_size (tr_hardware tr) in
        ebind (gpu_cpu_ns (tr_hardware tr) bytes_per_rank aggregate) (\<lambda>latency.
          Inr \<lparr>ts_kind = gpu_role @ ''-'' @ direction, ts_direction = direction,
               ts_token_count = logical_token_count, ts_block_rounded = block_rounded,
               ts_bytes_per_rank = bytes_per_rank, ts_aggregate_bytes = aggregate,
               ts_latency_ns = latency,
               ts_demands = gpu_cpu_demands tr gpu_role root_id latency bytes_per_rank aggregate,
               ts_partition_index = partition_index,
               ts_partition_count = partition_count\<rparr>))))"

definition ssd_bytes_stage ::
  "tier_resources \<Rightarrow> int \<Rightarrow> int \<Rightarrow> string \<Rightarrow> int \<Rightarrow> int \<Rightarrow> exn + tier_stage" where
  "ssd_bytes_stage tr logical_token_count bytes_per_rank direction partition_index partition_count =
     (case validate_tokens logical_token_count of Some e \<Rightarrow> Inl e | None \<Rightarrow>
      (case validate_byte_partition bytes_per_rank partition_index partition_count of
        Some e \<Rightarrow> Inl e | None \<Rightarrow>
      if direction \<notin> {''ssd_to_cpu'', ''cpu_to_ssd''}
      then Inl (ValueError ''SSD direction must be ssd_to_cpu or cpu_to_ssd'')
      else
        let aggregate = bytes_per_rank * tp_size (tr_hardware tr) in
        ebind (ssd_ns (tr_hardware tr) direction aggregate) (\<lambda>latency.
          Inr \<lparr>ts_kind = dashed direction, ts_direction = direction,
               ts_token_count = logical_token_count, ts_block_rounded = True,
               ts_bytes_per_rank = bytes_per_rank, ts_aggregate_bytes = aggregate,
               ts_latency_ns = latency,
               ts_demands = ssd_demands tr direction latency aggregate,
               ts_partition_index = partition_index,
               ts_partition_count = partition_count\<rparr>)))"

definition gpu_cpu_stage ::
  "tier_resources \<Rightarrow> int \<Rightarrow> string \<Rightarrow> string \<Rightarrow> bool \<Rightarrow> exn + tier_stage" where
  "gpu_cpu_stage tr token_count gpu_role direction block_rounded =
     (if direction \<notin> {''cpu_to_gpu'', ''gpu_to_cpu''}
      then Inl (ValueError ''GPU/CPU direction must be cpu_to_gpu or gpu_to_cpu'')
      else ebind (gpu_root gpu_role) (\<lambda>root_id.
        ebind (tier_bytes tr token_count block_rounded) (\<lambda>(per_rank, aggregate).
        ebind (gpu_cpu_ns (tr_hardware tr) per_rank aggregate) (\<lambda>latency.
          Inr \<lparr>ts_kind = gpu_role @ ''-'' @ direction, ts_direction = direction,
               ts_token_count = token_count, ts_block_rounded = block_rounded,
               ts_bytes_per_rank = per_rank, ts_aggregate_bytes = aggregate,
               ts_latency_ns = latency,
               ts_demands = gpu_cpu_demands tr gpu_role root_id latency per_rank aggregate,
               ts_partition_index = 0, ts_partition_count = 1\<rparr>))))"

definition ssd_stage :: "tier_resources \<Rightarrow> int \<Rightarrow> string \<Rightarrow> exn + tier_stage" where
  "ssd_stage tr token_count direction =
     (if direction \<notin> {''ssd_to_cpu'', ''cpu_to_ssd''}
      then Inl (ValueError ''SSD direction must be ssd_to_cpu or cpu_to_ssd'')
      else ebind (tier_bytes tr token_count True) (\<lambda>(per_rank, aggregate).
        ebind (ssd_ns (tr_hardware tr) direction aggregate) (\<lambda>latency.
          Inr \<lparr>ts_kind = dashed direction, ts_direction = direction,
               ts_token_count = token_count, ts_block_rounded = True,
               ts_bytes_per_rank = per_rank, ts_aggregate_bytes = aggregate,
               ts_latency_ns = latency,
               ts_demands = ssd_demands tr direction latency aggregate,
               ts_partition_index = 0, ts_partition_count = 1\<rparr>)))"

definition peer_stage :: "tier_resources \<Rightarrow> int \<Rightarrow> string \<Rightarrow> bool \<Rightarrow> exn + tier_stage" where
  "peer_stage tr token_count direction block_rounded =
     (if direction \<notin> {''p_to_d'', ''d_to_p''}
      then Inl (ValueError ''peer direction must be p_to_d or d_to_p'')
      else ebind (tier_bytes tr token_count block_rounded) (\<lambda>(per_rank, aggregate).
        ebind (if per_rank = 0 then Inr 0
               else transfer_ns
                 (fadd (fmul (pd_peer_fixed_latency_us (tr_hardware tr)) e_minus6)
                   (fdiv (fint per_rank)
                     (fmul (nvlink_bandwidth_gbps_per_gpu (tr_hardware tr)) e9)))) (\<lambda>latency.
          Inr \<lparr>ts_kind = dashed direction, ts_direction = direction,
               ts_token_count = token_count, ts_block_rounded = block_rounded,
               ts_bytes_per_rank = per_rank, ts_aggregate_bytes = aggregate,
               ts_latency_ns = latency,
               ts_demands =
                 map (\<lambda>rank. \<lparr>rd_resource = node_name tr @ ''-pd-peer-rank-'' @ show_int rank,
                              rd_service_ns = latency, rd_byte_count = per_rank\<rparr>)
                   [0..tp_size (tr_hardware tr) - 1]
                 @ [\<lparr>rd_resource = node_name tr @ ''-pd-fabric'',
                      rd_service_ns = latency, rd_byte_count = aggregate\<rparr>],
               ts_partition_index = 0, ts_partition_count = 1\<rparr>)))"

section \<open>Well-formed stages\<close>

text \<open>
  A well-formed stage names each resource once, holds all of them for the same time, and takes
  time exactly when it moves bytes.
\<close>

definition stage_wf :: "tier_stage \<Rightarrow> bool" where
  "stage_wf st \<longleftrightarrow>
     ts_demands st \<noteq> [] \<and> distinct (stage_resources st) \<and>
     (\<forall>d \<in> set (ts_demands st). rd_resource d \<noteq> [] \<and> rd_service_ns d = ts_latency_ns st \<and>
        0 \<le> rd_byte_count d) \<and>
     0 \<le> ts_latency_ns st \<and> 0 \<le> ts_aggregate_bytes st \<and>
     (ts_latency_ns st = 0 \<longleftrightarrow> ts_aggregate_bytes st = 0)"

lemma show_int_inject: "0 \<le> i \<Longrightarrow> 0 \<le> j \<Longrightarrow> show_int i = show_int j \<longleftrightarrow> i = j"
  by (auto simp: show_int_def)

lemma foldl_dput_distinct:
  "distinct (map f xs @ map fst d) \<Longrightarrow>
     foldl (\<lambda>d x. dput (f x) (g x) d) d xs = d @ map (\<lambda>x. (f x, g x)) xs"
proof (induction xs arbitrary: d)
  case Nil
  then show ?case by simp
next
  case (Cons x xs)
  have "dput (f x) (g x) d = d @ [(f x, g x)]"
    using Cons.prems by (induction d) auto
  with Cons.IH [of "d @ [(f x, g x)]"] Cons.prems show ?case by auto
qed

lemma calendar_demands_eq:
  "distinct (stage_resources st) \<Longrightarrow>
     calendar_demands st = map (\<lambda>x. (rd_resource x, (rd_service_ns x, rd_byte_count x))) (ts_demands st)"
  by (simp add: calendar_demands_def stage_resources_def foldl_dput_distinct)

lemma max_list_const: "xs \<noteq> [] \<Longrightarrow> (\<And>x. x \<in> set xs \<Longrightarrow> x = c) \<Longrightarrow> max_list xs = c"
  using max_list_in [of xs] by blast

text \<open>Reserving a well-formed stage never raises and takes exactly its latency.\<close>

lemma stage_reserve_ok:
  assumes "stage_wf st" and "0 \<le> ready" and "ns \<noteq> []"
  shows "\<exists>start cal'. stage_reserve st cal ready j ns = (Inr (start, start + ts_latency_ns st), cal') \<and>
    ready \<le> start"
proof -
  note wf = assms(1) [unfolded stage_wf_def]
  let ?ds = "calendar_demands st"
  have eq: "?ds = map (\<lambda>x. (rd_resource x, (rd_service_ns x, rd_byte_count x))) (ts_demands st)"
    using wf by (intro calendar_demands_eq) simp
  have v: "reserve_valid ready ?ds ns"
    using assms(2,3) wf by (auto simp: reserve_valid_def eq list_all_iff)
  obtain en cal' where r: "reserve_parallel cal ready j (ts_kind st) ?ds ns =
      (Inr (reserve_start cal ready ?ds, en), cal')"
    using reserve_parallel_valid [OF v] by blast
  have ne: "?ds \<noteq> []" using wf by (simp add: eq)
  have "max_list (map (fst \<circ> snd) ?ds) = ts_latency_ns st"
    using wf ne by (intro max_list_const) (auto simp: eq)
  with reserve_end [OF r ne] r reserve_start_ge [of ready cal ?ds] show ?thesis
    unfolding stage_reserve_def by auto
qed

lemma stage_reserve_Inr:
  assumes "stage_wf st" and "0 \<le> ready" and "ns \<noteq> []"
    and "stage_reserve st cal ready j ns = (Inr (start, en), cal')"
  shows "ready \<le> start" and "en = start + ts_latency_ns st"
  using stage_reserve_ok [OF assms(1,2,3), of cal j] assms(4) by auto

section \<open>Every stage of a valid node is well-formed\<close>

definition tr_ok :: "tier_resources \<Rightarrow> bool" where
  "tr_ok tr \<longleftrightarrow> hw_ok (tr_hardware tr) \<and> 0 \<le> tr_node_id tr"

lemma new_tier_resources_ok: "new_tier_resources hw n = Inr tr \<longleftrightarrow>
    hw_ok hw \<and> 0 \<le> n \<and> tr = \<lparr>tr_hardware = hw, tr_node_id = n\<rparr>"
  by (auto simp: new_tier_resources_def hw_ok_def split: option.splits)

definition gpu_cpu_seconds :: "hardware \<Rightarrow> int \<Rightarrow> int \<Rightarrow> rat" where
  "gpu_cpu_seconds hw per_rank aggregate =
     fadd (fmul (cpu_transfer_latency_us hw) e_minus6)
       (max (max (fdiv (fint per_rank) (fmul (pcie_bandwidth_gbps_per_gpu hw) e9))
                 (fdiv (fint aggregate) (fmul (pcie_root_bandwidth_gbps hw) e9)))
            (fdiv (fint aggregate) (fmul (cpu_memory_bandwidth_gbps hw) e9)))"

definition ssd_seconds :: "hardware \<Rightarrow> string \<Rightarrow> int \<Rightarrow> rat" where
  "ssd_seconds hw direction aggregate =
     (if direction = ''ssd_to_cpu''
      then fadd (fmul (ssd_read_latency_us hw) e_minus6)
             (max (fdiv (fint aggregate) (fmul (ssd_read_bandwidth_gbps hw) e9))
                  (fdiv (fint aggregate) (fmul (cpu_memory_bandwidth_gbps hw) e9)))
      else fadd (fmul (ssd_write_latency_us hw) e_minus6)
             (max (fdiv (fint aggregate) (fmul (ssd_write_bandwidth_gbps hw) e9))
                  (fdiv (fint aggregate) (fmul (cpu_memory_bandwidth_gbps hw) e9))))"

lemma max_mono2: "(a::rat) \<le> b \<Longrightarrow> c \<le> d \<Longrightarrow> max a c \<le> max b d"
  by (auto simp: max_def)

lemma fdiv_fint_pos: "0 < n \<Longrightarrow> 0 < bw \<Longrightarrow> 0 < fdiv (fint n) (fmul bw e9)"
  by (auto simp: fdiv_def fint_def intro!: b64_pos divide_pos_pos float_intros)

lemma fadd_pos: "0 \<le> x \<Longrightarrow> 0 < y \<Longrightarrow> 0 < fadd x y"
  by (simp add: fadd_def b64_pos)

lemma gpu_cpu_seconds_mono:
  "hw_ok hw \<Longrightarrow> m \<le> m' \<Longrightarrow> a \<le> a' \<Longrightarrow> gpu_cpu_seconds hw m a \<le> gpu_cpu_seconds hw m' a'"
  using hw_ok_facts(9,10,11) [of hw]
  by (auto simp: gpu_cpu_seconds_def intro!: float_intros max_mono2)

lemma ssd_seconds_mono: "hw_ok hw \<Longrightarrow> a \<le> a' \<Longrightarrow> ssd_seconds hw d a \<le> ssd_seconds hw d a'"
  using hw_ok_facts(11,13,14) [of hw]
  by (auto simp: ssd_seconds_def intro!: float_intros max_mono2)

lemma gpu_cpu_seconds_pos:
  assumes "hw_ok hw" and "0 < a" and "0 \<le> m"
  shows "0 < gpu_cpu_seconds hw m a"
  unfolding gpu_cpu_seconds_def
proof (rule fadd_pos)
  show "0 \<le> fmul (cpu_transfer_latency_us hw) e_minus6"
    using hw_ok_facts(12) [OF assms(1)] by (auto intro!: float_intros)
  show "0 < max (max (fdiv (fint m) (fmul (pcie_bandwidth_gbps_per_gpu hw) e9))
                 (fdiv (fint a) (fmul (pcie_root_bandwidth_gbps hw) e9)))
            (fdiv (fint a) (fmul (cpu_memory_bandwidth_gbps hw) e9))"
    using fdiv_fint_pos [OF assms(2) hw_ok_facts(11) [OF assms(1)]] by (simp add: less_max_iff_disj)
qed

lemma ssd_seconds_pos: "hw_ok hw \<Longrightarrow> 0 < a \<Longrightarrow> 0 < ssd_seconds hw d a"
  using hw_ok_facts(15,16) [of hw] fdiv_fint_pos [OF _ hw_ok_facts(11), of a hw]
  by (auto simp: ssd_seconds_def less_max_iff_disj intro!: fadd_pos float_intros)

lemma gpu_cpu_ns_ok:
  assumes "hw_ok hw" and "0 \<le> a" and "0 \<le> m"
  shows "gpu_cpu_ns hw m a = Inr (if a = 0 then 0 else ceil_ns (gpu_cpu_seconds hw m a))"
proof (cases "a = 0")
  case False
  with assms(2) have "0 < gpu_cpu_seconds hw m a" by (intro gpu_cpu_seconds_pos [OF assms(1) _ assms(3)]) simp
  with False show ?thesis by (simp add: gpu_cpu_ns_def transfer_ns_def gpu_cpu_seconds_def [symmetric])
qed (simp add: gpu_cpu_ns_def)

lemma ssd_ns_ok:
  assumes "hw_ok hw" and "0 \<le> a"
  shows "ssd_ns hw d a = Inr (if a = 0 then 0 else ceil_ns (ssd_seconds hw d a))"
proof (cases "a = 0")
  case False
  with assms(2) have "0 < ssd_seconds hw d a" by (intro ssd_seconds_pos [OF assms(1)]) simp
  with False show ?thesis
    by (cases "d = ''ssd_to_cpu''") (simp_all add: ssd_ns_def transfer_ns_def ssd_seconds_def)
qed (simp add: ssd_ns_def)

lemma tier_bytes_ok:
  assumes "tr_ok tr" and "0 \<le> n"
  shows "tier_bytes tr n rounded =
    (let b = (if rounded then kv_capacity (tr_hardware tr) n else n * kv_per_token (tr_hardware tr))
     in Inr (b, b * tp_size (tr_hardware tr)))"
  using assms by (simp add: tier_bytes_def tr_ok_def validate_tokens_def kv_capacity_ok
      kv_bytes_per_token_ok Let_def)

definition stage_bytes :: "hardware \<Rightarrow> int \<Rightarrow> bool \<Rightarrow> int" where
  "stage_bytes hw n rounded = (if rounded then kv_capacity hw n else n * kv_per_token hw)"

lemma stage_bytes_nonneg: "hw_ok hw \<Longrightarrow> 0 \<le> n \<Longrightarrow> 0 \<le> stage_bytes hw n r"
  using kv_capacity_nonneg [of hw n] kv_per_token_pos [of hw] by (simp add: stage_bytes_def)

lemma stage_bytes_pos: "hw_ok hw \<Longrightarrow> 0 < n \<Longrightarrow> 0 < stage_bytes hw n r"
  using kv_capacity_pos [of hw n] kv_per_token_pos [of hw] by (simp add: stage_bytes_def)

lemma stage_bytes_0: "hw_ok hw \<Longrightarrow> stage_bytes hw 0 r = 0"
  using kv_capacity_0 [of hw] by (simp add: stage_bytes_def)

lemma stage_bytes_mono: "hw_ok hw \<Longrightarrow> m \<le> n \<Longrightarrow> stage_bytes hw m r \<le> stage_bytes hw n r"
  using kv_capacity_mono [of hw m n] kv_per_token_pos [of hw]
  by (simp add: stage_bytes_def mult_right_mono)

lemma node_name_nonempty [simp]: "node_name tr \<noteq> []"
  by (simp add: node_name_def)

lemma gpu_cpu_demands_names:
  "map rd_resource (gpu_cpu_demands tr g rt l b a) =
     map (\<lambda>rank. node_name tr @ ''-'' @ g @ ''-pcie-rank-'' @ show_int rank) [0..tp_size (tr_hardware tr) - 1]
     @ [node_name tr @ ''-pcie-root-'' @ show_int rt, node_name tr @ ''-cpu-dram'']"
  by (simp add: gpu_cpu_demands_def comp_def)

lemma gpu_cpu_demands_distinct:
  "g = ''p'' \<or> g = ''d'' \<Longrightarrow> distinct (map rd_resource (gpu_cpu_demands tr g rt l b a))"
  by (auto simp: gpu_cpu_demands_names distinct_map inj_on_def show_int_inject)

text \<open>The stage that the two CPU-to-GPU builders return.\<close>

definition the_gpu_cpu_stage ::
  "tier_resources \<Rightarrow> int \<Rightarrow> int \<Rightarrow> string \<Rightarrow> string \<Rightarrow> bool \<Rightarrow> int \<Rightarrow> int \<Rightarrow> tier_stage" where
  "the_gpu_cpu_stage tr n b g direction rounded i k =
     (let a = b * tp_size (tr_hardware tr);
          l = (if a = 0 then 0 else ceil_ns (gpu_cpu_seconds (tr_hardware tr) b a))
      in \<lparr>ts_kind = g @ ''-'' @ direction, ts_direction = direction, ts_token_count = n,
          ts_block_rounded = rounded, ts_bytes_per_rank = b, ts_aggregate_bytes = a,
          ts_latency_ns = l,
          ts_demands = gpu_cpu_demands tr g (if g = ''p'' then 0 else 1) l b a,
          ts_partition_index = i, ts_partition_count = k\<rparr>)"

definition the_ssd_stage ::
  "tier_resources \<Rightarrow> int \<Rightarrow> int \<Rightarrow> string \<Rightarrow> int \<Rightarrow> int \<Rightarrow> tier_stage" where
  "the_ssd_stage tr n b direction i k =
     (let a = b * tp_size (tr_hardware tr);
          l = (if a = 0 then 0 else ceil_ns (ssd_seconds (tr_hardware tr) direction a))
      in \<lparr>ts_kind = dashed direction, ts_direction = direction, ts_token_count = n,
          ts_block_rounded = True, ts_bytes_per_rank = b, ts_aggregate_bytes = a,
          ts_latency_ns = l, ts_demands = ssd_demands tr direction l a,
          ts_partition_index = i, ts_partition_count = k\<rparr>)"

lemma gpu_root_ok: "g = ''p'' \<or> g = ''d'' \<Longrightarrow> gpu_root g = Inr (if g = ''p'' then 0 else 1)"
  by (auto simp: gpu_root_def)

lemma gpu_cpu_stage_ok:
  assumes "tr_ok tr" and "0 \<le> n" and "g = ''p'' \<or> g = ''d''"
    and "direction = ''cpu_to_gpu'' \<or> direction = ''gpu_to_cpu''"
  shows "gpu_cpu_stage tr n g direction rounded =
    Inr (the_gpu_cpu_stage tr n (stage_bytes (tr_hardware tr) n rounded) g direction rounded 0 1)"
proof -
  from assms(1) have hw: "hw_ok (tr_hardware tr)" by (simp add: tr_ok_def)
  note b = stage_bytes_nonneg [OF hw assms(2), of rounded]
  have a: "0 \<le> stage_bytes (tr_hardware tr) n rounded * tp_size (tr_hardware tr)"
    using b hw_ok_facts(1) [OF hw] by simp
  show ?thesis
    using assms(3,4) gpu_cpu_ns_ok [OF hw a b]
    by (simp add: gpu_cpu_stage_def gpu_root_ok tier_bytes_ok [OF assms(1,2)]
        the_gpu_cpu_stage_def Let_def stage_bytes_def [symmetric])
qed

lemma gpu_cpu_bytes_stage_ok:
  assumes "tr_ok tr" and "0 \<le> n" and "0 \<le> b" and "0 \<le> i" and "i < k" and "g = ''p'' \<or> g = ''d''"
    and "direction = ''cpu_to_gpu'' \<or> direction = ''gpu_to_cpu''"
  shows "gpu_cpu_bytes_stage tr n b g direction rounded i k =
    Inr (the_gpu_cpu_stage tr n b g direction rounded i k)"
proof -
  from assms(1) have hw: "hw_ok (tr_hardware tr)" by (simp add: tr_ok_def)
  have a: "0 \<le> b * tp_size (tr_hardware tr)" using assms(3) hw_ok_facts(1) [OF hw] by simp
  show ?thesis
    using assms(2-) gpu_cpu_ns_ok [OF hw a assms(3)]
    by (simp add: gpu_cpu_bytes_stage_def validate_tokens_def validate_byte_partition_def gpu_root_ok
        the_gpu_cpu_stage_def Let_def)
qed

lemma ssd_stage_ok:
  assumes "tr_ok tr" and "0 \<le> n" and "direction = ''ssd_to_cpu'' \<or> direction = ''cpu_to_ssd''"
  shows "ssd_stage tr n direction =
    Inr (the_ssd_stage tr n (kv_capacity (tr_hardware tr) n) direction 0 1)"
proof -
  from assms(1) have hw: "hw_ok (tr_hardware tr)" by (simp add: tr_ok_def)
  have a: "0 \<le> kv_capacity (tr_hardware tr) n * tp_size (tr_hardware tr)"
    using kv_capacity_nonneg [OF hw assms(2)] hw_ok_facts(1) [OF hw] by simp
  show ?thesis
    using assms(3) ssd_ns_ok [OF hw a]
    by (simp add: ssd_stage_def tier_bytes_ok [OF assms(1,2)] the_ssd_stage_def Let_def)
qed

lemma ssd_bytes_stage_ok:
  assumes "tr_ok tr" and "0 \<le> n" and "0 \<le> b" and "0 \<le> i" and "i < k"
    and "direction = ''ssd_to_cpu'' \<or> direction = ''cpu_to_ssd''"
  shows "ssd_bytes_stage tr n b direction i k = Inr (the_ssd_stage tr n b direction i k)"
proof -
  from assms(1) have hw: "hw_ok (tr_hardware tr)" by (simp add: tr_ok_def)
  have a: "0 \<le> b * tp_size (tr_hardware tr)" using assms(3) hw_ok_facts(1) [OF hw] by simp
  show ?thesis
    using assms(2-) ssd_ns_ok [OF hw a]
    by (simp add: ssd_bytes_stage_def validate_tokens_def validate_byte_partition_def
        the_ssd_stage_def Let_def)
qed

lemma the_gpu_cpu_stage_wf:
  assumes "tr_ok tr" and "0 \<le> b" and "g = ''p'' \<or> g = ''d''"
  shows "stage_wf (the_gpu_cpu_stage tr n b g direction rounded i k)"
proof -
  from assms(1) have hw: "hw_ok (tr_hardware tr)" by (simp add: tr_ok_def)
  let ?a = "b * tp_size (tr_hardware tr)"
  have a: "0 \<le> ?a" using assms(2) hw_ok_facts(1) [OF hw] by simp
  have l: "0 < ceil_ns (gpu_cpu_seconds (tr_hardware tr) b ?a)" if "?a \<noteq> 0"
    by (intro ceil_ns_pos gpu_cpu_seconds_pos [OF hw _ assms(2)]) (use that a in linarith)
  have "distinct (map rd_resource (gpu_cpu_demands tr g r l' b ?a))" for r l'
    by (rule gpu_cpu_demands_distinct [OF assms(3)])
  then show ?thesis
    using l a assms(2)
    by (auto simp: stage_wf_def the_gpu_cpu_stage_def stage_resources_def Let_def gpu_cpu_demands_def)
qed

lemma the_ssd_stage_wf:
  assumes "tr_ok tr" and "0 \<le> b"
  shows "stage_wf (the_ssd_stage tr n b direction i k)"
proof -
  from assms(1) have hw: "hw_ok (tr_hardware tr)" by (simp add: tr_ok_def)
  let ?a = "b * tp_size (tr_hardware tr)"
  have a: "0 \<le> ?a" using assms(2) hw_ok_facts(1) [OF hw] by simp
  have l: "0 < ceil_ns (ssd_seconds (tr_hardware tr) direction ?a)" if "?a \<noteq> 0"
    by (intro ceil_ns_pos ssd_seconds_pos [OF hw]) (use that a in linarith)
  then show ?thesis
    using a by (auto simp: stage_wf_def the_ssd_stage_def stage_resources_def Let_def ssd_demands_def)
qed

definition the_peer_stage :: "tier_resources \<Rightarrow> int \<Rightarrow> string \<Rightarrow> bool \<Rightarrow> tier_stage" where
  "the_peer_stage tr n direction rounded =
     (let b = stage_bytes (tr_hardware tr) n rounded; a = b * tp_size (tr_hardware tr);
          l = (if b = 0 then 0 else ceil_ns (handoff_seconds (tr_hardware tr) b))
      in \<lparr>ts_kind = dashed direction, ts_direction = direction, ts_token_count = n,
          ts_block_rounded = rounded, ts_bytes_per_rank = b, ts_aggregate_bytes = a,
          ts_latency_ns = l,
          ts_demands =
            map (\<lambda>rank. \<lparr>rd_resource = node_name tr @ ''-pd-peer-rank-'' @ show_int rank,
                         rd_service_ns = l, rd_byte_count = b\<rparr>) [0..tp_size (tr_hardware tr) - 1]
            @ [\<lparr>rd_resource = node_name tr @ ''-pd-fabric'', rd_service_ns = l, rd_byte_count = a\<rparr>],
          ts_partition_index = 0, ts_partition_count = 1\<rparr>)"

lemma peer_stage_ok:
  assumes "tr_ok tr" and "0 \<le> n" and "direction = ''p_to_d'' \<or> direction = ''d_to_p''"
  shows "peer_stage tr n direction rounded = Inr (the_peer_stage tr n direction rounded)"
proof -
  from assms(1) have hw: "hw_ok (tr_hardware tr)" by (simp add: tr_ok_def)
  let ?b = "stage_bytes (tr_hardware tr) n rounded"
  have "\<not> handoff_seconds (tr_hardware tr) ?b < 0" if "?b \<noteq> 0"
    using that stage_bytes_nonneg [OF hw assms(2), of rounded]
      handoff_seconds_pos [OF hw, of ?b] by linarith
  then show ?thesis
    using assms(3)
    by (auto simp: peer_stage_def tier_bytes_ok [OF assms(1,2)] the_peer_stage_def Let_def
        transfer_ns_def handoff_seconds_def [symmetric] stage_bytes_def [symmetric])
qed

lemma the_peer_stage_wf:
  assumes "tr_ok tr" and "0 \<le> n"
  shows "stage_wf (the_peer_stage tr n direction rounded)"
proof -
  from assms(1) have hw: "hw_ok (tr_hardware tr)" by (simp add: tr_ok_def)
  let ?b = "stage_bytes (tr_hardware tr) n rounded"
  have b: "0 \<le> ?b" by (rule stage_bytes_nonneg [OF hw assms(2)])
  have tp: "0 < tp_size (tr_hardware tr)" by (rule hw_ok_facts(1) [OF hw])
  have l: "0 < ceil_ns (handoff_seconds (tr_hardware tr) ?b)" if "?b \<noteq> 0"
    using that b by (intro ceil_ns_pos handoff_seconds_pos [OF hw]) simp
  have d: "distinct (map (\<lambda>rank. node_name tr @ ''-pd-peer-rank-'' @ show_int rank)
      [0..tp_size (tr_hardware tr) - 1] @ [node_name tr @ ''-pd-fabric''])"
    by (auto simp: distinct_map inj_on_def show_int_inject)
  have "distinct (stage_resources (the_peer_stage tr n direction rounded))"
    using d by (simp add: the_peer_stage_def stage_resources_def Let_def comp_def)
  then show ?thesis
    using l b tp by (auto simp: stage_wf_def the_peer_stage_def Let_def)
qed

section \<open>Properties\<close>

abbreviation default_tr :: tier_resources where
  "default_tr \<equiv> \<lparr>tr_hardware = default_hardware, tr_node_id = 0\<rparr>"

lemma default_tr_new: "new_tier_resources default_hardware 0 = Inr default_tr"
  by (simp add: new_tier_resources_ok default_hw_ok)

lemma default_tp: "tp_size default_hardware = 4"
  by (simp add: default_hardware_def)

lemma new_tr_ok: "new_tier_resources hw n = Inr tr \<Longrightarrow> tr_ok tr"
  by (simp add: new_tier_resources_ok tr_ok_def)

lemma lane_bytes:
  "0 \<le> t \<Longrightarrow> sum_list (map rd_byte_count (take (nat t)
     (map (\<lambda>rank. \<lparr>rd_resource = f rank, rd_service_ns = l, rd_byte_count = b\<rparr>) [0..t - 1] @ ys))) = b * t"
  by (simp add: comp_def sum_list_triv)

text \<open>C30: A transfer between CPU memory and a GPU group on a constructed node never raises, moves
  the KV of the tokens exactly once over the rank lanes (their bytes add up to the aggregate that
  the PCIe root and the CPU DRAM carry), takes no time exactly when there is nothing to move, and
  its reservation holds every resource for exactly the stage's latency.\<close>
theorem gpu_cpu_transfer_moves_every_byte:
  assumes "new_tier_resources hw node = Inr tr" and "0 \<le> n" and "role = ''p'' \<or> role = ''d''"
    and "direction = ''cpu_to_gpu'' \<or> direction = ''gpu_to_cpu''"
    and "0 \<le> ready" and "ns \<noteq> []"
  shows "\<exists>st. gpu_cpu_stage tr n role direction rounded = Inr st \<and>
    ts_bytes_per_rank st = (if rounded then kv_capacity hw n else n * kv_per_token hw) \<and>
    ts_aggregate_bytes st = ts_bytes_per_rank st * tp_size hw \<and>
    sum_list (map rd_byte_count (take (nat (tp_size hw)) (ts_demands st))) = ts_aggregate_bytes st \<and>
    map rd_byte_count (drop (nat (tp_size hw)) (ts_demands st)) =
      [ts_aggregate_bytes st, ts_aggregate_bytes st] \<and>
    (ts_latency_ns st = 0 \<longleftrightarrow> n = 0) \<and>
    (\<exists>start cal'. stage_reserve st cal ready job ns = (Inr (start, start + ts_latency_ns st), cal') \<and>
      ready \<le> start \<and> (\<forall>r \<in> set (stage_resources st). free_at cal' r = start + ts_latency_ns st))"
proof -
  have tr: "tr_ok tr" by (rule new_tr_ok [OF assms(1)])
  have hw: "hw_ok hw" and trh: "tr_hardware tr = hw" using assms(1) by (auto simp: new_tier_resources_ok)
  define st where "st = the_gpu_cpu_stage tr n (stage_bytes hw n rounded) role direction rounded 0 1"
  have eq: "gpu_cpu_stage tr n role direction rounded = Inr st"
    using gpu_cpu_stage_ok [OF tr assms(2,3,4)] by (simp add: st_def trh)
  have tp: "0 < tp_size hw" by (rule hw_ok_facts(1) [OF hw])
  have b: "0 \<le> stage_bytes hw n rounded" by (rule stage_bytes_nonneg [OF hw assms(2)])
  have wf: "stage_wf st" unfolding st_def by (rule the_gpu_cpu_stage_wf [OF tr b assms(3)])
  have b0: "stage_bytes hw n rounded = 0 \<longleftrightarrow> n = 0"
    using stage_bytes_pos [OF hw, of n rounded] stage_bytes_0 [OF hw, of rounded] assms(2) by fastforce
  have bytes: "ts_bytes_per_rank st = stage_bytes hw n rounded"
    "ts_aggregate_bytes st = stage_bytes hw n rounded * tp_size hw"
    "sum_list (map rd_byte_count (take (nat (tp_size hw)) (ts_demands st))) = ts_aggregate_bytes st"
    "map rd_byte_count (drop (nat (tp_size hw)) (ts_demands st)) =
      [ts_aggregate_bytes st, ts_aggregate_bytes st]"
    using tp by (simp_all add: st_def the_gpu_cpu_stage_def trh Let_def gpu_cpu_demands_def lane_bytes comp_def sum_list_triv)
  have lat: "ts_latency_ns st = 0 \<longleftrightarrow> n = 0"
    using wf bytes(2) b0 tp by (simp add: stage_wf_def)
  obtain start cal' where r: "stage_reserve st cal ready job ns = (Inr (start, start + ts_latency_ns st), cal')"
    "ready \<le> start" using stage_reserve_ok [OF wf assms(5,6), of cal job] by blast
  have dist: "distinct (stage_resources st)" using wf by (simp add: stage_wf_def)
  note ds = calendar_demands_eq [OF dist]
  have "free_at cal' x = start + ts_latency_ns st" if "x \<in> set (stage_resources st)" for x
  proof -
    from that obtain d where d: "d \<in> set (ts_demands st)" "x = rd_resource d"
      by (auto simp: stage_resources_def)
    have dw: "dwf (calendar_demands st)" using dist by (simp add: ds stage_resources_def comp_def)
    have "(x, (rd_service_ns d, rd_byte_count d)) \<in> set (calendar_demands st)"
      using d by (auto simp: ds)
    then have "dget (calendar_demands st) x = Some (rd_service_ns d, rd_byte_count d)"
      by (simp add: dget_Some_iff [OF dw])
    moreover have "rd_service_ns d = ts_latency_ns st" using wf d by (simp add: stage_wf_def)
    ultimately show ?thesis
      using reserve_free [OF r(1) [unfolded stage_reserve_def] dw, of x] by simp
  qed
  with r have "\<exists>start cal'. stage_reserve st cal ready job ns = (Inr (start, start + ts_latency_ns st), cal') \<and>
      ready \<le> start \<and> (\<forall>r \<in> set (stage_resources st). free_at cal' r = start + ts_latency_ns st)"
    by blast
  moreover have "ts_aggregate_bytes st = ts_bytes_per_rank st * tp_size hw" by (simp add: bytes(1,2))
  moreover have "ts_bytes_per_rank st = (if rounded then kv_capacity hw n else n * kv_per_token hw)"
    by (simp add: bytes(1) stage_bytes_def)
  ultimately show ?thesis using bytes(3,4) lat by (intro exI [of _ st] conjI eq)
qed

theorem gpu_cpu_transfer_moves_every_byte_witness:
  "\<exists>st. gpu_cpu_stage default_tr 100 ''d'' ''gpu_to_cpu'' True = Inr st \<and>
     ts_bytes_per_rank st = 2752512 \<and> ts_aggregate_bytes st = 11010048 \<and> ts_latency_ns st \<noteq> 0"
  using gpu_cpu_transfer_moves_every_byte [OF default_tr_new, of 100 "''d''" "''gpu_to_cpu''" 0 "''n''"
      True "new_calendar True" 1]
  by (auto simp: kv_capacity_default default_tp)


lemma default_tr_ok: "tr_ok default_tr"
  by (rule new_tr_ok [OF default_tr_new])




text \<open>The token capacity a node reports is exact: that many tokens fit the HBM of a rank and one
  block more does not.\<close>
theorem hbm_token_capacity_exact:
  assumes "new_tier_resources hw node = Inr tr"
  shows "\<exists>cap n. hbm_kv_capacity_bytes_per_rank tr = Inr cap \<and> max_hbm_kv_tokens_per_rank tr = Inr n \<and>
    0 \<le> n \<and> kv_capacity hw n \<le> cap \<and> cap < kv_capacity hw (n + block_size_tokens hw)"
proof -
  have hw: "hw_ok hw" and trh: "tr_hardware tr = hw" using assms(1) by (auto simp: new_tier_resources_ok)
  obtain cap where cap: "usable_hbm_bytes_per_rank hw = Inr cap" "0 < cap"
    using usable_hbm_pos [OF hw] by blast
  let ?b = "block_size_tokens hw" and ?k = "kv_per_token hw"
  have b: "0 < ?b" by (rule hw_ok_facts(2) [OF hw])
  have k: "0 < ?k" by (rule kv_per_token_pos [OF hw])
  have whole: "kv_capacity hw (j * ?b) = j * (?b * ?k)" for j
  proof -
    have "(j * ?b + (?b - 1)) div ?b = j + (?b - 1) div ?b" using b by simp
    also have "(?b - 1) div ?b = 0" using b by (simp add: div_pos_pos_trivial)
    finally have "(j * ?b + ?b - 1) div ?b = j" by (simp add: algebra_simps)
    then show ?thesis by (simp add: kv_capacity_def)
  qed
  let ?blocks = "cap div (?b * ?k)"
  have one: "kv_capacity hw ?b = ?b * ?k" using whole [of 1] by simp
  have n: "max_hbm_kv_tokens_per_rank tr = Inr (?blocks * ?b)"
    using b one cap(1) by (simp add: max_hbm_kv_tokens_per_rank_def max_hbm_kv_blocks_per_rank_def trh
        kv_capacity_ok [OF hw] hbm_kv_capacity_bytes_per_rank_def)
  have bk: "0 < ?b * ?k" using b k by simp
  have lo: "?blocks * (?b * ?k) \<le> cap" and hi: "cap < (?blocks + 1) * (?b * ?k)"
    using div_mult_mod_eq [of cap "?b * ?k"] pos_mod_sign [OF bk, of cap] pos_mod_bound [OF bk, of cap]
    by (simp_all only: distrib_right)
  have "kv_capacity hw (?blocks * ?b + ?b) = (?blocks + 1) * (?b * ?k)"
    using whole [of "?blocks + 1"] by (simp add: algebra_simps)
  with n lo hi whole [of ?blocks] cap bk b show ?thesis
    by (auto simp: hbm_kv_capacity_bytes_per_rank_def trh pos_imp_zdiv_nonneg_iff)
qed

theorem hbm_token_capacity_exact_witness:
  "\<exists>cap n. hbm_kv_capacity_bytes_per_rank default_tr = Inr cap \<and>
     max_hbm_kv_tokens_per_rank default_tr = Inr n \<and> kv_capacity default_hardware n \<le> cap"
  using hbm_token_capacity_exact [OF default_tr_new] by auto

end
