(* ===== verification/Byte_Ledger.thy ===== *)
theory Byte_Ledger
  imports Prelude
begin

text \<open>
  \<^verbatim>\<open>SharedByteLedger\<close> of \<^verbatim>\<open>serving/core/gpu_pd_tier_lifecycle.py\<close>: exact byte ownership of one
  memory.  An owner is a name, its claim a positive number of bytes, and the claims together
  never exceed the capacity.  The theory holds the ledger's state and operations, the interface
  \<open>byte_claims\<close> that its clients rely on, and its interpretation on the ledger.
\<close>

section \<open>State and operations\<close>

record byte_ledger =
  lg_name :: string
  lg_capacity_bytes :: int
  lg_owners :: "(string, int) dict"
  lg_peak_used_bytes :: int

definition new_ledger :: "string \<Rightarrow> int \<Rightarrow> exn + byte_ledger" where
  "new_ledger name capacity =
     (if name = [] then Inl (ValueError ''ledger name must be non-empty'')
      else if capacity \<le> 0 then Inl (ValueError ''ledger capacity_bytes must be positive'')
      else Inr \<lparr>lg_name = name, lg_capacity_bytes = capacity, lg_owners = [],
                lg_peak_used_bytes = 0\<rparr>)"

definition used_bytes :: "byte_ledger \<Rightarrow> int" where
  "used_bytes l = dsum (lg_owners l)"

definition free_bytes :: "byte_ledger \<Rightarrow> int" where
  "free_bytes l = lg_capacity_bytes l - used_bytes l"

definition owner_bytes :: "byte_ledger \<Rightarrow> string \<Rightarrow> int" where
  "owner_bytes l owner = dget_or (lg_owners l) owner 0"

definition validate_owner_bytes :: "string \<Rightarrow> int \<Rightarrow> exn option" where
  "validate_owner_bytes owner byte_count =
     (if owner = [] then Some (ValueError ''ledger owner must be non-empty'')
      else if byte_count < 0 then Some (ValueError ''ledger byte_count must be non-negative'')
      else None)"

definition can_set :: "byte_ledger \<Rightarrow> string \<Rightarrow> int \<Rightarrow> exn + bool" where
  "can_set l owner byte_count =
     (case validate_owner_bytes owner byte_count of
        Some e \<Rightarrow> Inl e
      | None \<Rightarrow>
          Inr (used_bytes l - owner_bytes l owner + byte_count \<le> lg_capacity_bytes l))"

definition ledger_check :: "byte_ledger \<Rightarrow> exn option" where
  "ledger_check l =
     (if list_ex (\<lambda>(owner, n). owner = [] \<or> n \<le> 0) (lg_owners l)
      then Some (AssertionError (lg_name l @ '' contains invalid ownership''))
      else if \<not> (0 \<le> used_bytes l \<and> used_bytes l \<le> lg_capacity_bytes l)
      then Some (AssertionError (lg_name l @ '' capacity invariant failed''))
      else None)"

definition ledger_checked :: "'a \<Rightarrow> byte_ledger \<Rightarrow> ('a, byte_ledger) outcome" where
  "ledger_checked x l = (case ledger_check l of Some e \<Rightarrow> (Inl e, l) | None \<Rightarrow> (Inr x, l))"

definition note_peak :: "byte_ledger \<Rightarrow> byte_ledger" where
  "note_peak l = l\<lparr>lg_peak_used_bytes := max (lg_peak_used_bytes l) (used_bytes l)\<rparr>"

definition put_owner :: "string \<Rightarrow> int \<Rightarrow> byte_ledger \<Rightarrow> byte_ledger" where
  "put_owner owner n l =
     l\<lparr>lg_owners := (if n = 0 then dpop owner (lg_owners l) else dput owner n (lg_owners l))\<rparr>"

definition set_bytes :: "string \<Rightarrow> int \<Rightarrow> byte_ledger \<Rightarrow> (unit, byte_ledger) outcome" where
  "set_bytes owner n l =
     andthen (lift_err (can_set l owner n) l) (\<lambda>fits l.
       if \<not> fits
       then (Inl (RuntimeError
              (lg_name l @ '' capacity exceeded: owner='' @ py_repr owner @ '', requested=''
               @ show_int n @ '', used='' @ show_int (used_bytes l) @ '', capacity=''
               @ show_int (lg_capacity_bytes l))), l)
       else ledger_checked () (note_peak (put_owner owner n l)))"

definition ledger_reserve :: "string \<Rightarrow> int \<Rightarrow> byte_ledger \<Rightarrow> (bool, byte_ledger) outcome" where
  "ledger_reserve owner n l =
     (if owner \<in> set (dkeys (lg_owners l))
      then (Inl (RuntimeError (lg_name l @ '' owner already exists: '' @ py_repr owner)), l)
      else andthen (lift_err (can_set l owner n) l) (\<lambda>fits l.
        if \<not> fits then (Inr False, l)
        else andthen (set_bytes owner n l) (\<lambda>_ l. (Inr True, l))))"

definition ledger_release :: "string \<Rightarrow> byte_ledger \<Rightarrow> (int, byte_ledger) outcome" where
  "ledger_release owner l =
     (let n = owner_bytes l owner
      in ledger_checked n (l\<lparr>lg_owners := dpop owner (lg_owners l)\<rparr>))"

definition ledger_replace ::
  "string list \<Rightarrow> string option \<Rightarrow> int \<Rightarrow> byte_ledger \<Rightarrow> (unit, byte_ledger) outcome" where
  "ledger_replace remove_owners owner n l =
     (let missing = filter (\<lambda>old. old \<notin> set (dkeys (lg_owners l))) remove_owners;
          remove_set = remdups remove_owners
      in if n < 0 then (Inl (ValueError ''replacement byte_count must be non-negative''), l)
         else if owner = Some [] then (Inl (ValueError ''replacement owner must be non-empty''), l)
         else if missing \<noteq> []
         then (Inl (RuntimeError
                (lg_name l @ '' replacement owners missing: '' @ py_repr_list missing)), l)
         else if (case owner of None \<Rightarrow> False
                  | Some w \<Rightarrow> w \<in> set (dkeys (lg_owners l)) \<and> w \<notin> set remove_set)
         then (Inl (RuntimeError (lg_name l @ '' replacement owner already exists'')), l)
         else if lg_capacity_bytes l
                 < used_bytes l - sum_list (map (owner_bytes l) remove_set) + n
         then (Inl (RuntimeError (lg_name l @ '' atomic replacement exceeds capacity'')), l)
         else
           let l = l\<lparr>lg_owners := foldl (\<lambda>d old. dpop old d) (lg_owners l) remove_set\<rparr>;
               l = (case owner of None \<Rightarrow> l
                    | Some w \<Rightarrow> if n = 0 then l else l\<lparr>lg_owners := dput w n (lg_owners l)\<rparr>)
           in ledger_checked () (note_peak l))"

section \<open>The interface\<close>

text \<open>
  What the clients rely on: \<open>put owner n\<close> makes \<open>n\<close> the claim of one owner, touches no other
  claim, and keeps the store well-formed whenever the new total fits.
\<close>

locale byte_claims =
  fixes ok :: "'s \<Rightarrow> bool"
    and capacity :: "'s \<Rightarrow> int"
    and used :: "'s \<Rightarrow> int"
    and claim :: "'s \<Rightarrow> 'o \<Rightarrow> int"
    and put :: "'o \<Rightarrow> int \<Rightarrow> 's \<Rightarrow> 's"
    and valid :: "'o \<Rightarrow> bool"
  assumes used_bounds: "ok s \<Longrightarrow> 0 \<le> used s \<and> used s \<le> capacity s"
    and claim_nonneg: "ok s \<Longrightarrow> 0 \<le> claim s w"
    and put_ok: "ok s \<Longrightarrow> 0 \<le> n \<Longrightarrow> valid w \<or> n = 0 \<Longrightarrow> used s - claim s w + n \<le> capacity s \<Longrightarrow>
      ok (put w n s)"
    and put_claim: "claim (put w n s) v = (if v = w then n else claim s v)"
    and put_used: "ok s \<Longrightarrow> used (put w n s) = used s - claim s w + n"
    and put_capacity: "capacity (put w n s) = capacity s"
begin

lemma clear_ok: "ok s \<Longrightarrow> ok (put w 0 s)"
  using used_bounds [of s] claim_nonneg [of s w] by (intro put_ok) auto

lemma claim_le_used: "ok s \<Longrightarrow> claim s w \<le> used s"
  using used_bounds [OF clear_ok, of s w] put_used [of s w 0] by simp

lemma two_claims_le_used: "ok s \<Longrightarrow> v \<noteq> w \<Longrightarrow> claim s v + claim s w \<le> used s"
  using claim_le_used [OF clear_ok, of s w v] by (simp add: put_claim put_used)

lemma free_after_clear: "ok s \<Longrightarrow> used (put w 0 s) \<le> used s"
  using claim_nonneg [of s w] by (simp add: put_used)

text \<open>Moving a claim from one owner to a fresh one.\<close>

lemma move_ok:
  assumes "ok s" and "valid w" and "0 \<le> n" and "w = v \<or> claim s w = 0"
    and "used s - claim s v + n \<le> capacity s"
  shows "ok (put w n (put v 0 s))" and "used (put w n (put v 0 s)) = used s - claim s v + n"
  using assms clear_ok [OF assms(1), of v]
  by (auto intro!: put_ok simp: put_used put_claim put_capacity)

end

section \<open>The ledger provides it\<close>

definition ledger_ok :: "byte_ledger \<Rightarrow> bool" where
  "ledger_ok l \<longleftrightarrow>
     dpos (lg_owners l) \<and> [] \<notin> set (dkeys (lg_owners l)) \<and> used_bytes l \<le> lg_capacity_bytes l"

lemma put_owner_simps [simp]:
  "lg_capacity_bytes (put_owner w n l) = lg_capacity_bytes l"
  "lg_name (put_owner w n l) = lg_name l"
  "owner_bytes (put_owner w n l) v = (if v = w then n else owner_bytes l v)"
  "lg_peak_used_bytes (put_owner w n l) = lg_peak_used_bytes l"
  by (auto simp: put_owner_def owner_bytes_def)

lemma note_peak_simps [simp]:
  "lg_capacity_bytes (note_peak l) = lg_capacity_bytes l"
  "lg_name (note_peak l) = lg_name l"
  "lg_owners (note_peak l) = lg_owners l"
  "owner_bytes (note_peak l) = owner_bytes l"
  "used_bytes (note_peak l) = used_bytes l"
  "free_bytes (note_peak l) = free_bytes l"
  "ledger_ok (note_peak l) = ledger_ok l"
  by (simp_all add: note_peak_def owner_bytes_def used_bytes_def free_bytes_def ledger_ok_def fun_eq_iff)

interpretation lg: byte_claims ledger_ok lg_capacity_bytes used_bytes owner_bytes put_owner "\<lambda>w. w \<noteq> []"
proof
  fix l :: byte_ledger and w v n
  assume ok: "ledger_ok l"
  then have pos: "dpos (lg_owners l)" and wf: "dwf (lg_owners l)" by (simp_all add: ledger_ok_def)
  show "0 \<le> used_bytes l \<and> used_bytes l \<le> lg_capacity_bytes l"
    using ok dpos_sum [OF pos] by (simp add: ledger_ok_def used_bytes_def)
  show "0 \<le> owner_bytes l w" using dpos_get_or [OF pos] by (simp add: owner_bytes_def)
  show used: "used_bytes (put_owner w n l) = used_bytes l - owner_bytes l w + n"
    using wf by (simp add: put_owner_def used_bytes_def owner_bytes_def)
  show "ledger_ok (put_owner w n l)"
    if "0 \<le> n" "w \<noteq> [] \<or> n = 0" "used_bytes l - owner_bytes l w + n \<le> lg_capacity_bytes l"
    using ok that used pos by (auto simp: ledger_ok_def put_owner_def simp del: list.set_map set_map)
next
  fix l :: byte_ledger and w v n
  show "owner_bytes (put_owner w n l) v = (if v = w then n else owner_bytes l v)" by simp
  show "lg_capacity_bytes (put_owner w n l) = lg_capacity_bytes l" by simp
qed

lemma ledger_entries:
  assumes "ledger_ok l" and "(w, n) \<in> set (lg_owners l)"
  shows "w \<noteq> []" and "0 < n"
proof -
  have "w \<in> set (dkeys (lg_owners l))" using assms(2) by force
  with assms(1) show "w \<noteq> []" by (metis ledger_ok_def)
  have d: "dpos (lg_owners l)" using assms(1) by (simp add: ledger_ok_def)
  from assms(2) have "dget (lg_owners l) w = Some n" by (rule iffD2 [OF dget_Some_iff [OF dpos_dwf [OF d]]])
  with d show "0 < n" by (rule dposD)
qed

lemma ledger_check_None: "ledger_ok l \<Longrightarrow> ledger_check l = None"
  using lg.used_bounds [of l] ledger_entries [of l]
  by (fastforce simp: ledger_check_def list_ex_iff)

lemma ledger_checked_ok [simp]: "ledger_ok l \<Longrightarrow> ledger_checked x l = (Inr x, l)"
  by (simp add: ledger_checked_def ledger_check_None)

lemma owner_in_ledger: "ledger_ok l \<Longrightarrow> w \<in> set (dkeys (lg_owners l)) \<longleftrightarrow> owner_bytes l w \<noteq> 0"
  using dpos_get_or_0_iff [of "lg_owners l" w] by (simp add: ledger_ok_def owner_bytes_def dget_None_iff)

lemma owner_bytes_empty: "ledger_ok l \<Longrightarrow> owner_bytes l [] = 0"
  using owner_in_ledger [of l "[]"] by (simp add: ledger_ok_def)

section \<open>What the operations do\<close>

lemma can_set_ok: "w \<noteq> [] \<Longrightarrow> 0 \<le> n \<Longrightarrow>
    can_set l w n = Inr (used_bytes l - owner_bytes l w + n \<le> lg_capacity_bytes l)"
  by (simp add: can_set_def validate_owner_bytes_def)

lemma set_bytes_fits:
  assumes "ledger_ok l" and "w \<noteq> []" and "0 \<le> n"
    and "used_bytes l - owner_bytes l w + n \<le> lg_capacity_bytes l"
  shows "set_bytes w n l = (Inr (), note_peak (put_owner w n l))"
  using assms lg.put_ok [of l n w] by (simp add: set_bytes_def can_set_ok)

lemma set_bytes_Inl: "ledger_ok l \<Longrightarrow> set_bytes w n l = (Inl e, l') \<Longrightarrow>
    l' = l \<and> (w = [] \<or> n < 0 \<or> lg_capacity_bytes l < used_bytes l - owner_bytes l w + n)"
  using lg.put_ok [of l n w]
  by (cases "w = [] \<or> n < 0")
    (auto simp: set_bytes_def can_set_def validate_owner_bytes_def not_le split: if_splits)

lemma reserve_fits:
  assumes "ledger_ok l" and "w \<noteq> []" and "0 \<le> n" and "owner_bytes l w = 0"
    and "n \<le> free_bytes l"
  shows "ledger_reserve w n l = (Inr True, note_peak (put_owner w n l))"
  using assms owner_in_ledger [OF assms(1), of w]
  by (simp add: ledger_reserve_def can_set_ok set_bytes_fits free_bytes_def)

lemma reserve_full:
  assumes "ledger_ok l" and "w \<noteq> []" and "0 \<le> n" and "owner_bytes l w = 0"
    and "free_bytes l < n"
  shows "ledger_reserve w n l = (Inr False, l)"
  using assms owner_in_ledger [OF assms(1), of w]
  by (simp add: ledger_reserve_def can_set_ok free_bytes_def)

lemma release_eq: "ledger_ok l \<Longrightarrow> ledger_release w l = (Inr (owner_bytes l w), put_owner w 0 l)"
  using lg.clear_ok [of l w] by (simp add: ledger_release_def put_owner_def)

lemma foldl_dpop: "foldl (\<lambda>d old. dpop old d) d xs = filter (\<lambda>p. fst p \<notin> set xs) d"
proof (induction xs arbitrary: d)
  case Nil
  then show ?case by simp
next
  case (Cons x xs)
  have "dpop x d = filter (\<lambda>p. fst p \<noteq> x) d" by (induction d) auto
  with Cons show ?case by (auto intro!: filter_cong)
qed

text \<open>Clearing a list of claims, one by one.\<close>

definition clear_all :: "string list \<Rightarrow> byte_ledger \<Rightarrow> byte_ledger" where
  "clear_all ws l = foldl (\<lambda>l w. put_owner w 0 l) l ws"

lemma clear_all_simps [simp]:
  "lg_capacity_bytes (clear_all ws l) = lg_capacity_bytes l"
  "owner_bytes (clear_all ws l) v = (if v \<in> set ws then 0 else owner_bytes l v)"
  by (induction ws arbitrary: l) (auto simp: clear_all_def)

lemma clear_all_ok: "ledger_ok l \<Longrightarrow> ledger_ok (clear_all ws l)"
  by (induction ws arbitrary: l) (auto simp: clear_all_def intro: lg.clear_ok)

lemma clear_all_used:
  "ledger_ok l \<Longrightarrow> distinct ws \<Longrightarrow>
     used_bytes (clear_all ws l) = used_bytes l - sum_list (map (owner_bytes l) ws)"
proof (induction ws arbitrary: l)
  case Nil
  then show ?case by (simp add: clear_all_def)
next
  case (Cons w ws)
  have m: "map (owner_bytes (put_owner w 0 l)) ws = map (owner_bytes l) ws"
    using Cons.prems(2) by auto
  have "clear_all (w # ws) l = clear_all ws (put_owner w 0 l)" by (simp add: clear_all_def)
  with Cons.IH [OF lg.clear_ok [OF Cons.prems(1), of w]] Cons.prems show ?case
    by (simp only: m) (simp add: lg.put_used)
qed

lemma clear_all_eq: "clear_all ws l = l\<lparr>lg_owners := foldl (\<lambda>d old. dpop old d) (lg_owners l) ws\<rparr>"
  by (induction ws arbitrary: l) (simp_all add: clear_all_def put_owner_def)

lemma replace_fits:
  assumes ok: "ledger_ok l" and "\<And>v. v \<in> set ws \<Longrightarrow> owner_bytes l v \<noteq> 0" and "w \<noteq> []" and "0 \<le> n"
    and "w \<in> set ws \<or> owner_bytes l w = 0"
    and "used_bytes l - sum_list (map (owner_bytes l) (remdups ws)) + n \<le> lg_capacity_bytes l"
  shows "ledger_replace ws (Some w) n l =
    (Inr (), note_peak (put_owner w n (clear_all (remdups ws) l)))"
proof -
  have ok2: "ledger_ok (clear_all (remdups ws) l)" by (rule clear_all_ok [OF ok])
  have cw: "owner_bytes (clear_all (remdups ws) l) w = 0" using assms(5) by auto
  have "ledger_ok (put_owner w n (clear_all (remdups ws) l))"
    using assms(3,4,6) cw by (intro lg.put_ok [OF ok2]) (auto simp: clear_all_used [OF ok])
  moreover have "put_owner w n (clear_all (remdups ws) l) =
      (if n = 0 then clear_all (remdups ws) l
       else (clear_all (remdups ws) l)\<lparr>lg_owners := dput w n (lg_owners (clear_all (remdups ws) l))\<rparr>)"
    using cw owner_in_ledger [OF ok2, of w] by (auto simp: put_owner_def dpop_absent)
  ultimately show ?thesis
    using assms owner_in_ledger [OF ok]
    by (auto simp: ledger_replace_def Let_def clear_all_eq [symmetric] filter_empty_conv
        simp del: list.set_map set_map)
qed

section \<open>Reachable ledgers\<close>

text \<open>Every state of a ledger that some sequence of calls produces, failed calls included.\<close>

inductive ledger_reach :: "byte_ledger \<Rightarrow> bool" where
  new: "new_ledger name capacity = Inr l \<Longrightarrow> ledger_reach l"
| set_bytes: "ledger_reach l \<Longrightarrow> ledger_reach (snd (set_bytes w n l))"
| reserve: "ledger_reach l \<Longrightarrow> ledger_reach (snd (ledger_reserve w n l))"
| release: "ledger_reach l \<Longrightarrow> ledger_reach (snd (ledger_release w l))"
| replace: "ledger_reach l \<Longrightarrow> ledger_reach (snd (ledger_replace ws owner n l))"

definition peak_ok :: "byte_ledger \<Rightarrow> bool" where
  "peak_ok l \<longleftrightarrow> used_bytes l \<le> lg_peak_used_bytes l \<and> lg_peak_used_bytes l \<le> lg_capacity_bytes l"

definition ledger_inv :: "byte_ledger \<Rightarrow> bool" where
  "ledger_inv l \<longleftrightarrow> ledger_ok l \<and> peak_ok l"

lemma new_ledger_inv: "new_ledger name capacity = Inr l \<Longrightarrow> ledger_inv l"
  by (auto simp: new_ledger_def ledger_inv_def ledger_ok_def peak_ok_def used_bytes_def split: if_splits)

lemma note_peak_inv:
  "ledger_ok l \<Longrightarrow> lg_peak_used_bytes l \<le> lg_capacity_bytes l \<Longrightarrow> ledger_inv (note_peak l)"
  using lg.used_bounds [of l] by (simp add: ledger_inv_def peak_ok_def) (simp add: note_peak_def)

lemma set_bytes_inv: "ledger_inv l \<Longrightarrow> ledger_inv (snd (set_bytes w n l))"
proof (cases "w = [] \<or> n < 0 \<or> lg_capacity_bytes l < used_bytes l - owner_bytes l w + n")
  case True
  assume "ledger_inv l"
  then show ?thesis using True
    by (auto simp: set_bytes_def can_set_def validate_owner_bytes_def)
next
  case False
  assume i: "ledger_inv l"
  then have ok: "ledger_ok l" by (simp add: ledger_inv_def)
  have "ledger_inv (note_peak (put_owner w n l))"
    using False i by (intro note_peak_inv lg.put_ok [OF ok]) (auto simp: ledger_inv_def peak_ok_def)
  then show ?thesis using False by (simp add: set_bytes_fits [OF ok])
qed

lemma reserve_inv: "ledger_inv l \<Longrightarrow> ledger_inv (snd (ledger_reserve w n l))"
  using set_bytes_inv [of l w n]
  by (cases "set_bytes w n l"; cases "fst (set_bytes w n l)"; cases "can_set l w n")
    (auto simp: ledger_reserve_def)

lemma release_inv: "ledger_inv l \<Longrightarrow> ledger_inv (snd (ledger_release w l))"
  using lg.clear_ok [of l w] lg.free_after_clear [of l w]
  by (auto simp: release_eq ledger_inv_def peak_ok_def)

lemma replace_inv: "ledger_inv l \<Longrightarrow> ledger_inv (snd (ledger_replace ws owner n l))"
proof -
  assume i: "ledger_inv l"
  then have ok: "ledger_ok l" by (simp add: ledger_inv_def)
  let ?l = "clear_all (remdups ws) l"
  have ok2: "ledger_ok ?l" by (rule clear_all_ok [OF ok])
  let ?l3 = "\<lambda>w. ?l\<lparr>lg_owners := dput w n (lg_owners ?l)\<rparr>"
  have put: "ledger_ok (?l3 w)"
    if "w \<noteq> []" "0 < n" "w \<in> set ws \<or> w \<notin> set (dkeys (lg_owners l))"
      "used_bytes l - sum_list (map (owner_bytes l) (remdups ws)) + n \<le> lg_capacity_bytes l" for w
  proof -
    have "owner_bytes ?l w = 0" using that owner_in_ledger [OF ok, of w] by auto
    moreover have "?l3 w = put_owner w n ?l" using that by (simp add: put_owner_def)
    ultimately show ?thesis
      using that lg.put_ok [OF ok2, of n w] by (simp add: clear_all_used [OF ok])
  qed
  have peak: "lg_peak_used_bytes ?l \<le> lg_capacity_bytes l"
    using i by (simp add: clear_all_eq ledger_inv_def peak_ok_def)
  show ?thesis
  proof (cases "n = 0 \<or> owner = None")
    case True
    with i show ?thesis
      using note_peak_inv [OF ok2] peak ok2
      by (auto simp: ledger_replace_def Let_def clear_all_eq [symmetric] split: option.split)
  next
    case False
    then obtain w where w: "owner = Some w" "n \<noteq> 0" by auto
    with i show ?thesis
      using note_peak_inv [OF put [of w]] put [of w] peak
      by (auto simp: ledger_replace_def Let_def clear_all_eq [symmetric] not_less)
  qed
qed

lemma ledger_reach_inv: "ledger_reach l \<Longrightarrow> ledger_inv l"
  by (induction rule: ledger_reach.induct)
    (auto intro: new_ledger_inv set_bytes_inv reserve_inv release_inv replace_inv simp del: split_paired_All)

section \<open>Properties\<close>

text \<open>C27: Whatever is called on a ledger, with whatever result, its claims stay positive and named,
  their sum stays within the capacity, the recorded peak bounds it, and the run-time self check
  passes.\<close>
theorem ledger_never_overcommitted:
  assumes "ledger_reach l"
  shows "0 \<le> used_bytes l \<and> used_bytes l \<le> lg_peak_used_bytes l \<and>
    lg_peak_used_bytes l \<le> lg_capacity_bytes l \<and> ledger_check l = None"
  using ledger_reach_inv [OF assms] lg.used_bounds [of l]
  by (simp add: ledger_inv_def peak_ok_def ledger_check_None)

definition demo_ledger :: byte_ledger where
  "demo_ledger = \<lparr>lg_name = ''cpu'', lg_capacity_bytes = 100, lg_owners = [(''a'', 60), (''b'', 30)],
     lg_peak_used_bytes = 90\<rparr>"

lemma demo_ledger_reach: "ledger_reach demo_ledger"
proof -
  let ?l0 = "\<lparr>lg_name = ''cpu'', lg_capacity_bytes = 100, lg_owners = [], lg_peak_used_bytes = 0\<rparr>"
  have "ledger_reach ?l0" by (rule ledger_reach.new [of "''cpu''" 100]) (simp add: new_ledger_def)
  then have "ledger_reach (snd (ledger_reserve ''b'' 30 (snd (ledger_reserve ''a'' 60 ?l0))))"
    by (intro ledger_reach.reserve)
  moreover have "snd (ledger_reserve ''b'' 30 (snd (ledger_reserve ''a'' 60 ?l0))) = demo_ledger"
    by code_simp
  ultimately show ?thesis by simp
qed

lemma demo_ledger_ok: "ledger_ok demo_ledger"
  using ledger_reach_inv [OF demo_ledger_reach] by (simp add: ledger_inv_def)

theorem ledger_never_overcommitted_witness:
  "used_bytes demo_ledger = 90 \<and> ledger_check demo_ledger = None"
  using ledger_never_overcommitted [OF demo_ledger_reach] by (simp add: used_bytes_def demo_ledger_def)

text \<open>C28: Each ledger operation is an update of the map from owners to bytes: \<open>set_bytes\<close> writes one
  claim if the total fits and refuses otherwise, \<open>reserve\<close> adds a claim for a fresh owner if it fits,
  \<open>release\<close> returns the claim and clears it.  A refused call leaves the map as it was.\<close>
theorem ledger_refines_claim_map:
  assumes "ledger_ok l" and "w \<noteq> []" and "0 \<le> n"
  shows "owner_bytes (snd (set_bytes w n l)) =
      (if used_bytes l - owner_bytes l w + n \<le> lg_capacity_bytes l
       then (owner_bytes l)(w := n) else owner_bytes l) \<and>
    ((\<exists>e. fst (set_bytes w n l) = Inl e) \<longleftrightarrow>
       lg_capacity_bytes l < used_bytes l - owner_bytes l w + n) \<and>
    (owner_bytes l w = 0 \<longrightarrow>
       fst (ledger_reserve w n l) = Inr (n \<le> free_bytes l) \<and>
       owner_bytes (snd (ledger_reserve w n l)) =
         (if n \<le> free_bytes l then (owner_bytes l)(w := n) else owner_bytes l)) \<and>
    ledger_release w l = (Inr (owner_bytes l w), snd (ledger_release w l)) \<and>
    owner_bytes (snd (ledger_release w l)) = (owner_bytes l)(w := 0)"
proof (intro conjI impI)
  show "owner_bytes (snd (set_bytes w n l)) =
      (if used_bytes l - owner_bytes l w + n \<le> lg_capacity_bytes l
       then (owner_bytes l)(w := n) else owner_bytes l)"
    using assms by (auto simp: set_bytes_fits fun_eq_iff) (simp add: set_bytes_def can_set_ok)
  show "(\<exists>e. fst (set_bytes w n l) = Inl e) \<longleftrightarrow>
       lg_capacity_bytes l < used_bytes l - owner_bytes l w + n"
    using set_bytes_fits [OF assms] by (auto simp: set_bytes_def can_set_ok assms(2,3) not_le)
  show "ledger_release w l = (Inr (owner_bytes l w), snd (ledger_release w l))"
    and "owner_bytes (snd (ledger_release w l)) = (owner_bytes l)(w := 0)"
    using assms(1) by (auto simp: release_eq fun_eq_iff)
  assume w: "owner_bytes l w = 0"
  show "fst (ledger_reserve w n l) = Inr (n \<le> free_bytes l)"
    and "owner_bytes (snd (ledger_reserve w n l)) =
      (if n \<le> free_bytes l then (owner_bytes l)(w := n) else owner_bytes l)"
    using reserve_fits [OF assms w] reserve_full [OF assms w]
    by (cases "n \<le> free_bytes l"; auto simp: fun_eq_iff not_le)+
qed

theorem ledger_refines_claim_map_witness:
  "owner_bytes (snd (ledger_release ''a'' demo_ledger)) = (owner_bytes demo_ledger)(''a'' := 0) \<and>
   fst (ledger_reserve ''c'' 11 demo_ledger) = Inr False"
  using ledger_refines_claim_map [OF demo_ledger_ok, of "''a''" 0]
    ledger_refines_claim_map [OF demo_ledger_ok, of "''c''" 11]
  by (simp add: owner_bytes_def demo_ledger_def free_bytes_def used_bytes_def)

text \<open>C29: \<open>replace\<close> is atomic: it succeeds exactly when the new owner is free or among those removed and
  the final total fits, and then all the old claims have become the one new claim; otherwise nothing
  changed.\<close>
theorem ledger_replace_atomic:
  assumes "ledger_ok l" and "w \<noteq> []" and "0 \<le> n" and "list_all (\<lambda>v. owner_bytes l v \<noteq> 0) ws"
  shows "if (w \<in> set ws \<or> owner_bytes l w = 0) \<and>
      used_bytes l - sum_list (map (owner_bytes l) (remdups ws)) + n \<le> lg_capacity_bytes l
    then fst (ledger_replace ws (Some w) n l) = Inr () \<and>
      owner_bytes (snd (ledger_replace ws (Some w) n l)) =
        (\<lambda>v. if v = w then n else if v \<in> set ws then 0 else owner_bytes l v) \<and>
      used_bytes (snd (ledger_replace ws (Some w) n l)) =
        used_bytes l - sum_list (map (owner_bytes l) (remdups ws)) + n
    else (\<exists>m. ledger_replace ws (Some w) n l = (Inl (RuntimeError m), l))"
proof (cases "(w \<in> set ws \<or> owner_bytes l w = 0) \<and>
      used_bytes l - sum_list (map (owner_bytes l) (remdups ws)) + n \<le> lg_capacity_bytes l")
  case True
  have e: "ledger_replace ws (Some w) n l =
      (Inr (), note_peak (put_owner w n (clear_all (remdups ws) l)))"
    using True assms by (intro replace_fits) (auto simp: list_all_iff)
  have z: "owner_bytes (clear_all (remdups ws) l) w = 0" using True by auto
  have u: "used_bytes (put_owner w n (clear_all (remdups ws) l)) =
      used_bytes l - sum_list (map (owner_bytes l) (remdups ws)) + n"
    using z by (simp add: lg.put_used [OF clear_all_ok [OF assms(1)]] clear_all_used [OF assms(1)])
  have o: "owner_bytes (put_owner w n (clear_all (remdups ws) l)) =
      (\<lambda>v. if v = w then n else if v \<in> set ws then 0 else owner_bytes l v)"
    by (simp add: fun_eq_iff)
  show ?thesis unfolding if_P [OF True] e fst_conv snd_conv note_peak_simps by (simp only: u o)
next
  case False
  have "\<exists>m. ledger_replace ws (Some w) n l = (Inl (RuntimeError m), l)"
    using False assms owner_in_ledger [OF assms(1)]
    by (auto simp: ledger_replace_def Let_def list_all_iff filter_empty_conv not_le
        simp del: list.set_map set_map)
  then show ?thesis unfolding if_not_P [OF False] .
qed

theorem ledger_replace_atomic_witness:
  "owner_bytes (snd (ledger_replace [''a'', ''b''] (Some ''c'') 95 demo_ledger)) =
     (\<lambda>v. if v = ''c'' then 95 else if v \<in> set [''a'', ''b''] then 0 else owner_bytes demo_ledger v)"
  using ledger_replace_atomic [OF demo_ledger_ok, of "''c''" 95 "[''a'', ''b'']"]
  by (simp add: owner_bytes_def used_bytes_def demo_ledger_def)

end
