(* ===== verification/Tier_State.thy ===== *)
theory Tier_State
  imports Tier_Resources Byte_Ledger
begin

text \<open>
  \<^verbatim>\<open>serving/core/gpu_pd_tier_lifecycle.py\<close>: the KV caches of one P4D4 node over its decode HBM,
  CPU memory and SSDs.  \<^verbatim>\<open>TieredPDKVLifecycle\<close> owns the four byte ledgers and the transfer queues;
  it demotes idle sessions, restores them into prefill HBM, exports SSD snapshots, and publishes
  the context of a finished request.  This theory holds its state, its run-time self check and the
  helpers its operations share; \<^verbatim>\<open>Tier_Lifecycle\<close> holds the operations.

  Python objects that several tables share (a session record, a copy, a ticket) are entries of the
  dictionary that owns them, and a reference to one is its key: the tickets that
  \<^verbatim>\<open>begin_prepare\<close> and \<^verbatim>\<open>begin_ssd_export\<close> hand out are passed back as their ids, and the identity
  test \<^verbatim>\<open>stored is not ticket\<close> is that the id has no entry.  The sets of ids of a session are lists
  without repetition.
\<close>

section \<open>Constants and enumerations\<close>

definition RESTORE_EXECUTION_BULK :: string where
  "RESTORE_EXECUTION_BULK = ''bulk''"

definition RESTORE_EXECUTION_LAYERWISE :: string where
  "RESTORE_EXECUTION_LAYERWISE = ''layerwise_streaming''"

definition SUPPORTED_TIER_POLICIES :: "string list" where
  "SUPPORTED_TIER_POLICIES = [''cpu_ssd'', ''hbm_lru_recompute'', ''ssd_direct'']"

definition SUPPORTED_RESTORE_EXECUTION_MODES :: "string list" where
  "SUPPORTED_RESTORE_EXECUTION_MODES = [RESTORE_EXECUTION_BULK, RESTORE_EXECUTION_LAYERWISE]"

definition D_RESERVATION_FINAL_UPFRONT :: string where
  "D_RESERVATION_FINAL_UPFRONT = ''final_context_upfront''"

definition D_RESERVATION_PROMPT_UPFRONT :: string where
  "D_RESERVATION_PROMPT_UPFRONT = ''prompt_upfront_growth_at_commit''"

definition SUPPORTED_D_RESERVATION_POLICIES :: "string list" where
  "SUPPORTED_D_RESERVATION_POLICIES = [D_RESERVATION_FINAL_UPFRONT, D_RESERVATION_PROMPT_UPFRONT]"

datatype tier = Tier_D | Tier_CPU | Tier_SSD

fun tier_value :: "tier \<Rightarrow> string" where
  "tier_value Tier_D = ''d''"
| "tier_value Tier_CPU = ''cpu''"
| "tier_value Tier_SSD = ''ssd''"

datatype session_state =
  LOST | D_READY | D_DEMOTING_CPU | D_DEMOTING_SSD | CPU_READY | CPU_DEMOTING_SSD | SSD_READY
| PREPARING | ACTIVE | ENDED

fun session_state_value :: "session_state \<Rightarrow> string" where
  "session_state_value LOST = ''lost''"
| "session_state_value D_READY = ''d_ready''"
| "session_state_value D_DEMOTING_CPU = ''d_demoting_cpu''"
| "session_state_value D_DEMOTING_SSD = ''d_demoting_ssd''"
| "session_state_value CPU_READY = ''cpu_ready''"
| "session_state_value CPU_DEMOTING_SSD = ''cpu_demoting_ssd''"
| "session_state_value SSD_READY = ''ssd_ready''"
| "session_state_value PREPARING = ''preparing''"
| "session_state_value ACTIVE = ''active''"
| "session_state_value ENDED = ''ended''"

datatype job_kind = DEMOTION | PREPARE | SSD_EXPORT

datatype job_status = JOB_RUNNING | JOB_COMMITTED | JOB_STALE | JOB_COMPLETE

datatype export_status = EX_RUNNING | EX_READY | EX_ABORT_PENDING | EX_FINISHED | EX_ABORTED

section \<open>State\<close>

record tier_copy =
  tc_copy_id :: int
  tc_session_id :: string
  tc_tier :: tier
  tc_version :: int
  tc_generation :: int
  tc_tokens :: int
  tc_byte_count :: int
  tc_ledger_owner :: string
  tc_demotion_pins :: int
  tc_foreground_pins :: int
  tc_export_pins :: int
  tc_retired :: bool
  tc_shadow :: bool

definition tc_pins :: "tier_copy \<Rightarrow> int" where
  "tc_pins c = tc_demotion_pins c + tc_foreground_pins c + tc_export_pins c"

record tier_session =
  se_session_id :: string
  se_state :: session_state
  se_generation :: int
  se_version :: int
  se_tokens :: int
  se_primary :: "tier option"
  se_primary_copy_id :: "int option"
  se_last_access_ns :: int
  se_active_request_id :: "int option"
  se_pending_job_ids :: "int list"
  se_copy_ids :: "int list"

record scheduled_stage =
  ss_stage :: tier_stage
  ss_start_ns :: int
  ss_completion_ns :: int

record transfer_job =
  tj_job_id :: int
  tj_kind :: job_kind
  tj_session_id :: string
  tj_request_id :: "int option"
  tj_snapshot_version :: int
  tj_snapshot_generation :: int
  tj_source_copy_id :: "int option"
  tj_destination :: "tier option"
  tj_destination_owner :: "string option"
  tj_bounce_owner :: "string option"
  tj_stages :: "scheduled_stage list"
  tj_start_ns :: int
  tj_completion_ns :: int
  tj_status :: job_status

record prepare_ticket =
  pt_prepare_id :: int
  pt_job_id :: int
  pt_session_id :: string
  pt_request_id :: int
  pt_generation :: int
  pt_source :: "tier option"
  pt_source_copy_id :: "int option"
  pt_source_tokens :: int
  pt_hit_tokens :: int
  pt_input_tokens :: int
  pt_output_tokens :: int
  pt_final_tokens :: int
  pt_has_successor :: bool
  pt_needs_d :: bool
  pt_p_owner :: string
  pt_p_bytes_per_rank :: int
  pt_d_owner :: "string option"
  pt_d_reserved_bytes_per_rank :: int
  pt_d_target_bytes_per_rank :: int
  pt_d_reuse_copy_id :: "int option"
  pt_full_d_reservation :: bool
  pt_bounce_owner :: "string option"
  pt_stages :: "scheduled_stage list"
  pt_start_ns :: int
  pt_completion_ns :: int
  pt_restore_execution_mode :: string
  pt_restore_layer_ready_ns :: "int list"
  pt_completed :: bool
  pt_pool_released :: bool
  pt_pool_release_ns :: "int option"
  pt_active :: bool
  pt_p_released :: bool
  pt_committed :: bool

record export_ticket =
  ex_export_id :: int
  ex_job_id :: int
  ex_session_id :: string
  ex_snapshot_version :: int
  ex_snapshot_generation :: int
  ex_source_copy_id :: int
  ex_token_count :: int
  ex_byte_count :: int
  ex_bounce_owner :: string
  ex_stages :: "scheduled_stage list"
  ex_start_ns :: int
  ex_completion_ns :: int
  ex_status :: export_status
  ex_resources_released :: bool

definition physical_complete :: "export_ticket \<Rightarrow> bool" where
  "physical_complete x = (ex_status x \<in> {EX_READY, EX_FINISHED, EX_ABORTED})"

definition transfer_kinds :: "scheduled_stage list \<Rightarrow> string list" where
  "transfer_kinds stages = map (ts_kind \<circ> ss_stage) stages"

record resume_source =
  rs_session_id :: string
  rs_state :: session_state
  rs_source :: "tier option"
  rs_tokens :: int
  rs_version :: int
  rs_generation :: int
  rs_demotion_inflight :: bool

record lifecycle_metrics =
  lm_preloaded_sessions :: int
  lm_session_restarts :: int
  lm_d_drops :: int
  lm_d_growth_bytes_per_rank :: int
  lm_d_growth_forced_drops :: int
  lm_d_to_cpu_started :: int
  lm_d_to_ssd_started :: int
  lm_cpu_to_ssd_started :: int
  lm_demotions_committed :: int
  lm_stale_demotions :: int
  lm_prepare_started :: int
  lm_prepare_completed :: int
  lm_streaming_prepare_started :: int
  lm_streaming_prepare_pool_released :: int
  lm_p_handoff_releases :: int
  lm_prepare_misses :: int
  lm_d_prepare_hits :: int
  lm_cpu_prepare_hits :: int
  lm_ssd_prepare_hits :: int
  lm_destination_deferrals :: int
  lm_p_capacity_deferrals :: int
  lm_d_capacity_deferrals :: int
  lm_cpu_bounce_deferrals :: int
  lm_infeasible_p_requests :: int
  lm_infeasible_d_requests :: int
  lm_infeasible_cpu_bounces :: int
  lm_cpu_capacity_deferrals :: int
  lm_ssd_evictions :: int
  lm_retired_copy_releases :: int
  lm_transfer_bytes :: int
  lm_stale_transfer_bytes :: int
  lm_d_source_bytes_released_early :: int
  lm_ssd_export_started :: int
  lm_ssd_export_completed :: int
  lm_ssd_export_finished :: int
  lm_ssd_export_aborted :: int
  lm_ssd_export_capacity_deferrals :: int
  lm_ssd_export_bytes :: int

definition new_lifecycle_metrics :: lifecycle_metrics where
  "new_lifecycle_metrics =
     \<lparr>lm_preloaded_sessions = 0, lm_session_restarts = 0, lm_d_drops = 0,
      lm_d_growth_bytes_per_rank = 0, lm_d_growth_forced_drops = 0, lm_d_to_cpu_started = 0,
      lm_d_to_ssd_started = 0, lm_cpu_to_ssd_started = 0, lm_demotions_committed = 0,
      lm_stale_demotions = 0, lm_prepare_started = 0, lm_prepare_completed = 0,
      lm_streaming_prepare_started = 0, lm_streaming_prepare_pool_released = 0,
      lm_p_handoff_releases = 0, lm_prepare_misses = 0, lm_d_prepare_hits = 0,
      lm_cpu_prepare_hits = 0, lm_ssd_prepare_hits = 0, lm_destination_deferrals = 0,
      lm_p_capacity_deferrals = 0, lm_d_capacity_deferrals = 0, lm_cpu_bounce_deferrals = 0,
      lm_infeasible_p_requests = 0, lm_infeasible_d_requests = 0, lm_infeasible_cpu_bounces = 0,
      lm_cpu_capacity_deferrals = 0, lm_ssd_evictions = 0, lm_retired_copy_releases = 0,
      lm_transfer_bytes = 0, lm_stale_transfer_bytes = 0, lm_d_source_bytes_released_early = 0,
      lm_ssd_export_started = 0, lm_ssd_export_completed = 0, lm_ssd_export_finished = 0,
      lm_ssd_export_aborted = 0, lm_ssd_export_capacity_deferrals = 0,
      lm_ssd_export_bytes = 0\<rparr>"

record lifecycle =
  tl_hardware :: hardware
  tl_node_id :: int
  tl_policy :: string
  tl_restore_execution_mode :: string
  tl_d_reservation_policy :: string
  tl_validate_every_event :: bool
  tl_calendar :: calendar
  tl_resources :: tier_resources
  tl_p_ledger :: byte_ledger
  tl_d_ledger :: byte_ledger
  tl_cpu_ledger :: byte_ledger
  tl_ssd_ledger :: byte_ledger
  tl_sessions :: "(string, tier_session) dict"
  tl_copies :: "(int, tier_copy) dict"
  tl_jobs :: "(int, transfer_job) dict"
  tl_prepares :: "(int, prepare_ticket) dict"
  tl_ssd_exports :: "(int, export_ticket) dict"
  tl_metrics :: lifecycle_metrics
  tl_current_ns :: int
  tl_next_copy_id :: int
  tl_next_job_id :: int
  tl_next_prepare_id :: int
  tl_next_export_id :: int
  tl_completion_heap :: "(int \<times> int) list"
  tl_completed_prepares :: "int list"
  tl_export_id_by_job :: "(int, int) dict"
  tl_seen_request_ids :: "int list"

text \<open>The constructor's argument checks, in order.\<close>

definition lifecycle_argument_error :: "string \<Rightarrow> string \<Rightarrow> string \<Rightarrow> int \<Rightarrow> exn option" where
  "lifecycle_argument_error policy mode d_policy node_id =
     first_error
       [(policy \<notin> set SUPPORTED_TIER_POLICIES,
          ValueError (''unsupported tier policy '' @ py_repr policy)),
        (mode \<notin> set SUPPORTED_RESTORE_EXECUTION_MODES,
          ValueError (''restore_execution_mode must be one of ''
            @ py_repr_list SUPPORTED_RESTORE_EXECUTION_MODES)),
        (d_policy \<notin> set SUPPORTED_D_RESERVATION_POLICIES,
          ValueError (''d_reservation_policy must be one of (''
            @ join '', '' (map py_repr SUPPORTED_D_RESERVATION_POLICIES) @ '')'')),
        (node_id < 0, ValueError ''node_id must be a non-negative integer'')]"

definition new_lifecycle ::
  "hardware \<Rightarrow> int \<Rightarrow> string \<Rightarrow> calendar option \<Rightarrow> int option \<Rightarrow> int option \<Rightarrow> int option \<Rightarrow> int option
     \<Rightarrow> string \<Rightarrow> string \<Rightarrow> bool \<Rightarrow> exn + lifecycle" where
  "new_lifecycle hw node_id policy cal p_cap d_cap cpu_cap ssd_cap mode d_policy validate =
     (case validate_hardware hw of Some e \<Rightarrow> Inl e | None \<Rightarrow>
     (case lifecycle_argument_error policy mode d_policy node_id of Some e \<Rightarrow> Inl e | None \<Rightarrow>
      ebind (new_tier_resources hw node_id) (\<lambda>resources.
      ebind (case p_cap of None \<Rightarrow> usable_hbm_bytes_per_rank hw | Some c \<Rightarrow> Inr c) (\<lambda>p_capacity.
      ebind (case d_cap of None \<Rightarrow> usable_hbm_bytes_per_rank hw | Some c \<Rightarrow> Inr c) (\<lambda>d_capacity.
      let name = ''gpu-node-'' @ show_int node_id in
      ebind (new_ledger (name @ ''-p-destination'') p_capacity) (\<lambda>p.
      ebind (new_ledger (name @ ''-d-kv'') d_capacity) (\<lambda>d.
      ebind (new_ledger (name @ ''-cpu-shared'')
        (case cpu_cap of None \<Rightarrow> cpu_memory_capacity_bytes hw | Some c \<Rightarrow> c)) (\<lambda>cpu.
      ebind (new_ledger (name @ ''-ssd'')
        (case ssd_cap of None \<Rightarrow> ssd_capacity_bytes hw | Some c \<Rightarrow> c)) (\<lambda>ssd.
      Inr \<lparr>tl_hardware = hw, tl_node_id = node_id, tl_policy = policy,
           tl_restore_execution_mode = mode, tl_d_reservation_policy = d_policy,
           tl_validate_every_event = validate,
           tl_calendar = (case cal of None \<Rightarrow> new_calendar True | Some c \<Rightarrow> c),
           tl_resources = resources, tl_p_ledger = p, tl_d_ledger = d, tl_cpu_ledger = cpu,
           tl_ssd_ledger = ssd, tl_sessions = [], tl_copies = [], tl_jobs = [], tl_prepares = [],
           tl_ssd_exports = [], tl_metrics = new_lifecycle_metrics, tl_current_ns = 0,
           tl_next_copy_id = 1, tl_next_job_id = 1, tl_next_prepare_id = 1, tl_next_export_id = 1,
           tl_completion_heap = [], tl_completed_prepares = [], tl_export_id_by_job = [],
           tl_seen_request_ids = []\<rparr>)))))))))"

section \<open>Helpers\<close>

definition validate_session :: "string \<Rightarrow> exn option" where
  "validate_session session_id =
     (if session_id = [] then Some (ValueError ''session_id must be a non-empty string'') else None)"

definition validate_time :: "int \<Rightarrow> exn option" where
  "validate_time now =
     (if now < 0 then Some (ValueError ''now_ns must be a non-negative integer'') else None)"

definition validate_positive :: "string \<Rightarrow> int \<Rightarrow> exn option" where
  "validate_positive name v =
     (if v \<le> 0 then Some (ValueError (name @ '' must be a positive integer'')) else None)"

definition per_rank_bytes :: "lifecycle \<Rightarrow> int \<Rightarrow> exn + int" where
  "per_rank_bytes s tokens = kv_capacity_bytes_per_rank (tl_hardware s) tokens"

definition aggregate_bytes :: "lifecycle \<Rightarrow> int \<Rightarrow> exn + int" where
  "aggregate_bytes s tokens =
     ebind (per_rank_bytes s tokens) (\<lambda>b. Inr (b * tp_size (tl_hardware s)))"

definition tier_bytes_of :: "lifecycle \<Rightarrow> tier \<Rightarrow> int \<Rightarrow> exn + int" where
  "tier_bytes_of s t tokens =
     (if t = Tier_D then per_rank_bytes s tokens else aggregate_bytes s tokens)"

fun ledger_of :: "tier \<Rightarrow> lifecycle \<Rightarrow> byte_ledger" where
  "ledger_of Tier_D s = tl_d_ledger s"
| "ledger_of Tier_CPU s = tl_cpu_ledger s"
| "ledger_of Tier_SSD s = tl_ssd_ledger s"

fun set_ledger :: "tier \<Rightarrow> byte_ledger \<Rightarrow> lifecycle \<Rightarrow> lifecycle" where
  "set_ledger Tier_D l s = s\<lparr>tl_d_ledger := l\<rparr>"
| "set_ledger Tier_CPU l s = s\<lparr>tl_cpu_ledger := l\<rparr>"
| "set_ledger Tier_SSD l s = s\<lparr>tl_ssd_ledger := l\<rparr>"

text \<open>Running a ledger's operation inside the lifecycle.\<close>

definition on_ledger ::
  "tier \<Rightarrow> (byte_ledger \<Rightarrow> ('a, byte_ledger) outcome) \<Rightarrow> lifecycle \<Rightarrow> ('a, lifecycle) outcome" where
  "on_ledger t f s = (case f (ledger_of t s) of (r, l) \<Rightarrow> (r, set_ledger t l s))"

definition on_p_ledger ::
  "(byte_ledger \<Rightarrow> ('a, byte_ledger) outcome) \<Rightarrow> lifecycle \<Rightarrow> ('a, lifecycle) outcome" where
  "on_p_ledger f s = (case f (tl_p_ledger s) of (r, l) \<Rightarrow> (r, s\<lparr>tl_p_ledger := l\<rparr>))"

text \<open>Assignments to attributes of shared objects.\<close>

definition upd_session :: "string \<Rightarrow> (tier_session \<Rightarrow> tier_session) \<Rightarrow> lifecycle \<Rightarrow> lifecycle" where
  "upd_session sid f s = (case dget (tl_sessions s) sid of
     None \<Rightarrow> s | Some r \<Rightarrow> s\<lparr>tl_sessions := dput sid (f r) (tl_sessions s)\<rparr>)"

definition upd_copy :: "int \<Rightarrow> (tier_copy \<Rightarrow> tier_copy) \<Rightarrow> lifecycle \<Rightarrow> lifecycle" where
  "upd_copy cid f s = (case dget (tl_copies s) cid of
     None \<Rightarrow> s | Some c \<Rightarrow> s\<lparr>tl_copies := dput cid (f c) (tl_copies s)\<rparr>)"

definition upd_job :: "int \<Rightarrow> (transfer_job \<Rightarrow> transfer_job) \<Rightarrow> lifecycle \<Rightarrow> lifecycle" where
  "upd_job jid f s = (case dget (tl_jobs s) jid of
     None \<Rightarrow> s | Some j \<Rightarrow> s\<lparr>tl_jobs := dput jid (f j) (tl_jobs s)\<rparr>)"

definition upd_prepare :: "int \<Rightarrow> (prepare_ticket \<Rightarrow> prepare_ticket) \<Rightarrow> lifecycle \<Rightarrow> lifecycle" where
  "upd_prepare pid f s = (case dget (tl_prepares s) pid of
     None \<Rightarrow> s | Some p \<Rightarrow> s\<lparr>tl_prepares := dput pid (f p) (tl_prepares s)\<rparr>)"

definition upd_export :: "int \<Rightarrow> (export_ticket \<Rightarrow> export_ticket) \<Rightarrow> lifecycle \<Rightarrow> lifecycle" where
  "upd_export xid f s = (case dget (tl_ssd_exports s) xid of
     None \<Rightarrow> s | Some x \<Rightarrow> s\<lparr>tl_ssd_exports := dput xid (f x) (tl_ssd_exports s)\<rparr>)"

definition upd_metrics :: "(lifecycle_metrics \<Rightarrow> lifecycle_metrics) \<Rightarrow> lifecycle \<Rightarrow> lifecycle" where
  "upd_metrics f s = s\<lparr>tl_metrics := f (tl_metrics s)\<rparr>"

definition set_add :: "'a \<Rightarrow> 'a list \<Rightarrow> 'a list" where
  "set_add x xs = (if x \<in> set xs then xs else xs @ [x])"

definition tl_node_name :: "lifecycle \<Rightarrow> string" where
  "tl_node_name s = ''node-'' @ show_int (tl_node_id s)"

definition copy_owner :: "lifecycle \<Rightarrow> tier \<Rightarrow> int \<Rightarrow> string" where
  "copy_owner s t copy_id = tl_node_name s @ '':'' @ tier_value t @ '':copy:'' @ show_int copy_id"

section \<open>The run-time self check\<close>

definition option_bytes :: "byte_ledger \<Rightarrow> string option \<Rightarrow> int" where
  "option_bytes l w = (case w of None \<Rightarrow> 0 | Some v \<Rightarrow> owner_bytes l v)"

definition heap_check :: "lifecycle \<Rightarrow> exn option" where
  "heap_check s =
     (let ids = map snd (tl_completion_heap s)
      in if \<not> distinct ids then Some (AssertionError ''duplicate transfer completion event'')
         else find_error (\<lambda>j. case dget (tl_jobs s) j of
             None \<Rightarrow> Some KeyError
           | Some job \<Rightarrow> if tj_status job \<noteq> JOB_RUNNING
               then Some (AssertionError ''non-running job remains on completion heap'') else None) ids)"

definition demotion_check :: "lifecycle \<Rightarrow> int \<Rightarrow> int \<Rightarrow> transfer_job \<Rightarrow> exn option" where
  "demotion_check s destination_bytes bounce_bytes job =
     (if tj_status job = JOB_RUNNING
      then (case Option.bind (tj_source_copy_id job) (dget (tl_copies s)) of
          None \<Rightarrow> Some (AssertionError ''running demotion has no source copy'')
        | Some source \<Rightarrow>
            (let expected = (if tc_tier source = Tier_D
                 then tc_byte_count source * tp_size (tl_hardware s) else tc_byte_count source);
                 expected_bounce = (if tj_bounce_owner job \<noteq> None then expected else 0)
             in first_error
                  [(destination_bytes \<noteq> expected,
                     AssertionError ''running demotion destination ownership mismatch''),
                   (bounce_bytes \<noteq> expected_bounce,
                     AssertionError ''running demotion bounce ownership mismatch'')]))
      else if destination_bytes \<noteq> 0 \<or> bounce_bytes \<noteq> 0
      then Some (AssertionError ''completed demotion retains destination capacity'') else None)"

definition export_job_check :: "lifecycle \<Rightarrow> int \<Rightarrow> int \<Rightarrow> transfer_job \<Rightarrow> exn option" where
  "export_job_check s destination_bytes bounce_bytes job =
     (case Option.bind (dget (tl_export_id_by_job s) (tj_job_id job)) (dget (tl_ssd_exports s)) of
        None \<Rightarrow> Some (AssertionError ''SSD export job lacks a ticket index'')
      | Some ticket \<Rightarrow> first_error
          [(destination_bytes \<noteq> 0, AssertionError ''SSD export unexpectedly owns tier capacity''),
           ((ex_status ticket \<in> {EX_RUNNING, EX_ABORT_PENDING}) \<noteq> (tj_status job = JOB_RUNNING),
             AssertionError ''SSD export physical/ticket status mismatch''),
           (bounce_bytes \<noteq> (if ex_resources_released ticket then 0 else ex_byte_count ticket),
             AssertionError ''SSD export CPU bounce ownership mismatch''),
           (\<not> ex_resources_released ticket \<and>
              (case dget (tl_copies s) (ex_source_copy_id ticket) of
                 None \<Rightarrow> True | Some source \<Rightarrow> tc_export_pins source \<le> 0),
             AssertionError ''SSD export ticket lost its source pin'')])"

definition job_check :: "lifecycle \<Rightarrow> transfer_job \<Rightarrow> exn option" where
  "job_check s job =
     (let destination_bytes = (case tj_destination job of None \<Rightarrow> 0
            | Some t \<Rightarrow> option_bytes (ledger_of t s) (tj_destination_owner job));
          bounce_bytes = option_bytes (tl_cpu_ledger s) (tj_bounce_owner job)
      in case tj_kind job of
          DEMOTION \<Rightarrow> demotion_check s destination_bytes bounce_bytes job
        | SSD_EXPORT \<Rightarrow> export_job_check s destination_bytes bounce_bytes job
        | PREPARE \<Rightarrow>
            (if tj_bounce_owner job = None then None
             else first_error
               [(tj_status job = JOB_RUNNING \<and> bounce_bytes \<le> 0,
                  AssertionError ''running prepare lost bounce ownership''),
                (tj_status job \<noteq> JOB_RUNNING \<and> bounce_bytes \<noteq> 0,
                  AssertionError ''completed prepare retains bounce capacity'')]))"

definition copy_check :: "lifecycle \<Rightarrow> int \<times> tier_copy \<Rightarrow> exn option" where
  "copy_check s = (\<lambda>(copy_id, c). first_error
     [(tc_copy_id c \<noteq> copy_id, AssertionError ''copy index mismatch''),
      (case dget (tl_sessions s) (tc_session_id c) of
         None \<Rightarrow> True | Some r \<Rightarrow> copy_id \<notin> set (se_copy_ids r),
        AssertionError ''copy has no session owner''),
      (tc_demotion_pins c < 0 \<or> tc_foreground_pins c < 0 \<or> tc_export_pins c < 0,
        AssertionError ''copy pin underflow''),
      (owner_bytes (ledger_of (tc_tier c) s) (tc_ledger_owner c) \<noteq> tc_byte_count c,
        AssertionError ''copy ledger ownership mismatch'')])"

definition primary_check :: "lifecycle \<Rightarrow> tier_session \<Rightarrow> exn option" where
  "primary_check s r =
     (case se_primary_copy_id r of
        Some cid \<Rightarrow>
          (case dget (tl_copies s) cid of
             None \<Rightarrow> Some (AssertionError ''primary copy index mismatch'')
           | Some c \<Rightarrow> first_error
               [(tc_session_id c \<noteq> se_session_id r, AssertionError ''primary copy index mismatch''),
                (se_primary r \<noteq> Some (tc_tier c), AssertionError ''primary tier mismatch'')])
      | None \<Rightarrow> if se_primary r \<noteq> None
                then Some (AssertionError ''primary tier has no copy'') else None)"

definition session_check :: "lifecycle \<Rightarrow> tier_session \<Rightarrow> exn option" where
  "session_check s r =
     or_else (primary_check s r)
       (or_else
         (find_error (\<lambda>cid. if dget (tl_copies s) cid = None
            then Some (AssertionError ''session references missing copy'') else None) (se_copy_ids r))
         (find_error (\<lambda>jid. case dget (tl_jobs s) jid of
              None \<Rightarrow> Some (AssertionError ''pending transfer index mismatch'')
            | Some job \<Rightarrow> if tj_status job \<noteq> JOB_RUNNING \<or> tj_session_id job \<noteq> se_session_id r
                then Some (AssertionError ''pending transfer index mismatch'') else None)
           (se_pending_job_ids r)))"

definition prepare_check :: "lifecycle \<Rightarrow> prepare_ticket \<Rightarrow> exn option" where
  "prepare_check s t = first_error
     [(pt_pool_released t \<noteq> (pt_pool_release_ns t \<noteq> None),
        AssertionError ''prepare pool-publication timestamp mismatch''),
      (pt_active t \<and> \<not> pt_completed t, AssertionError ''active prepare is not physically complete''),
      (pt_restore_layer_ready_ns t \<noteq> [] \<and>
         (pt_restore_execution_mode t \<noteq> RESTORE_EXECUTION_LAYERWISE \<or>
          pt_source t \<notin> {Some Tier_CPU, Some Tier_SSD} \<or>
          int (length (pt_restore_layer_ready_ns t)) \<noteq> QWEN_LAYERS \<or>
          sort (pt_restore_layer_ready_ns t) \<noteq> pt_restore_layer_ready_ns t \<or>
          last (pt_restore_layer_ready_ns t) \<noteq> pt_completion_ns t),
        AssertionError ''invalid layer-wise restore readiness contract''),
      (pt_restore_layer_ready_ns t = [] \<and> pt_restore_execution_mode t \<noteq> RESTORE_EXECUTION_BULK,
        AssertionError ''non-streaming prepare has a streaming mode''),
      (pt_pool_released t \<and> \<not> pt_completed t \<and> pt_restore_layer_ready_ns t = [],
        AssertionError ''incomplete bulk prepare reached execution''),
      (pt_committed t \<and> \<not> pt_p_released t,
        AssertionError ''committed ticket did not release P destination''),
      (pt_p_released t \<and> owner_bytes (tl_p_ledger s) (pt_p_owner t) \<noteq> 0,
        AssertionError ''released ticket retains P destination''),
      (\<not> pt_p_released t \<and> owner_bytes (tl_p_ledger s) (pt_p_owner t) \<noteq> pt_p_bytes_per_rank t,
        AssertionError ''prepare P destination ownership mismatch''),
      (\<not> pt_committed t \<and> pt_d_owner t = None \<and> pt_d_reserved_bytes_per_rank t \<noteq> 0,
        AssertionError ''prepare D reservation has no owner''),
      (\<not> pt_committed t \<and> pt_d_owner t \<noteq> None \<and>
         option_bytes (tl_d_ledger s) (pt_d_owner t) \<noteq> pt_d_reserved_bytes_per_rank t,
        AssertionError ''prepare D destination ownership mismatch''),
      (pt_committed t \<and> option_bytes (tl_d_ledger s) (pt_d_owner t) \<noteq> 0,
        AssertionError ''committed ticket retains D destination'')]"

definition export_check :: "lifecycle \<Rightarrow> int \<times> export_ticket \<Rightarrow> exn option" where
  "export_check s = (\<lambda>(export_id, x). first_error
     [(ex_export_id x \<noteq> export_id, AssertionError ''SSD export ticket index mismatch''),
      (case dget (tl_jobs s) (ex_job_id x) of
         None \<Rightarrow> True
       | Some job \<Rightarrow> tj_kind job \<noteq> SSD_EXPORT \<or>
           dget (tl_export_id_by_job s) (tj_job_id job) \<noteq> Some export_id,
        AssertionError ''SSD export ticket lacks its physical job''),
      (ex_resources_released x \<and> owner_bytes (tl_cpu_ledger s) (ex_bounce_owner x) \<noteq> 0,
        AssertionError ''released SSD export retains CPU bounce''),
      (ex_resources_released x \<and> ex_status x \<notin> {EX_FINISHED, EX_ABORTED},
        AssertionError ''live SSD export released its owners''),
      (\<not> ex_resources_released x \<and>
         owner_bytes (tl_cpu_ledger s) (ex_bounce_owner x) \<noteq> ex_byte_count x,
        AssertionError ''live SSD export lost CPU bounce ownership'')])"

definition unresolved_export_pins :: "lifecycle \<Rightarrow> int \<Rightarrow> int" where
  "unresolved_export_pins s copy_id =
     int (length (filter (\<lambda>x. \<not> ex_resources_released x \<and> ex_source_copy_id x = copy_id)
       (dvalues (tl_ssd_exports s))))"

definition export_pin_check :: "lifecycle \<Rightarrow> int \<times> tier_copy \<Rightarrow> exn option" where
  "export_pin_check s = (\<lambda>(copy_id, c).
     if tc_export_pins c \<noteq> unresolved_export_pins s copy_id
     then Some (AssertionError ''SSD export source pin index mismatch'') else None)"

definition lifecycle_check :: "lifecycle \<Rightarrow> exn option" where
  "lifecycle_check s =
     or_else (find_error ledger_check [tl_p_ledger s, tl_d_ledger s, tl_cpu_ledger s, tl_ssd_ledger s])
     (or_else (heap_check s)
     (or_else (find_error (job_check s) (dvalues (tl_jobs s)))
     (or_else (find_error (copy_check s) (tl_copies s))
     (or_else (find_error (session_check s) (dvalues (tl_sessions s)))
     (or_else (find_error (prepare_check s) (dvalues (tl_prepares s)))
     (or_else (find_error (export_check s) (tl_ssd_exports s))
       (find_error (export_pin_check s) (tl_copies s))))))))"

text \<open>\<^verbatim>\<open>_maybe_assert_invariants\<close> at the end of an operation that returns \<open>x\<close>.\<close>

definition checked :: "'a \<Rightarrow> lifecycle \<Rightarrow> ('a, lifecycle) outcome" where
  "checked x s =
     (if tl_validate_every_event s
      then (case lifecycle_check s of Some e \<Rightarrow> (Inl e, s) | None \<Rightarrow> (Inr x, s))
      else (Inr x, s))"

end
