(* ===== verification/Tier_Lifecycle.thy ===== *)
theory Tier_Lifecycle
  imports Tier_State
begin

text \<open>
  The operations of \<^verbatim>\<open>TieredPDKVLifecycle\<close> (\<^verbatim>\<open>serving/core/gpu_pd_tier_lifecycle.py\<close>): each is
  the method's body, statement by statement, on the state of \<^verbatim>\<open>Tier_State\<close>.  Raising keeps what
  was assigned before.  \<^verbatim>\<open>advance\<close> pops one completion per iteration and a completion schedules no
  new transfer, so the length of the heap is enough fuel.
\<close>

section \<open>Copies\<close>

definition new_copy ::
  "string \<Rightarrow> tier \<Rightarrow> int \<Rightarrow> int \<Rightarrow> int \<Rightarrow> string option \<Rightarrow> lifecycle \<Rightarrow> (tier_copy, lifecycle) outcome" where
  "new_copy sid t version generation tokens existing_owner s =
     (let copy_id = tl_next_copy_id s;
          s = s\<lparr>tl_next_copy_id := copy_id + 1\<rparr>
      in andthen (lift_err (tier_bytes_of s t tokens) s) (\<lambda>byte_count s.
         let owner = copy_owner s t copy_id in
         andthen
           (case existing_owner of
              None \<Rightarrow> andthen (on_ledger t (ledger_reserve owner byte_count) s) (\<lambda>reserved s.
                if \<not> reserved
                then (Inl (RuntimeError (tier_value t @ '' capacity changed before copy commit'')), s)
                else (Inr (), s))
            | Some old \<Rightarrow> on_ledger t (ledger_replace [old] (Some owner) byte_count) s)
           (\<lambda>_ s.
             let c = \<lparr>tc_copy_id = copy_id, tc_session_id = sid, tc_tier = t, tc_version = version,
                      tc_generation = generation, tc_tokens = tokens, tc_byte_count = byte_count,
                      tc_ledger_owner = owner, tc_demotion_pins = 0, tc_foreground_pins = 0,
                      tc_export_pins = 0, tc_retired = False, tc_shadow = False\<rparr>
             in (Inr c, upd_session sid (\<lambda>r. r\<lparr>se_copy_ids := set_add copy_id (se_copy_ids r)\<rparr>)
                   (s\<lparr>tl_copies := dput copy_id c (tl_copies s)\<rparr>)))))"

definition release_copy :: "tier_copy \<Rightarrow> lifecycle \<Rightarrow> (unit, lifecycle) outcome" where
  "release_copy c s =
     (if tc_pins c \<noteq> 0 then (Inr (), upd_copy (tc_copy_id c) (\<lambda>c. c\<lparr>tc_retired := True\<rparr>) s)
      else case dget (tl_sessions s) (tc_session_id c) of
        None \<Rightarrow> (Inl KeyError, s)
      | Some _ \<Rightarrow>
          andthen (on_ledger (tc_tier c) (ledger_release (tc_ledger_owner c)) s) (\<lambda>_ s.
            let s = upd_session (tc_session_id c) (\<lambda>r.
                  let r = r\<lparr>se_copy_ids := removeAll (tc_copy_id c) (se_copy_ids r)\<rparr>
                  in if se_primary_copy_id r = Some (tc_copy_id c)
                     then r\<lparr>se_primary_copy_id := None, se_primary := None\<rparr> else r) s;
                s = s\<lparr>tl_copies := dpop (tc_copy_id c) (tl_copies s)\<rparr>
            in (Inr (), upd_metrics (\<lambda>m. m\<lparr>lm_retired_copy_releases :=
                  lm_retired_copy_releases m + (if tc_retired c then 1 else 0)\<rparr>) s)))"

definition maybe_release_retired :: "tier_copy \<Rightarrow> lifecycle \<Rightarrow> (unit, lifecycle) outcome" where
  "maybe_release_retired c s =
     (if tc_retired c \<and> tc_pins c = 0 then release_copy c s else (Inr (), s))"

text \<open>\<^verbatim>\<open>copy.retired = True\<close> (and \<^verbatim>\<open>copy.shadow = False\<close>) followed by a release.\<close>

definition retire_and_release :: "tier_copy \<Rightarrow> lifecycle \<Rightarrow> (unit, lifecycle) outcome" where
  "retire_and_release c s =
     release_copy (c\<lparr>tc_retired := True\<rparr>) (upd_copy (tc_copy_id c) (\<lambda>c. c\<lparr>tc_retired := True\<rparr>) s)"

fun retire_copies :: "int list \<Rightarrow> int option \<Rightarrow> lifecycle \<Rightarrow> (unit, lifecycle) outcome" where
  "retire_copies [] keep s = (Inr (), s)"
| "retire_copies (cid # cids) keep s =
     (case dget (tl_copies s) cid of
        None \<Rightarrow> retire_copies cids keep s
      | Some c \<Rightarrow>
          if keep = Some (tc_copy_id c) then retire_copies cids keep s
          else andthen (maybe_release_retired (c\<lparr>tc_retired := True, tc_shadow := False\<rparr>)
                 (upd_copy cid (\<lambda>c. c\<lparr>tc_retired := True, tc_shadow := False\<rparr>) s))
               (\<lambda>_ s. retire_copies cids keep s))"

definition set_primary :: "tier_copy \<Rightarrow> session_state \<Rightarrow> tier_session \<Rightarrow> tier_session" where
  "set_primary c st r = r\<lparr>se_primary := Some (tc_tier c), se_primary_copy_id := Some (tc_copy_id c),
     se_tokens := tc_tokens c, se_state := st\<rparr>"

definition primary_copy :: "lifecycle \<Rightarrow> tier_session \<Rightarrow> exn + tier_copy option" where
  "primary_copy s r =
     (case se_primary_copy_id r of
        None \<Rightarrow> Inr None
      | Some cid \<Rightarrow> (case dget (tl_copies s) cid of None \<Rightarrow> Inl KeyError | Some c \<Rightarrow> Inr (Some c)))"

definition lose_session :: "int \<Rightarrow> string \<Rightarrow> lifecycle \<Rightarrow> lifecycle" where
  "lose_session now sid s = upd_session sid
     (\<lambda>r. r\<lparr>se_state := LOST, se_tokens := 0, se_generation := se_generation r + 1,
            se_last_access_ns := now\<rparr>) s"

section \<open>Completions\<close>

definition release_export_resources :: "int \<Rightarrow> lifecycle \<Rightarrow> (unit, lifecycle) outcome" where
  "release_export_resources xid s =
     (case dget (tl_ssd_exports s) xid of None \<Rightarrow> (Inl KeyError, s) | Some x \<Rightarrow>
      if ex_resources_released x
      then (Inl (RuntimeError ''SSD export resources were already released''), s)
      else case dget (tl_copies s) (ex_source_copy_id x) of
        None \<Rightarrow> (Inl (AssertionError ''SSD export source pin is missing''), s)
      | Some source \<Rightarrow>
          if tc_export_pins source \<le> 0
          then (Inl (AssertionError ''SSD export source pin is missing''), s)
          else andthen (on_ledger Tier_CPU (ledger_release (ex_bounce_owner x)) s) (\<lambda>released s.
            if released \<noteq> ex_byte_count x
            then (Inl (AssertionError ''SSD export CPU bounce ownership mismatch''), s)
            else
              let source = source\<lparr>tc_export_pins := tc_export_pins source - 1\<rparr>;
                  s = upd_copy (ex_source_copy_id x) (\<lambda>_. source) s;
                  s = upd_export xid (\<lambda>x. x\<lparr>ex_resources_released := True\<rparr>) s
              in maybe_release_retired source s))"

definition drop_pending :: "transfer_job \<Rightarrow> lifecycle \<Rightarrow> lifecycle" where
  "drop_pending job s = upd_session (tj_session_id job)
     (\<lambda>r. r\<lparr>se_pending_job_ids := removeAll (tj_job_id job) (se_pending_job_ids r)\<rparr>) s"

definition complete_ssd_export :: "transfer_job \<Rightarrow> lifecycle \<Rightarrow> (unit, lifecycle) outcome" where
  "complete_ssd_export job s =
     (case dget (tl_sessions s) (tj_session_id job) of None \<Rightarrow> (Inl KeyError, s) | Some _ \<Rightarrow>
      let s = drop_pending job s in
      case Option.bind (dget (tl_export_id_by_job s) (tj_job_id job)) (dget (tl_ssd_exports s)) of
        None \<Rightarrow> (Inl (AssertionError ''SSD export job lacks its public ticket''), s)
      | Some x \<Rightarrow>
          if ex_job_id x \<noteq> tj_job_id job
          then (Inl (AssertionError ''SSD export job/ticket index mismatch''), s)
          else if ex_status x \<notin> {EX_RUNNING, EX_ABORT_PENDING}
          then (Inl (AssertionError ''physically completing SSD export has invalid status''), s)
          else
            let s = upd_job (tj_job_id job) (\<lambda>j. j\<lparr>tj_status := JOB_COMPLETE\<rparr>) s;
                s = upd_metrics (\<lambda>m. m\<lparr>lm_ssd_export_completed := lm_ssd_export_completed m + 1\<rparr>) s
            in if ex_status x = EX_ABORT_PENDING
               then andthen (release_export_resources (ex_export_id x) s) (\<lambda>_ s.
                 (Inr (), upd_metrics (\<lambda>m. m\<lparr>lm_ssd_export_aborted := lm_ssd_export_aborted m + 1\<rparr>)
                   (upd_export (ex_export_id x) (\<lambda>x. x\<lparr>ex_status := EX_ABORTED\<rparr>) s)))
               else (Inr (), upd_export (ex_export_id x) (\<lambda>x. x\<lparr>ex_status := EX_READY\<rparr>) s))"

definition release_stable_d_source :: "prepare_ticket \<Rightarrow> lifecycle \<Rightarrow> (unit, lifecycle) outcome" where
  "release_stable_d_source t s =
     (if pt_d_reuse_copy_id t = None \<or> pt_full_d_reservation t then (Inr (), s)
      else case Option.bind (pt_d_reuse_copy_id t) (dget (tl_copies s)) of
        None \<Rightarrow> (Inr (), s)
      | Some source \<Rightarrow>
          if tc_tier source \<noteq> Tier_D \<or> tc_pins source \<noteq> 0 then (Inr (), s)
          else let held = tc_byte_count source in
            if \<not> pt_needs_d t
            then andthen (retire_and_release source s) (\<lambda>_ s.
              (Inr (), upd_metrics (\<lambda>m. m\<lparr>lm_d_source_bytes_released_early :=
                    lm_d_source_bytes_released_early m + held\<rparr>)
                (upd_prepare (pt_prepare_id t) (\<lambda>t. t\<lparr>pt_d_reuse_copy_id := None\<rparr>) s)))
            else let target = pt_d_target_bytes_per_rank t in
              if held \<le> target then (Inr (), s)
              else andthen (on_ledger Tier_D (set_bytes (tc_ledger_owner source) target) s) (\<lambda>_ s.
                let tokens = min (tc_tokens source) (pt_final_tokens t);
                    s = upd_copy (tc_copy_id source)
                          (\<lambda>c. c\<lparr>tc_byte_count := target, tc_tokens := tokens\<rparr>) s
                in case dget (tl_sessions s) (pt_session_id t) of
                    None \<Rightarrow> (Inl KeyError, s)
                  | Some r \<Rightarrow>
                      let s = (if se_primary_copy_id r = Some (tc_copy_id source)
                               then upd_session (pt_session_id t) (\<lambda>r. r\<lparr>se_tokens := tokens\<rparr>) s
                               else s)
                      in (Inr (), upd_metrics (\<lambda>m. m\<lparr>lm_d_source_bytes_released_early :=
                            lm_d_source_bytes_released_early m + (held - target)\<rparr>) s)))"

definition unpin_foreground :: "transfer_job \<Rightarrow> lifecycle \<Rightarrow> (unit, lifecycle) outcome" where
  "unpin_foreground job s =
     (case Option.bind (tj_source_copy_id job) (dget (tl_copies s)) of
        None \<Rightarrow> (Inr (), s)
      | Some source \<Rightarrow>
          if tc_foreground_pins source \<le> 0
          then (Inl (AssertionError ''foreground source pin underflow''), s)
          else
            let source = source\<lparr>tc_foreground_pins := tc_foreground_pins source - 1\<rparr>
            in maybe_release_retired source (upd_copy (tc_copy_id source) (\<lambda>_. source) s))"

definition release_bounce :: "transfer_job \<Rightarrow> lifecycle \<Rightarrow> (unit, lifecycle) outcome" where
  "release_bounce job s =
     (case tj_bounce_owner job of
        None \<Rightarrow> (Inr (), s)
      | Some w \<Rightarrow> andthen (on_ledger Tier_CPU (ledger_release w) s) (\<lambda>_ s. (Inr (), s)))"

definition complete_prepare :: "transfer_job \<Rightarrow> lifecycle \<Rightarrow> (unit, lifecycle) outcome" where
  "complete_prepare job s =
     (case dget (tl_sessions s) (tj_session_id job) of None \<Rightarrow> (Inl KeyError, s) | Some _ \<Rightarrow>
      let s = drop_pending job s in
      case find (\<lambda>t. pt_job_id t = tj_job_id job) (dvalues (tl_prepares s)) of
        None \<Rightarrow> (Inl StopIteration, s)
      | Some t \<Rightarrow>
          andthen (unpin_foreground job s) (\<lambda>_ s.
          andthen (release_bounce job s) (\<lambda>_ s.
          andthen (release_stable_d_source t s) (\<lambda>_ s.
            let s = upd_job (tj_job_id job) (\<lambda>j. j\<lparr>tj_status := JOB_COMPLETE\<rparr>) s;
                s = upd_prepare (pt_prepare_id t) (\<lambda>t. t\<lparr>pt_completed := True\<rparr>) s;
                s = s\<lparr>tl_completed_prepares := tl_completed_prepares s @ [pt_prepare_id t]\<rparr>
            in (Inr (), upd_metrics
                 (\<lambda>m. m\<lparr>lm_prepare_completed := lm_prepare_completed m + 1\<rparr>) s)))))"

definition stage_bytes_total :: "scheduled_stage list \<Rightarrow> int" where
  "stage_bytes_total stages = sum_list (map (ts_aggregate_bytes \<circ> ss_stage) stages)"

definition demotion_valid :: "transfer_job \<Rightarrow> tier_copy \<Rightarrow> tier_session \<Rightarrow> bool" where
  "demotion_valid job source r \<longleftrightarrow>
     se_version r = tj_snapshot_version job \<and> se_generation r = tj_snapshot_generation job \<and>
     se_primary_copy_id r = Some (tc_copy_id source) \<and>
     se_state r \<in> {D_DEMOTING_CPU, D_DEMOTING_SSD, CPU_DEMOTING_SSD}"

definition commit_demotion :: "transfer_job \<Rightarrow> tier_copy \<Rightarrow> lifecycle \<Rightarrow> (unit, lifecycle) outcome" where
  "commit_demotion job source s =
     (case (tj_destination job, tj_destination_owner job) of
        (Some dest, Some w) \<Rightarrow>
          andthen (new_copy (tj_session_id job) dest (tc_version source) (tc_generation source)
              (tc_tokens source) (Some w) s) (\<lambda>destination s.
          andthen (retire_and_release source s) (\<lambda>_ s.
            if dest = Tier_D then (Inl KeyError, s)
            else
              let ready = (if dest = Tier_CPU then CPU_READY else SSD_READY);
                  s = upd_session (tj_session_id job) (set_primary destination ready) s;
                  s = upd_job (tj_job_id job) (\<lambda>j. j\<lparr>tj_status := JOB_COMMITTED\<rparr>) s
              in (Inr (), upd_metrics
                   (\<lambda>m. m\<lparr>lm_demotions_committed := lm_demotions_committed m + 1\<rparr>) s)))
      | _ \<Rightarrow> (Inl (AssertionError ''demotion has no destination reservation''), s))"

definition discard_demotion :: "transfer_job \<Rightarrow> tier_copy \<Rightarrow> lifecycle \<Rightarrow> (unit, lifecycle) outcome" where
  "discard_demotion job source s =
     andthen
       (case (tj_destination job, tj_destination_owner job) of
          (Some dest, Some w) \<Rightarrow> andthen (on_ledger dest (ledger_release w) s) (\<lambda>_ s. (Inr (), s))
        | _ \<Rightarrow> (Inr (), s))
       (\<lambda>_ s.
         let s = upd_job (tj_job_id job) (\<lambda>j. j\<lparr>tj_status := JOB_STALE\<rparr>) s;
             s = upd_metrics (\<lambda>m. m\<lparr>lm_stale_demotions := lm_stale_demotions m + 1,
                   lm_stale_transfer_bytes := lm_stale_transfer_bytes m
                     + stage_bytes_total (tj_stages job)\<rparr>) s
         in maybe_release_retired source s)"

definition complete_demotion :: "transfer_job \<Rightarrow> lifecycle \<Rightarrow> (unit, lifecycle) outcome" where
  "complete_demotion job s =
     (case dget (tl_sessions s) (tj_session_id job) of None \<Rightarrow> (Inl KeyError, s) | Some _ \<Rightarrow>
      let s = drop_pending job s in
      case Option.bind (tj_source_copy_id job) (dget (tl_copies s)) of
        None \<Rightarrow> (Inl (AssertionError ''demotion source pin is missing''), s)
      | Some source \<Rightarrow>
          if tc_demotion_pins source \<le> 0
          then (Inl (AssertionError ''demotion source pin is missing''), s)
          else
            let source = source\<lparr>tc_demotion_pins := tc_demotion_pins source - 1\<rparr>;
                s = upd_copy (tc_copy_id source) (\<lambda>_. source) s
            in case dget (tl_sessions s) (tj_session_id job) of None \<Rightarrow> (Inl KeyError, s) | Some r \<Rightarrow>
               andthen (if demotion_valid job source r then commit_demotion job source s
                        else discard_demotion job source s)
                 (\<lambda>_ s. release_bounce job s))"

section \<open>Time\<close>

definition complete_job :: "transfer_job \<Rightarrow> lifecycle \<Rightarrow> (unit, lifecycle) outcome" where
  "complete_job job s =
     (case tj_kind job of
        DEMOTION \<Rightarrow> complete_demotion job s
      | PREPARE \<Rightarrow> complete_prepare job s
      | SSD_EXPORT \<Rightarrow> complete_ssd_export job s)"

fun advance_completions :: "nat \<Rightarrow> int \<Rightarrow> lifecycle \<Rightarrow> (unit, lifecycle) outcome" where
  "advance_completions fuel now s =
     (case heappeek (tl_completion_heap s) of
        None \<Rightarrow> (Inr (), s)
      | Some (t, jid) \<Rightarrow>
          if now < t then (Inr (), s)
          else case fuel of 0 \<Rightarrow> (Inl OutOfFuel, s) | Suc fuel \<Rightarrow>
            let s = s\<lparr>tl_completion_heap := heappop (tl_completion_heap s), tl_current_ns := t\<rparr>
            in case dget (tl_jobs s) jid of
                None \<Rightarrow> (Inl KeyError, s)
              | Some job \<Rightarrow>
                  if tj_status job \<noteq> JOB_RUNNING
                  then (Inl (AssertionError ''completed job remained on heap''), s)
                  else andthen (complete_job job s) (\<lambda>_ s. advance_completions fuel now s))"

declare advance_completions.simps [simp del]

definition tier_advance :: "int \<Rightarrow> lifecycle \<Rightarrow> (unit, lifecycle) outcome" where
  "tier_advance now s =
     (case validate_time now of Some e \<Rightarrow> (Inl e, s) | None \<Rightarrow>
      if now < tl_current_ns s
      then (Inl (ValueError ''cannot move lifecycle time backwards''), s)
      else andthen (advance_completions (length (tl_completion_heap s)) now s)
        (\<lambda>_ s. checked () (s\<lparr>tl_current_ns := now\<rparr>)))"

definition tier_next_event_ns :: "lifecycle \<Rightarrow> int option" where
  "tier_next_event_ns s = map_option fst (heappeek (tl_completion_heap s))"

text \<open>An operation's argument checks, in order, then \<^verbatim>\<open>self.advance(now_ns)\<close>.\<close>

definition guarded :: "exn option \<Rightarrow> lifecycle \<Rightarrow> (lifecycle \<Rightarrow> ('a, lifecycle) outcome) \<Rightarrow>
    ('a, lifecycle) outcome" where
  "guarded check s f = (case check of Some e \<Rightarrow> (Inl e, s) | None \<Rightarrow> f s)"

definition at_time :: "exn option \<Rightarrow> int \<Rightarrow> lifecycle \<Rightarrow> (lifecycle \<Rightarrow> ('a, lifecycle) outcome) \<Rightarrow>
    ('a, lifecycle) outcome" where
  "at_time check now s f = guarded check s (\<lambda>s. andthen (tier_advance now s) (\<lambda>_ s. f s))"

section \<open>Registration\<close>

definition register_session ::
  "string \<Rightarrow> tier \<Rightarrow> int \<Rightarrow> int \<Rightarrow> int \<Rightarrow> lifecycle \<Rightarrow> (tier_copy, lifecycle) outcome" where
  "register_session sid t version tokens access_ns s =
     (let r = \<lparr>se_session_id = sid,
               se_state = (case t of Tier_D \<Rightarrow> D_READY | Tier_CPU \<Rightarrow> CPU_READY | Tier_SSD \<Rightarrow> SSD_READY),
               se_generation = 0, se_version = version, se_tokens = tokens, se_primary = Some t,
               se_primary_copy_id = None, se_last_access_ns = access_ns,
               se_active_request_id = None, se_pending_job_ids = [], se_copy_ids = []\<rparr>;
          s = s\<lparr>tl_sessions := dput sid r (tl_sessions s)\<rparr>
      in andthen (new_copy sid t version 0 tokens None s) (\<lambda>c s.
           (Inr c, upd_session sid (\<lambda>r. r\<lparr>se_primary_copy_id := Some (tc_copy_id c)\<rparr>) s)))"

definition context_error :: "int \<Rightarrow> exn option" where
  "context_error tokens =
     (if tokens > MAX_CONTEXT_TOKENS then Some (ValueError ''context exceeds 1010000 tokens'') else None)"

definition register_d_ready ::
  "string \<Rightarrow> int \<Rightarrow> int \<Rightarrow> int option \<Rightarrow> lifecycle \<Rightarrow> (string, lifecycle) outcome" where
  "register_d_ready sid tokens now version s =
     at_time
       (or_else (validate_session sid) (or_else (validate_positive ''tokens'' tokens)
         (or_else (validate_time now) (or_else (context_error tokens)
           (case version of None \<Rightarrow> None | Some v \<Rightarrow> validate_positive ''version'' v)))))
       now s (\<lambda>s.
       if dget (tl_sessions s) sid \<noteq> None
       then (Inl (RuntimeError (''session '' @ py_repr sid @ '' is already registered'')), s)
       else andthen (lift_err (per_rank_bytes s tokens) s) (\<lambda>byte_count s.
         if free_bytes (tl_d_ledger s) < byte_count
         then (Inl (RuntimeError
                ''D HBM headroom is not available; call ensure_d_headroom and retry''), s)
         else andthen (register_session sid Tier_D (case version of None \<Rightarrow> 1 | Some v \<Rightarrow> v) tokens now s)
           (\<lambda>_ s. checked sid s)))"

definition preload_session ::
  "string \<Rightarrow> int \<Rightarrow> tier \<Rightarrow> int \<Rightarrow> int option \<Rightarrow> int \<Rightarrow> lifecycle \<Rightarrow> (string, lifecycle) outcome" where
  "preload_session sid tokens t now last_access_ns version s =
     (let access_ns = (case last_access_ns of None \<Rightarrow> now | Some a \<Rightarrow> a) in
      at_time
        (or_else (validate_session sid) (or_else (validate_positive ''tokens'' tokens)
          (or_else (validate_time now) (or_else (validate_positive ''version'' version)
            (or_else (context_error tokens)
              (if access_ns < 0 \<or> access_ns > now
               then Some (ValueError
                 ''last_access_ns must be a non-negative integer at or before now_ns'')
               else None))))))
        now s (\<lambda>s.
        if dget (tl_sessions s) sid \<noteq> None
        then (Inl (RuntimeError (''session '' @ py_repr sid @ '' is already registered'')), s)
        else andthen (lift_err (tier_bytes_of s t tokens) s) (\<lambda>byte_count s.
          if free_bytes (ledger_of t s) < byte_count
          then (Inl (RuntimeError (tier_value t @ '' headroom is not available for preload: need=''
                 @ show_int byte_count @ '', free='' @ show_int (free_bytes (ledger_of t s)))), s)
          else andthen (register_session sid t version tokens access_ns s) (\<lambda>_ s.
            checked sid (upd_metrics
              (\<lambda>m. m\<lparr>lm_preloaded_sessions := lm_preloaded_sessions m + 1\<rparr>) s)))))"

section \<open>Scheduling a transfer\<close>

fun schedule_stages ::
  "tier_stage list \<Rightarrow> int \<Rightarrow> int \<Rightarrow> string \<Rightarrow> calendar \<Rightarrow> (scheduled_stage list, calendar) outcome" where
  "schedule_stages [] ready job_id namespace cal = (Inr [], cal)"
| "schedule_stages (st # sts) ready job_id namespace cal =
     andthen (stage_reserve st cal ready job_id namespace) (\<lambda>(start, completion) cal.
     andthen (schedule_stages sts completion job_id namespace cal) (\<lambda>rest cal.
       (Inr (\<lparr>ss_stage = st, ss_start_ns = start, ss_completion_ns = completion\<rparr> # rest), cal)))"

definition schedule_job ::
  "job_kind \<Rightarrow> string \<Rightarrow> int option \<Rightarrow> int option \<Rightarrow> tier option \<Rightarrow> string option \<Rightarrow> string option
     \<Rightarrow> tier_stage list \<Rightarrow> int \<Rightarrow> lifecycle \<Rightarrow> (transfer_job, lifecycle) outcome" where
  "schedule_job kind sid request_id source_copy_id destination destination_owner bounce_owner
     stages ready s =
     (case dget (tl_sessions s) sid of None \<Rightarrow> (Inl KeyError, s) | Some r \<Rightarrow>
      let job_id = tl_next_job_id s;
          s = s\<lparr>tl_next_job_id := job_id + 1\<rparr>;
          (res, cal) = schedule_stages stages ready job_id
            (''gpu-tier-node-'' @ show_int (tl_node_id s)) (tl_calendar s)
      in andthen (res, s\<lparr>tl_calendar := cal\<rparr>) (\<lambda>scheduled s.
         let job = \<lparr>tj_job_id = job_id, tj_kind = kind, tj_session_id = sid,
                tj_request_id = request_id, tj_snapshot_version = se_version r,
                tj_snapshot_generation = se_generation r, tj_source_copy_id = source_copy_id,
                tj_destination = destination, tj_destination_owner = destination_owner,
                tj_bounce_owner = bounce_owner, tj_stages = scheduled,
                tj_start_ns = (if scheduled = [] then ready else ss_start_ns (hd scheduled)),
                tj_completion_ns = (if scheduled = [] then ready else ss_completion_ns (last scheduled)),
                tj_status = JOB_RUNNING\<rparr>;
             s = s\<lparr>tl_jobs := dput job_id job (tl_jobs s)\<rparr>;
             s = upd_session sid
                   (\<lambda>r. r\<lparr>se_pending_job_ids := set_add job_id (se_pending_job_ids r)\<rparr>) s;
             s = s\<lparr>tl_completion_heap :=
                    heappush (tj_completion_ns job, job_id) (tl_completion_heap s)\<rparr>
         in (Inr job, upd_metrics (\<lambda>m. m\<lparr>lm_transfer_bytes :=
               lm_transfer_bytes m + stage_bytes_total scheduled\<rparr>) s)))"

section \<open>Exporting an SSD snapshot\<close>

definition export_source_ok :: "tier_session \<Rightarrow> tier_copy option \<Rightarrow> bool" where
  "export_source_ok r source \<longleftrightarrow>
     se_state r = SSD_READY \<and> se_active_request_id r = None \<and>
     (case source of None \<Rightarrow> False
      | Some c \<Rightarrow> tc_tier c = Tier_SSD \<and> \<not> tc_retired c \<and> \<not> tc_shadow c)"

definition start_export ::
  "string \<Rightarrow> tier_copy \<Rightarrow> int \<Rightarrow> lifecycle \<Rightarrow> (int option, lifecycle) outcome" where
  "start_export sid source now s =
     (let export_id = tl_next_export_id s;
          bounce_owner = tl_node_name s @ '':cpu:ssd-export:'' @ show_int export_id
      in andthen (on_ledger Tier_CPU (ledger_reserve bounce_owner (tc_byte_count source)) s)
           (\<lambda>reserved s.
         if \<not> reserved
         then (Inl (AssertionError ''SSD export CPU capacity precheck diverged''), s)
         else
           let s = upd_copy (tc_copy_id source)
                 (\<lambda>c. c\<lparr>tc_export_pins := tc_export_pins c + 1\<rparr>) s
           in andthen (lift_err (ssd_stage (tl_resources s) (tc_tokens source) ''ssd_to_cpu'') s)
                (\<lambda>stage s.
              andthen (schedule_job SSD_EXPORT sid None (Some (tc_copy_id source)) None None
                  (Some bounce_owner) [stage] now s) (\<lambda>job s.
                let s = s\<lparr>tl_next_export_id := tl_next_export_id s + 1\<rparr>;
                    x = \<lparr>ex_export_id = export_id, ex_job_id = tj_job_id job, ex_session_id = sid,
                         ex_snapshot_version = tj_snapshot_version job,
                         ex_snapshot_generation = tj_snapshot_generation job,
                         ex_source_copy_id = tc_copy_id source, ex_token_count = tc_tokens source,
                         ex_byte_count = tc_byte_count source, ex_bounce_owner = bounce_owner,
                         ex_stages = tj_stages job, ex_start_ns = tj_start_ns job,
                         ex_completion_ns = tj_completion_ns job, ex_status = EX_RUNNING,
                         ex_resources_released = False\<rparr>;
                    s = s\<lparr>tl_ssd_exports := dput export_id x (tl_ssd_exports s),
                          tl_export_id_by_job := dput (tj_job_id job) export_id (tl_export_id_by_job s)\<rparr>
                in checked (Some export_id) (upd_metrics (\<lambda>m.
                     m\<lparr>lm_ssd_export_started := lm_ssd_export_started m + 1,
                       lm_ssd_export_bytes := lm_ssd_export_bytes m + tc_byte_count source\<rparr>) s)))))"

definition begin_ssd_export :: "string \<Rightarrow> int \<Rightarrow> lifecycle \<Rightarrow> (int option, lifecycle) outcome" where
  "begin_ssd_export sid now s =
     at_time (or_else (validate_session sid) (validate_time now)) now s (\<lambda>s.
       case dget (tl_sessions s) sid of None \<Rightarrow> (Inl KeyError, s) | Some r \<Rightarrow>
       andthen (lift_err (primary_copy s r) s) (\<lambda>source s.
         if \<not> export_source_ok r source
         then (Inl (RuntimeError ''SSD export requires an idle authoritative SSD copy''), s)
         else let c = the source in
           if tc_export_pins c \<noteq> 0
           then (Inl (RuntimeError
                  (''session '' @ py_repr sid @ '' already has an SSD export'')), s)
           else if tc_byte_count c > lg_capacity_bytes (tl_cpu_ledger s)
           then (Inl (RuntimeError ''SSD export object exceeds node CPU bounce capacity''), s)
           else if free_bytes (tl_cpu_ledger s) < tc_byte_count c
           then (Inr None, upd_metrics (\<lambda>m. m\<lparr>lm_ssd_export_capacity_deferrals :=
                  lm_ssd_export_capacity_deferrals m + 1\<rparr>) s)
           else start_export sid c now s))"

definition publication_valid :: "lifecycle \<Rightarrow> export_ticket \<Rightarrow> bool" where
  "publication_valid s x \<longleftrightarrow>
     ex_status x \<in> {EX_RUNNING, EX_READY} \<and>
     (case (dget (tl_sessions s) (ex_session_id x), dget (tl_copies s) (ex_source_copy_id x)) of
        (Some r, Some c) \<Rightarrow>
          se_state r = SSD_READY \<and> se_active_request_id r = None \<and>
          se_version r = ex_snapshot_version x \<and> se_generation r = ex_snapshot_generation x \<and>
          se_primary r = Some Tier_SSD \<and> se_primary_copy_id r = Some (tc_copy_id c) \<and>
          tc_tier c = Tier_SSD \<and> tc_version c = ex_snapshot_version x \<and>
          tc_generation c = ex_snapshot_generation x \<and> tc_tokens c = ex_token_count x \<and>
          tc_byte_count c = ex_byte_count x \<and> \<not> tc_retired c \<and> \<not> tc_shadow c
      | _ \<Rightarrow> False)"

definition stale_export :: exn where
  "stale_export = RuntimeError ''unknown or stale SSD export ticket''"

definition ssd_export_publication_valid ::
  "int \<Rightarrow> int option \<Rightarrow> lifecycle \<Rightarrow> (bool, lifecycle) outcome" where
  "ssd_export_publication_valid xid now s =
     andthen (case now of None \<Rightarrow> (Inr (), s)
              | Some t \<Rightarrow> guarded (validate_time t) s (tier_advance t))
       (\<lambda>_ s. case dget (tl_ssd_exports s) xid of
          None \<Rightarrow> (Inl stale_export, s)
        | Some x \<Rightarrow> (Inr (publication_valid s x), s))"

definition finish_ssd_export :: "int \<Rightarrow> int \<Rightarrow> lifecycle \<Rightarrow> (unit, lifecycle) outcome" where
  "finish_ssd_export xid now s =
     at_time (validate_time now) now s (\<lambda>s.
       case dget (tl_ssd_exports s) xid of
         None \<Rightarrow> (Inl stale_export, s)
       | Some x \<Rightarrow>
           if ex_status x \<noteq> EX_READY
           then (Inl (RuntimeError ''SSD export must be physically ready before finish''), s)
           else if \<not> publication_valid s x
           then (Inl (RuntimeError ''invalid SSD export must be aborted, not finished''), s)
           else andthen (release_export_resources xid s) (\<lambda>_ s.
             checked () (upd_metrics
               (\<lambda>m. m\<lparr>lm_ssd_export_finished := lm_ssd_export_finished m + 1\<rparr>)
               (upd_export xid (\<lambda>x. x\<lparr>ex_status := EX_FINISHED\<rparr>) s))))"

definition abort_ssd_export :: "int \<Rightarrow> int \<Rightarrow> lifecycle \<Rightarrow> (bool, lifecycle) outcome" where
  "abort_ssd_export xid now s =
     at_time (validate_time now) now s (\<lambda>s.
       case dget (tl_ssd_exports s) xid of
         None \<Rightarrow> (Inl stale_export, s)
       | Some x \<Rightarrow>
           (case ex_status x of
              EX_RUNNING \<Rightarrow>
                checked False (upd_export xid (\<lambda>x. x\<lparr>ex_status := EX_ABORT_PENDING\<rparr>) s)
            | EX_ABORT_PENDING \<Rightarrow> (Inr False, s)
            | EX_ABORTED \<Rightarrow> (Inr True, s)
            | EX_FINISHED \<Rightarrow> (Inl (RuntimeError ''finished SSD export cannot be aborted''), s)
            | EX_READY \<Rightarrow> andthen (release_export_resources xid s) (\<lambda>_ s.
                checked True (upd_metrics
                  (\<lambda>m. m\<lparr>lm_ssd_export_aborted := lm_ssd_export_aborted m + 1\<rparr>)
                  (upd_export xid (\<lambda>x. x\<lparr>ex_status := EX_ABORTED\<rparr>) s)))))"

section \<open>Eviction and demotion\<close>

definition ready_state :: "tier \<Rightarrow> session_state" where
  "ready_state t = (case t of Tier_D \<Rightarrow> D_READY | Tier_CPU \<Rightarrow> CPU_READY | Tier_SSD \<Rightarrow> SSD_READY)"

fun eligible_filter ::
  "lifecycle \<Rightarrow> tier \<Rightarrow> string list \<Rightarrow> tier_session list \<Rightarrow> exn + tier_session list" where
  "eligible_filter s t excluded [] = Inr []"
| "eligible_filter s t excluded (r # rs) =
     (if se_session_id r \<in> set excluded \<or> se_state r \<noteq> ready_state t \<or> se_primary r \<noteq> Some t
      then eligible_filter s t excluded rs
      else ebind (primary_copy s r) (\<lambda>c.
        ebind (eligible_filter s t excluded rs) (\<lambda>rest.
          Inr (case c of None \<Rightarrow> rest | Some c \<Rightarrow> if tc_pins c = 0 then r # rest else rest))))"

definition eligible_lru :: "lifecycle \<Rightarrow> tier \<Rightarrow> string list \<Rightarrow> exn + tier_session list" where
  "eligible_lru s t excluded =
     ebind (eligible_filter s t excluded (dvalues (tl_sessions s)))
       (\<lambda>rs. Inr (sort_key (\<lambda>r. (se_last_access_ns r, se_session_id r)) rs))"

text \<open>The victims taken in LRU order until enough bytes are reclaimable.\<close>

fun pick_victims ::
  "lifecycle \<Rightarrow> int \<Rightarrow> int \<Rightarrow> tier_session list \<Rightarrow> exn + (string \<times> tier_copy) list \<times> int" where
  "pick_victims s need reclaimable [] = Inr ([], reclaimable)"
| "pick_victims s need reclaimable (r # rs) =
     ebind (primary_copy s r) (\<lambda>c. case c of
         None \<Rightarrow> Inl (AssertionError [])
       | Some c \<Rightarrow>
           let reclaimable = reclaimable + tc_byte_count c in
           if need \<le> reclaimable then Inr ([(se_session_id r, c)], reclaimable)
           else ebind (pick_victims s need reclaimable rs)
                  (\<lambda>(vs, n). Inr ((se_session_id r, c) # vs, n)))"

fun evict_victims :: "int \<Rightarrow> (string \<times> tier_copy) list \<Rightarrow> lifecycle \<Rightarrow> (unit, lifecycle) outcome" where
  "evict_victims now [] s = (Inr (), s)"
| "evict_victims now ((sid, c) # vs) s =
     andthen (retire_and_release c s) (\<lambda>_ s.
       evict_victims now vs (upd_metrics (\<lambda>m. m\<lparr>lm_ssd_evictions := lm_ssd_evictions m + 1\<rparr>)
         (lose_session now sid s)))"

definition ensure_ssd_capacity :: "int \<Rightarrow> int \<Rightarrow> string list \<Rightarrow> lifecycle \<Rightarrow> (bool, lifecycle) outcome" where
  "ensure_ssd_capacity byte_count now excluded s =
     (if byte_count > lg_capacity_bytes (tl_ssd_ledger s)
      then (Inl (RuntimeError ''tier object exceeds node SSD capacity''), s)
      else if free_bytes (tl_ssd_ledger s) \<ge> byte_count then (Inr True, s)
      else andthen (lift_err (eligible_lru s Tier_SSD excluded) s) (\<lambda>rs s.
        andthen (lift_err (pick_victims s byte_count (free_bytes (tl_ssd_ledger s)) rs) s)
          (\<lambda>(vs, reclaimable) s.
            if reclaimable < byte_count then (Inr False, s)
            else andthen (evict_victims now vs s) (\<lambda>_ s. (Inr True, s)))))"

definition pin_demotion :: "tier_copy \<Rightarrow> lifecycle \<Rightarrow> lifecycle" where
  "pin_demotion c s = upd_copy (tc_copy_id c) (\<lambda>c. c\<lparr>tc_demotion_pins := tc_demotion_pins c + 1\<rparr>) s"

definition job_id_check :: "int \<Rightarrow> transfer_job \<Rightarrow> exn option" where
  "job_id_check job_id job =
     (if tj_job_id job \<noteq> job_id then Some (AssertionError ''job id changed during reservation'') else None)"

definition start_cpu_spill ::
  "string \<Rightarrow> int \<Rightarrow> string option \<Rightarrow> lifecycle \<Rightarrow> (transfer_job option, lifecycle) outcome" where
  "start_cpu_spill sid now protected_session s =
     (case dget (tl_sessions s) sid of None \<Rightarrow> (Inl KeyError, s) | Some r \<Rightarrow>
      andthen (lift_err (primary_copy s r) s) (\<lambda>source s.
        if (case source of None \<Rightarrow> True | Some c \<Rightarrow> se_state r \<noteq> CPU_READY \<or> tc_tier c \<noteq> Tier_CPU)
        then (Inl (RuntimeError ''CPU spill requires an idle CPU source''), s)
        else let c = the source in
          andthen (ensure_ssd_capacity (tc_byte_count c) now
              (sid # (case protected_session of None \<Rightarrow> [] | Some p \<Rightarrow> [p])) s) (\<lambda>ok s.
            if \<not> ok then (Inr None, s)
            else
              let job_id = tl_next_job_id s;
                  destination_owner = tl_node_name s @ '':ssd:dest:'' @ show_int job_id
              in andthen (on_ledger Tier_SSD (ledger_reserve destination_owner (tc_byte_count c)) s)
                   (\<lambda>reserved s.
                 if \<not> reserved then (Inr None, s)
                 else
                   andthen (lift_err (ssd_stage (tl_resources s) (tc_tokens c) ''cpu_to_ssd'')
                     (pin_demotion c s)) (\<lambda>stage s.
                   andthen (schedule_job DEMOTION sid None (Some (tc_copy_id c)) (Some Tier_SSD)
                       (Some destination_owner) None [stage] now s) (\<lambda>job s.
                     guarded (job_id_check job_id job) s (\<lambda>s.
                       (Inr (Some job), upd_metrics
                          (\<lambda>m. m\<lparr>lm_cpu_to_ssd_started := lm_cpu_to_ssd_started m + 1\<rparr>)
                          (upd_session sid (\<lambda>r. r\<lparr>se_state := CPU_DEMOTING_SSD\<rparr>) s)))))))))"

definition note_cpu_deferral :: "lifecycle \<Rightarrow> lifecycle" where
  "note_cpu_deferral s = upd_metrics
     (\<lambda>m. m\<lparr>lm_cpu_capacity_deferrals := lm_cpu_capacity_deferrals m + 1\<rparr>) s"

definition drop_d_copy :: "string \<Rightarrow> tier_copy \<Rightarrow> int \<Rightarrow> lifecycle \<Rightarrow> (unit, lifecycle) outcome" where
  "drop_d_copy sid c now s =
     andthen (retire_and_release c s) (\<lambda>_ s.
       (Inr (), upd_metrics (\<lambda>m. m\<lparr>lm_d_drops := lm_d_drops m + 1\<rparr>) (lose_session now sid s)))"

definition demote_to_cpu ::
  "string \<Rightarrow> tier_copy \<Rightarrow> int \<Rightarrow> int \<Rightarrow> lifecycle \<Rightarrow> (transfer_job option, lifecycle) outcome" where
  "demote_to_cpu sid c aggregate now s =
     (if aggregate > lg_capacity_bytes (tl_cpu_ledger s)
      then (Inl (RuntimeError ''tier object exceeds node CPU capacity''), s)
      else if free_bytes (tl_cpu_ledger s) < aggregate
      then andthen (lift_err (eligible_lru s Tier_CPU [sid]) s) (\<lambda>candidates s.
        case candidates of
          [] \<Rightarrow> (Inr None, note_cpu_deferral s)
        | r # _ \<Rightarrow> andthen (start_cpu_spill (se_session_id r) now None s)
            (\<lambda>_ s. (Inr None, note_cpu_deferral s)))
      else
        let job_id = tl_next_job_id s;
            destination_owner = tl_node_name s @ '':cpu:dest:'' @ show_int job_id
        in andthen (on_ledger Tier_CPU (ledger_reserve destination_owner aggregate) s) (\<lambda>reserved s.
           if \<not> reserved then (Inl (AssertionError ''CPU capacity precheck diverged''), s)
           else
             andthen (lift_err (gpu_cpu_stage (tl_resources s) (tc_tokens c) ''d'' ''gpu_to_cpu'' True)
               (pin_demotion c s)) (\<lambda>stage s.
             andthen (schedule_job DEMOTION sid None (Some (tc_copy_id c)) (Some Tier_CPU)
                 (Some destination_owner) None [stage] now s) (\<lambda>job s.
               guarded (job_id_check job_id job) s (\<lambda>s.
                 (Inr (Some job), upd_metrics
                    (\<lambda>m. m\<lparr>lm_d_to_cpu_started := lm_d_to_cpu_started m + 1\<rparr>)
                    (upd_session sid (\<lambda>r. r\<lparr>se_state := D_DEMOTING_CPU\<rparr>) s)))))))"

definition demote_to_ssd ::
  "string \<Rightarrow> tier_copy \<Rightarrow> int \<Rightarrow> int \<Rightarrow> lifecycle \<Rightarrow> (transfer_job option, lifecycle) outcome" where
  "demote_to_ssd sid c aggregate now s =
     (if aggregate > lg_capacity_bytes (tl_cpu_ledger s)
      then (Inl (RuntimeError ''SSD-direct bounce exceeds node CPU capacity''), s)
      else if free_bytes (tl_cpu_ledger s) < aggregate then (Inr None, note_cpu_deferral s)
      else andthen (ensure_ssd_capacity aggregate now [sid] s) (\<lambda>ok s.
        if \<not> ok then (Inr None, s)
        else
          let job_id = tl_next_job_id s;
              bounce_owner = tl_node_name s @ '':cpu:bounce:'' @ show_int job_id;
              destination_owner = tl_node_name s @ '':ssd:dest:'' @ show_int job_id
          in andthen (on_ledger Tier_CPU (ledger_reserve bounce_owner aggregate) s) (\<lambda>reserved s.
             if \<not> reserved then (Inl (AssertionError ''CPU bounce precheck diverged''), s)
             else andthen (on_ledger Tier_SSD (ledger_reserve destination_owner aggregate) s)
               (\<lambda>reserved s.
                 if \<not> reserved
                 then andthen (on_ledger Tier_CPU (ledger_release bounce_owner) s)
                        (\<lambda>_ s. (Inl (AssertionError ''SSD capacity precheck diverged''), s))
                 else
                   andthen (lift_err (gpu_cpu_stage (tl_resources s) (tc_tokens c) ''d'' ''gpu_to_cpu'' True)
                     (pin_demotion c s)) (\<lambda>d2c s.
                   andthen (lift_err (ssd_stage (tl_resources s) (tc_tokens c) ''cpu_to_ssd'') s) (\<lambda>c2s s.
                   andthen (schedule_job DEMOTION sid None (Some (tc_copy_id c)) (Some Tier_SSD)
                       (Some destination_owner) (Some bounce_owner) [d2c, c2s] now s) (\<lambda>job s.
                     guarded (job_id_check job_id job) s (\<lambda>s.
                       (Inr (Some job), upd_metrics
                          (\<lambda>m. m\<lparr>lm_d_to_ssd_started := lm_d_to_ssd_started m + 1\<rparr>)
                          (upd_session sid (\<lambda>r. r\<lparr>se_state := D_DEMOTING_SSD\<rparr>) s))))))))))"

definition demote :: "string \<Rightarrow> int \<Rightarrow> lifecycle \<Rightarrow> (transfer_job option, lifecycle) outcome" where
  "demote sid now s =
     at_time (or_else (validate_session sid) (validate_time now)) now s (\<lambda>s.
       case dget (tl_sessions s) sid of None \<Rightarrow> (Inl KeyError, s) | Some r \<Rightarrow>
       andthen (lift_err (primary_copy s r) s) (\<lambda>source s.
         if (case source of None \<Rightarrow> True | Some c \<Rightarrow> tc_tier c \<noteq> Tier_D \<or> se_state r \<noteq> D_READY)
         then (Inl (RuntimeError ''demotion requires an idle D-ready session''), s)
         else let c = the source in
           if tl_policy s = ''hbm_lru_recompute''
           then andthen (drop_d_copy sid c now s) (\<lambda>_ s. checked None s)
           else
             let aggregate = tc_byte_count c * tp_size (tl_hardware s)
             in if tl_policy s = ''cpu_ssd'' then demote_to_cpu sid c aggregate now s
                else demote_to_ssd sid c aggregate now s))"

section \<open>Headroom\<close>

fun headroom_loop :: "int \<Rightarrow> int \<Rightarrow> tier_session list \<Rightarrow> lifecycle \<Rightarrow> (int option, lifecycle) outcome" where
  "headroom_loop required now [] s = (Inr (tier_next_event_ns s), s)"
| "headroom_loop required now (v # vs) s =
     (let earlier = tier_next_event_ns s in
      andthen (demote (se_session_id v) now s) (\<lambda>job s.
        if free_bytes (tl_d_ledger s) \<ge> required then (Inr (Some now), s)
        else case job of
          Some j \<Rightarrow> (Inr (Some (tj_completion_ns j)), s)
        | None \<Rightarrow>
            if tier_next_event_ns s \<noteq> None \<and> tier_next_event_ns s \<noteq> earlier
            then (Inr (tier_next_event_ns s), s)
            else headroom_loop required now vs s))"

definition ensure_d_headroom ::
  "int \<Rightarrow> int \<Rightarrow> string option \<Rightarrow> lifecycle \<Rightarrow> (int option, lifecycle) outcome" where
  "ensure_d_headroom required now exclude s =
     at_time (or_else (validate_time now)
        (if required < 0
         then Some (ValueError ''required_bytes_per_rank must be non-negative'') else None)) now s (\<lambda>s.
       if required > lg_capacity_bytes (tl_d_ledger s)
       then (Inl (RuntimeError ''requested D object exceeds node D-HBM capacity''), s)
       else if free_bytes (tl_d_ledger s) \<ge> required then (Inr (Some now), s)
       else andthen (lift_err (eligible_lru s Tier_D
              (case exclude of None \<Rightarrow> [] | Some x \<Rightarrow> [x])) s)
              (\<lambda>vs s. headroom_loop required now vs s))"

fun force_drop_loop :: "int \<Rightarrow> tier_session list \<Rightarrow> lifecycle \<Rightarrow> (bool, lifecycle) outcome" where
  "force_drop_loop now [] s = (Inr False, s)"
| "force_drop_loop now (v # vs) s =
     (case dget (tl_sessions s) (se_session_id v) of None \<Rightarrow> (Inl KeyError, s) | Some r \<Rightarrow>
      andthen (lift_err (primary_copy s r) s) (\<lambda>source s.
        if (case source of None \<Rightarrow> True | Some c \<Rightarrow> tc_tier c \<noteq> Tier_D \<or> se_state r \<noteq> D_READY)
        then force_drop_loop now vs s
        else andthen (drop_d_copy (se_session_id r) (the source) now s) (\<lambda>_ s.
          checked True (upd_metrics
            (\<lambda>m. m\<lparr>lm_d_growth_forced_drops := lm_d_growth_forced_drops m + 1\<rparr>) s))))"

definition force_drop_idle_d :: "int \<Rightarrow> string \<Rightarrow> lifecycle \<Rightarrow> (bool, lifecycle) outcome" where
  "force_drop_idle_d now exclude s =
     andthen (lift_err (eligible_lru s Tier_D [exclude]) s) (\<lambda>vs s. force_drop_loop now vs s)"

fun spill_loop ::
  "int \<Rightarrow> string option \<Rightarrow> tier_session list \<Rightarrow> lifecycle \<Rightarrow> (int option, lifecycle) outcome" where
  "spill_loop now protected_session [] s = (Inr (tier_next_event_ns s), s)"
| "spill_loop now protected_session (v # vs) s =
     andthen (start_cpu_spill (se_session_id v) now protected_session s) (\<lambda>job s.
       case job of
         Some j \<Rightarrow> (Inr (Some (tj_completion_ns j)), s)
       | None \<Rightarrow> spill_loop now protected_session vs s)"

definition ensure_cpu_bounce_headroom ::
  "int \<Rightarrow> int \<Rightarrow> string option \<Rightarrow> lifecycle \<Rightarrow> (int option, lifecycle) outcome" where
  "ensure_cpu_bounce_headroom required_tokens now protected_session s =
     guarded
       (or_else (validate_time now)
         (or_else (if required_tokens < 0
                   then Some (ValueError ''required_tokens must be a non-negative integer'') else None)
           (case protected_session of None \<Rightarrow> None | Some p \<Rightarrow> validate_session p))) s (\<lambda>s.
       andthen (lift_err (aggregate_bytes s required_tokens) s) (\<lambda>required_bytes s.
         if required_bytes > lg_capacity_bytes (tl_cpu_ledger s)
         then (Inl (RuntimeError ''requested CPU bounce exceeds node CPU capacity''), s)
         else andthen (tier_advance now s) (\<lambda>_ s.
           if free_bytes (tl_cpu_ledger s) \<ge> required_bytes then (Inr (Some now), s)
           else
             let s = note_cpu_deferral s in
             if tl_policy s = ''cpu_ssd''
             then andthen (lift_err (eligible_lru s Tier_CPU
                     (case protected_session of None \<Rightarrow> [] | Some p \<Rightarrow> [p])) s)
                    (\<lambda>vs s. spill_loop now protected_session vs s)
             else (Inr (tier_next_event_ns s), s))))"

definition peek_resume_source :: "string \<Rightarrow> int \<Rightarrow> lifecycle \<Rightarrow> (resume_source, lifecycle) outcome" where
  "peek_resume_source sid now s =
     at_time (or_else (validate_session sid) (validate_time now)) now s (\<lambda>s.
       case dget (tl_sessions s) sid of
         None \<Rightarrow> (Inr \<lparr>rs_session_id = sid, rs_state = LOST, rs_source = None, rs_tokens = 0,
                      rs_version = 0, rs_generation = 0, rs_demotion_inflight = False\<rparr>, s)
       | Some r \<Rightarrow> andthen (lift_err (primary_copy s r) s) (\<lambda>source s.
           (Inr \<lparr>rs_session_id = sid, rs_state = se_state r, rs_source = map_option tc_tier source,
                 rs_tokens = (case source of None \<Rightarrow> 0 | Some c \<Rightarrow> tc_tokens c),
                 rs_version = se_version r, rs_generation = se_generation r,
                 rs_demotion_inflight =
                   (se_state r \<in> {D_DEMOTING_CPU, D_DEMOTING_SSD, CPU_DEMOTING_SSD})\<rparr>, s)))"

end
