(* ===== verification/Tier_Prepare.thy ===== *)
theory Tier_Prepare
  imports Tier_Lifecycle
begin

text \<open>
  The foreground half of \<^verbatim>\<open>TieredPDKVLifecycle\<close> (\<^verbatim>\<open>serving/core/gpu_pd_tier_lifecycle.py\<close>): a
  request's resume from admission (\<^verbatim>\<open>begin_prepare\<close>) over its execution to the publication of its
  context (\<^verbatim>\<open>commit_d_ready\<close>), and the end and restart of sessions.
\<close>

section \<open>Admission\<close>

record prepare_claim =
  pc_p_owner :: string
  pc_d_owner :: "string option"
  pc_d_reserved :: int
  pc_d_reuse_copy_id :: "int option"
  pc_full_d :: bool
  pc_bounce_owner :: "string option"

text \<open>A reservation of zero bytes is skipped.\<close>

definition reserve_unless_zero ::
  "tier \<Rightarrow> string \<Rightarrow> int \<Rightarrow> lifecycle \<Rightarrow> (bool, lifecycle) outcome" where
  "reserve_unless_zero t owner n s =
     (if n = 0 then (Inr True, s) else on_ledger t (ledger_reserve owner n) s)"

definition prepare_capacity ::
  "tier_session \<Rightarrow> tier_copy option \<Rightarrow> int \<Rightarrow> int \<Rightarrow> bool \<Rightarrow> int \<Rightarrow> int \<Rightarrow> lifecycle
     \<Rightarrow> (prepare_claim option, lifecycle) outcome" where
  "prepare_capacity r source input_tokens final_tokens needs_d bounce_bytes prepare_id s =
     andthen (lift_err (per_rank_bytes s input_tokens) s) (\<lambda>p_bytes s.
     andthen (lift_err (if needs_d then per_rank_bytes s final_tokens else Inr 0) s) (\<lambda>d_target s.
     andthen (lift_err (if tl_d_reservation_policy s = D_RESERVATION_FINAL_UPFRONT then Inr d_target
                        else if needs_d then per_rank_bytes s input_tokens else Inr 0) s)
       (\<lambda>d_admission_target s.
     let p_owner = tl_node_name s @ '':p:prepare:'' @ show_int prepare_id;
         d_owner = tl_node_name s @ '':d:prepare:'' @ show_int prepare_id;
         bounce_owner = tl_node_name s @ '':cpu:prepare-bounce:'' @ show_int prepare_id;
         reusable = (case source of None \<Rightarrow> None
           | Some c \<Rightarrow> if tc_tier c = Tier_D \<and> se_primary_copy_id r = Some (tc_copy_id c) \<and> tc_pins c = 0
                      then Some c else None);
         full_d = (needs_d \<and> reusable = None);
         d_reserved = (if \<not> needs_d then 0 else case reusable of
             None \<Rightarrow> d_admission_target
           | Some c \<Rightarrow> max 0 (d_admission_target - tc_byte_count c));
         p_short = free_bytes (tl_p_ledger s) < p_bytes;
         d_short = free_bytes (tl_d_ledger s) < d_reserved;
         cpu_short = free_bytes (tl_cpu_ledger s) < bounce_bytes
     in if p_short \<or> d_short \<or> cpu_short
        then (Inr None, upd_metrics (\<lambda>m. m\<lparr>
               lm_destination_deferrals := lm_destination_deferrals m + 1,
               lm_p_capacity_deferrals := lm_p_capacity_deferrals m + (if p_short then 1 else 0),
               lm_d_capacity_deferrals := lm_d_capacity_deferrals m + (if d_short then 1 else 0),
               lm_cpu_bounce_deferrals := lm_cpu_bounce_deferrals m + (if cpu_short then 1 else 0)\<rparr>) s)
        else andthen (on_p_ledger (ledger_reserve p_owner p_bytes) s) (\<lambda>ok s.
          if \<not> ok then (Inl (AssertionError ''P destination precheck diverged''), s)
          else andthen (reserve_unless_zero Tier_D d_owner d_reserved s) (\<lambda>ok s.
            if \<not> ok
            then andthen (on_p_ledger (ledger_release p_owner) s)
                   (\<lambda>_ s. (Inl (AssertionError ''D destination precheck diverged''), s))
            else andthen (reserve_unless_zero Tier_CPU bounce_owner bounce_bytes s) (\<lambda>ok s.
              if \<not> ok
              then andthen (on_p_ledger (ledger_release p_owner) s) (\<lambda>_ s.
                   andthen (if d_reserved \<noteq> 0 then on_ledger Tier_D (ledger_release d_owner) s
                            else (Inr 0, s))
                     (\<lambda>_ s. (Inl (AssertionError ''CPU bounce precheck diverged''), s)))
              else (Inr (Some \<lparr>pc_p_owner = p_owner,
                      pc_d_owner = (if d_reserved \<noteq> 0 then Some d_owner else None),
                      pc_d_reserved = d_reserved,
                      pc_d_reuse_copy_id = map_option tc_copy_id reusable, pc_full_d = full_d,
                      pc_bounce_owner = (if bounce_bytes \<noteq> 0 then Some bounce_owner else None)\<rparr>), s)))))))"

definition restore_byte_partitions :: "lifecycle \<Rightarrow> int \<Rightarrow> exn + int list" where
  "restore_byte_partitions s hit_tokens =
     ebind (per_rank_bytes s hit_tokens) (\<lambda>total.
       let base = total div QWEN_LAYERS; remainder = total mod QWEN_LAYERS;
           partitions = map (\<lambda>i. base + (if i < remainder then 1 else 0)) [0..QWEN_LAYERS - 1]
       in if int (length partitions) \<noteq> QWEN_LAYERS \<or> sum_list partitions \<noteq> total
             \<or> list_ex (\<lambda>n. n \<le> 0) partitions
          then Inl (AssertionError ''layer-wise restore byte partition is not exact'')
          else Inr partitions)"

text \<open>
  The stages of a layer-wise restore, with the position of the stage after which each layer is
  ready: for an SSD source a read into CPU memory precedes each copy into P.
\<close>

fun streaming_loop ::
  "lifecycle \<Rightarrow> tier \<Rightarrow> int \<Rightarrow> int list \<Rightarrow> int \<Rightarrow> tier_stage list \<Rightarrow> int list
     \<Rightarrow> exn + tier_stage list \<times> int list" where
  "streaming_loop s source hit_tokens [] layer stages indexes = Inr (stages, indexes)"
| "streaming_loop s source hit_tokens (bytes_per_rank # rest) layer stages indexes =
     ebind (if source = Tier_SSD
            then ebind (ssd_bytes_stage (tl_resources s) hit_tokens bytes_per_rank ''ssd_to_cpu''
                   layer QWEN_LAYERS) (\<lambda>st. Inr (stages @ [st]))
            else Inr stages) (\<lambda>stages.
     ebind (gpu_cpu_bytes_stage (tl_resources s) hit_tokens bytes_per_rank ''p'' ''cpu_to_gpu'' True
              layer QWEN_LAYERS) (\<lambda>st.
       let stages = stages @ [st]
       in streaming_loop s source hit_tokens rest (layer + 1) stages
            (indexes @ [int (length stages) - 1])))"

definition streaming_prepare_stages ::
  "lifecycle \<Rightarrow> tier \<Rightarrow> int \<Rightarrow> exn + (tier_stage list \<times> int list) option" where
  "streaming_prepare_stages s source hit_tokens =
     (if tl_restore_execution_mode s \<noteq> RESTORE_EXECUTION_LAYERWISE
         \<or> source \<notin> {Tier_CPU, Tier_SSD}
      then Inr None
      else ebind (restore_byte_partitions s hit_tokens) (\<lambda>partitions.
        ebind (streaming_loop s source hit_tokens partitions 0 [] []) (\<lambda>r. Inr (Some r))))"

definition prepare_argument_error ::
  "lifecycle \<Rightarrow> string \<Rightarrow> int \<Rightarrow> int \<Rightarrow> int \<Rightarrow> int \<Rightarrow> int \<Rightarrow> exn option" where
  "prepare_argument_error s sid request_id now input_tokens output_tokens reusable_tokens =
     or_else (validate_session sid) (or_else (validate_time now)
       (or_else (first_error
          [(request_id < 0, ValueError ''request_id must be a non-negative integer''),
           (request_id \<in> set (tl_seen_request_ids s),
             ValueError (''duplicate request_id='' @ show_int request_id))])
       (or_else (validate_positive ''input_tokens'' input_tokens)
       (or_else (validate_positive ''output_tokens'' output_tokens)
         (first_error
            [(reusable_tokens < 0, ValueError ''reusable_tokens must be non-negative''),
             (reusable_tokens > input_tokens,
               ValueError ''reusable_tokens cannot exceed input_tokens''),
             (input_tokens + output_tokens - 1 > MAX_CONTEXT_TOKENS,
               ValueError ''final context exceeds 1010000 tokens'')])))))"

text \<open>The capacity each part of the request could never get, with its metric.\<close>

definition over_capacity :: "string \<Rightarrow> int \<Rightarrow> int \<Rightarrow> string list" where
  "over_capacity label need capacity =
     (if need > capacity then [label @ ''='' @ show_int need @ ''/'' @ show_int capacity] else [])"

definition infeasible_parts :: "lifecycle \<Rightarrow> int \<Rightarrow> int \<Rightarrow> int \<Rightarrow> string list" where
  "infeasible_parts s p_required d_required bounce =
     over_capacity ''P'' p_required (lg_capacity_bytes (tl_p_ledger s))
     @ over_capacity ''D'' d_required (lg_capacity_bytes (tl_d_ledger s))
     @ over_capacity ''CPU-bounce'' bounce (lg_capacity_bytes (tl_cpu_ledger s))"

definition note_infeasible :: "int \<Rightarrow> int \<Rightarrow> int \<Rightarrow> lifecycle \<Rightarrow> lifecycle" where
  "note_infeasible p_required d_required bounce s = upd_metrics (\<lambda>m. m\<lparr>
     lm_infeasible_p_requests := lm_infeasible_p_requests m
       + (if p_required > lg_capacity_bytes (tl_p_ledger s) then 1 else 0),
     lm_infeasible_d_requests := lm_infeasible_d_requests m
       + (if d_required > lg_capacity_bytes (tl_d_ledger s) then 1 else 0),
     lm_infeasible_cpu_bounces := lm_infeasible_cpu_bounces m
       + (if bounce > lg_capacity_bytes (tl_cpu_ledger s) then 1 else 0)\<rparr>) s"

definition lost_session :: "string \<Rightarrow> int \<Rightarrow> tier_session" where
  "lost_session sid now =
     \<lparr>se_session_id = sid, se_state = LOST, se_generation = 0, se_version = 0, se_tokens = 0,
      se_primary = None, se_primary_copy_id = None, se_last_access_ns = now,
      se_active_request_id = None, se_pending_job_ids = [], se_copy_ids = []\<rparr>"

definition detach_primary :: "tier_session \<Rightarrow> tier_session" where
  "detach_primary r = r\<lparr>se_primary := None, se_primary_copy_id := None\<rparr>"

text \<open>
  The transfer stages of the prepare, by the tier of its source; a CPU source is retired, an SSD
  source becomes a shadow, and neither is the primary copy any more.
\<close>

definition lower_tier_stages ::
  "tier_copy \<Rightarrow> int \<Rightarrow> lifecycle \<Rightarrow> (tier_stage list \<times> int list, lifecycle) outcome" where
  "lower_tier_stages c hit_tokens s =
     andthen (lift_err (streaming_prepare_stages s (tc_tier c) hit_tokens) s) (\<lambda>streaming s.
       case streaming of
         Some r \<Rightarrow> (Inr r, s)
       | None \<Rightarrow>
           andthen (if tc_tier c = Tier_SSD
                    then andthen (lift_err (ssd_stage (tl_resources s) hit_tokens ''ssd_to_cpu'') s)
                           (\<lambda>st s. (Inr [st], s))
                    else (Inr [], s)) (\<lambda>reads s.
           andthen (lift_err (gpu_cpu_stage (tl_resources s) hit_tokens ''p'' ''cpu_to_gpu'' True) s)
             (\<lambda>st s. (Inr (reads @ [st], []), s))))"

definition prepare_stages ::
  "string \<Rightarrow> tier_copy option \<Rightarrow> int \<Rightarrow> lifecycle \<Rightarrow> (tier_stage list \<times> int list, lifecycle) outcome" where
  "prepare_stages sid effective hit_tokens s =
     (case effective of
        None \<Rightarrow> (Inr ([], []), upd_metrics (\<lambda>m. m\<lparr>lm_prepare_misses := lm_prepare_misses m + 1\<rparr>) s)
      | Some c \<Rightarrow>
          (case tc_tier c of
             Tier_D \<Rightarrow>
               andthen (lift_err (peer_stage (tl_resources s) hit_tokens ''d_to_p'' False) s) (\<lambda>st s.
                 (Inr ([st], []), upd_metrics (\<lambda>m. m\<lparr>lm_d_prepare_hits := lm_d_prepare_hits m + 1\<rparr>) s))
           | Tier_CPU \<Rightarrow>
               andthen (lower_tier_stages c hit_tokens s) (\<lambda>r s.
                 let s = upd_copy (tc_copy_id c) (\<lambda>c. c\<lparr>tc_retired := True\<rparr>) s;
                     s = upd_session sid detach_primary s
                 in (Inr r, upd_metrics
                      (\<lambda>m. m\<lparr>lm_cpu_prepare_hits := lm_cpu_prepare_hits m + 1\<rparr>) s))
           | Tier_SSD \<Rightarrow>
               andthen (lower_tier_stages c hit_tokens s) (\<lambda>r s.
                 let s = upd_copy (tc_copy_id c) (\<lambda>c. c\<lparr>tc_shadow := True\<rparr>) s;
                     s = upd_session sid detach_primary s
                 in (Inr r, upd_metrics
                      (\<lambda>m. m\<lparr>lm_ssd_prepare_hits := lm_ssd_prepare_hits m + 1\<rparr>) s))))"

text \<open>From the claimed capacity on: the session is PREPARING and the transfer is scheduled.\<close>

definition start_prepare ::
  "string \<Rightarrow> int \<Rightarrow> tier_copy option \<Rightarrow> int \<Rightarrow> lifecycle \<Rightarrow> (tier_stage list \<times> int list, lifecycle) outcome" where
  "start_prepare sid request_id effective hit_tokens s =
     (let s = upd_session sid (\<lambda>r. r\<lparr>se_generation := se_generation r + 1,
                se_active_request_id := Some request_id, se_state := PREPARING\<rparr>) s;
          s = (case effective of None \<Rightarrow> s
               | Some c \<Rightarrow> upd_copy (tc_copy_id c)
                   (\<lambda>c. c\<lparr>tc_foreground_pins := tc_foreground_pins c + 1\<rparr>) s)
      in prepare_stages sid effective hit_tokens s)"

definition layer_ready_times :: "scheduled_stage list \<Rightarrow> int list \<Rightarrow> int list" where
  "layer_ready_times stages indexes = map (\<lambda>i. ss_completion_ns (stages ! nat i)) indexes"

text \<open>An unused source below D is retired at once; an unused D copy keeps backing the D claim.\<close>

definition drop_unused_source ::
  "string \<Rightarrow> tier_copy option \<Rightarrow> tier_copy option \<Rightarrow> lifecycle \<Rightarrow> (unit, lifecycle) outcome" where
  "drop_unused_source sid source effective s =
     (case (source, effective) of
        (Some c, None) \<Rightarrow>
          if tc_tier c \<noteq> Tier_D
          then maybe_release_retired (c\<lparr>tc_retired := True\<rparr>)
                 (upd_session sid detach_primary (upd_copy (tc_copy_id c) (\<lambda>c. c\<lparr>tc_retired := True\<rparr>) s))
          else (Inr (), s)
      | _ \<Rightarrow> (Inr (), s))"

definition begin_prepare ::
  "string \<Rightarrow> int \<Rightarrow> int \<Rightarrow> int \<Rightarrow> int \<Rightarrow> int \<Rightarrow> bool \<Rightarrow> lifecycle \<Rightarrow> (int option, lifecycle) outcome" where
  "begin_prepare sid request_id now input_tokens output_tokens reusable_tokens has_successor s =
     at_time (prepare_argument_error s sid request_id now input_tokens output_tokens reusable_tokens)
       now s (\<lambda>s.
     let final_tokens = input_tokens + output_tokens - 1;
         needs_d = (output_tokens > 1 \<or> has_successor);
         stored = dget (tl_sessions s) sid;
         r = (case stored of None \<Rightarrow> lost_session sid now | Some r \<Rightarrow> r)
     in if se_state r \<in> {PREPARING, ACTIVE, ENDED}
        then (Inl (RuntimeError
               (''session cannot prepare from state '' @ session_state_value (se_state r))), s)
        else
     andthen (lift_err (primary_copy s r) s) (\<lambda>source s.
     let source_tokens = (case source of None \<Rightarrow> 0 | Some c \<Rightarrow> tc_tokens c);
         hit_tokens = min (min reusable_tokens source_tokens) (max 0 (input_tokens - 1));
         effective = (if hit_tokens \<noteq> 0 then source else None) in
     andthen (lift_err (case effective of
           Some c \<Rightarrow> if tc_tier c = Tier_SSD then aggregate_bytes s hit_tokens else Inr 0
         | None \<Rightarrow> Inr 0) s) (\<lambda>bounce s.
     andthen (lift_err (per_rank_bytes s input_tokens) s) (\<lambda>p_required s.
     andthen (lift_err (if needs_d then per_rank_bytes s final_tokens else Inr 0) s) (\<lambda>d_required s.
     let s = note_infeasible p_required d_required bounce s;
         parts = infeasible_parts s p_required d_required bounce;
         prepare_id = tl_next_prepare_id s in
     if parts \<noteq> []
     then (Inl (RuntimeError (''request is individually infeasible: '' @ join '', '' parts)), s)
     else
     andthen (prepare_capacity r source input_tokens final_tokens needs_d bounce prepare_id s)
       (\<lambda>claim s.
     case claim of None \<Rightarrow> (Inr None, s) | Some cl \<Rightarrow>
     let s = (if stored = None then s\<lparr>tl_sessions := dput sid r (tl_sessions s)\<rparr> else s);
         s = s\<lparr>tl_next_prepare_id := tl_next_prepare_id s + 1\<rparr>;
         s = upd_session sid (\<lambda>r. r\<lparr>se_last_access_ns := now\<rparr>) s in
     andthen (start_prepare sid request_id effective hit_tokens s) (\<lambda>(stages, indexes) s.
     andthen (schedule_job PREPARE sid (Some request_id) (map_option tc_copy_id effective) None None
         (pc_bounce_owner cl) stages now s) (\<lambda>job s.
     let ready = layer_ready_times (tj_stages job) indexes in
     if ready \<noteq> [] \<and> (int (length ready) \<noteq> QWEN_LAYERS \<or> last ready \<noteq> tj_completion_ns job)
     then (Inl (AssertionError ''streaming restore readiness is incomplete''), s)
     else
     let s = (if ready = [] then s else upd_metrics
           (\<lambda>m. m\<lparr>lm_streaming_prepare_started := lm_streaming_prepare_started m + 1\<rparr>) s);
         ticket = \<lparr>pt_prepare_id = prepare_id, pt_job_id = tj_job_id job, pt_session_id = sid,
           pt_request_id = request_id, pt_generation = tj_snapshot_generation job,
           pt_source = map_option tc_tier effective,
           pt_source_copy_id = map_option tc_copy_id effective, pt_source_tokens = source_tokens,
           pt_hit_tokens = hit_tokens, pt_input_tokens = input_tokens,
           pt_output_tokens = output_tokens, pt_final_tokens = final_tokens,
           pt_has_successor = has_successor, pt_needs_d = needs_d, pt_p_owner = pc_p_owner cl,
           pt_p_bytes_per_rank = p_required, pt_d_owner = pc_d_owner cl,
           pt_d_reserved_bytes_per_rank = pc_d_reserved cl,
           pt_d_target_bytes_per_rank = d_required,
           pt_d_reuse_copy_id = pc_d_reuse_copy_id cl, pt_full_d_reservation = pc_full_d cl,
           pt_bounce_owner = pc_bounce_owner cl, pt_stages = tj_stages job,
           pt_start_ns = tj_start_ns job, pt_completion_ns = tj_completion_ns job,
           pt_restore_execution_mode =
             (if ready = [] then RESTORE_EXECUTION_BULK else RESTORE_EXECUTION_LAYERWISE),
           pt_restore_layer_ready_ns = ready, pt_completed = False, pt_pool_released = False,
           pt_pool_release_ns = None, pt_active = False, pt_p_released = False,
           pt_committed = False\<rparr>;
         s = s\<lparr>tl_prepares := dput prepare_id ticket (tl_prepares s),
               tl_seen_request_ids := set_add request_id (tl_seen_request_ids s)\<rparr>;
         s = upd_metrics (\<lambda>m. m\<lparr>lm_prepare_started := lm_prepare_started m + 1\<rparr>) s
     in andthen (drop_unused_source sid source effective s)
          (\<lambda>_ s. checked (Some prepare_id) s)))))))))"

section \<open>Execution\<close>

definition pop_prepare_completed :: "lifecycle \<Rightarrow> (int list, lifecycle) outcome" where
  "pop_prepare_completed s = (Inr (tl_completed_prepares s), s\<lparr>tl_completed_prepares := []\<rparr>)"

definition release_prepare_to_pool :: "int \<Rightarrow> int \<Rightarrow> lifecycle \<Rightarrow> (unit, lifecycle) outcome" where
  "release_prepare_to_pool pid now s =
     at_time (validate_time now) now s (\<lambda>s.
       case dget (tl_prepares s) pid of
         None \<Rightarrow> (Inl (RuntimeError ''stale prepare ticket''), s)
       | Some t \<Rightarrow>
           if pt_pool_released t
           then (Inl (RuntimeError ''prepare was already released to the pool''), s)
           else if \<not> pt_completed t \<and>
             (pt_restore_execution_mode t \<noteq> RESTORE_EXECUTION_LAYERWISE \<or>
              int (length (pt_restore_layer_ready_ns t)) \<noteq> QWEN_LAYERS \<or>
              last (pt_restore_layer_ready_ns t) \<noteq> pt_completion_ns t \<or>
              pt_source t \<notin> {Some Tier_CPU, Some Tier_SSD})
           then (Inl (RuntimeError
                  ''only a complete layer-wise lower-tier restore may be released early''), s)
           else checked () (upd_metrics (\<lambda>m. m\<lparr>lm_streaming_prepare_pool_released :=
                    lm_streaming_prepare_pool_released m + (if pt_completed t then 0 else 1)\<rparr>)
                  (upd_prepare pid (\<lambda>t. t\<lparr>pt_pool_released := True, pt_pool_release_ns := Some now\<rparr>) s)))"

definition ticket_owns_session :: "prepare_ticket \<Rightarrow> session_state \<Rightarrow> tier_session \<Rightarrow> bool" where
  "ticket_owns_session t st r \<longleftrightarrow>
     se_state r = st \<and> se_active_request_id r = Some (pt_request_id t) \<and>
     se_generation r = pt_generation t"

definition mark_active :: "int \<Rightarrow> int \<Rightarrow> lifecycle \<Rightarrow> (unit, lifecycle) outcome" where
  "mark_active pid now s =
     at_time (validate_time now) now s (\<lambda>s.
       case dget (tl_prepares s) pid of
         None \<Rightarrow> (Inl (RuntimeError ''stale prepare ticket''), s)
       | Some t \<Rightarrow>
           if \<not> pt_completed t
           then (Inl (RuntimeError ''prepare transfer has not completed''), s)
           else case dget (tl_sessions s) (pt_session_id t) of None \<Rightarrow> (Inl KeyError, s) | Some r \<Rightarrow>
             if \<not> ticket_owns_session t PREPARING r
             then (Inl (RuntimeError ''prepare ticket no longer owns session''), s)
             else checked () (upd_session (pt_session_id t)
                    (\<lambda>r. r\<lparr>se_state := ACTIVE, se_last_access_ns := now\<rparr>)
                    (upd_prepare pid (\<lambda>t. t\<lparr>pt_active := True\<rparr>) s)))"

text \<open>Releasing the P claim of a ticket.\<close>

definition release_p_claim :: "prepare_ticket \<Rightarrow> lifecycle \<Rightarrow> (unit, lifecycle) outcome" where
  "release_p_claim t s =
     andthen (on_p_ledger (ledger_release (pt_p_owner t)) s) (\<lambda>released s.
       if released \<noteq> pt_p_bytes_per_rank t
       then (Inl (AssertionError ''P destination ownership mismatch''), s)
       else (Inr (), upd_prepare (pt_prepare_id t) (\<lambda>t. t\<lparr>pt_p_released := True\<rparr>) s))"

definition release_p_after_handoff :: "int \<Rightarrow> int \<Rightarrow> lifecycle \<Rightarrow> (unit, lifecycle) outcome" where
  "release_p_after_handoff pid now s =
     at_time (validate_time now) now s (\<lambda>s.
       case dget (tl_prepares s) pid of
         None \<Rightarrow> (Inl (RuntimeError ''stale or committed prepare ticket''), s)
       | Some t \<Rightarrow>
           (case first_error
              [(pt_committed t, RuntimeError ''stale or committed prepare ticket''),
               (\<not> pt_active t, RuntimeError ''prepare ticket is not active''),
               (\<not> pt_needs_d t, RuntimeError ''terminal output-one request has no P-to-D handoff''),
               (pt_p_released t, RuntimeError ''P destination was already released'')] of
              Some e \<Rightarrow> (Inl e, s)
            | None \<Rightarrow>
                (case dget (tl_sessions s) (pt_session_id t) of None \<Rightarrow> (Inl KeyError, s) | Some r \<Rightarrow>
                   if \<not> ticket_owns_session t ACTIVE r
                   then (Inl (RuntimeError ''active ticket no longer owns session''), s)
                   else andthen (release_p_claim t s) (\<lambda>_ s.
                     checked () (upd_metrics
                       (\<lambda>m. m\<lparr>lm_p_handoff_releases := lm_p_handoff_releases m + 1\<rparr>) s)))))"

section \<open>Publication\<close>

definition reusable_now :: "prepare_ticket \<Rightarrow> tier_copy option \<Rightarrow> tier_copy option" where
  "reusable_now t reusable = (case reusable of None \<Rightarrow> None
     | Some c \<Rightarrow> if tc_pins c = 0 \<and> \<not> pt_full_d_reservation t then Some c else None)"

fun growth_loop :: "nat \<Rightarrow> prepare_ticket \<Rightarrow> int \<Rightarrow> int \<Rightarrow> lifecycle \<Rightarrow> (unit, lifecycle) outcome" where
  "growth_loop fuel t growth now s =
     (if free_bytes (tl_d_ledger s) \<ge> growth then (Inr (), s)
      else case fuel of 0 \<Rightarrow> (Inl OutOfFuel, s) | Suc fuel \<Rightarrow>
        andthen (force_drop_idle_d now (pt_session_id t) s) (\<lambda>dropped s.
          if \<not> dropped
          then (Inl (RuntimeError (''prompt-upfront D admission overflowed at commit: growth=''
                 @ show_int growth @ '' bytes per rank has free='' @ show_int (free_bytes (tl_d_ledger s))
                 @ '' and no idle D victim remains'')), s)
          else growth_loop fuel t growth now s))"

declare growth_loop.simps [simp del]

definition charge_growth ::
  "prepare_ticket \<Rightarrow> tier_copy option \<Rightarrow> int \<Rightarrow> lifecycle \<Rightarrow> (unit, lifecycle) outcome" where
  "charge_growth t reusable now s =
     (let removed = option_bytes (tl_d_ledger s) (pt_d_owner t)
            + (case reusable_now t reusable of None \<Rightarrow> 0
               | Some c \<Rightarrow> owner_bytes (tl_d_ledger s) (tc_ledger_owner c));
          growth = max 0 (pt_d_target_bytes_per_rank t - removed);
          s = upd_metrics (\<lambda>m. m\<lparr>lm_d_growth_bytes_per_rank := lm_d_growth_bytes_per_rank m + growth\<rparr>) s
      in growth_loop (Suc (length (tl_sessions s))) t growth now s)"

definition publish_copy ::
  "prepare_ticket \<Rightarrow> tier_copy option \<Rightarrow> tier_session \<Rightarrow> lifecycle \<Rightarrow> (tier_copy, lifecycle) outcome" where
  "publish_copy t reusable r s =
     (case reusable_now t reusable of
        Some c \<Rightarrow>
          andthen (on_ledger Tier_D (ledger_replace
              (tc_ledger_owner c # (case pt_d_owner t of None \<Rightarrow> [] | Some w \<Rightarrow> [w]))
              (Some (tc_ledger_owner c)) (pt_d_target_bytes_per_rank t)) s) (\<lambda>_ s.
            let c = c\<lparr>tc_version := se_version r + 1, tc_generation := se_generation r,
                  tc_tokens := pt_final_tokens t, tc_byte_count := pt_d_target_bytes_per_rank t,
                  tc_retired := False, tc_shadow := False\<rparr>
            in (Inr c, upd_copy (tc_copy_id c) (\<lambda>_. c) s))
      | None \<Rightarrow>
          (case pt_d_owner t of
             None \<Rightarrow> (Inl (AssertionError ''new D copy has no destination reservation''), s)
           | Some w \<Rightarrow>
               andthen (new_copy (pt_session_id t) Tier_D (se_version r + 1) (se_generation r)
                   (pt_final_tokens t) (Some w) s) (\<lambda>new_d s.
                 case reusable of
                   None \<Rightarrow> (Inr new_d, s)
                 | Some c \<Rightarrow> andthen (maybe_release_retired (c\<lparr>tc_retired := True\<rparr>)
                       (upd_copy (tc_copy_id c) (\<lambda>c. c\<lparr>tc_retired := True\<rparr>) s))
                     (\<lambda>_ s. (Inr new_d, s)))))"

definition session_copy_ids :: "string \<Rightarrow> lifecycle \<Rightarrow> int list" where
  "session_copy_ids sid s = (case dget (tl_sessions s) sid of None \<Rightarrow> [] | Some r \<Rightarrow> se_copy_ids r)"

definition publish_context ::
  "prepare_ticket \<Rightarrow> tier_copy option \<Rightarrow> tier_session \<Rightarrow> lifecycle \<Rightarrow> (unit, lifecycle) outcome" where
  "publish_context t reusable r s =
     andthen (publish_copy t reusable r s) (\<lambda>new_d s.
     andthen (retire_copies (session_copy_ids (pt_session_id t) s) (Some (tc_copy_id new_d)) s) (\<lambda>_ s.
       (Inr (), upd_session (pt_session_id t)
          (\<lambda>x. set_primary new_d D_READY (x\<lparr>se_version := se_version r + 1\<rparr>)) s)))"

definition end_context :: "prepare_ticket \<Rightarrow> lifecycle \<Rightarrow> (unit, lifecycle) outcome" where
  "end_context t s =
     andthen (case pt_d_owner t of None \<Rightarrow> (Inr (), s)
              | Some w \<Rightarrow> andthen (on_ledger Tier_D (ledger_release w) s) (\<lambda>_ s. (Inr (), s))) (\<lambda>_ s.
     andthen (retire_copies (session_copy_ids (pt_session_id t) s) None s) (\<lambda>_ s.
       (Inr (), upd_session (pt_session_id t)
          (\<lambda>r. r\<lparr>se_state := ENDED, se_primary := None, se_primary_copy_id := None, se_tokens := 0\<rparr>) s)))"

definition commit_error :: "prepare_ticket \<Rightarrow> exn option" where
  "commit_error t = first_error
     [(pt_committed t, RuntimeError ''stale or already committed prepare ticket''),
      (\<not> pt_active t, RuntimeError ''prepare ticket is not active'')]"

definition commit_d_ready :: "int \<Rightarrow> int \<Rightarrow> bool \<Rightarrow> lifecycle \<Rightarrow> (unit, lifecycle) outcome" where
  "commit_d_ready pid now has_successor s =
     at_time
       (or_else
          (case dget (tl_prepares s) pid of None \<Rightarrow> None
           | Some t \<Rightarrow> if has_successor \<noteq> pt_has_successor t
               then Some (ValueError ''commit has_successor disagrees with prepare ticket'') else None)
          (validate_time now))
       now s (\<lambda>s.
     case dget (tl_prepares s) pid of
       None \<Rightarrow> (Inl (RuntimeError ''stale or already committed prepare ticket''), s)
     | Some t \<Rightarrow>
     case commit_error t of Some e \<Rightarrow> (Inl e, s) | None \<Rightarrow>
     case dget (tl_sessions s) (pt_session_id t) of None \<Rightarrow> (Inl KeyError, s) | Some r \<Rightarrow>
     if \<not> ticket_owns_session t ACTIVE r
     then (Inl (RuntimeError ''active ticket no longer owns session''), s)
     else if pt_needs_d t \<and> \<not> pt_p_released t
     then (Inl (RuntimeError ''P-to-D handoff must complete before D publication''), s)
     else andthen (if pt_p_released t then (Inr (), s) else release_p_claim t s) (\<lambda>_ s.
     let reusable = Option.bind (pt_d_reuse_copy_id t) (dget (tl_copies s)) in
     andthen (if has_successor \<and> pt_needs_d t
                 \<and> tl_d_reservation_policy s = D_RESERVATION_PROMPT_UPFRONT
              then charge_growth t reusable now s else (Inr (), s)) (\<lambda>_ s.
     andthen (if has_successor then publish_context t reusable r s else end_context t s) (\<lambda>_ s.
     let s = upd_session (pt_session_id t)
               (\<lambda>r. r\<lparr>se_active_request_id := None, se_last_access_ns := now\<rparr>) s;
         s = upd_prepare pid (\<lambda>t. t\<lparr>pt_committed := True\<rparr>) s
     in checked () s))))"

section \<open>Ending and restarting sessions\<close>

definition end_session :: "string \<Rightarrow> int \<Rightarrow> lifecycle \<Rightarrow> (unit, lifecycle) outcome" where
  "end_session sid now s =
     at_time (or_else (validate_session sid) (validate_time now)) now s (\<lambda>s.
       case dget (tl_sessions s) sid of None \<Rightarrow> (Inl KeyError, s) | Some r \<Rightarrow>
       if se_state r \<in> {PREPARING, ACTIVE}
       then (Inl (RuntimeError ''active session must finish through commit_d_ready''), s)
       else
         let s = upd_session sid (\<lambda>r. r\<lparr>se_generation := se_generation r + 1, se_state := ENDED,
               se_primary := None, se_primary_copy_id := None, se_tokens := 0,
               se_last_access_ns := now\<rparr>) s
         in andthen (retire_copies (se_copy_ids r) None s) (\<lambda>_ s. checked () s))"

definition restart_ended :: "string \<Rightarrow> int \<Rightarrow> lifecycle \<Rightarrow> (unit, lifecycle) outcome" where
  "restart_ended sid now s =
     at_time (or_else (validate_session sid) (validate_time now)) now s (\<lambda>s.
       case dget (tl_sessions s) sid of None \<Rightarrow> (Inl KeyError, s) | Some r \<Rightarrow>
       if se_state r \<noteq> ENDED
       then (Inl (RuntimeError ''only an ended tier session can be restarted''), s)
       else if se_active_request_id r \<noteq> None \<or> se_primary r \<noteq> None \<or> se_primary_copy_id r \<noteq> None
         \<or> se_tokens r \<noteq> 0 \<or> se_pending_job_ids r \<noteq> [] \<or> se_copy_ids r \<noteq> []
       then (Inl (RuntimeError ''ended tier session must be fully drained before restart''), s)
       else checked () (upd_metrics
              (\<lambda>m. m\<lparr>lm_session_restarts := lm_session_restarts m + 1\<rparr>)
              (upd_session sid (\<lambda>r. r\<lparr>se_generation := se_generation r + 1, se_state := LOST,
                 se_last_access_ns := now\<rparr>) s)))"

fun idle_advance :: "nat \<Rightarrow> lifecycle \<Rightarrow> (unit, lifecycle) outcome" where
  "idle_advance fuel s =
     (case tier_next_event_ns s of
        None \<Rightarrow> (Inr (), s)
      | Some t \<Rightarrow> (case fuel of 0 \<Rightarrow> (Inl OutOfFuel, s)
          | Suc fuel \<Rightarrow> andthen (tier_advance t s) (\<lambda>_ s. idle_advance fuel s)))"

declare idle_advance.simps [simp del]

definition tier_run_until_idle :: "lifecycle \<Rightarrow> (unit, lifecycle) outcome" where
  "tier_run_until_idle s =
     andthen (idle_advance (length (tl_completion_heap s)) s) (\<lambda>_ s.
       case lifecycle_check s of Some e \<Rightarrow> (Inl e, s) | None \<Rightarrow> (Inr (), s))"

end
