(* ===== verification/Tier_Safety.thy ===== *)
theory Tier_Safety
  imports Tier_Prepare
begin

text \<open>
  What holds of the tier lifecycle whatever is called, with whatever outcome: the capacities of its
  four memories are never exceeded, its configuration never changes, and its loops end.  The two
  locales collect what a state predicate must be closed under to survive a completion and, beyond
  that, every operation; the lemmas inside them are proved once for all such predicates.
\<close>

named_theorems tier_keeps "operations that keep a closed predicate"

section \<open>Predicates that completions keep\<close>

text \<open>The ledger operations that the lifecycle performs.\<close>

inductive ledger_step :: "byte_ledger \<Rightarrow> byte_ledger \<Rightarrow> bool" where
  "ledger_step l (snd (set_bytes w n l))"
| "ledger_step l (snd (ledger_reserve w n l))"
| "ledger_step l (snd (ledger_release w l))"
| "ledger_step l (snd (ledger_replace ws v n l))"

locale completion_closed =
  fixes I :: "lifecycle \<Rightarrow> bool"
  assumes ledger: "I s \<Longrightarrow> ledger_step (ledger_of t s) l \<Longrightarrow> I (set_ledger t l s)"
    and sessions: "I s \<Longrightarrow> I (s\<lparr>tl_sessions := se\<rparr>)"
    and copies: "I s \<Longrightarrow> I (s\<lparr>tl_copies := co\<rparr>)"
    and next_copy: "I s \<Longrightarrow> I (s\<lparr>tl_next_copy_id := i\<rparr>)"
    and jobs: "I s \<Longrightarrow> I (s\<lparr>tl_jobs := jo\<rparr>)"
    and prepares: "I s \<Longrightarrow> I (s\<lparr>tl_prepares := pr\<rparr>)"
    and exports: "I s \<Longrightarrow> I (s\<lparr>tl_ssd_exports := ex\<rparr>)"
    and metrics: "I s \<Longrightarrow> I (s\<lparr>tl_metrics := me\<rparr>)"
    and completed: "I s \<Longrightarrow> I (s\<lparr>tl_completed_prepares := cp\<rparr>)"
begin

lemmas fields = sessions copies next_copy jobs prepares exports metrics completed

lemma keeps_lift: "I s \<Longrightarrow> keeps I (lift_err m s)"
  by (simp add: lift_err_def)

lemma upd_closed:
  "I s \<Longrightarrow> I (upd_session sid f1 s)" "I s \<Longrightarrow> I (upd_copy cid f2 s)" "I s \<Longrightarrow> I (upd_job jid f3 s)"
  "I s \<Longrightarrow> I (upd_prepare pid f4 s)" "I s \<Longrightarrow> I (upd_export xid f5 s)" "I s \<Longrightarrow> I (upd_metrics f6 s)"
  by (simp_all add: upd_session_def upd_copy_def upd_job_def upd_prepare_def upd_export_def
      upd_metrics_def fields split: option.split)

lemma on_ledger_snd: "snd (on_ledger t f s) = set_ledger t (snd (f (ledger_of t s))) s"
  by (simp add: on_ledger_def split: prod.split)

lemma keeps_ledger:
  "I s \<Longrightarrow> keeps I (on_ledger t (set_bytes w n) s)"
  "I s \<Longrightarrow> keeps I (on_ledger t (ledger_reserve w n) s)"
  "I s \<Longrightarrow> keeps I (on_ledger t (ledger_release w) s)"
  "I s \<Longrightarrow> keeps I (on_ledger t (ledger_replace ws v n) s)"
  unfolding keeps_def on_ledger_snd by (erule ledger, rule ledger_step.intros)+

lemmas closed = keeps_lift upd_closed keeps_ledger fields
lemmas closed_intros = keeps_andthen closed

lemma new_copy: "I s \<Longrightarrow> keeps I (new_copy sid t v g n w s)"
  unfolding new_copy_def Let_def
  by (intro keeps_andthen closed) (auto intro!: keeps_andthen closed split: option.split)

lemma release_copy: "I s \<Longrightarrow> keeps I (release_copy c s)"
  unfolding release_copy_def Let_def
  by (auto intro!: keeps_andthen closed split: option.split)

lemma maybe_release_retired: "I s \<Longrightarrow> keeps I (maybe_release_retired c s)"
  by (simp add: maybe_release_retired_def release_copy)

lemma retire_and_release: "I s \<Longrightarrow> keeps I (retire_and_release c s)"
  by (simp add: retire_and_release_def release_copy closed)

lemma retire_copies: "I s \<Longrightarrow> keeps I (retire_copies cids k s)"
  by (induction cids arbitrary: s)
    (auto intro!: keeps_andthen maybe_release_retired closed split: option.split)

lemmas copy_ops = new_copy release_copy maybe_release_retired retire_and_release retire_copies

lemma lose_session: "I s \<Longrightarrow> I (lose_session now sid s)"
  by (simp add: lose_session_def closed)

lemma release_export_resources: "I s \<Longrightarrow> keeps I (release_export_resources xid s)"
  unfolding release_export_resources_def Let_def
  by (auto intro!: keeps_andthen copy_ops closed split: option.split)

lemma drop_pending: "I s \<Longrightarrow> I (drop_pending job s)"
  by (simp add: drop_pending_def closed)

lemma complete_ssd_export: "I s \<Longrightarrow> keeps I (complete_ssd_export job s)"
  unfolding complete_ssd_export_def Let_def
  by (auto intro!: keeps_andthen release_export_resources drop_pending closed split: option.split)

lemma release_stable_d_source: "I s \<Longrightarrow> keeps I (release_stable_d_source t s)"
  unfolding release_stable_d_source_def Let_def
  by (auto intro!: keeps_andthen copy_ops closed split: option.split)

lemma unpin_foreground: "I s \<Longrightarrow> keeps I (unpin_foreground job s)"
  unfolding unpin_foreground_def Let_def
  by (auto intro!: copy_ops closed split: option.split)

lemma release_bounce: "I s \<Longrightarrow> keeps I (release_bounce job s)"
  unfolding release_bounce_def by (auto intro!: keeps_andthen closed split: option.split)

lemma complete_prepare: "I s \<Longrightarrow> keeps I (complete_prepare job s)"
  unfolding complete_prepare_def Let_def
  by (auto intro!: keeps_andthen release_stable_d_source unpin_foreground release_bounce
      drop_pending closed split: option.split)

lemma commit_demotion: "I s \<Longrightarrow> keeps I (commit_demotion job c s)"
  unfolding commit_demotion_def Let_def
  by (auto intro!: keeps_andthen copy_ops closed split: option.split)

lemma discard_demotion: "I s \<Longrightarrow> keeps I (discard_demotion job c s)"
  unfolding discard_demotion_def Let_def
  by (auto intro!: keeps_andthen copy_ops closed split: option.split)

lemma complete_demotion: "I s \<Longrightarrow> keeps I (complete_demotion job s)"
  unfolding complete_demotion_def Let_def
  by (auto intro!: keeps_andthen commit_demotion discard_demotion release_bounce drop_pending closed
      split: option.split)

lemma complete_job: "I s \<Longrightarrow> keeps I (complete_job job s)"
  by (simp add: complete_job_def complete_demotion complete_prepare complete_ssd_export
      split: job_kind.split)

lemma checked: "I s \<Longrightarrow> keeps I (checked x s)"
  by (simp add: checked_def split: option.split)

end

section \<open>What a transfer books\<close>

text \<open>
  The transfers of a lifecycle book links and memories, never the compute groups of the serving pool,
  whose names end in \<^verbatim>\<open>-model\<close>.  The last character tells the two apart.
\<close>

definition transfer_stage :: "tier_stage \<Rightarrow> bool" where
  "transfer_stage st \<longleftrightarrow> (\<forall>r \<in> set (stage_resources st). last r \<noteq> CHR ''l'')"

inductive calendar_step :: "calendar \<Rightarrow> calendar \<Rightarrow> bool" where
  "list_all transfer_stage sts \<Longrightarrow> calendar_step c (snd (schedule_stages sts ready j ns c))"

lemma digit_no_l: "d < 10 \<Longrightarrow> digit d \<noteq> CHR ''l''"
  using of_char_digit [of d] by auto

lemma show_int_nonempty: "show_int i \<noteq> []"
  by (simp add: show_int_def dec_nonempty del: dec.simps)

lemma show_int_last: "last (show_int i) \<noteq> CHR ''l''"
proof -
  have "last (dec n) \<noteq> CHR ''l''" for n
    using dec_digits [OF last_in_set [OF dec_nonempty]] digit_no_l by metis
  then show ?thesis by (simp add: show_int_def dec_nonempty del: dec.simps)
qed

lemma transfer_demands:
  "r \<in> set (gpu_cpu_demands tr g rt l b a) \<Longrightarrow> last (rd_resource r) \<noteq> CHR ''l''"
  "r \<in> set (ssd_demands tr d l a) \<Longrightarrow> last (rd_resource r) \<noteq> CHR ''l''"
  using show_int_last show_int_nonempty
  by (auto simp: gpu_cpu_demands_def ssd_demands_def split: if_splits)

lemma transfer_stages:
  "gpu_cpu_stage tr n g d r = Inr st \<Longrightarrow> transfer_stage st"
  "gpu_cpu_bytes_stage tr n b g d r i k = Inr st \<Longrightarrow> transfer_stage st"
  "ssd_stage tr n d = Inr st \<Longrightarrow> transfer_stage st"
  "ssd_bytes_stage tr n b d i k = Inr st \<Longrightarrow> transfer_stage st"
  "peer_stage tr n d r = Inr st \<Longrightarrow> transfer_stage st"
  using transfer_demands show_int_last show_int_nonempty
  by (fastforce simp: gpu_cpu_stage_def gpu_cpu_bytes_stage_def ssd_stage_def ssd_bytes_stage_def
      peer_stage_def ebind_Inr_iff Let_def transfer_stage_def stage_resources_def
      split: option.splits if_splits)+

lemma lifted_stages:
  "lift_err (gpu_cpu_stage tr n g d r) s = (Inr st, s') \<Longrightarrow> transfer_stage st"
  "lift_err (ssd_stage tr n d) s = (Inr st, s') \<Longrightarrow> transfer_stage st"
  "lift_err (peer_stage tr n d r) s = (Inr st, s') \<Longrightarrow> transfer_stage st"
  by (auto simp: lift_err_def intro: transfer_stages)

lemma streaming_loop_transfers:
  "streaming_loop s t n bs i st ix = Inr (st', ix') \<Longrightarrow> list_all transfer_stage st \<Longrightarrow>
   list_all transfer_stage st'"
proof (induction bs arbitrary: t i st ix)
  case (Cons b bs)
  note IH = Cons.IH [where st = "st1 @ [x]" for st1 x, simplified]
    Cons.IH [where st = "st1 @ [x, y]" for st1 x y, simplified]
  from Cons.prems show ?case
    by (auto simp: ebind_Inr_iff Let_def split: if_splits dest!: transfer_stages(2,4) dest: IH)
qed simp

lemmas streaming_transfers = streaming_loop_transfers [where st = "[]", simplified]

lemma prepare_transfers:
  "lower_tier_stages c n s = (Inr (sts, ix), s') \<Longrightarrow> list_all transfer_stage sts"
  "prepare_stages sid e n s = (Inr (sts, ix), s') \<Longrightarrow> list_all transfer_stage sts"
  "start_prepare sid rid e n s = (Inr (sts, ix), s') \<Longrightarrow> list_all transfer_stage sts"
proof -
  show l: "list_all transfer_stage sts" if "lower_tier_stages c n s = (Inr (sts, ix), s')" for c s s' sts ix
    using that
    by (auto simp: lower_tier_stages_def andthen_Inr_iff streaming_prepare_stages_def lift_err_def
        ebind_Inr_iff split: option.splits if_splits
        dest: streaming_transfers transfer_stages)
  show p: "list_all transfer_stage sts" if "prepare_stages sid e n s = (Inr (sts, ix), s')" for s s' sts ix
    using that
    by (auto simp: prepare_stages_def andthen_Inr_iff Let_def split: option.splits tier.splits
        dest: l lifted_stages)
  show "start_prepare sid rid e n s = (Inr (sts, ix), s') \<Longrightarrow> list_all transfer_stage sts"
    by (auto simp: start_prepare_def Let_def dest: p)
qed

section \<open>Predicates that every operation keeps\<close>

locale lifecycle_closed = completion_closed +
  assumes p_ledger: "I s \<Longrightarrow> ledger_step (tl_p_ledger s) l \<Longrightarrow> I (s\<lparr>tl_p_ledger := l\<rparr>)"
    and heap: "I s \<Longrightarrow> I (s\<lparr>tl_completion_heap := h\<rparr>)"
    and current: "I s \<Longrightarrow> I (s\<lparr>tl_current_ns := n\<rparr>)"
    and calendar: "I s \<Longrightarrow> calendar_step (tl_calendar s) cal \<Longrightarrow> I (s\<lparr>tl_calendar := cal\<rparr>)"
    and next_job: "I s \<Longrightarrow> I (s\<lparr>tl_next_job_id := i\<rparr>)"
    and next_prepare: "I s \<Longrightarrow> I (s\<lparr>tl_next_prepare_id := i\<rparr>)"
    and next_export: "I s \<Longrightarrow> I (s\<lparr>tl_next_export_id := i\<rparr>)"
    and export_index: "I s \<Longrightarrow> I (s\<lparr>tl_export_id_by_job := m\<rparr>)"
    and seen: "I s \<Longrightarrow> I (s\<lparr>tl_seen_request_ids := r\<rparr>)"
begin

lemma on_p_snd: "snd (on_p_ledger f s) = s\<lparr>tl_p_ledger := snd (f (tl_p_ledger s))\<rparr>"
  by (simp add: on_p_ledger_def split: prod.split)

lemma keeps_p_ledger:
  "I s \<Longrightarrow> keeps I (on_p_ledger (ledger_reserve w n) s)"
  "I s \<Longrightarrow> keeps I (on_p_ledger (ledger_release w) s)"
  unfolding keeps_def on_p_snd by (erule p_ledger, rule ledger_step.intros)+

lemmas all_closed = closed keeps_p_ledger heap current next_job next_prepare next_export
  export_index seen checked

lemma advance_completions: "I s \<Longrightarrow> keeps I (advance_completions fuel now s)"
proof (induction fuel arbitrary: s)
  case 0
  then show ?case by (subst advance_completions.simps) (auto split: option.split)
next
  case (Suc fuel)
  from Suc.prems show ?case
    by (subst advance_completions.simps)
      (auto simp: Let_def intro!: keeps_andthen complete_job Suc.IH all_closed split: option.split)
qed

lemma tier_advance: "I s \<Longrightarrow> keeps I (tier_advance now s)"
  unfolding tier_advance_def
  by (auto intro!: keeps_andthen advance_completions all_closed split: option.split)

lemma guarded: "I s \<Longrightarrow> (\<And>s. I s \<Longrightarrow> keeps I (f s)) \<Longrightarrow> keeps I (guarded c s f)"
  by (simp add: guarded_def split: option.split)

lemma at_time: "I s \<Longrightarrow> (\<And>s. I s \<Longrightarrow> keeps I (f s)) \<Longrightarrow> keeps I (at_time c now s f)"
  unfolding at_time_def by (intro guarded keeps_andthen tier_advance)

lemma register_session: "I s \<Longrightarrow> keeps I (register_session sid t v n a s)"
  unfolding register_session_def Let_def by (intro keeps_andthen copy_ops) (auto intro!: all_closed)

lemma register_d_ready: "I s \<Longrightarrow> keeps I (register_d_ready sid n now v s)"
  unfolding register_d_ready_def
  by (intro at_time) (auto intro!: keeps_andthen register_session all_closed)

lemma preload_session: "I s \<Longrightarrow> keeps I (preload_session sid n t now a v s)"
  unfolding preload_session_def Let_def
  by (intro at_time) (auto intro!: keeps_andthen register_session all_closed)

lemma schedule_job:
  assumes "I s" and "list_all transfer_stage sts"
  shows "keeps I (schedule_job k sid rid src d dw bw sts ready s)"
proof (cases "dget (tl_sessions s) sid")
  case None
  with assms show ?thesis by (simp add: schedule_job_def)
next
  case (Some r)
  let ?ns = "''gpu-tier-node-'' @ show_int (tl_node_id s)"
  obtain res cal where c: "schedule_stages sts ready (tl_next_job_id s) ?ns (tl_calendar s) = (res, cal)"
    by (cases "schedule_stages sts ready (tl_next_job_id s) ?ns (tl_calendar s)")
  have "calendar_step (tl_calendar (s\<lparr>tl_next_job_id := tl_next_job_id s + 1\<rparr>)) cal"
    using calendar_step.intros [OF assms(2), of "tl_calendar s" ready "tl_next_job_id s" ?ns] c by simp
  from calendar [OF next_job [OF assms(1)] this] show ?thesis
    using Some c unfolding schedule_job_def Let_def
    by (auto intro!: keeps_andthen all_closed)
qed

lemma start_export: "I s \<Longrightarrow> keeps I (start_export sid c now s)"
proof -
  assume s: "I s"
  have two: "I (s\<lparr>tl_ssd_exports := a, tl_export_id_by_job := b\<rparr>)" if "I s" for s a b
    using export_index [OF exports [OF that, of a], of b] .
  show ?thesis unfolding start_export_def Let_def
    using s by (auto intro!: keeps_andthen schedule_job two all_closed dest!: lifted_stages)
qed

lemma begin_ssd_export: "I s \<Longrightarrow> keeps I (begin_ssd_export sid now s)"
  unfolding begin_ssd_export_def Let_def
  by (intro at_time) (auto intro!: keeps_andthen start_export all_closed split: option.split)

lemma ssd_export_publication_valid: "I s \<Longrightarrow> keeps I (ssd_export_publication_valid xid now s)"
  unfolding ssd_export_publication_valid_def
  by (auto intro!: keeps_andthen guarded tier_advance split: option.split)

lemma finish_ssd_export: "I s \<Longrightarrow> keeps I (finish_ssd_export xid now s)"
  unfolding finish_ssd_export_def
  by (intro at_time) (auto intro!: keeps_andthen release_export_resources all_closed split: option.split)

lemma abort_ssd_export: "I s \<Longrightarrow> keeps I (abort_ssd_export xid now s)"
  unfolding abort_ssd_export_def
  by (intro at_time) (auto intro!: keeps_andthen release_export_resources all_closed
      split: option.split export_status.split)

lemma evict_victims: "I s \<Longrightarrow> keeps I (evict_victims now vs s)"
  by (induction now vs s rule: evict_victims.induct)
    (auto intro!: keeps_andthen copy_ops lose_session all_closed)

lemma ensure_ssd_capacity: "I s \<Longrightarrow> keeps I (ensure_ssd_capacity n now ex s)"
  unfolding ensure_ssd_capacity_def
  by (auto intro!: keeps_andthen evict_victims all_closed)

lemma pin_demotion: "I s \<Longrightarrow> I (pin_demotion c s)"
  by (simp add: pin_demotion_def all_closed)

lemma start_cpu_spill: "I s \<Longrightarrow> keeps I (start_cpu_spill sid now p s)"
  unfolding start_cpu_spill_def Let_def
  by (auto intro!: keeps_andthen ensure_ssd_capacity schedule_job guarded pin_demotion all_closed
      dest!: lifted_stages split: option.split)

lemma drop_d_copy: "I s \<Longrightarrow> keeps I (drop_d_copy sid c now s)"
  unfolding drop_d_copy_def by (auto intro!: keeps_andthen copy_ops lose_session all_closed)

lemma note_cpu_deferral: "I s \<Longrightarrow> I (note_cpu_deferral s)"
  by (simp add: note_cpu_deferral_def all_closed)

lemma demote_to_cpu: "I s \<Longrightarrow> keeps I (demote_to_cpu sid c n now s)"
  unfolding demote_to_cpu_def Let_def
  by (auto intro!: keeps_andthen start_cpu_spill schedule_job guarded pin_demotion note_cpu_deferral
      all_closed dest!: lifted_stages split: list.split)

lemma demote_to_ssd: "I s \<Longrightarrow> keeps I (demote_to_ssd sid c n now s)"
  unfolding demote_to_ssd_def Let_def
  by (auto intro!: keeps_andthen ensure_ssd_capacity schedule_job guarded pin_demotion
      note_cpu_deferral all_closed dest!: lifted_stages)

lemma demote: "I s \<Longrightarrow> keeps I (demote sid now s)"
  unfolding demote_def Let_def
  by (intro at_time) (auto intro!: keeps_andthen drop_d_copy demote_to_cpu demote_to_ssd all_closed
      split: option.split)

lemma headroom_loop: "I s \<Longrightarrow> keeps I (headroom_loop n now vs s)"
  by (induction vs arbitrary: s) (auto simp: Let_def intro!: keeps_andthen demote split: option.split)

lemma ensure_d_headroom: "I s \<Longrightarrow> keeps I (ensure_d_headroom n now ex s)"
  unfolding ensure_d_headroom_def
  by (intro at_time) (auto intro!: keeps_andthen headroom_loop all_closed)

lemma force_drop_loop: "I s \<Longrightarrow> keeps I (force_drop_loop now vs s)"
  by (induction vs arbitrary: s)
    (auto intro!: keeps_andthen drop_d_copy all_closed split: option.split)

lemma force_drop_idle_d: "I s \<Longrightarrow> keeps I (force_drop_idle_d now ex s)"
  unfolding force_drop_idle_d_def by (auto intro!: keeps_andthen force_drop_loop all_closed)

lemma spill_loop: "I s \<Longrightarrow> keeps I (spill_loop now p vs s)"
  by (induction vs arbitrary: s) (auto intro!: keeps_andthen start_cpu_spill split: option.split)

lemma ensure_cpu_bounce_headroom: "I s \<Longrightarrow> keeps I (ensure_cpu_bounce_headroom n now p s)"
  unfolding ensure_cpu_bounce_headroom_def Let_def
  by (intro guarded) (auto intro!: keeps_andthen tier_advance spill_loop note_cpu_deferral all_closed)

lemma peek_resume_source: "I s \<Longrightarrow> keeps I (peek_resume_source sid now s)"
  unfolding peek_resume_source_def
  by (intro at_time) (auto intro!: keeps_andthen all_closed split: option.split)

lemma reserve_unless_zero: "I s \<Longrightarrow> keeps I (reserve_unless_zero t w n s)"
  by (simp add: reserve_unless_zero_def all_closed)

lemma prepare_capacity: "I s \<Longrightarrow> keeps I (prepare_capacity r c i f d b pid s)"
  unfolding prepare_capacity_def Let_def
  by (auto intro!: keeps_andthen reserve_unless_zero all_closed simp del: all_closed)

lemma lower_tier_stages: "I s \<Longrightarrow> keeps I (lower_tier_stages c n s)"
  unfolding lower_tier_stages_def by (auto intro!: keeps_andthen all_closed split: option.split)

lemma prepare_stages: "I s \<Longrightarrow> keeps I (prepare_stages sid c n s)"
  unfolding prepare_stages_def Let_def
  by (auto intro!: keeps_andthen lower_tier_stages all_closed split: option.split tier.split)

lemma start_prepare: "I s \<Longrightarrow> keeps I (start_prepare sid rid c n s)"
  unfolding start_prepare_def Let_def
  by (auto intro!: prepare_stages all_closed split: option.split)

lemma drop_unused_source: "I s \<Longrightarrow> keeps I (drop_unused_source sid c e s)"
  unfolding drop_unused_source_def by (auto intro!: copy_ops all_closed split: option.split)

lemma note_infeasible: "I s \<Longrightarrow> I (note_infeasible a b c s)"
  by (simp add: note_infeasible_def all_closed)

lemma begin_prepare: "I s \<Longrightarrow> keeps I (begin_prepare sid rid now i out u succ s)"
proof -
  assume s: "I s"
  have two: "I (s\<lparr>tl_prepares := a, tl_seen_request_ids := b\<rparr>)" if "I s" for s a b
    using seen [OF prepares [OF that, of a], of b] .
  show ?thesis
    unfolding begin_prepare_def Let_def using s
    by (intro at_time) (auto intro!: keeps_andthen prepare_capacity start_prepare schedule_job
        drop_unused_source note_infeasible two all_closed dest!: prepare_transfers(3)
        split: option.split prod.split)
qed

lemma pop_prepare_completed: "I s \<Longrightarrow> keeps I (pop_prepare_completed s)"
  by (simp add: pop_prepare_completed_def all_closed)

lemma release_prepare_to_pool: "I s \<Longrightarrow> keeps I (release_prepare_to_pool pid now s)"
  unfolding release_prepare_to_pool_def by (intro at_time) (auto intro!: all_closed split: option.split)

lemma mark_active: "I s \<Longrightarrow> keeps I (mark_active pid now s)"
  unfolding mark_active_def by (intro at_time) (auto intro!: all_closed split: option.split)

lemma release_p_claim: "I s \<Longrightarrow> keeps I (release_p_claim t s)"
  unfolding release_p_claim_def by (auto intro!: keeps_andthen all_closed)

lemma release_p_after_handoff: "I s \<Longrightarrow> keeps I (release_p_after_handoff pid now s)"
  unfolding release_p_after_handoff_def
  by (intro at_time) (auto intro!: keeps_andthen release_p_claim all_closed split: option.split)

lemma growth_loop: "I s \<Longrightarrow> keeps I (growth_loop fuel t g now s)"
proof (induction fuel arbitrary: s)
  case 0
  then show ?case by (subst growth_loop.simps) simp
next
  case (Suc fuel)
  from Suc.prems show ?case
    by (subst growth_loop.simps) (auto intro!: keeps_andthen force_drop_idle_d Suc.IH)
qed

lemma charge_growth: "I s \<Longrightarrow> keeps I (charge_growth t c now s)"
  unfolding charge_growth_def Let_def by (auto intro!: growth_loop all_closed)

lemma publish_copy: "I s \<Longrightarrow> keeps I (publish_copy t c r s)"
  unfolding publish_copy_def Let_def
  by (auto intro!: keeps_andthen copy_ops all_closed split: option.split)

lemma publish_context: "I s \<Longrightarrow> keeps I (publish_context t c r s)"
  unfolding publish_context_def by (auto intro!: keeps_andthen publish_copy copy_ops all_closed)

lemma end_context: "I s \<Longrightarrow> keeps I (end_context t s)"
  unfolding end_context_def by (auto intro!: keeps_andthen copy_ops all_closed split: option.split)

lemma commit_d_ready: "I s \<Longrightarrow> keeps I (commit_d_ready pid now h s)"
  unfolding commit_d_ready_def Let_def
  by (intro at_time) (auto intro!: keeps_andthen release_p_claim charge_growth publish_context
      end_context all_closed split: option.split)

lemma end_session: "I s \<Longrightarrow> keeps I (end_session sid now s)"
  unfolding end_session_def Let_def
  by (intro at_time) (auto intro!: keeps_andthen copy_ops all_closed split: option.split)

lemma restart_ended: "I s \<Longrightarrow> keeps I (restart_ended sid now s)"
  unfolding restart_ended_def by (intro at_time) (auto intro!: all_closed split: option.split)

lemma idle_advance: "I s \<Longrightarrow> keeps I (idle_advance fuel s)"
proof (induction fuel arbitrary: s)
  case 0
  then show ?case by (subst idle_advance.simps) (simp split: option.split)
next
  case (Suc fuel)
  from Suc.prems show ?case
    by (subst idle_advance.simps) (auto intro!: keeps_andthen tier_advance Suc.IH split: option.split)
qed

lemma tier_run_until_idle: "I s \<Longrightarrow> keeps I (tier_run_until_idle s)"
  unfolding tier_run_until_idle_def
  by (auto intro!: keeps_andthen idle_advance split: option.split)

lemmas operations = register_d_ready preload_session tier_advance begin_ssd_export
  ssd_export_publication_valid finish_ssd_export abort_ssd_export demote ensure_d_headroom
  ensure_cpu_bounce_headroom peek_resume_source begin_prepare pop_prepare_completed
  release_prepare_to_pool mark_active release_p_after_handoff commit_d_ready end_session
  restart_ended tier_run_until_idle

end

section \<open>Reachable lifecycles\<close>

text \<open>
  Every state that some sequence of calls produces, failed calls included.  The calendar is shared, so
  other users of it may act between two calls.
\<close>

inductive tier_reach :: "lifecycle \<Rightarrow> bool" where
  new: "new_lifecycle hw node policy cal pc dc cc sc mode dp validate = Inr s \<Longrightarrow> tier_reach s"
| register_d_ready: "tier_reach s \<Longrightarrow> tier_reach (snd (register_d_ready sid n now v s))"
| preload_session: "tier_reach s \<Longrightarrow> tier_reach (snd (preload_session sid n t now a ver s))"
| tier_advance: "tier_reach s \<Longrightarrow> tier_reach (snd (tier_advance now s))"
| begin_ssd_export: "tier_reach s \<Longrightarrow> tier_reach (snd (begin_ssd_export sid now s))"
| publication_valid: "tier_reach s \<Longrightarrow> tier_reach (snd (ssd_export_publication_valid xid t s))"
| finish_ssd_export: "tier_reach s \<Longrightarrow> tier_reach (snd (finish_ssd_export xid now s))"
| abort_ssd_export: "tier_reach s \<Longrightarrow> tier_reach (snd (abort_ssd_export xid now s))"
| demote: "tier_reach s \<Longrightarrow> tier_reach (snd (demote sid now s))"
| ensure_d_headroom: "tier_reach s \<Longrightarrow> tier_reach (snd (ensure_d_headroom n now ex s))"
| ensure_cpu_bounce_headroom: "tier_reach s \<Longrightarrow> tier_reach (snd (ensure_cpu_bounce_headroom n now p s))"
| peek_resume_source: "tier_reach s \<Longrightarrow> tier_reach (snd (peek_resume_source sid now s))"
| begin_prepare: "tier_reach s \<Longrightarrow> tier_reach (snd (begin_prepare sid rid now i out u succ s))"
| pop_prepare_completed: "tier_reach s \<Longrightarrow> tier_reach (snd (pop_prepare_completed s))"
| release_prepare_to_pool: "tier_reach s \<Longrightarrow> tier_reach (snd (release_prepare_to_pool pid now s))"
| mark_active: "tier_reach s \<Longrightarrow> tier_reach (snd (mark_active pid now s))"
| release_p_after_handoff: "tier_reach s \<Longrightarrow> tier_reach (snd (release_p_after_handoff pid now s))"
| commit_d_ready: "tier_reach s \<Longrightarrow> tier_reach (snd (commit_d_ready pid now h s))"
| end_session: "tier_reach s \<Longrightarrow> tier_reach (snd (end_session sid now s))"
| restart_ended: "tier_reach s \<Longrightarrow> tier_reach (snd (restart_ended sid now s))"
| run_until_idle: "tier_reach s \<Longrightarrow> tier_reach (snd (tier_run_until_idle s))"
| shared_calendar: "tier_reach s \<Longrightarrow> tier_reach (s\<lparr>tl_calendar := cal\<rparr>)"

context lifecycle_closed begin

lemma reach:
  assumes "tier_reach s"
    and "\<And>hw node policy cal pc dc cc sc mode dp validate s.
      new_lifecycle hw node policy cal pc dc cc sc mode dp validate = Inr s \<Longrightarrow> I s"
    and "\<And>s cal. I s \<Longrightarrow> I (s\<lparr>tl_calendar := cal\<rparr>)"
  shows "I s"
  using assms(1) by (induction rule: tier_reach.induct)
    (auto intro: assms(2,3) operations [unfolded keeps_def])

end

definition ledgers_inv :: "lifecycle \<Rightarrow> bool" where
  "ledgers_inv s \<longleftrightarrow> ledger_inv (tl_p_ledger s) \<and> (\<forall>t. ledger_inv (ledger_of t s))"

lemma ledger_step_inv: "ledger_step l l' \<Longrightarrow> ledger_inv l \<Longrightarrow> ledger_inv l'"
  by (induction rule: ledger_step.induct) (auto intro: set_bytes_inv reserve_inv release_inv replace_inv)

lemma set_ledger_other [simp]:
  "ledger_of u (set_ledger t l s) = (if u = t then l else ledger_of u s)"
  "tl_p_ledger (set_ledger t l s) = tl_p_ledger s"
  by (cases t; cases u; simp)+

lemma ledger_of_fields [simp]:
  "ledger_of t (s\<lparr>tl_sessions := x1\<rparr>) = ledger_of t s" "ledger_of t (s\<lparr>tl_copies := x2\<rparr>) = ledger_of t s"
  "ledger_of t (s\<lparr>tl_next_copy_id := x3\<rparr>) = ledger_of t s" "ledger_of t (s\<lparr>tl_jobs := x4\<rparr>) = ledger_of t s"
  "ledger_of t (s\<lparr>tl_prepares := x5\<rparr>) = ledger_of t s" "ledger_of t (s\<lparr>tl_ssd_exports := x6\<rparr>) = ledger_of t s"
  "ledger_of t (s\<lparr>tl_metrics := x7\<rparr>) = ledger_of t s"
  "ledger_of t (s\<lparr>tl_completed_prepares := x8\<rparr>) = ledger_of t s"
  "ledger_of t (s\<lparr>tl_p_ledger := x9\<rparr>) = ledger_of t s"
  "ledger_of t (s\<lparr>tl_completion_heap := y1\<rparr>) = ledger_of t s"
  "ledger_of t (s\<lparr>tl_current_ns := y2\<rparr>) = ledger_of t s" "ledger_of t (s\<lparr>tl_calendar := y3\<rparr>) = ledger_of t s"
  "ledger_of t (s\<lparr>tl_next_job_id := y4\<rparr>) = ledger_of t s"
  "ledger_of t (s\<lparr>tl_next_prepare_id := y5\<rparr>) = ledger_of t s"
  "ledger_of t (s\<lparr>tl_next_export_id := y6\<rparr>) = ledger_of t s"
  "ledger_of t (s\<lparr>tl_export_id_by_job := y7\<rparr>) = ledger_of t s"
  "ledger_of t (s\<lparr>tl_seen_request_ids := y8\<rparr>) = ledger_of t s"
  by (cases t; simp)+

interpretation capacity: lifecycle_closed ledgers_inv
proof
  fix s :: lifecycle and t l
  assume "ledgers_inv s"
  then show "ledger_step (ledger_of t s) l \<Longrightarrow> ledgers_inv (set_ledger t l s)"
    and "ledger_step (tl_p_ledger s) l \<Longrightarrow> ledgers_inv (s\<lparr>tl_p_ledger := l\<rparr>)"
    by (auto simp: ledgers_inv_def dest: ledger_step_inv)
qed (simp_all add: ledgers_inv_def)

definition tier_config :: "lifecycle \<Rightarrow> hardware \<times> int \<times> string \<times> string \<times> string \<times> bool \<times> tier_resources" where
  "tier_config s = (tl_hardware s, tl_node_id s, tl_policy s, tl_restore_execution_mode s,
     tl_d_reservation_policy s, tl_validate_every_event s, tl_resources s)"

definition capacities :: "lifecycle \<Rightarrow> int \<times> int \<times> int \<times> int" where
  "capacities s = (lg_capacity_bytes (tl_p_ledger s), lg_capacity_bytes (tl_d_ledger s),
     lg_capacity_bytes (tl_cpu_ledger s), lg_capacity_bytes (tl_ssd_ledger s))"

lemma checked_snd [simp]: "snd (ledger_checked x l) = l"
  by (simp add: ledger_checked_def split: option.split)

lemma set_bytes_capacity: "lg_capacity_bytes (snd (set_bytes w n l)) = lg_capacity_bytes l"
  by (cases "can_set l w n") (simp_all add: set_bytes_def)

lemma ledger_step_capacity: "ledger_step l l' \<Longrightarrow> lg_capacity_bytes l' = lg_capacity_bytes l"
proof (induction rule: ledger_step.induct)
  case (2 l w n)
  show ?case
    using set_bytes_capacity [of w n l]
    by (cases "set_bytes w n l"; cases "fst (set_bytes w n l)"; cases "can_set l w n")
      (auto simp: ledger_reserve_def)
qed (auto simp: set_bytes_capacity ledger_release_def ledger_replace_def Let_def split: option.split)

interpretation config: lifecycle_closed "\<lambda>s. tier_config s = k \<and> capacities s = c"
proof
  fix s :: lifecycle and t l
  assume "tier_config s = k \<and> capacities s = c"
  then show "ledger_step (ledger_of t s) l \<Longrightarrow>
      tier_config (set_ledger t l s) = k \<and> capacities (set_ledger t l s) = c"
    and "ledger_step (tl_p_ledger s) l \<Longrightarrow>
      tier_config (s\<lparr>tl_p_ledger := l\<rparr>) = k \<and> capacities (s\<lparr>tl_p_ledger := l\<rparr>) = c"
    by (cases t; auto simp: tier_config_def capacities_def dest: ledger_step_capacity)+
qed (simp_all add: tier_config_def capacities_def)

lemma new_lifecycle_ledgers:
  "new_lifecycle hw node policy cal pc dc cc sc mode dp validate = Inr s \<Longrightarrow> ledgers_inv s"
proof -
  assume "new_lifecycle hw node policy cal pc dc cc sc mode dp validate = Inr s"
  then obtain n1 c1 n2 c2 n3 c3 n4 c4 where
    "new_ledger n1 c1 = Inr (tl_p_ledger s)" "new_ledger n2 c2 = Inr (tl_d_ledger s)"
    "new_ledger n3 c3 = Inr (tl_cpu_ledger s)" "new_ledger n4 c4 = Inr (tl_ssd_ledger s)"
    unfolding new_lifecycle_def Let_def by (auto simp: ebind_Inr_iff split: option.splits)
  then have "ledger_inv (ledger_of t s)" "ledger_inv (tl_p_ledger s)" for t
    by (cases t; auto intro: new_ledger_inv)+
  then show ?thesis by (simp add: ledgers_inv_def)
qed

lemma tier_reach_ledgers: "tier_reach s \<Longrightarrow> ledgers_inv s"
  by (erule capacity.reach) (rule new_lifecycle_ledgers, assumption, simp add: ledgers_inv_def)

section \<open>The loops end\<close>

interpretation heap_kept: completion_closed "\<lambda>s. tl_completion_heap s = h"
proof
  fix s :: lifecycle and t l
  show "tl_completion_heap s = h \<Longrightarrow> tl_completion_heap (set_ledger t l s) = h"
    by (cases t) simp_all
qed simp_all

lemma complete_job_heap: "tl_completion_heap (snd (complete_job job s)) = tl_completion_heap s"
  using heap_kept.complete_job [of s "tl_completion_heap s" job] by (simp add: keeps_def)

text \<open>\<open>fuelled r\<close>: the result is not an exhausted loop.\<close>

definition fuelled :: "('a, 's) outcome \<Rightarrow> bool" where
  "fuelled r \<longleftrightarrow> fst r \<noteq> Inl OutOfFuel"

lemma fuelled_simps [simp]:
  "fuelled (Inr x, s)" "fuelled (Inl e, s) \<longleftrightarrow> e \<noteq> OutOfFuel"
  by (simp_all add: fuelled_def)

lemma fuelled_andthen: "fuelled r \<Longrightarrow> (\<And>x s. r = (Inr x, s) \<Longrightarrow> fuelled (f x s)) \<Longrightarrow> fuelled (andthen r f)"
  by (cases r rule: prod.exhaust; cases "fst r") auto

lemma ledger_check_fuel: "ledger_check l \<noteq> Some OutOfFuel"
  by (simp add: ledger_check_def)

lemma ledger_checked_fuel: "fuelled (ledger_checked x l)"
  using ledger_check_fuel [of l] by (auto simp: ledger_checked_def split: option.split)

lemma can_set_fuel: "fuelled (lift_err (can_set l w n) l')"
  by (auto simp: can_set_def validate_owner_bytes_def lift_err_def fuelled_def split: option.split)

lemma ledger_ops_fuel:
  "fuelled (set_bytes w n l)" "fuelled (ledger_reserve w n l)" "fuelled (ledger_release w l)"
  "fuelled (ledger_replace ws v n l)"
proof -
  show s: "fuelled (set_bytes w n l)" for l
    unfolding set_bytes_def by (intro fuelled_andthen can_set_fuel) (simp add: ledger_checked_fuel)
  show "fuelled (ledger_reserve w n l)"
    unfolding ledger_reserve_def using s by (auto intro!: fuelled_andthen can_set_fuel)
  show "fuelled (ledger_release w l)"
    by (simp add: ledger_release_def Let_def ledger_checked_fuel)
  show "fuelled (ledger_replace ws v n l)"
    by (simp add: ledger_replace_def Let_def ledger_checked_fuel)
qed

lemma on_ledger_fuel: "(\<And>l. fuelled (f l)) \<Longrightarrow> fuelled (on_ledger t f s)"
  by (auto simp: on_ledger_def fuelled_def split: prod.split) (metis fst_conv)

lemmas fuel_intros = fuelled_andthen on_ledger_fuel ledger_ops_fuel

lemma kv_bytes_fuel: "kv_capacity_bytes_per_rank hw n \<noteq> Inl OutOfFuel"
  by (auto simp: kv_capacity_bytes_per_rank_def kv_bytes_per_token_per_rank_def
      qwen_logical_kv_bytes_per_token_def ebind_def Let_def split: sum.split)

lemma tier_bytes_fuel: "fuelled (lift_err (tier_bytes_of s t n) s')"
  using kv_bytes_fuel [of "tl_hardware s" n]
  by (auto simp: fuelled_def lift_err_def tier_bytes_of_def aggregate_bytes_def per_rank_bytes_def
      ebind_def split: sum.split)

lemma new_copy_fuel: "fuelled (new_copy sid t v g n w s)"
  unfolding new_copy_def Let_def
  by (intro fuelled_andthen tier_bytes_fuel) (auto intro!: fuel_intros split: option.split)

lemma release_copy_fuel: "fuelled (release_copy c s)"
  unfolding release_copy_def Let_def by (auto intro!: fuel_intros split: option.split)

lemma maybe_release_fuel: "fuelled (maybe_release_retired c s)"
  by (simp add: maybe_release_retired_def release_copy_fuel)

lemma retire_fuel: "fuelled (retire_and_release c s)"
  by (simp add: retire_and_release_def release_copy_fuel)

lemmas copy_fuel = new_copy_fuel release_copy_fuel maybe_release_fuel retire_fuel

lemma export_resources_fuel: "fuelled (release_export_resources xid s)"
  unfolding release_export_resources_def Let_def
  by (auto intro!: fuel_intros copy_fuel split: option.split)

lemma stable_source_fuel: "fuelled (release_stable_d_source t s)"
  unfolding release_stable_d_source_def Let_def
  by (auto intro!: fuel_intros copy_fuel split: option.split)

lemma release_bounce_fuel: "fuelled (release_bounce job s)"
  unfolding release_bounce_def by (auto intro!: fuel_intros split: option.split)

lemma unpin_fuel: "fuelled (unpin_foreground job s)"
  unfolding unpin_foreground_def Let_def by (auto intro!: copy_fuel split: option.split)

lemma commit_demotion_fuel: "fuelled (commit_demotion job c s)"
  unfolding commit_demotion_def Let_def
  by (auto intro!: fuelled_andthen copy_fuel split: option.split)

lemma discard_demotion_fuel: "fuelled (discard_demotion job c s)"
  unfolding discard_demotion_def Let_def
  by (auto intro!: fuel_intros copy_fuel split: option.split)

lemma complete_demotion_fuel: "fuelled (complete_demotion job s)"
  unfolding complete_demotion_def Let_def
  by (auto intro!: fuelled_andthen commit_demotion_fuel discard_demotion_fuel release_bounce_fuel
      split: option.split)

lemma complete_prepare_fuel: "fuelled (complete_prepare job s)"
  unfolding complete_prepare_def Let_def
  by (auto intro!: fuelled_andthen stable_source_fuel unpin_fuel release_bounce_fuel split: option.split)

lemma complete_ssd_export_fuel: "fuelled (complete_ssd_export job s)"
  unfolding complete_ssd_export_def Let_def
  by (auto intro!: fuelled_andthen export_resources_fuel split: option.split)

lemma complete_job_fuel: "fuelled (complete_job job s)"
  by (simp add: complete_job_def complete_demotion_fuel complete_prepare_fuel complete_ssd_export_fuel
      split: job_kind.split)

text \<open>What a run of the event loop establishes: no exhaustion, no due event left, progress.\<close>

definition loop_done :: "int \<Rightarrow> lifecycle \<Rightarrow> (unit, lifecycle) outcome \<Rightarrow> bool" where
  "loop_done now s r \<longleftrightarrow> fuelled r \<and>
     length (tl_completion_heap (snd r)) \<le> length (tl_completion_heap s) \<and>
     (fst r = Inr () \<longrightarrow>
       (\<forall>t. tier_next_event_ns (snd r) = Some t \<longrightarrow> now < t) \<and>
       ((\<exists>u. tier_next_event_ns s = Some u \<and> u \<le> now) \<longrightarrow>
          length (tl_completion_heap (snd r)) < length (tl_completion_heap s)))"

lemma loop_doneD:
  assumes "loop_done now s r"
  shows "fuelled r" "length (tl_completion_heap (snd r)) \<le> length (tl_completion_heap s)"
    "fst r = Inr () \<Longrightarrow> tier_next_event_ns (snd r) = Some t \<Longrightarrow> now < t"
    "fst r = Inr () \<Longrightarrow> tier_next_event_ns s = Some u \<Longrightarrow> u \<le> now \<Longrightarrow>
       length (tl_completion_heap (snd r)) < length (tl_completion_heap s)"
  using assms by (auto simp: loop_done_def)

lemma advance_completions_done:
  "length (tl_completion_heap s) \<le> fuel \<Longrightarrow> loop_done now s (advance_completions fuel now s)"
proof (induction fuel arbitrary: s)
  case 0
  then show ?case
    by (subst advance_completions.simps) (simp add: loop_done_def tier_next_event_ns_def)
next
  case (Suc fuel)
  note unf = advance_completions.simps [of "Suc fuel" now s]
  show ?case
  proof (cases "tl_completion_heap s")
    case Nil
    then show ?thesis by (subst unf) (simp add: loop_done_def tier_next_event_ns_def)
  next
    case (Cons e h)
    obtain t jid where e: "e = (t, jid)" by (cases e)
    let ?s1 = "s\<lparr>tl_completion_heap := h, tl_current_ns := t\<rparr>"
    show ?thesis
    proof (cases "now < t")
      case True
      then show ?thesis
        using Cons e by (subst unf) (simp add: loop_done_def tier_next_event_ns_def)
    next
      case due: False
      show ?thesis
      proof (cases "\<exists>job. dget (tl_jobs s) jid = Some job \<and> tj_status job = JOB_RUNNING")
        case False
        then show ?thesis
          using Cons e due
          by (subst unf) (auto simp: loop_done_def Let_def split: option.split)
      next
        case True
        then obtain job where job: "dget (tl_jobs s) jid = Some job" "tj_status job = JOB_RUNNING"
          by blast
        have step: "advance_completions (Suc fuel) now s =
            andthen (complete_job job ?s1) (\<lambda>_ s. advance_completions fuel now s)"
          using Cons e due job by (subst unf) (simp add: Let_def)
        obtain r s2 where c: "complete_job job ?s1 = (r, s2)" by (cases "complete_job job ?s1")
        have h2: "tl_completion_heap s2 = h" using complete_job_heap [of job ?s1] c by simp
        have f: "fuelled (r, s2)" using complete_job_fuel [of job ?s1] c by simp
        have "length (tl_completion_heap s2) \<le> fuel" using Suc.prems Cons h2 by simp
        note IH = loop_doneD [OF Suc.IH [OF this]]
        show ?thesis
        proof (cases r)
          case (Inl x)
          then show ?thesis using step c h2 f Cons by (simp add: loop_done_def)
        next
          case (Inr y)
          have "advance_completions (Suc fuel) now s = advance_completions fuel now s2"
            using step c Inr by simp
          then show ?thesis
            using IH Cons h2 by (auto simp: loop_done_def)
        qed
      qed
    qed
  qed
qed

definition raisable :: "exn option \<Rightarrow> bool" where
  "raisable e \<longleftrightarrow> e \<noteq> Some OutOfFuel"

lemma raisable_simps [simp]: "raisable None" "raisable (Some e) \<longleftrightarrow> e \<noteq> OutOfFuel"
  by (simp_all add: raisable_def)

lemma raisable_first: "list_all (\<lambda>c. snd c \<noteq> OutOfFuel) cs \<Longrightarrow> raisable (first_error cs)"
  by (induction cs rule: first_error.induct) auto

lemma raisable_find: "(\<And>x. raisable (f x)) \<Longrightarrow> raisable (find_error f xs)"
proof (induction xs)
  case (Cons x xs)
  then show ?case by (cases "f x") (auto simp: raisable_def)
qed simp

lemma raisable_or_else: "raisable a \<Longrightarrow> raisable b \<Longrightarrow> raisable (or_else a b)"
  by (cases a) (simp_all add: or_else_def)

lemmas raisable_intros = raisable_first raisable_find raisable_or_else

lemma raisable_checks:
  "raisable (heap_check s)" "raisable (copy_check s p)" "raisable (session_check s r)"
  "raisable (prepare_check s t)" "raisable (export_check s x)" "raisable (export_pin_check s p)"
  "raisable (ledger_check l)"
  unfolding heap_check_def Let_def copy_check_def session_check_def primary_check_def
    prepare_check_def export_check_def export_pin_check_def ledger_check_def
  by (auto intro!: raisable_intros split: option.split prod.split)

lemma raisable_job_check: "raisable (job_check s job)"
  unfolding job_check_def demotion_check_def export_job_check_def Let_def
  by (auto intro!: raisable_intros split: job_kind.split option.split)

lemma lifecycle_check_fuel: "lifecycle_check s \<noteq> Some OutOfFuel"
  unfolding lifecycle_check_def raisable_def [symmetric]
  by (intro raisable_or_else raisable_find raisable_checks raisable_job_check)

lemma checked_fuel: "fuelled (checked x s)"
  using lifecycle_check_fuel [of s] by (auto simp: checked_def split: option.split)

lemma checked_heap: "tl_completion_heap (snd (checked x s)) = tl_completion_heap s"
  by (simp add: checked_def split: option.split)

lemma loop_done_then:
  fixes c :: "(unit, lifecycle) outcome"
  assumes d: "loop_done now s (Inr y, s1)" and f: "fuelled c"
    and h: "tl_completion_heap (snd c) = tl_completion_heap s1"
  shows "loop_done now s c"
proof -
  have n: "tier_next_event_ns (snd c) = tier_next_event_ns s1"
    using h by (simp add: tier_next_event_ns_def)
  have y: "fst (Inr y, s1) = Inr ()" by simp
  note D = loop_doneD [OF d]
  have e: "length (tl_completion_heap s1) < length (tl_completion_heap s)"
    if "\<exists>u. tier_next_event_ns s = Some u \<and> u \<le> now"
    using that D(4) [OF y] by auto
  show ?thesis
    unfolding loop_done_def n h using f D(2) D(3) [OF y] e by simp
qed

lemma tier_advance_done:
  "loop_done now s (tier_advance now s)"
proof -
  let ?a = "advance_completions (length (tl_completion_heap s)) now s"
  have d: "loop_done now s ?a" by (rule advance_completions_done) simp
  obtain r s1 where a: "?a = (r, s1)" by (cases ?a)
  note D = loop_doneD [OF d, unfolded a]
  let ?c = "checked () (s1\<lparr>tl_current_ns := now\<rparr>)"
  have h: "tl_completion_heap (snd ?c) = tl_completion_heap s1" by (simp add: checked_heap)
  show ?thesis
  proof (cases "validate_time now = None \<and> \<not> now < tl_current_ns s")
    case False
    then show ?thesis
      by (auto simp: tier_advance_def validate_time_def loop_done_def)
  next
    case True
    then have e: "tier_advance now s = andthen (r, s1) (\<lambda>_ s. checked () (s\<lparr>tl_current_ns := now\<rparr>))"
      by (simp add: tier_advance_def a)
    show ?thesis
    proof (cases r)
      case (Inl x)
      then show ?thesis using D e by (simp add: loop_done_def)
    next
      case (Inr y)
      have "tier_advance now s = ?c" using e Inr by simp
      with loop_done_then [OF d [unfolded a Inr] checked_fuel h] show ?thesis by simp
    qed
  qed
qed

lemma tier_advance_Inr:
  "tier_advance now s = (Inr (), s') \<Longrightarrow> tl_current_ns s' = now \<and> 0 \<le> now \<and> tl_current_ns s \<le> now"
  by (auto simp: tier_advance_def andthen_Inr_iff checked_def validate_time_def split: option.splits if_splits)

lemma idle_advance_done:
  "length (tl_completion_heap s) \<le> fuel \<Longrightarrow> fuelled (idle_advance fuel s) \<and>
     (fst (idle_advance fuel s) = Inr () \<longrightarrow> tl_completion_heap (snd (idle_advance fuel s)) = [])"
proof (induction fuel arbitrary: s)
  case 0
  then show ?case by (subst (1 2 3) idle_advance.simps) (simp add: tier_next_event_ns_def)
next
  case (Suc fuel)
  show ?case
  proof (cases "tl_completion_heap s")
    case Nil
    then show ?thesis by (subst (1 2 3) idle_advance.simps) (simp add: tier_next_event_ns_def)
  next
    case (Cons e h)
    have t: "tier_next_event_ns s = Some (fst e)" using Cons by (simp add: tier_next_event_ns_def)
    obtain r s1 where a: "tier_advance (fst e) s = (r, s1)" by (cases "tier_advance (fst e) s")
    note D = loop_doneD [OF tier_advance_done [of "fst e" s], unfolded a]
    have step: "idle_advance (Suc fuel) s = andthen (r, s1) (\<lambda>_ s. idle_advance fuel s)"
      using t a by (subst idle_advance.simps) simp
    show ?thesis
    proof (cases r)
      case (Inl x)
      then show ?thesis using step D(1) by simp
    next
      case (Inr y)
      have "length (tl_completion_heap s1) < length (tl_completion_heap s)"
        using D(4) [of "fst e"] Inr t by simp
      with Suc.prems Suc.IH [of s1] step Inr show ?thesis by simp
    qed
  qed
qed

end
