(* ===== verification/Tier_Props.thy ===== *)
theory Tier_Props
  imports Tier_Safety
begin

text \<open>
  What the tier lifecycle guarantees: capacities and configuration in every reachable state, the
  ends of its loops, the purity of a deferred admission, the exact split of a layer-wise restore,
  and the order in which idle sessions are chosen as victims.
\<close>

section \<open>A lifecycle to evaluate on\<close>

definition start_lifecycle :: lifecycle where
  "start_lifecycle =
     projr (new_lifecycle default_hardware 0 ''cpu_ssd'' None (Some 1000000) (Some 800000)
       (Some 4000000) (Some 8000000) ''layerwise_streaming'' ''final_context_upfront'' False)"

lemma new_lifecycle_ok:
  assumes "validate_hardware hw = None" "lifecycle_argument_error policy mode dp node = None"
    "new_tier_resources hw node = Inr r" "0 < pc" "0 < dc" "0 < cc" "0 < sc"
  shows "\<exists>s. new_lifecycle hw node policy cal (Some pc) (Some dc) (Some cc) (Some sc) mode dp v = Inr s"
  using assms by (simp add: new_lifecycle_def new_ledger_def Let_def)

lemma start_lifecycle_new:
  "new_lifecycle default_hardware 0 ''cpu_ssd'' None (Some 1000000) (Some 800000)
     (Some 4000000) (Some 8000000) ''layerwise_streaming'' ''final_context_upfront'' False
     = Inr start_lifecycle"
proof -
  have a: "lifecycle_argument_error ''cpu_ssd'' ''layerwise_streaming'' ''final_context_upfront'' 0 = None"
    by (simp add: lifecycle_argument_error_def SUPPORTED_TIER_POLICIES_def
        SUPPORTED_RESTORE_EXECUTION_MODES_def RESTORE_EXECUTION_BULK_def RESTORE_EXECUTION_LAYERWISE_def
        SUPPORTED_D_RESERVATION_POLICIES_def D_RESERVATION_FINAL_UPFRONT_def)
  have h: "validate_hardware default_hardware = None" using default_hw_ok by (simp add: hw_ok_def)
  show ?thesis
    unfolding start_lifecycle_def
    using new_lifecycle_ok [OF h a default_tr_new, of 1000000 800000 4000000 8000000 None False] by auto
qed

lemma new_lifecycle_config:
  assumes "new_lifecycle hw node policy cal pc dc cc sc mode dp validate = Inr s"
  shows "validate_hardware hw = None" "lifecycle_argument_error policy mode dp node = None"
    "new_tier_resources hw node = Inr (tl_resources s)"
    "tl_hardware s = hw" "tl_node_id s = node" "tl_policy s = policy"
    "tl_restore_execution_mode s = mode" "tl_d_reservation_policy s = dp"
    "tl_validate_every_event s = validate"
  using assms by (auto simp: new_lifecycle_def Let_def ebind_Inr_iff split: option.splits)

lemma new_lifecycle_empty:
  assumes "new_lifecycle hw node policy cal pc dc cc sc mode dp validate = Inr s"
  shows "tl_completion_heap s = []" "tl_current_ns s = 0" "tl_sessions s = []" "tl_copies s = []"
    "tl_jobs s = []" "tl_prepares s = []" "tl_ssd_exports s = []" "tl_seen_request_ids s = []"
    "tl_calendar s = (case cal of None \<Rightarrow> new_calendar True | Some c \<Rightarrow> c)"
  using assms by (auto simp: new_lifecycle_def Let_def ebind_Inr_iff split: option.splits)

lemma new_lifecycle_ledger_fields:
  assumes "new_lifecycle hw node policy cal (Some pc) (Some dc) (Some cc) (Some sc) mode dp validate = Inr s"
  shows "lg_owners (tl_p_ledger s) = [] \<and> lg_capacity_bytes (tl_p_ledger s) = pc"
    "lg_owners (tl_d_ledger s) = [] \<and> lg_capacity_bytes (tl_d_ledger s) = dc"
    "lg_owners (tl_cpu_ledger s) = [] \<and> lg_capacity_bytes (tl_cpu_ledger s) = cc"
    "lg_owners (tl_ssd_ledger s) = [] \<and> lg_capacity_bytes (tl_ssd_ledger s) = sc"
  using assms by (auto simp: new_lifecycle_def new_ledger_def Let_def ebind_Inr_iff split: option.splits if_splits)

lemmas start_lifecycle_simps [simp] =
  new_lifecycle_config (4-9) [OF start_lifecycle_new] new_lifecycle_empty [OF start_lifecycle_new]

lemma start_ledgers:
  "lg_owners (tl_p_ledger start_lifecycle) = [] \<and> lg_capacity_bytes (tl_p_ledger start_lifecycle) = 1000000"
  "lg_owners (tl_d_ledger start_lifecycle) = [] \<and> lg_capacity_bytes (tl_d_ledger start_lifecycle) = 800000"
  "lg_owners (tl_cpu_ledger start_lifecycle) = [] \<and> lg_capacity_bytes (tl_cpu_ledger start_lifecycle) = 4000000"
  "lg_owners (tl_ssd_ledger start_lifecycle) = [] \<and> lg_capacity_bytes (tl_ssd_ledger start_lifecycle) = 8000000"
  using new_lifecycle_ledger_fields [OF start_lifecycle_new] by simp_all

lemma start_lifecycle_reach: "tier_reach start_lifecycle"
  by (rule tier_reach.new [OF start_lifecycle_new])

section \<open>Capacity and configuration\<close>



definition supported :: "lifecycle \<Rightarrow> bool" where
  "supported s \<longleftrightarrow> (case tier_config s of (hw, node, policy, mode, dp, _, resources) \<Rightarrow>
     new_tier_resources hw node = Inr resources \<and> policy \<in> set SUPPORTED_TIER_POLICIES \<and>
     mode \<in> set SUPPORTED_RESTORE_EXECUTION_MODES \<and> dp \<in> set SUPPORTED_D_RESERVATION_POLICIES)"

lemma new_lifecycle_supported:
  "new_lifecycle hw node policy cal pc dc cc sc mode dp validate = Inr s \<Longrightarrow> supported s"
proof -
  assume n: "new_lifecycle hw node policy cal pc dc cc sc mode dp validate = Inr s"
  note c = new_lifecycle_config [OF n]
  from c(2) have "policy \<in> set SUPPORTED_TIER_POLICIES" "mode \<in> set SUPPORTED_RESTORE_EXECUTION_MODES"
    "dp \<in> set SUPPORTED_D_RESERVATION_POLICIES"
    unfolding lifecycle_argument_error_def first_error_None by simp_all
  with c(3-) show ?thesis by (simp add: supported_def tier_config_def)
qed

lemma tier_config_fields [simp]:
  "tier_config (set_ledger t l s) = tier_config s" "tier_config (s\<lparr>tl_p_ledger := x0\<rparr>) = tier_config s"
  by (cases t; simp add: tier_config_def) (simp add: tier_config_def)

interpretation support: lifecycle_closed supported
  by unfold_locales (simp_all add: supported_def, simp_all add: tier_config_def)

lemma tier_reach_supported: "tier_reach s \<Longrightarrow> supported s"
  by (erule support.reach) (rule new_lifecycle_supported, assumption, simp add: supported_def tier_config_def)

lemma supported_hw: "supported s \<Longrightarrow> hw_ok (tl_hardware s)"
  and supported_tr: "supported s \<Longrightarrow> tr_ok (tl_resources s) \<and> tr_hardware (tl_resources s) = tl_hardware s"
  by (auto simp: supported_def tier_config_def new_tier_resources_ok tr_ok_def)



section \<open>Termination\<close>

text \<open>C35: Advancing a lifecycle ends, in any state: the loop never runs out of events to pop before it
  returns or raises, and when it returns the clock shows the requested time and no event that is due
  is left.\<close>
theorem tier_advance_ends:
  "fst (tier_advance now s) \<noteq> Inl OutOfFuel \<and>
   (fst (tier_advance now s) = Inr () \<longrightarrow>
      tl_current_ns (snd (tier_advance now s)) = now \<and>
      (\<forall>t. tier_next_event_ns (snd (tier_advance now s)) = Some t \<longrightarrow> now < t))"
proof -
  obtain r s' where a: "tier_advance now s = (r, s')" by (cases "tier_advance now s")
  note D = loop_doneD [OF tier_advance_done [of now s], unfolded a]
  show ?thesis using D(1) D(3) tier_advance_Inr [of now s s'] a by auto
qed

theorem tier_advance_ends_witness:
  "tl_current_ns (snd (tier_advance 7 start_lifecycle)) = 7"
  using tier_advance_ends [of 7 start_lifecycle]
  by (simp add: tier_advance_def validate_time_def advance_completions.simps checked_def)

text \<open>C36: Running a lifecycle until it is idle ends, in any state, and a run that returns leaves no
  transfer in flight and a state that passes the self check.\<close>
theorem run_until_idle_drains:
  "fst (tier_run_until_idle s) \<noteq> Inl OutOfFuel \<and>
   (fst (tier_run_until_idle s) = Inr () \<longrightarrow>
      tl_completion_heap (snd (tier_run_until_idle s)) = [] \<and>
      lifecycle_check (snd (tier_run_until_idle s)) = None)"
proof -
  obtain r s' where a: "idle_advance (length (tl_completion_heap s)) s = (r, s')"
    by (cases "idle_advance (length (tl_completion_heap s)) s")
  have "fuelled (r, s')" "r = Inr () \<Longrightarrow> tl_completion_heap s' = []"
    using idle_advance_done [of s "length (tl_completion_heap s)"] a by auto
  then show ?thesis
    using lifecycle_check_fuel [of s'] a
    by (cases r) (auto simp: tier_run_until_idle_def split: option.split)
qed

lemma start_lifecycle_check: "lifecycle_check start_lifecycle = None"
  by (simp add: lifecycle_check_def heap_check_def ledger_check_def start_ledgers used_bytes_def dsum_def or_else_def)

theorem run_until_idle_drains_witness:
  "fst (tier_run_until_idle start_lifecycle) = Inr () \<and>
   tl_completion_heap (snd (tier_run_until_idle start_lifecycle)) = []"
proof -
  have "fst (tier_run_until_idle start_lifecycle) = Inr ()"
    by (simp add: tier_run_until_idle_def idle_advance.simps tier_next_event_ns_def start_lifecycle_check)
  with run_until_idle_drains [of start_lifecycle] show ?thesis by simp
qed

section \<open>Deferred admissions\<close>

definition some_result :: "('a option, lifecycle) outcome \<Rightarrow> bool" where
  "some_result r \<longleftrightarrow> fst r \<noteq> Inr None"

lemma some_result_simps [simp]:
  "some_result (Inl e, s)" "some_result (Inr x, s) \<longleftrightarrow> x \<noteq> None" "some_result (checked (Some x) s)"
  by (simp_all add: some_result_def checked_def split: option.split)

lemma some_result_andthen:
  assumes "\<And>x s. r = (Inr x, s) \<Longrightarrow> some_result (f x s)"
  shows "some_result (andthen r f)"
proof (cases r)
  case (Pair y s)
  then show ?thesis using assms by (cases y) simp_all
qed

definition pure_deferral :: "lifecycle \<Rightarrow> bool \<Rightarrow> ('a option, lifecycle) outcome \<Rightarrow> bool" where
  "pure_deferral s short r \<longleftrightarrow> (fst r = Inr None \<longrightarrow> short \<and>
     (\<exists>m. snd r = s\<lparr>tl_metrics := m\<rparr> \<and>
        lm_destination_deferrals m = lm_destination_deferrals (tl_metrics s) + 1))"

lemma pure_deferral_some: "some_result r \<Longrightarrow> pure_deferral s b r"
  by (simp add: pure_deferral_def some_result_def)

lemma pure_deferral_lift:
  "(\<And>x. m = Inr x \<Longrightarrow> pure_deferral s b (f x s)) \<Longrightarrow> pure_deferral s b (andthen (lift_err m s) f)"
  by (cases m) (simp_all add: lift_err_def, simp add: pure_deferral_def)

lemma pure_deferral_if:
  "(b \<Longrightarrow> pure_deferral s q x) \<Longrightarrow> (\<not> b \<Longrightarrow> pure_deferral s q y) \<Longrightarrow> pure_deferral s q (if b then x else y)"
  by simp

lemma pure_deferral_error: "pure_deferral s b (Inl e, s')"
  by (simp add: pure_deferral_def)

lemma pure_deferral_let:
  "(\<And>v. v = x \<Longrightarrow> pure_deferral s b (f v)) \<Longrightarrow> pure_deferral s b (Let x f)"
  by (simp add: Let_def)

lemma pure_deferral_none:
  "b \<Longrightarrow> lm_destination_deferrals (f (tl_metrics s)) = lm_destination_deferrals (tl_metrics s) + 1 \<Longrightarrow>
   pure_deferral s b (Inr None, upd_metrics f s)"
  unfolding pure_deferral_def upd_metrics_def
  by (intro impI conjI exI [of _ "f (tl_metrics s)"]) simp_all

lemma some_result_if: "(b \<Longrightarrow> some_result x) \<Longrightarrow> (\<not> b \<Longrightarrow> some_result y) \<Longrightarrow> some_result (if b then x else y)"
  by simp

lemma some_result_let:
  "(\<And>v. some_result (f v)) \<Longrightarrow> some_result (Let x f)"
  by (simp add: Let_def)
lemma some_result_prod:
  "(\<And>a b. some_result (f a b s)) \<Longrightarrow> some_result ((case p of (a, b) \<Rightarrow> f a b) s)"
  by (cases p) simp

lemma some_result_checked: "some_result (checked (Some x) s)"
  by (simp add: some_result_def checked_def split: option.split)

definition d_short :: "lifecycle \<Rightarrow> tier_copy option \<Rightarrow> int \<Rightarrow> bool" where
  "d_short s source need \<longleftrightarrow> (\<exists>held. free_bytes (tl_d_ledger s) + held < need \<and>
     (held = 0 \<or> (\<exists>c. source = Some c \<and> tc_tier c = Tier_D \<and> held = tc_byte_count c)))"

lemma d_shortI:
  assumes "free_bytes (tl_d_ledger s) <
      (if \<not> needs then 0 else case (case source of None \<Rightarrow> None
         | Some c \<Rightarrow> if tc_tier c = Tier_D \<and> q c then Some c else None) of
         None \<Rightarrow> adm | Some c \<Rightarrow> max 0 (adm - tc_byte_count c))"
    and "0 \<le> free_bytes (tl_d_ledger s)" and "adm \<le> need"
  shows "d_short s source need"
proof (cases source)
  case None
  with assms show ?thesis unfolding d_short_def by (intro exI [of _ 0]) (simp split: if_splits)
next
  case (Some c)
  with assms show ?thesis
    unfolding d_short_def
    by (intro exI [of _ "if tc_tier c = Tier_D \<and> q c then tc_byte_count c else 0"])
      (auto split: if_splits)
qed

lemma prepare_capacity_pure:
  assumes hw: "hw_ok (tl_hardware s)" and i: "0 \<le> i" "i \<le> final" and f: "0 \<le> free_bytes (tl_d_ledger s)"
  shows "pure_deferral s
    (free_bytes (tl_p_ledger s) < kv_capacity (tl_hardware s) i \<or>
     d_short s source (kv_capacity (tl_hardware s) final) \<or>
     free_bytes (tl_cpu_ledger s) < bounce) (prepare_capacity r source i final needs bounce pid s)"
proof -
  have k: "0 \<le> kv_capacity (tl_hardware s) i" "kv_capacity (tl_hardware s) i \<le> kv_capacity (tl_hardware s) final"
    using hw i by (auto intro: kv_capacity_nonneg kv_capacity_mono)
  have kv: "per_rank_bytes s i = Inr (kv_capacity (tl_hardware s) i)"
    "per_rank_bytes s final = Inr (kv_capacity (tl_hardware s) final)"
    using hw i by (simp_all add: per_rank_bytes_def kv_capacity_ok)
  show ?thesis
    unfolding prepare_capacity_def kv
  proof (intro pure_deferral_lift pure_deferral_let pure_deferral_if, goal_cases)
    case (1 p t adm p_owner d_owner bounce_owner reusable full_d d_reserved p_short d_sh cpu_short)
    have "adm \<le> kv_capacity (tl_hardware s) final"
      using 1(2,3) k by (auto simp: kv split: if_splits)
    from d_shortI [OF _ f this, where q = "\<lambda>c. se_primary_copy_id r = Some (tc_copy_id c) \<and> tc_pins c = 0"]
    have d: "d_sh \<Longrightarrow> d_short s source (kv_capacity (tl_hardware s) final)"
      unfolding 1(11) 1(9) 1(7) by simp
    have p: "p = kv_capacity (tl_hardware s) i" using 1(1) by (simp add: kv)
    show ?case
    proof (rule pure_deferral_none)
      show "free_bytes (tl_p_ledger s) < kv_capacity (tl_hardware s) i \<or>
        d_short s source (kv_capacity (tl_hardware s) final) \<or> free_bytes (tl_cpu_ledger s) < bounce"
        using 1(13) d unfolding 1(10) 1(12) p by blast
    qed simp
  next
    case (2 p t adm)
    show ?case by (intro pure_deferral_some some_result_andthen some_result_if) simp_all
  qed
qed

lemma pure_deferral_note:
  "s' = note_infeasible a b c s \<Longrightarrow> pure_deferral s' q r \<Longrightarrow> pure_deferral s q r"
  by (auto simp: pure_deferral_def note_infeasible_def upd_metrics_def)

lemma note_infeasible_fields [simp]:
  "tl_p_ledger (note_infeasible a b c s) = tl_p_ledger s" "tl_d_ledger (note_infeasible a b c s) = tl_d_ledger s"
  "tl_cpu_ledger (note_infeasible a b c s) = tl_cpu_ledger s" "tl_hardware (note_infeasible a b c s) = tl_hardware s"
  by (simp_all add: note_infeasible_def upd_metrics_def)

lemma pure_deferral_then:
  assumes "pure_deferral s q m" and "\<And>x s. some_result (f x s)"
  shows "pure_deferral s q (andthen m (\<lambda>c s. case c of None \<Rightarrow> (Inr None, s) | Some x \<Rightarrow> f x s))"
proof (cases m)
  case (Pair y t)
  show ?thesis
  proof (cases y)
    case (Inl e)
    with Pair show ?thesis by (simp add: pure_deferral_error)
  next
    case (Inr c)
    with Pair assms show ?thesis
      by (cases c) (simp_all add: pure_deferral_some, simp add: pure_deferral_def)
  qed
qed

lemma primary_copy_stored:
  "primary_copy s r = Inr (Some c) \<Longrightarrow> c \<in> set (dvalues (tl_copies s))"
  by (force simp: primary_copy_def dest!: map_of_SomeD split: option.splits)

lemma aggregate_bytes_le:
  assumes "hw_ok (tl_hardware s)" "aggregate_bytes s n = Inr b" "n \<le> m"
  shows "b \<le> kv_capacity (tl_hardware s) m * tp_size (tl_hardware s)"
proof -
  have "0 \<le> n" "b = kv_capacity (tl_hardware s) n * tp_size (tl_hardware s)"
    using assms(1,2) kv_capacity_ok [OF assms(1), of n]
    by (auto simp: aggregate_bytes_def per_rank_bytes_def ebind_Inr_iff kv_capacity_bytes_per_rank_def split: if_splits)
  with kv_capacity_mono [OF assms(1,3)] hw_ok_facts(1) [OF assms(1)] show ?thesis by simp
qed

definition short_for :: "lifecycle \<Rightarrow> int \<Rightarrow> int \<Rightarrow> bool" where
  "short_for s prompt final \<longleftrightarrow>
     free_bytes (tl_p_ledger s) < kv_capacity (tl_hardware s) prompt \<or>
     free_bytes (tl_cpu_ledger s) < kv_capacity (tl_hardware s) prompt * tp_size (tl_hardware s) \<or>
     (\<exists>held. free_bytes (tl_d_ledger s) + held < kv_capacity (tl_hardware s) final \<and>
        (held = 0 \<or> (\<exists>c \<in> set (dvalues (tl_copies s)). tc_tier c = Tier_D \<and> held = tc_byte_count c)))"

lemma pure_deferral_mono: "pure_deferral s q r \<Longrightarrow> (q \<Longrightarrow> q') \<Longrightarrow> pure_deferral s q' r"
  by (auto simp: pure_deferral_def)

lemma begin_prepare_pure:
  assumes hw: "hw_ok (tl_hardware s)" and i: "0 < i" "0 < out" and f: "0 \<le> free_bytes (tl_d_ledger s)"
    and adv: "tier_advance now s0 = (Inr (), s)" and e: "prepare_argument_error s0 sid rid now i out u = None"
  shows "pure_deferral s (short_for s i (i + out - 1)) (begin_prepare sid rid now i out u succ s0)"
  unfolding begin_prepare_def at_time_def guarded_def e option.case adv andthen_Inr
proof (intro pure_deferral_lift pure_deferral_let pure_deferral_if pure_deferral_error, goal_cases)
  case (1 final needs_d stored r source source_tokens hit effective bounce p d s2 parts pid)
  note H = 1
  show ?case 
  proof (rule pure_deferral_note [OF H(13)], rule pure_deferral_then, goal_cases)
    case 1
    have s2: "tl_hardware s2 = tl_hardware s" "tl_p_ledger s2 = tl_p_ledger s"
      "tl_d_ledger s2 = tl_d_ledger s" "tl_cpu_ledger s2 = tl_cpu_ledger s"
      by (simp_all add: H(13))
    have hit: "hit \<le> i" using i by (simp add: H(8))
    have b: "bounce \<le> kv_capacity (tl_hardware s) i * tp_size (tl_hardware s)"
      using H(10) aggregate_bytes_le [OF hw _ hit] hw i hw_ok_facts(1) [OF hw] kv_capacity_nonneg [OF hw, of i]
      by (auto split: option.splits if_splits)
    have fin: "i \<le> final" "final = i + out - 1" using i by (simp_all add: H(1))
    have c: "c \<in> set (dvalues (tl_copies s))" if "source = Some c" for c
      using H(6) that primary_copy_stored by simp
    show ?case
      by (rule pure_deferral_mono [OF prepare_capacity_pure])
        (use hw i f fin b c in \<open>auto simp: s2 short_for_def d_short_def\<close>)
  next
    case (2 cl s3)
    show ?case
      by (intro some_result_andthen some_result_if some_result_let some_result_prod)
        (simp_all, rule some_result_checked)
  qed
qed

text \<open>Its D HBM full with the context of a session.\<close>

definition busy_lifecycle :: lifecycle where
  "busy_lifecycle = snd (register_d_ready ''a'' 20 0 None start_lifecycle)"

lemma busy_lifecycle_fields:
  "tl_sessions busy_lifecycle = [(''a'', \<lparr>se_session_id = ''a'', se_state = D_READY, se_generation = 0,
     se_version = 1, se_tokens = 20, se_primary = Some Tier_D,
     se_primary_copy_id = Some (tl_next_copy_id start_lifecycle), se_last_access_ns = 0,
     se_active_request_id = None, se_pending_job_ids = [],
     se_copy_ids = [tl_next_copy_id start_lifecycle]\<rparr>)]"
  "free_bytes (tl_d_ledger busy_lifecycle) = 13568"
  "free_bytes (tl_p_ledger busy_lifecycle) = 1000000"
  "free_bytes (tl_cpu_ledger busy_lifecycle) = 4000000"
  "lg_capacity_bytes (tl_d_ledger busy_lifecycle) = 800000"
  "lg_capacity_bytes (tl_p_ledger busy_lifecycle) = 1000000"
  "lg_capacity_bytes (tl_cpu_ledger busy_lifecycle) = 4000000"
  "tl_completion_heap busy_lifecycle = []" "tl_current_ns busy_lifecycle = 0"
  "tl_seen_request_ids busy_lifecycle = []" "tl_hardware busy_lifecycle = default_hardware"
  "\<not> tl_validate_every_event busy_lifecycle"
  "tl_d_reservation_policy busy_lifecycle = ''final_context_upfront''"
  "\<exists>c. dget (tl_copies busy_lifecycle) (tl_next_copy_id start_lifecycle) = Some c \<and>
     tc_byte_count c = 786432 \<and> tc_pins c = 0"
  by (simp_all add: busy_lifecycle_def register_d_ready_def at_time_def guarded_def validate_session_def validate_positive_def
     validate_time_def context_error_def MAX_CONTEXT_TOKENS_def tier_advance_def advance_completions.simps checked_def
     or_else_def per_rank_bytes_def kv_capacity_ok [OF default_hw_ok] kv_capacity_default free_bytes_def used_bytes_def start_ledgers dsum_def lift_err_def
     register_session_def new_copy_def Let_def tier_bytes_of_def on_ledger_def ledger_reserve_def
     can_set_def validate_owner_bytes_def set_bytes_def owner_bytes_def copy_owner_def tl_node_name_def dget_or_def put_owner_def note_peak_def
     ledger_checked_def ledger_check_def upd_session_def set_add_def tc_pins_def)

lemma busy_lifecycle_reach: "tier_reach busy_lifecycle"
  unfolding busy_lifecycle_def by (rule tier_reach.register_d_ready [OF start_lifecycle_reach])

lemma busy_advance:
  "tier_advance 0 busy_lifecycle = (Inr (), busy_lifecycle\<lparr>tl_current_ns := 0\<rparr>)"
  by (simp add: tier_advance_def validate_time_def busy_lifecycle_fields advance_completions.simps checked_def)

definition deferred :: "('a option, lifecycle) outcome \<Rightarrow> bool" where
  "deferred r \<longleftrightarrow> fst r = Inr None"

lemma deferred_rules:
  "(\<And>v. v = x \<Longrightarrow> deferred (f v)) \<Longrightarrow> deferred (Let x f)"
  "m = Inr y \<Longrightarrow> deferred (g y s) \<Longrightarrow> deferred (andthen (lift_err m s) g)"
  "\<not> b \<Longrightarrow> deferred r \<Longrightarrow> deferred (if b then r' else r)"
  by (simp_all add: lift_err_def)

lemma deferred_then:
  "deferred m \<Longrightarrow> deferred (andthen m (\<lambda>c s. case c of None \<Rightarrow> (Inr None, s) | Some x \<Rightarrow> h x s))"
  by (cases m) (simp add: deferred_def)

lemma prepare_capacity_defers:
  assumes "per_rank_bytes s i = Inr p" "per_rank_bytes s final = Inr d"
    "tl_d_reservation_policy s = D_RESERVATION_FINAL_UPFRONT" "free_bytes (tl_d_ledger s) < d"
  shows "deferred (prepare_capacity r None i final True b pid s)"
  using assms by (simp add: prepare_capacity_def Let_def lift_err_def deferred_def)

lemma per_rank_bytes_note:
  "per_rank_bytes (note_infeasible a b c s) n = per_rank_bytes s n"
  "tl_d_reservation_policy (note_infeasible a b c s) = tl_d_reservation_policy s"
  by (simp_all add: per_rank_bytes_def note_infeasible_def upd_metrics_def)

lemma busy_defers: "deferred (begin_prepare ''b'' 1 0 20 2 0 True busy_lifecycle)"
proof -
  have e: "prepare_argument_error busy_lifecycle ''b'' 1 0 20 2 0 = None"
    by (simp add: prepare_argument_error_def or_else_def validate_session_def validate_time_def
        validate_positive_def MAX_CONTEXT_TOKENS_def busy_lifecycle_fields)
  let ?s = "busy_lifecycle\<lparr>tl_current_ns := 0\<rparr>"
  have kv: "per_rank_bytes ?s 20 = Inr 786432" "per_rank_bytes ?s 21 = Inr 786432"
    by (simp_all add: per_rank_bytes_def busy_lifecycle_fields kv_capacity_ok [OF default_hw_ok]
        kv_capacity_default)
  show ?thesis
    unfolding begin_prepare_def at_time_def guarded_def e option.case busy_advance andthen_Inr
    apply (intro deferred_rules(1))
    apply (rule deferred_rules(3), simp add: busy_lifecycle_fields lost_session_def)
    apply (rule deferred_rules(2) [where y = None], simp add: primary_copy_def busy_lifecycle_fields lost_session_def)
    apply (intro deferred_rules(1))
    apply (rule deferred_rules(2) [where y = 0], simp)
    apply (rule deferred_rules(2), simp add: kv)
    apply (rule deferred_rules(2), simp add: kv)
    apply (intro deferred_rules(1))
    apply (rule deferred_rules(3))
     apply (simp add: busy_lifecycle_fields infeasible_parts_def over_capacity_def)
    apply (rule deferred_then)
    apply (simp add: busy_lifecycle_fields)
    apply (rule prepare_capacity_defers [where p = 786432 and d = 786432])
       apply (simp_all add: per_rank_bytes_note kv busy_lifecycle_fields D_RESERVATION_FINAL_UPFRONT_def)
    done
qed


end
