(* ===== verification/Tier_Restore.thy ===== *)
theory Tier_Restore
  imports Tier_Props
begin

text \<open>
  The layer-wise restore of a lower-tier hit (\<^verbatim>\<open>begin_prepare\<close> of \<^verbatim>\<open>gpu_pd_tier_lifecycle.py\<close>): the split
  of the bytes over the layers, the stages it becomes, and when each layer is ready; and the LRU choice
  of victims.
\<close>

section \<open>The split over the layers\<close>

lemma sum_upto_less:
  "0 \<le> r \<Longrightarrow> r \<le> int n \<Longrightarrow> sum_list (map (\<lambda>i. if i < r then 1 else 0) [0..int n - 1]) = (r::int)"
proof (induction n arbitrary: r)
  case (Suc n)
  have "[0..int (Suc n) - 1] = [0..int n - 1] @ [int n]" using upto_rec2 [of 0 "int n"] by simp
  moreover have "sum_list (map (\<lambda>i. if i < r then 1 else 0) [0..int n - 1]) = min r (int n)"
  proof (cases "r \<le> int n")
    case True
    with Suc show ?thesis by simp
  next
    case False
    then have "map (\<lambda>i. if i < r then 1 else 0) [0..int n - 1] = map (\<lambda>i. if i < int n then 1 else (0::int)) [0..int n - 1]"
      by (intro map_cong) auto
    then have "sum_list (map (\<lambda>i. if i < r then 1 else 0) [0..int n - 1]) = int n"
      using Suc.IH [of "int n"] by (simp only:)
    with False show ?thesis by simp
  qed
  ultimately show ?case using Suc.prems by auto
qed simp

lemma sum_list_add_const: "sum_list (map (\<lambda>i. c + f i) xs) = c * int (length xs) + sum_list (map f xs)"
  by (induction xs) (simp_all add: algebra_simps)

lemma kv_capacity_layers:
  assumes "hw_ok hw" and "0 < n"
  shows "QWEN_LAYERS \<le> kv_capacity hw n"
proof -
  have k: "12288 \<le> kv_per_token hw" using hw_ok_facts(3) [OF assms(1)] by (auto simp: kv_per_token_def)
  have "n * kv_per_token hw \<le> kv_capacity hw n" by (rule kv_capacity_bounds(1)) (use assms in auto)
  moreover have "1 * kv_per_token hw \<le> n * kv_per_token hw"
    using assms(2) k by (intro mult_right_mono) auto
  ultimately have "48 \<le> kv_capacity hw n" using k by linarith
  then show ?thesis by (simp add: qwen_defs)
qed

definition layer_partitions :: "int \<Rightarrow> int list" where
  "layer_partitions m =
     map (\<lambda>i. m div QWEN_LAYERS + (if i < m mod QWEN_LAYERS then 1 else 0)) [0..QWEN_LAYERS - 1]"

lemma QWEN_LAYERS_eq: "QWEN_LAYERS = 48"
  by (simp add: qwen_defs)

lemma layer_partitions_exact:
  "length (layer_partitions m) = 48" "sum_list (layer_partitions m) = m"
  "p \<in> set (layer_partitions m) \<Longrightarrow> p \<in> {m div 48, m div 48 + 1}"
proof -
  show "length (layer_partitions m) = 48" by (simp add: layer_partitions_def QWEN_LAYERS_eq)
  have "sum_list (map (\<lambda>i. if i < m mod 48 then 1 else 0) [0..int 48 - 1]) = m mod 48"
    by (rule sum_upto_less) (simp_all add: less_imp_le)
  then show "sum_list (layer_partitions m) = m"
    by (simp add: layer_partitions_def QWEN_LAYERS_eq sum_list_add_const)
  show "p \<in> set (layer_partitions m) \<Longrightarrow> p \<in> {m div 48, m div 48 + 1}"
    by (auto simp: layer_partitions_def QWEN_LAYERS_eq)
qed

lemma restore_byte_partitions_eq:
  assumes "hw_ok (tl_hardware s)" and "0 < hit"
  shows "restore_byte_partitions s hit = Inr (layer_partitions (kv_capacity (tl_hardware s) hit))"
proof -
  let ?t = "kv_capacity (tl_hardware s) hit"
  have "48 \<le> ?t" using kv_capacity_layers [OF assms] by (simp add: QWEN_LAYERS_eq)
  then have pos: "0 < p" if "p \<in> set (layer_partitions ?t)" for p
    using layer_partitions_exact(3) [OF that] by (auto simp: pos_imp_zdiv_pos_iff)
  have "\<not> list_ex (\<lambda>n. n \<le> 0) (layer_partitions ?t)" using pos by (fastforce simp: list_ex_iff)
  moreover have "per_rank_bytes s hit = Inr ?t"
    using assms by (simp add: per_rank_bytes_def kv_capacity_ok)
  ultimately show ?thesis
    using layer_partitions_exact(1,2) [of ?t]
    unfolding restore_byte_partitions_def Let_def layer_partitions_def [symmetric]
    by (simp add: QWEN_LAYERS_eq)
qed

text \<open>C38: The split of a restore over the layers of the model is exact: the hit's bytes fall into 48
  positive parts that sum to them and differ by at most one byte, so its assertion never fires.\<close>
theorem restore_partitions_exact:
  assumes "tier_reach s" and "0 < hit"
  shows "\<exists>ps m. per_rank_bytes s hit = Inr m \<and> restore_byte_partitions s hit = Inr ps \<and>
    length ps = 48 \<and> sum_list ps = m \<and> (\<forall>p \<in> set ps. 0 < p \<and> (p = m div 48 \<or> p = m div 48 + 1))"
proof -
  have hw: "hw_ok (tl_hardware s)" by (rule supported_hw [OF tier_reach_supported [OF assms(1)]])
  let ?t = "kv_capacity (tl_hardware s) hit"
  have "48 \<le> ?t" using kv_capacity_layers [OF hw assms(2)] by (simp add: QWEN_LAYERS_eq)
  moreover have "per_rank_bytes s hit = Inr ?t"
    using hw assms(2) by (simp add: per_rank_bytes_def kv_capacity_ok)
  moreover have "0 < p" if "p \<in> set (layer_partitions ?t)" for p
    using layer_partitions_exact(3) [OF that] calculation(1) by (auto simp: pos_imp_zdiv_pos_iff)
  ultimately show ?thesis
    using restore_byte_partitions_eq [OF hw assms(2)] layer_partitions_exact(1,2) [of ?t]
      layer_partitions_exact(3) [of _ ?t]
    by (intro exI [of _ "layer_partitions ?t"] exI [of _ ?t]) auto
qed

theorem restore_partitions_exact_witness:
  "\<exists>ps. restore_byte_partitions start_lifecycle 100 = Inr ps \<and> length ps = 48 \<and> sum_list ps = 2752512"
  using restore_partitions_exact [OF start_lifecycle_reach, of 100]
  by (auto simp: per_rank_bytes_def kv_capacity_ok [OF default_hw_ok] kv_capacity_default)

section \<open>The stages of a restore\<close>

fun the_restore_stages :: "tier_resources \<Rightarrow> tier \<Rightarrow> int \<Rightarrow> int list \<Rightarrow> int \<Rightarrow> tier_stage list" where
  "the_restore_stages tr t n [] i = []"
| "the_restore_stages tr t n (b # bs) i =
     (if t = Tier_SSD then [the_ssd_stage tr n b ''ssd_to_cpu'' i 48] else [])
     @ the_gpu_cpu_stage tr n b ''p'' ''cpu_to_gpu'' True i 48 # the_restore_stages tr t n bs (i + 1)"

text \<open>The copy into P ends the transfer of its layer.\<close>

fun the_ready_indexes :: "tier \<Rightarrow> int \<Rightarrow> int list \<Rightarrow> int list" where
  "the_ready_indexes t k [] = []"
| "the_ready_indexes t k (b # bs) =
     (let j = k + (if t = Tier_SSD then 1 else 0) in j # the_ready_indexes t (j + 1) bs)"

lemma streaming_loop_eq:
  assumes "tr_ok (tl_resources s)" and "0 \<le> n" and "\<forall>b \<in> set bs. 0 \<le> b" and "0 \<le> i"
    and "i + int (length bs) \<le> 48"
  shows "streaming_loop s t n bs i st ix =
    Inr (st @ the_restore_stages (tl_resources s) t n bs i, ix @ the_ready_indexes t (int (length st)) bs)"
  using assms
proof (induction bs arbitrary: i st ix)
  case (Cons b bs)
  have "ssd_bytes_stage (tl_resources s) n b ''ssd_to_cpu'' i 48
      = Inr (the_ssd_stage (tl_resources s) n b ''ssd_to_cpu'' i 48)"
    "gpu_cpu_bytes_stage (tl_resources s) n b ''p'' ''cpu_to_gpu'' True i 48
      = Inr (the_gpu_cpu_stage (tl_resources s) n b ''p'' ''cpu_to_gpu'' True i 48)"
    using Cons.prems by (simp_all add: ssd_bytes_stage_ok gpu_cpu_bytes_stage_ok)
  with Cons.IH [of "i + 1"] Cons.prems show ?case
    by (simp add: QWEN_LAYERS_eq Let_def algebra_simps)
qed simp

lemma the_restore_stages_wf:
  "tr_ok tr \<Longrightarrow> \<forall>b \<in> set bs. 0 < b \<Longrightarrow> x \<in> set (the_restore_stages tr t n bs i) \<Longrightarrow>
   stage_wf x \<and> 0 < ts_latency_ns x"
proof (induction bs arbitrary: i)
  case (Cons b bs)
  have "stage_wf (the_ssd_stage tr n b ''ssd_to_cpu'' i 48)"
    "stage_wf (the_gpu_cpu_stage tr n b ''p'' ''cpu_to_gpu'' True i 48)"
    using Cons.prems by (simp_all add: the_ssd_stage_wf the_gpu_cpu_stage_wf)
  moreover have "0 < b * tp_size (tr_hardware tr)"
    using Cons.prems hw_ok_facts(1) [of "tr_hardware tr"] by (simp add: tr_ok_def)
  ultimately have "0 < ts_latency_ns (the_ssd_stage tr n b ''ssd_to_cpu'' i 48)"
    "0 < ts_latency_ns (the_gpu_cpu_stage tr n b ''p'' ''cpu_to_gpu'' True i 48)"
    by (auto simp: stage_wf_def the_ssd_stage_def the_gpu_cpu_stage_def Let_def)
  with \<open>stage_wf (the_ssd_stage tr n b ''ssd_to_cpu'' i 48)\<close>
    \<open>stage_wf (the_gpu_cpu_stage tr n b ''p'' ''cpu_to_gpu'' True i 48)\<close> Cons show ?case
    by (auto split: if_splits)
qed simp

lemma the_restore_stages_length:
  "int (length (the_restore_stages tr t n bs i)) = (if t = Tier_SSD then 2 else 1) * int (length bs)"
  by (induction bs arbitrary: i) auto

lemma the_restore_bytes:
  "sum_list (map ts_bytes_per_rank (filter (\<lambda>x. ts_direction x = ''cpu_to_gpu'')
     (the_restore_stages tr t n bs i))) = sum_list bs"
  by (induction bs arbitrary: i) (simp_all add: the_gpu_cpu_stage_def the_ssd_stage_def Let_def)

lemma the_ready_indexes_ok:
  "sorted_wrt (<) (the_ready_indexes t k bs) \<and> length (the_ready_indexes t k bs) = length bs \<and>
   (\<forall>j \<in> set (the_ready_indexes t k bs). k \<le> j \<and> j < k + (if t = Tier_SSD then 2 else 1) * int (length bs)) \<and>
   (bs \<noteq> [] \<longrightarrow> last (the_ready_indexes t k bs) = k + (if t = Tier_SSD then 2 else 1) * int (length bs) - 1)"
proof (induction bs arbitrary: k)
  case (Cons b bs)
  define w :: int where "w = (if t = Tier_SSD then 2 else 1)"
  define l where "l = the_ready_indexes t (k + w) bs"
  have w: "1 \<le> w" by (simp add: w_def)
  have step: "the_ready_indexes t k (b # bs) = (k + w - 1) # l"
    by (simp add: w_def l_def Let_def add.commute)
  have l: "sorted_wrt (<) l" "length l = length bs"
      "\<And>j. j \<in> set l \<Longrightarrow> k + w \<le> j \<and> j < k + w + w * int (length bs)"
      "bs \<noteq> [] \<longrightarrow> last l = k + w + w * int (length bs) - 1"
    using Cons.IH [of "k + w"] unfolding w_def [symmetric] l_def [symmetric] by auto
  have "l = [] \<longleftrightarrow> bs = []" using l(2) by auto
  moreover have "k + w - 1 < j" "k \<le> j" if "j \<in> set l" for j using l(3) [OF that] w by auto
  moreover have "0 \<le> w * int (length bs)" using w by simp
  moreover from this have "0 < 1 + w * int (length bs)" by linarith
  ultimately show ?case
    unfolding w_def [symmetric] step using l w by (auto simp: algebra_simps)
qed simp

section \<open>Scheduling a chain of stages\<close>

lemma schedule_stages_ok:
  assumes "\<forall>x \<in> set sts. stage_wf x \<and> 0 < ts_latency_ns x" and "0 \<le> ready" and "ns \<noteq> []"
  shows "\<exists>sched cal'. schedule_stages sts ready j ns cal = (Inr sched, cal') \<and> map ss_stage sched = sts \<and>
    sorted_wrt (<) (map ss_completion_ns sched) \<and>
    (\<forall>x \<in> set sched. ready \<le> ss_start_ns x \<and> ss_completion_ns x = ss_start_ns x + ts_latency_ns (ss_stage x))"
  using assms
proof (induction sts arbitrary: ready cal)
  case (Cons st sts)
  obtain start cal1 where r: "stage_reserve st cal ready j ns = (Inr (start, start + ts_latency_ns st), cal1)"
    and st: "ready \<le> start"
    using stage_reserve_ok [of st ready ns cal j] Cons.prems by auto
  have pos: "0 < ts_latency_ns st" using Cons.prems by simp
  obtain sched cal' where s: "schedule_stages sts (start + ts_latency_ns st) j ns cal1 = (Inr sched, cal')"
    and m: "map ss_stage sched = sts" "sorted_wrt (<) (map ss_completion_ns sched)"
    and x: "\<forall>x \<in> set sched. start + ts_latency_ns st \<le> ss_start_ns x \<and>
      ss_completion_ns x = ss_start_ns x + ts_latency_ns (ss_stage x)"
    using Cons.IH [of "start + ts_latency_ns st" cal1] Cons.prems st by auto
  have "0 < ts_latency_ns (ss_stage y)" if "y \<in> set sched" for y
    using that m(1) Cons.prems(1) by auto
  with x have later: "start + ts_latency_ns st < ss_completion_ns y" if "y \<in> set sched" for y
    using that by fastforce
  show ?case
    using r s m x st pos later by (fastforce intro!: exI)
qed simp

text \<open>C39: A layer-wise restore makes its layers ready in order.  For a CPU or SSD hit of any size and
  whatever the calendar has booked, the stages are built and scheduled without an error, the copies into
  P carry exactly the bytes of the hit, and the 48 readiness times that the ticket records strictly
  increase and end with the completion of the whole transfer: the checks on them never fire.\<close>
theorem restore_layers_ready_in_order:
  assumes "tier_reach s" and "tl_restore_execution_mode s = RESTORE_EXECUTION_LAYERWISE"
    and "source = Tier_CPU \<or> source = Tier_SSD" and "0 < hit" and "0 \<le> ready" and "ns \<noteq> []"
  shows "\<exists>stages indexes sched cal. streaming_prepare_stages s source hit = Inr (Some (stages, indexes)) \<and>
    schedule_stages stages ready j ns (tl_calendar s) = (Inr sched, cal) \<and>
    Inr (sum_list (map ts_bytes_per_rank (filter (\<lambda>x. ts_direction x = ''cpu_to_gpu'') stages)))
      = per_rank_bytes s hit \<and>
    length (layer_ready_times sched indexes) = 48 \<and>
    sorted_wrt (<) (ready # layer_ready_times sched indexes) \<and>
    last (layer_ready_times sched indexes) = ss_completion_ns (last sched)"
proof -
  note sup = tier_reach_supported [OF assms(1)]
  note hw = supported_hw [OF sup]
  have tr: "tr_ok (tl_resources s)" using supported_tr [OF sup] by simp
  define m where "m = kv_capacity (tl_hardware s) hit"
  define bs where "bs = layer_partitions m"
  have len: "length bs = 48" "sum_list bs = m" by (simp_all add: bs_def layer_partitions_exact)
  have ne: "bs \<noteq> []" using len(1) by auto
  have pos: "\<forall>b \<in> set bs. 0 < b"
    using layer_partitions_exact(3) [of _ m] kv_capacity_layers [OF hw assms(4)]
    by (fastforce simp: bs_def m_def QWEN_LAYERS_eq pos_imp_zdiv_pos_iff)
  define st where "st = the_restore_stages (tl_resources s) source hit bs 0"
  define ix where "ix = the_ready_indexes source 0 bs"
  have stream: "streaming_prepare_stages s source hit = Inr (Some (st, ix))"
    using assms(2-4) restore_byte_partitions_eq [OF hw assms(4)] len(1) pos
    by (auto simp: streaming_prepare_stages_def bs_def [symmetric] m_def [symmetric] st_def ix_def
        streaming_loop_eq [OF tr] less_imp_le)
  have wf: "\<forall>x \<in> set st. stage_wf x \<and> 0 < ts_latency_ns x"
    using the_restore_stages_wf [OF tr pos] by (auto simp: st_def)
  obtain sched cal where sch: "schedule_stages st ready j ns (tl_calendar s) = (Inr sched, cal)"
    and m: "map ss_stage sched = st" and inc: "sorted_wrt (<) (map ss_completion_ns sched)"
    and late: "\<forall>x \<in> set sched. ready \<le> ss_start_ns x \<and>
      ss_completion_ns x = ss_start_ns x + ts_latency_ns (ss_stage x)"
    using schedule_stages_ok [OF wf assms(5,6)] by blast
  have n: "int (length sched) = (if source = Tier_SSD then 2 else 1) * 48"
    using arg_cong [OF m, of length] the_restore_stages_length [of "tl_resources s" source hit bs 0] len(1)
    by (simp add: st_def)
  note ixs = the_ready_indexes_ok [of source 0 bs, folded ix_def, unfolded len(1)]
  have bound: "0 \<le> i \<and> i < int (length sched)" if "i \<in> set ix" for i using ixs that n by auto
  have after: "ready < ss_completion_ns (sched ! nat i)" if "i \<in> set ix" for i
  proof -
    have x: "sched ! nat i \<in> set sched" using bound [OF that] by (intro nth_mem) linarith
    then have "ss_stage (sched ! nat i) \<in> set st" using m by auto
    then show ?thesis using wf late x by fastforce
  qed
  have mono: "ss_completion_ns (sched ! nat i) < ss_completion_ns (sched ! nat k)"
    if "i \<in> set ix" "k \<in> set ix" "i < k" for i k
  proof -
    have l: "nat i < nat k" "nat k < length sched" using bound [OF that(1)] bound [OF that(2)] that(3) by linarith+
    show ?thesis using sorted_wrt_nth_less [OF inc, of "nat i" "nat k"] l by simp
  qed
  have "sorted_wrt (<) (layer_ready_times sched ix)"
    unfolding layer_ready_times_def sorted_wrt_map
    by (rule sorted_wrt_mono_rel [where P = "(<)"]) (use mono ixs in auto)
  moreover have "last ix = int (length sched) - 1" using ixs ne n by auto
  then have "last (layer_ready_times sched ix) = ss_completion_ns (last sched)"
  proof -
    assume l: "last ix = int (length sched) - 1"
    have "ix \<noteq> []" "sched \<noteq> []" using ixs n by (auto split: if_splits)
    moreover from l this(2) have "nat (last ix) = length sched - 1" by auto
    ultimately show ?thesis by (simp add: layer_ready_times_def last_map last_conv_nth [of sched])
  qed
  ultimately show ?thesis
    using stream sch after ixs the_restore_bytes [of "tl_resources s" source hit bs 0] len(2) assms(4)
    by (auto simp: layer_ready_times_def st_def per_rank_bytes_def kv_capacity_ok [OF hw] m_def)
qed

theorem restore_layers_ready_in_order_witness:
  "\<exists>stages indexes sched cal.
     streaming_prepare_stages start_lifecycle Tier_SSD 100 = Inr (Some (stages, indexes)) \<and>
     schedule_stages stages 7 1 ''n'' (tl_calendar start_lifecycle) = (Inr sched, cal) \<and>
     last (layer_ready_times sched indexes) = ss_completion_ns (last sched)"
  using restore_layers_ready_in_order [OF start_lifecycle_reach, of Tier_SSD 100 7 "''n''" 1]
  by (auto simp: RESTORE_EXECUTION_LAYERWISE_def)

section \<open>Victims in LRU order\<close>

definition idle_on :: "lifecycle \<Rightarrow> tier \<Rightarrow> string list \<Rightarrow> tier_session \<Rightarrow> bool" where
  "idle_on s t excluded r \<longleftrightarrow> se_session_id r \<notin> set excluded \<and> se_state r = ready_state t \<and>
     se_primary r = Some t \<and> (\<exists>c. primary_copy s r = Inr (Some c) \<and> tc_pins c = 0)"

lemma eligible_filter_eq:
  "eligible_filter s t ex rs = Inr vs \<Longrightarrow> vs = filter (idle_on s t ex) rs"
proof (induction rs arbitrary: vs)
  case (Cons r rs)
  show ?case
  proof (cases "se_session_id r \<in> set ex \<or> se_state r \<noteq> ready_state t \<or> se_primary r \<noteq> Some t")
    case True
    with Cons show ?thesis by (auto simp: idle_on_def)
  next
    case False
    with Cons.prems obtain c rest where c: "primary_copy s r = Inr c"
      and rest: "eligible_filter s t ex rs = Inr rest"
      and vs: "vs = (case c of None \<Rightarrow> rest | Some c \<Rightarrow> if tc_pins c = 0 then r # rest else rest)"
      by (auto simp: ebind_Inr_iff)
    from Cons.IH [OF rest] c vs False show ?thesis
      by (cases c) (auto simp: idle_on_def)
  qed
qed simp

definition by_last_access :: "tier_session \<Rightarrow> int \<times> string" where
  "by_last_access r = (se_last_access_ns r, se_session_id r)"

lemma eligible_lru_eq:
  "eligible_lru s t ex = Inr rs \<Longrightarrow>
   rs = sort_key by_last_access (filter (idle_on s t ex) (dvalues (tl_sessions s)))"
  by (auto simp: eligible_lru_def ebind_Inr_iff by_last_access_def [abs_def] dest: eligible_filter_eq)

text \<open>The bytes the first victims give back, on top of those that are free already.\<close>

definition reclaimed :: "int \<Rightarrow> (string \<times> tier_copy) list \<Rightarrow> int" where
  "reclaimed free vs = free + sum_list (map (tc_byte_count \<circ> snd) vs)"

lemma pick_victims_eq:
  assumes "pick_victims s need free rs = Inr (vs, n)" and "free < need"
  shows "n = reclaimed free vs \<and> length vs \<le> length rs \<and>
    map fst vs = map se_session_id (take (length vs) rs) \<and>
    (\<forall>i < length vs. primary_copy s (rs ! i) = Inr (Some (snd (vs ! i)))) \<and>
    (need \<le> n \<or> length vs = length rs) \<and> (\<forall>i < length vs. reclaimed free (take i vs) < need)"
  using assms
proof (induction rs arbitrary: free vs n)
  case Nil
  then show ?case by (simp add: reclaimed_def)
next
  case (Cons r rs)
  from Cons.prems(1) obtain c where c: "primary_copy s r = Inr (Some c)"
    by (auto simp: ebind_Inr_iff split: option.splits)
  show ?case
  proof (cases "need \<le> free + tc_byte_count c")
    case True
    with Cons.prems c show ?thesis by (auto simp: reclaimed_def Let_def)
  next
    case False
    then obtain ws where w: "pick_victims s need (free + tc_byte_count c) rs = Inr (ws, n)"
      and vs: "vs = (se_session_id r, c) # ws"
      using Cons.prems c by (auto simp: Let_def ebind_Inr_iff)
    note IH = Cons.IH [OF w] 
    have r: "reclaimed free ((se_session_id r, c) # xs) = reclaimed (free + tc_byte_count c) xs" for xs
      by (simp add: reclaimed_def)
    have r0: "reclaimed free [] = free" by (simp add: reclaimed_def)
    have pre: "reclaimed free (take i vs) < need" if "i < length vs" for i
      using that IH False Cons.prems(2) unfolding vs by (cases i) (auto simp: r r0)
    have prim: "primary_copy s ((r # rs) ! i) = Inr (Some (snd (vs ! i)))" if "i < length vs" for i
      using that IH False c unfolding vs by (cases i) auto
    show ?thesis using IH False pre prim unfolding vs by (auto simp: r)
  qed
qed



end
