(* ===== verification/Tiered_Node.thy ===== *)
theory Tiered_Node
  imports PD_Pool Tier_Prepare
begin

text \<open>
  \<^verbatim>\<open>serving/core/gpu_pd_tiered_node.py\<close>: \<^verbatim>\<open>FiniteHBMTieredP4D4Node\<close>, the node that composes the serving
  pool with the tier lifecycle over one shared resource calendar.  It admits the calls of sessions in
  order, prepares their KV through the lifecycle, executes them on the pool, and publishes their context
  when the pool reports them done.

  The calendar is one object that both components hold: the node owns it here, hands it to the component
  it calls and takes it back (\<open>on_lifecycle\<close>, \<open>on_pool\<close>).  A ticket that the node keeps is the id of an
  entry of the lifecycle's table, and the request object of a call is the entry of the pool's table with
  the call's id.  \<^verbatim>\<open>advance\<close> has no bound that the code states: its loop is a partial function, \<open>None\<close> when
  it does not return.  Messages that would print whole objects end before the object.
\<close>

section \<open>Calls, sessions and metrics\<close>

datatype call_state = CALL_PENDING | CALL_PREPARING | CALL_EXECUTING | CALL_USER_COMPLETE | CALL_INTERNAL_COMPLETE

record tiered_call =
  cl_request_id :: int
  cl_session_id :: string
  cl_call_index :: int
  cl_release_ns :: int
  cl_input_tokens :: int
  cl_output_tokens :: int
  cl_prefix_reuse_tokens :: int
  cl_has_successor :: bool
  cl_state :: call_state
  cl_operational_hit_tokens :: "int option"
  cl_prepare_id :: "int option"
  cl_prepare_source :: "tier option"
  cl_prepare_start_ns :: "int option"
  cl_prepare_completion_ns :: "int option"
  cl_pool_request :: "int option"
  cl_user_completion_ns :: "int option"
  cl_internal_completion_ns :: "int option"
  cl_capacity_deferrals :: int

definition new_call :: "int \<Rightarrow> string \<Rightarrow> int \<Rightarrow> int \<Rightarrow> int \<Rightarrow> int \<Rightarrow> int \<Rightarrow> bool \<Rightarrow> tiered_call" where
  "new_call request_id session_id call_index release_ns input_tokens output_tokens reuse has_successor =
     \<lparr>cl_request_id = request_id, cl_session_id = session_id, cl_call_index = call_index,
      cl_release_ns = release_ns, cl_input_tokens = input_tokens, cl_output_tokens = output_tokens,
      cl_prefix_reuse_tokens = reuse, cl_has_successor = has_successor, cl_state = CALL_PENDING,
      cl_operational_hit_tokens = None, cl_prepare_id = None, cl_prepare_source = None,
      cl_prepare_start_ns = None, cl_prepare_completion_ns = None, cl_pool_request = None,
      cl_user_completion_ns = None, cl_internal_completion_ns = None, cl_capacity_deferrals = 0\<rparr>"

definition pristine_call :: "tiered_call \<Rightarrow> bool" where
  "pristine_call c \<longleftrightarrow>
     cl_state c = CALL_PENDING \<and> cl_operational_hit_tokens c = None \<and> cl_prepare_id c = None \<and>
     cl_prepare_source c = None \<and> cl_prepare_start_ns c = None \<and> cl_prepare_completion_ns c = None \<and>
     cl_pool_request c = None \<and> cl_user_completion_ns c = None \<and>
     cl_internal_completion_ns c = None \<and> cl_capacity_deferrals c = 0"

definition validate_call :: "tiered_call \<Rightarrow> exn option" where
  "validate_call c = first_error
     [(cl_request_id c < 0 \<or> cl_call_index c < 0 \<or> cl_release_ns c < 0,
        ValueError ''request_id/call_index/release_ns must be non-negative''),
      (cl_input_tokens c \<le> 0 \<or> cl_output_tokens c \<le> 0,
        ValueError ''input/output tokens must be positive''),
      (\<not> (0 \<le> cl_prefix_reuse_tokens c \<and> cl_prefix_reuse_tokens c \<le> cl_input_tokens c),
        ValueError ''prefix_reuse_tokens must be in 0..input_tokens''),
      (cl_input_tokens c + cl_output_tokens c - 1 > 1010000,
        ValueError ''request output would exceed 1,010,000-token contract''),
      (cl_session_id c = [], ValueError ''session_id must be a non-empty string''),
      (cl_call_index c = 0 \<and> cl_prefix_reuse_tokens c \<noteq> 0,
        ValueError ''first call cannot reuse an earlier prefix''),
      (\<not> pristine_call c, ValueError ''submitted tiered call must be pristine'')]"

record session_lineage =
  ln_session_id :: string
  ln_last_call_index :: int
  ln_active_request_id :: "int option"
  ln_ended :: bool

definition new_lineage :: "string \<Rightarrow> session_lineage" where
  "new_lineage sid = \<lparr>ln_session_id = sid, ln_last_call_index = - 1, ln_active_request_id = None,
     ln_ended = False\<rparr>"

record capacity_need =
  cn_p_bytes_per_rank :: int
  cn_d_bytes_per_rank :: int
  cn_cpu_bounce_bytes :: int
  cn_hit_tokens :: int
  cn_source :: "tier option"
  cn_stable_d_source :: bool

record node_metrics =
  nm_session_restarts :: int
  nm_submitted_calls :: int
  nm_admitted_calls :: int
  nm_user_completed_calls :: int
  nm_internal_completed_calls :: int
  nm_capacity_deferral_attempts :: int
  nm_p_capacity_deferrals :: int
  nm_d_capacity_deferrals :: int
  nm_cpu_bounce_deferrals :: int
  nm_d_reclamation_attempts :: int
  nm_d_reclamation_jobs_started :: int
  nm_d_reclamation_immediate_drops :: int
  nm_stable_d_hits :: int
  nm_lower_tier_hits :: int
  nm_streaming_lower_tier_hits :: int
  nm_recompute_resumes :: int
  nm_recompute_tokens :: int
  nm_context_shrink_calls :: int
  nm_full_prefix_cap_calls :: int
  nm_full_prompt_handoffs :: int
  nm_fresh_suffix_handoffs :: int
  nm_max_pending_calls :: int

definition new_node_metrics :: node_metrics where
  "new_node_metrics =
     \<lparr>nm_session_restarts = 0, nm_submitted_calls = 0, nm_admitted_calls = 0,
      nm_user_completed_calls = 0, nm_internal_completed_calls = 0, nm_capacity_deferral_attempts = 0,
      nm_p_capacity_deferrals = 0, nm_d_capacity_deferrals = 0, nm_cpu_bounce_deferrals = 0,
      nm_d_reclamation_attempts = 0, nm_d_reclamation_jobs_started = 0,
      nm_d_reclamation_immediate_drops = 0, nm_stable_d_hits = 0, nm_lower_tier_hits = 0,
      nm_streaming_lower_tier_hits = 0, nm_recompute_resumes = 0, nm_recompute_tokens = 0,
      nm_context_shrink_calls = 0, nm_full_prefix_cap_calls = 0, nm_full_prompt_handoffs = 0,
      nm_fresh_suffix_handoffs = 0, nm_max_pending_calls = 0\<rparr>"

section \<open>The node\<close>

record node =
  nd_hardware :: hardware
  nd_node_id :: int
  nd_policy :: string
  nd_restore_execution_mode :: string
  nd_d_reservation_policy :: string
  nd_validate_every_event :: bool
  nd_calendar :: calendar
  nd_lifecycle :: lifecycle
  nd_pool :: pool
  nd_calls :: "(int, tiered_call) dict"
  nd_sessions :: "(string, session_lineage) dict"
  nd_metrics :: node_metrics
  nd_current_ns :: int
  nd_pending_call_ids :: "int list"
  nd_ready_call_ids :: "int list"
  nd_user_completed_ids :: "int list"
  nd_ticket_by_request :: "(int, int) dict"
  nd_user_completion_seen :: "int list"
  nd_handoff_completion_seen :: "int list"
  nd_last_submitted_call_index :: "(string, int) dict"
  nd_last_submitted_request_id :: "(string, int) dict"

definition node_argument_error :: "string \<Rightarrow> string \<Rightarrow> string \<Rightarrow> exn option" where
  "node_argument_error policy d_policy mode =
     first_error
       [(policy \<notin> set SUPPORTED_TIER_POLICIES,
          ValueError (''unsupported tier policy '' @ py_repr policy)),
        (d_policy \<notin> set SUPPORTED_D_RESERVATION_POLICIES,
          ValueError (''d_reservation_policy must be one of (''
            @ join '', '' (map py_repr SUPPORTED_D_RESERVATION_POLICIES) @ '')'')),
        (mode \<notin> set SUPPORTED_RESTORE_EXECUTION_MODES,
          ValueError (''restore_execution_mode must be one of ''
            @ py_repr_list SUPPORTED_RESTORE_EXECUTION_MODES))]"

definition new_node ::
  "hardware \<Rightarrow> provider \<Rightarrow> int \<Rightarrow> string \<Rightarrow> calendar option \<Rightarrow> int option \<Rightarrow> int option \<Rightarrow> int option
     \<Rightarrow> int option \<Rightarrow> int \<Rightarrow> int \<Rightarrow> int option \<Rightarrow> int option \<Rightarrow> int \<Rightarrow> string \<Rightarrow> string \<Rightarrow> bool \<Rightarrow> bool
     \<Rightarrow> exn + node" where
  "new_node hw pv node_id policy cal p_cap d_cap cpu_cap ssd_cap budget seqs p_seqs d_seqs chunk
     mode d_policy validate retain =
     (case node_argument_error policy d_policy mode of Some e \<Rightarrow> Inl e | None \<Rightarrow>
      let calendar = (case cal of None \<Rightarrow> new_calendar True | Some c \<Rightarrow> c) in
      ebind (new_lifecycle hw node_id policy (Some calendar) p_cap d_cap cpu_cap ssd_cap mode d_policy
        validate) (\<lambda>lifecycle.
      ebind (new_pool hw pv node_id (Some calendar) budget seqs p_seqs d_seqs chunk ''layerwise''
        validate retain) (\<lambda>pool.
      Inr \<lparr>nd_hardware = hw, nd_node_id = node_id, nd_policy = policy,
           nd_restore_execution_mode = mode, nd_d_reservation_policy = d_policy,
           nd_validate_every_event = validate, nd_calendar = calendar, nd_lifecycle = lifecycle,
           nd_pool = pool, nd_calls = [], nd_sessions = [], nd_metrics = new_node_metrics,
           nd_current_ns = 0, nd_pending_call_ids = [], nd_ready_call_ids = [],
           nd_user_completed_ids = [], nd_ticket_by_request = [], nd_user_completion_seen = [],
           nd_handoff_completion_seen = [], nd_last_submitted_call_index = [],
           nd_last_submitted_request_id = []\<rparr>)))"

text \<open>Running a component's operation on the shared calendar.\<close>

definition on_lifecycle ::
  "(lifecycle \<Rightarrow> ('a, lifecycle) outcome) \<Rightarrow> node \<Rightarrow> ('a, node) outcome" where
  "on_lifecycle f n = (case f ((nd_lifecycle n)\<lparr>tl_calendar := nd_calendar n\<rparr>) of
     (r, l) \<Rightarrow> (r, n\<lparr>nd_lifecycle := l, nd_calendar := tl_calendar l\<rparr>))"

definition on_pool :: "(pool \<Rightarrow> ('a, pool) outcome) \<Rightarrow> node \<Rightarrow> ('a, node) outcome" where
  "on_pool f n = (case f ((nd_pool n)\<lparr>pl_calendar := nd_calendar n\<rparr>) of
     (r, p) \<Rightarrow> (r, n\<lparr>nd_pool := p, nd_calendar := pl_calendar p\<rparr>))"

definition node_metric :: "(node_metrics \<Rightarrow> node_metrics) \<Rightarrow> node \<Rightarrow> node" where
  "node_metric f n = n\<lparr>nd_metrics := f (nd_metrics n)\<rparr>"

definition upd_call :: "int \<Rightarrow> (tiered_call \<Rightarrow> tiered_call) \<Rightarrow> node \<Rightarrow> node" where
  "upd_call i f n = (case dget (nd_calls n) i of
     None \<Rightarrow> n | Some c \<Rightarrow> n\<lparr>nd_calls := dput i (f c) (nd_calls n)\<rparr>)"

definition upd_lineage :: "string \<Rightarrow> (session_lineage \<Rightarrow> session_lineage) \<Rightarrow> node \<Rightarrow> node" where
  "upd_lineage sid f n = (case dget (nd_sessions n) sid of
     None \<Rightarrow> n | Some l \<Rightarrow> n\<lparr>nd_sessions := dput sid (f l) (nd_sessions n)\<rparr>)"

text \<open>\<^verbatim>\<open>d[k]\<close>\<close>

definition item :: "('k, 'v) dict \<Rightarrow> 'k \<Rightarrow> exn + 'v" where
  "item d k = (case dget d k of None \<Rightarrow> Inl KeyError | Some v \<Rightarrow> Inr v)"

text \<open>The ticket that the node keeps for a request.\<close>

definition ticket_of :: "node \<Rightarrow> int \<Rightarrow> exn + prepare_ticket" where
  "ticket_of n request_id =
     ebind (item (nd_ticket_by_request n) request_id) (\<lambda>pid. item (tl_prepares (nd_lifecycle n)) pid)"

section \<open>Admission\<close>

definition capacity_contract_error :: "node \<Rightarrow> tiered_call \<Rightarrow> exn option" where
  "capacity_contract_error n c =
     (case kv_capacity_bytes_per_rank (nd_hardware n) (cl_input_tokens c) of Inl e \<Rightarrow> Some e | Inr p_bytes \<Rightarrow>
      if p_bytes > lg_capacity_bytes (tl_p_ledger (nd_lifecycle n))
      then Some (ValueError ''request prompt exceeds node P-HBM KV capacity'')
      else if \<not> (cl_output_tokens c > 1 \<or> cl_has_successor c) then None
      else case kv_capacity_bytes_per_rank (nd_hardware n)
                  (cl_input_tokens c + cl_output_tokens c - 1) of Inl e \<Rightarrow> Some e | Inr d_bytes \<Rightarrow>
        if d_bytes > lg_capacity_bytes (tl_d_ledger (nd_lifecycle n))
        then Some (ValueError ''request final context exceeds node D-HBM KV capacity'')
        else if cl_has_successor c \<and> nd_policy n \<noteq> ''hbm_lru_recompute''
        then let aggregate = d_bytes * tp_size (nd_hardware n) in first_error
          [(aggregate > lg_capacity_bytes (tl_cpu_ledger (nd_lifecycle n)),
             ValueError ''retained context exceeds node CPU staging capacity''),
           (aggregate > lg_capacity_bytes (tl_ssd_ledger (nd_lifecycle n)),
             ValueError ''retained context exceeds node SSD tier capacity'')]
        else None)"

definition predecessor_error :: "tiered_call \<Rightarrow> tiered_call option \<Rightarrow> exn option" where
  "predecessor_error c predecessor =
     (case predecessor of None \<Rightarrow> None | Some q \<Rightarrow>
      if \<not> cl_has_successor q
      then Some (ValueError (''cannot submit a call after a terminal predecessor: session=''
             @ py_repr (cl_session_id c) @ '', predecessor='' @ show_int (cl_request_id q)))
      else case cl_user_completion_ns q of
        None \<Rightarrow> Some (ValueError ''successor cannot be submitted before its predecessor is user-complete'')
      | Some t \<Rightarrow> if cl_release_ns c < t
          then Some (ValueError ''successor release cannot precede predecessor user completion'')
          else None)"

text \<open>The checks of \<^verbatim>\<open>submit_many\<close>, before anything is changed.\<close>

fun node_submission_error ::
  "node \<Rightarrow> int \<Rightarrow> tiered_call list \<Rightarrow> int list \<Rightarrow> (string, int) dict \<Rightarrow> (string, tiered_call) dict
     \<Rightarrow> exn option" where
  "node_submission_error n now [] seen proposed_last proposed_predecessors = None"
| "node_submission_error n now (c # cs) seen proposed_last proposed_predecessors =
     (let prior_index = dget_or proposed_last (cl_session_id c) (- 1) in
      or_else (validate_call c)
      (or_else (capacity_contract_error n c)
      (or_else (first_error
         [(cl_release_ns c \<noteq> now, ValueError ''tiered calls must be submitted at logical release''),
          (dget (nd_calls n) (cl_request_id c) \<noteq> None \<or> cl_request_id c \<in> set seen,
            ValueError (''duplicate request_id='' @ show_int (cl_request_id c))),
          (cl_call_index c \<noteq> prior_index + 1,
            ValueError (''session calls must be submitted in contiguous order: session=''
              @ py_repr (cl_session_id c) @ '', got='' @ show_int (cl_call_index c)
              @ '', expected='' @ show_int (prior_index + 1)))])
      (or_else (predecessor_error c (dget proposed_predecessors (cl_session_id c)))
      (or_else (case dget (nd_sessions n) (cl_session_id c) of None \<Rightarrow> None
                | Some l \<Rightarrow> if ln_ended l
                    then Some (ValueError (''session '' @ py_repr (cl_session_id c) @ '' already ended''))
                    else None)
        (node_submission_error n now cs (cl_request_id c # seen)
          (dput (cl_session_id c) (cl_call_index c) proposed_last)
          (dput (cl_session_id c) c proposed_predecessors)))))))"

fun last_submitted_calls :: "node \<Rightarrow> (string, int) dict \<Rightarrow> exn + (string, tiered_call) dict" where
  "last_submitted_calls n [] = Inr []"
| "last_submitted_calls n ((sid, i) # d) =
     ebind (item (nd_calls n) i) (\<lambda>c. ebind (last_submitted_calls n d) (\<lambda>cs. Inr ((sid, c) # cs)))"

definition submission_check :: "node \<Rightarrow> int \<Rightarrow> tiered_call list \<Rightarrow> exn option" where
  "submission_check n now cs =
     (case last_submitted_calls n (nd_last_submitted_request_id n) of
        Inl e \<Rightarrow> Some e
      | Inr predecessors \<Rightarrow>
          node_submission_error n now cs [] (nd_last_submitted_call_index n) predecessors)"

definition register_call :: "tiered_call \<Rightarrow> node \<Rightarrow> node" where
  "register_call c n =
     (let sid = cl_session_id c;
          n = n\<lparr>nd_calls := dput (cl_request_id c) c (nd_calls n)\<rparr>;
          n = (if dget (nd_sessions n) sid = None
               then n\<lparr>nd_sessions := dput sid (new_lineage sid) (nd_sessions n)\<rparr> else n);
          n = n\<lparr>nd_last_submitted_call_index :=
                 dput sid (cl_call_index c) (nd_last_submitted_call_index n),
                nd_last_submitted_request_id :=
                 dput sid (cl_request_id c) (nd_last_submitted_request_id n),
                nd_pending_call_ids := nd_pending_call_ids n @ [cl_request_id c]\<rparr>
      in node_metric (\<lambda>m. m\<lparr>nm_submitted_calls := nm_submitted_calls m + 1\<rparr>) n)"

definition node_capacity :: "node \<Rightarrow> tiered_call \<Rightarrow> exn + capacity_need" where
  "node_capacity n c =
     (let l = nd_lifecycle n; stored = dget (tl_sessions l) (cl_session_id c) in
      ebind (case stored of None \<Rightarrow> Inr None | Some r \<Rightarrow> primary_copy l r) (\<lambda>source.
      let source_tokens = (case source of None \<Rightarrow> 0 | Some x \<Rightarrow> tc_tokens x);
          hit_tokens = min (min (cl_prefix_reuse_tokens c) source_tokens) (cl_input_tokens c - 1);
          effective = (if hit_tokens \<noteq> 0 then source else None);
          needs_d = (cl_output_tokens c > 1 \<or> cl_has_successor c) in
      ebind (kv_capacity_bytes_per_rank (nd_hardware n) (cl_input_tokens c)) (\<lambda>p_bytes.
      let d_admission_tokens =
            (if nd_d_reservation_policy n = D_RESERVATION_FINAL_UPFRONT
             then cl_input_tokens c + cl_output_tokens c - 1 else cl_input_tokens c) in
      ebind (if needs_d then kv_capacity_bytes_per_rank (nd_hardware n) d_admission_tokens else Inr 0)
        (\<lambda>d_target.
      let reusable = (case source of None \<Rightarrow> None
            | Some x \<Rightarrow> if tc_tier x = Tier_D
                \<and> Some (tc_copy_id x) = Option.bind stored se_primary_copy_id \<and> tc_pins x = 0
                then Some x else None);
          d_bytes = (if \<not> needs_d then 0 else case reusable of
              None \<Rightarrow> d_target | Some x \<Rightarrow> max 0 (d_target - tc_byte_count x)) in
      ebind (case effective of
               Some x \<Rightarrow> if tc_tier x = Tier_SSD
                 then ebind (kv_capacity_bytes_per_rank (nd_hardware n) hit_tokens)
                        (\<lambda>b. Inr (b * tp_size (nd_hardware n)))
                 else Inr 0
             | None \<Rightarrow> Inr 0) (\<lambda>bounce.
      Inr \<lparr>cn_p_bytes_per_rank = p_bytes, cn_d_bytes_per_rank = d_bytes,
           cn_cpu_bounce_bytes = bounce, cn_hit_tokens = hit_tokens,
           cn_source = map_option tc_tier effective,
           cn_stable_d_source = (hit_tokens \<noteq> 0 \<and> reusable \<noteq> None)\<rparr>)))))"

definition record_deferral :: "int \<Rightarrow> bool \<Rightarrow> bool \<Rightarrow> bool \<Rightarrow> node \<Rightarrow> node" where
  "record_deferral i p d cpu n =
     node_metric (\<lambda>m. m\<lparr>nm_capacity_deferral_attempts := nm_capacity_deferral_attempts m + 1,
         nm_p_capacity_deferrals := nm_p_capacity_deferrals m + (if p then 1 else 0),
         nm_d_capacity_deferrals := nm_d_capacity_deferrals m + (if d then 1 else 0),
         nm_cpu_bounce_deferrals := nm_cpu_bounce_deferrals m + (if cpu then 1 else 0)\<rparr>)
       (upd_call i (\<lambda>c. c\<lparr>cl_capacity_deferrals := cl_capacity_deferrals c + 1\<rparr>) n)"

definition p_free :: "node \<Rightarrow> int" where "p_free n = free_bytes (tl_p_ledger (nd_lifecycle n))"
definition d_free :: "node \<Rightarrow> int" where "d_free n = free_bytes (tl_d_ledger (nd_lifecycle n))"
definition cpu_free :: "node \<Rightarrow> int" where "cpu_free n = free_bytes (tl_cpu_ledger (nd_lifecycle n))"

definition demotions_started :: "node \<Rightarrow> int" where
  "demotions_started n = lm_d_to_cpu_started (tl_metrics (nd_lifecycle n))
     + lm_d_to_ssd_started (tl_metrics (nd_lifecycle n))"

text \<open>Reclaiming D bytes from idle sessions; true when the request fits at once.\<close>

definition reclaim_d :: "tiered_call \<Rightarrow> capacity_need \<Rightarrow> int \<Rightarrow> node \<Rightarrow> (bool, node) outcome" where
  "reclaim_d c need now n =
     (let n = node_metric (\<lambda>m. m\<lparr>nm_d_reclamation_attempts := nm_d_reclamation_attempts m + 1\<rparr>)
            (record_deferral (cl_request_id c) False True False n);
          jobs_earlier = demotions_started n;
          drops_earlier = lm_d_drops (tl_metrics (nd_lifecycle n))
      in andthen (on_lifecycle (ensure_d_headroom (cn_d_bytes_per_rank need) now (Some (cl_session_id c))) n)
        (\<lambda>retry_ns n.
           let n = node_metric (\<lambda>m. m\<lparr>
                 nm_d_reclamation_jobs_started := nm_d_reclamation_jobs_started m
                   + (demotions_started n - jobs_earlier),
                 nm_d_reclamation_immediate_drops := nm_d_reclamation_immediate_drops m
                   + (lm_d_drops (tl_metrics (nd_lifecycle n)) - drops_earlier)\<rparr>) n
           in if retry_ns = Some now \<and> d_free n \<ge> cn_d_bytes_per_rank need
              then andthen (lift_err (node_capacity n c) n) (\<lambda>need n.
                (Inr (\<not> (p_free n < cn_p_bytes_per_rank need \<or> cpu_free n < cn_cpu_bounce_bytes need
                        \<or> d_free n < cn_d_bytes_per_rank need)), n))
              else (Inr False, n)))"

definition prepare_call :: "tiered_call \<Rightarrow> int \<Rightarrow> node \<Rightarrow> (int option, node) outcome" where
  "prepare_call c now n =
     andthen (on_lifecycle (begin_prepare (cl_session_id c) (cl_request_id c) now (cl_input_tokens c)
         (cl_output_tokens c) (cl_prefix_reuse_tokens c) (cl_has_successor c)) n) (\<lambda>ticket n.
       if ticket = None
       then (Inl (RuntimeError ''tier prepare capacity precheck diverged from lifecycle''), n)
       else (Inr ticket, n))"

definition try_prepare :: "tiered_call \<Rightarrow> int \<Rightarrow> node \<Rightarrow> (int option, node) outcome" where
  "try_prepare c now n =
     andthen (lift_err (node_capacity n c) n) (\<lambda>need n.
     if p_free n < cn_p_bytes_per_rank need
     then (Inr None, record_deferral (cl_request_id c) True False False n)
     else if cpu_free n < cn_cpu_bounce_bytes need
     then andthen (on_lifecycle (ensure_cpu_bounce_headroom (cn_hit_tokens need) now
              (Some (cl_session_id c))) (record_deferral (cl_request_id c) False False True n))
            (\<lambda>_ n. (Inr None, n))
     else if d_free n < cn_d_bytes_per_rank need
     then andthen (reclaim_d c need now n) (\<lambda>fits n.
            if fits then prepare_call c now n else (Inr None, n))
     else prepare_call c now n)"

definition admission_attempt :: "int \<Rightarrow> int \<Rightarrow> node \<Rightarrow> (int option, node) outcome" where
  "admission_attempt now request_id n =
     andthen (lift_err (item (nd_calls n) request_id) n) (\<lambda>c n.
     andthen (lift_err (item (nd_sessions n) (cl_session_id c)) n) (\<lambda>l n.
       if ln_active_request_id l \<noteq> None then (Inr None, n)
       else if cl_call_index c \<noteq> ln_last_call_index l + 1
       then (Inl (RuntimeError ''tiered session lifecycle skipped a call''), n)
       else try_prepare c now n))"

text \<open>The bookkeeping of an admitted call; a layer-wise restore goes to the pool at once.\<close>

definition admitted :: "int \<Rightarrow> int \<Rightarrow> int \<Rightarrow> node \<Rightarrow> (unit, node) outcome" where
  "admitted now request_id pid n =
     andthen (lift_err (item (nd_calls n) request_id) n) (\<lambda>c n.
     andthen (lift_err (item (tl_prepares (nd_lifecycle n)) pid) n) (\<lambda>t n.
     let n = upd_lineage (cl_session_id c) (\<lambda>l. l\<lparr>ln_active_request_id := Some request_id\<rparr>) n;
         n = n\<lparr>nd_ticket_by_request := dput request_id pid (nd_ticket_by_request n)\<rparr>;
         n = upd_call request_id (\<lambda>c. c\<lparr>cl_operational_hit_tokens := Some (pt_hit_tokens t),
               cl_prepare_id := Some (pt_prepare_id t), cl_prepare_source := pt_source t,
               cl_prepare_start_ns := Some (pt_start_ns t),
               cl_prepare_completion_ns := Some (pt_completion_ns t), cl_state := CALL_PREPARING\<rparr>) n;
         n = node_metric (\<lambda>m. m\<lparr>nm_admitted_calls := nm_admitted_calls m + 1,
               nm_full_prefix_cap_calls := nm_full_prefix_cap_calls m
                 + (if cl_prefix_reuse_tokens c = cl_input_tokens c
                       \<and> pt_hit_tokens t = cl_input_tokens c - 1 then 1 else 0),
               nm_context_shrink_calls := nm_context_shrink_calls m
                 + (if cl_call_index c > 0 \<and> pt_source_tokens t > cl_input_tokens c then 1 else 0)\<rparr>) n
     in if pt_source t = Some Tier_D \<and> \<not> pt_full_d_reservation t
        then (Inr (), node_metric (\<lambda>m. m\<lparr>nm_stable_d_hits := nm_stable_d_hits m + 1\<rparr>) n)
        else if pt_source t \<in> {Some Tier_CPU, Some Tier_SSD}
        then let n = node_metric (\<lambda>m. m\<lparr>nm_lower_tier_hits := nm_lower_tier_hits m + 1\<rparr>) n in
          if pt_restore_layer_ready_ns t \<noteq> []
          then andthen (on_lifecycle (release_prepare_to_pool pid now) n) (\<lambda>_ n.
            (Inr (), node_metric
              (\<lambda>m. m\<lparr>nm_streaming_lower_tier_hits := nm_streaming_lower_tier_hits m + 1\<rparr>)
              (n\<lparr>nd_ready_call_ids := nd_ready_call_ids n @ [pt_request_id t]\<rparr>)))
          else (Inr (), n)
        else if cl_call_index c > 0 \<and> cl_prefix_reuse_tokens c > 0 \<and> pt_hit_tokens t = 0
        then (Inr (), node_metric (\<lambda>m. m\<lparr>nm_recompute_resumes := nm_recompute_resumes m + 1,
               nm_recompute_tokens := nm_recompute_tokens m + cl_input_tokens c\<rparr>) n)
        else (Inr (), n)))"

text \<open>
  One pass over the queue.  A call that cannot be admitted waits behind those deferred before it; an
  exception of the attempt restores the queue in its order.
\<close>

fun admit_loop :: "int \<Rightarrow> int list \<Rightarrow> int list \<Rightarrow> node \<Rightarrow> (unit, node) outcome" where
  "admit_loop now deferred [] n = (Inr (), n\<lparr>nd_pending_call_ids := deferred\<rparr>)"
| "admit_loop now deferred (i # is) n =
     (case admission_attempt now i (n\<lparr>nd_pending_call_ids := is\<rparr>) of
        (Inl e, n) \<Rightarrow> (Inl e, n\<lparr>nd_pending_call_ids := deferred @ i # is\<rparr>)
      | (Inr None, n) \<Rightarrow> admit_loop now (deferred @ [i]) is n
      | (Inr (Some pid), n) \<Rightarrow> andthen (admitted now i pid n) (\<lambda>_ n. admit_loop now deferred is n))"

definition admit_pending :: "int \<Rightarrow> node \<Rightarrow> (unit, node) outcome" where
  "admit_pending now n = admit_loop now [] (nd_pending_call_ids n) n"

section \<open>Notifications\<close>

definition consume_prepare :: "int \<Rightarrow> int \<Rightarrow> node \<Rightarrow> (unit, node) outcome" where
  "consume_prepare now pid n =
     andthen (lift_err (item (tl_prepares (nd_lifecycle n)) pid) n) (\<lambda>t n.
     andthen (lift_err (item (nd_calls n) (pt_request_id t)) n) (\<lambda>c n.
       if dget (nd_ticket_by_request n) (pt_request_id t) \<noteq> Some pid
          \<or> cl_prepare_completion_ns c \<noteq> Some now
       then (Inl (RuntimeError ''stale tiered prepare completion''), n)
       else if pt_restore_layer_ready_ns t \<noteq> []
       then if cl_state c \<noteq> CALL_EXECUTING \<or> \<not> pt_pool_released t \<or> cl_pool_request c = None
            then (Inl (RuntimeError ''streaming prepare was not released exactly once''), n)
            else on_lifecycle (mark_active pid now) n
       else if cl_state c \<noteq> CALL_PREPARING
       then (Inl (RuntimeError ''bulk prepare completed outside preparing state''), n)
       else andthen (on_lifecycle (mark_active pid now) n) (\<lambda>_ n.
            andthen (on_lifecycle (release_prepare_to_pool pid now) n) (\<lambda>_ n.
              (Inr (), n\<lparr>nd_ready_call_ids := nd_ready_call_ids n @ [pt_request_id t]\<rparr>)))))"

fun each :: "('a \<Rightarrow> 's \<Rightarrow> (unit, 's) outcome) \<Rightarrow> 'a list \<Rightarrow> 's \<Rightarrow> (unit, 's) outcome" where
  "each f [] s = (Inr (), s)"
| "each f (x # xs) s = andthen (f x s) (\<lambda>_ s. each f xs s)"

definition consume_prepare_notifications :: "int \<Rightarrow> node \<Rightarrow> (unit, node) outcome" where
  "consume_prepare_notifications now n =
     andthen (on_lifecycle pop_prepare_completed n) (\<lambda>pids n. each (consume_prepare now) pids n)"

definition d_prefix_tokens :: "prepare_ticket \<Rightarrow> int" where
  "d_prefix_tokens t =
     (if pt_needs_d t \<and> pt_source t = Some Tier_D \<and> \<not> pt_full_d_reservation t
      then pt_hit_tokens t else 0)"

definition make_pool_request :: "tiered_call \<Rightarrow> node \<Rightarrow> (request, node) outcome" where
  "make_pool_request c n =
     andthen (lift_err (ticket_of n (cl_request_id c)) n) (\<lambda>t n.
       let d_prefix = d_prefix_tokens t;
           n = node_metric (\<lambda>m.
                 if d_prefix \<noteq> 0
                 then m\<lparr>nm_fresh_suffix_handoffs := nm_fresh_suffix_handoffs m + 1\<rparr>
                 else if cl_output_tokens c > 1 \<or> cl_has_successor c
                 then m\<lparr>nm_full_prompt_handoffs := nm_full_prompt_handoffs m + 1\<rparr> else m) n;
           n = upd_call (cl_request_id c)
                 (\<lambda>c. c\<lparr>cl_pool_request := Some (cl_request_id c), cl_state := CALL_EXECUTING\<rparr>) n
       in (Inr (new_request (cl_request_id c) (cl_session_id c) (cl_release_ns c) (cl_input_tokens c)
             (cl_output_tokens c) (pt_hit_tokens t) d_prefix (cl_has_successor c)
             (pt_restore_layer_ready_ns t)), n))"

fun make_pool_requests :: "int list \<Rightarrow> node \<Rightarrow> (request list, node) outcome" where
  "make_pool_requests [] n = (Inr [], n)"
| "make_pool_requests (i # is) n =
     andthen (lift_err (item (nd_calls n) i) n) (\<lambda>c n.
     andthen (make_pool_request c n) (\<lambda>r n.
     andthen (make_pool_requests is n) (\<lambda>rs n. (Inr (r # rs), n))))"

definition submit_ready :: "int \<Rightarrow> node \<Rightarrow> (bool, node) outcome" where
  "submit_ready now n =
     (let ids = nd_ready_call_ids n in
      if ids = [] then (Inr False, n)
      else andthen (make_pool_requests ids (n\<lparr>nd_ready_call_ids := []\<rparr>)) (\<lambda>rs n.
           andthen (on_pool (submit_many rs now) n) (\<lambda>_ n. (Inr True, n))))"

definition finish_internal :: "int \<Rightarrow> int \<Rightarrow> node \<Rightarrow> (unit, node) outcome" where
  "finish_internal request_id now n =
     andthen (lift_err (item (nd_calls n) request_id) n) (\<lambda>c n.
       if cl_state c = CALL_INTERNAL_COMPLETE then (Inr (), n)
       else if cl_user_completion_ns c = None
       then (Inl (RuntimeError ''tiered internal completion precedes user completion''), n)
       else
         andthen (lift_err (item (nd_ticket_by_request n) (cl_request_id c)) n) (\<lambda>pid n.
         andthen (on_lifecycle (commit_d_ready pid now (cl_has_successor c)) n) (\<lambda>_ n.
         andthen (lift_err (item (nd_sessions n) (cl_session_id c)) n) (\<lambda>l n.
           if ln_active_request_id l \<noteq> Some (cl_request_id c)
           then (Inl (RuntimeError ''tiered session active-request identity mismatch''), n)
           else
             let n = upd_lineage (cl_session_id c) (\<lambda>l. l\<lparr>ln_last_call_index := cl_call_index c,
                   ln_active_request_id := None, ln_ended := \<not> cl_has_successor c\<rparr>) n;
                 n = upd_call request_id (\<lambda>c. c\<lparr>cl_internal_completion_ns := Some now,
                   cl_state := CALL_INTERNAL_COMPLETE\<rparr>) n
             in (Inr (), node_metric (\<lambda>m. m\<lparr>nm_internal_completed_calls :=
                   nm_internal_completed_calls m + 1\<rparr>) n)))))"

definition consume_handoff :: "int \<Rightarrow> int \<Rightarrow> node \<Rightarrow> (unit, node) outcome" where
  "consume_handoff now i n =
     (if i \<in> set (nd_handoff_completion_seen n)
      then (Inl (RuntimeError ''duplicate tiered handoff notification''), n)
      else
        let n = n\<lparr>nd_handoff_completion_seen := set_add i (nd_handoff_completion_seen n)\<rparr> in
        andthen (lift_err (item (nd_ticket_by_request n) i) n) (\<lambda>pid n.
        andthen (on_lifecycle (release_p_after_handoff pid now) n) (\<lambda>_ n.
        andthen (lift_err (item (nd_calls n) i) n) (\<lambda>_ n.
          if i \<in> set (nd_user_completion_seen n) then finish_internal i now n else (Inr (), n)))))"

definition consume_completion :: "int \<Rightarrow> int \<Rightarrow> node \<Rightarrow> (unit, node) outcome" where
  "consume_completion now i n =
     (if i \<in> set (nd_user_completion_seen n)
      then (Inl (RuntimeError ''duplicate tiered user completion''), n)
      else
        let n = n\<lparr>nd_user_completion_seen := set_add i (nd_user_completion_seen n)\<rparr> in
        andthen (lift_err (item (nd_calls n) i) n) (\<lambda>_ n.
        andthen (lift_err (get_request (nd_pool n) i) n) (\<lambda>r n.
          let n = upd_call i (\<lambda>c. c\<lparr>cl_user_completion_ns := rq_completion_ns r,
                cl_state := CALL_USER_COMPLETE\<rparr>) n;
              n = n\<lparr>nd_user_completed_ids := nd_user_completed_ids n @ [i]\<rparr>;
              n = node_metric (\<lambda>m. m\<lparr>nm_user_completed_calls := nm_user_completed_calls m + 1\<rparr>) n
          in if rq_handoff_done r \<or> \<not> (rq_output_tokens r = 1 \<and> rq_has_successor r)
             then finish_internal i now n else (Inr (), n))))"

definition consume_pool_notifications :: "int \<Rightarrow> node \<Rightarrow> (unit, node) outcome" where
  "consume_pool_notifications now n =
     andthen (on_pool pop_handoff_completed n) (\<lambda>ids n.
     andthen (each (consume_handoff now) ids n) (\<lambda>_ n.
     andthen (on_pool pop_completed n) (\<lambda>ids n.
       each (consume_completion now) ids n)))"

section \<open>The self check\<close>

definition clock_check :: "node \<Rightarrow> exn option" where
  "clock_check n = first_error
     [(\<not> (nd_current_ns n = tl_current_ns (nd_lifecycle n) \<and>
          tl_current_ns (nd_lifecycle n) = pl_current_ns (nd_pool n)),
        AssertionError ''tiered node component clocks diverged''),
      (\<not> distinct (nd_pending_call_ids n) \<or> \<not> distinct (nd_ready_call_ids n) \<or>
        set (nd_pending_call_ids n) \<inter> set (nd_ready_call_ids n) \<noteq> {},
        AssertionError ''tiered node queue identity invariant failed''),
      (set (nd_pending_call_ids n) \<noteq>
          set (map cl_request_id (filter (\<lambda>c. cl_state c = CALL_PENDING) (dvalues (nd_calls n)))),
        AssertionError ''pending call state/queue mismatch'')]"

definition stored_ticket :: "node \<Rightarrow> int \<Rightarrow> prepare_ticket option" where
  "stored_ticket n i = Option.bind (dget (nd_ticket_by_request n) i) (dget (tl_prepares (nd_lifecycle n)))"

definition ready_check :: "node \<Rightarrow> int \<Rightarrow> exn option" where
  "ready_check n i =
     (case dget (nd_calls n) i of None \<Rightarrow> Some KeyError | Some c \<Rightarrow>
      if cl_state c \<noteq> CALL_PREPARING \<or>
         (case stored_ticket n i of None \<Rightarrow> True | Some t \<Rightarrow> \<not> pt_completed t \<or> \<not> pt_active t)
      then Some (AssertionError ''ready call lacks active completed prepare'') else None)"

definition active_request_ids :: "node \<Rightarrow> int list" where
  "active_request_ids n = concat (map (\<lambda>l. case ln_active_request_id l of None \<Rightarrow> [] | Some i \<Rightarrow> [i])
     (dvalues (nd_sessions n)))"

definition request_completion :: "node \<Rightarrow> int \<Rightarrow> int option" where
  "request_completion n i = Option.bind (dget (pl_requests (nd_pool n)) i) rq_completion_ns"

definition call_check :: "node \<Rightarrow> tiered_call \<Rightarrow> exn option" where
  "call_check n c =
     (let ticket = stored_ticket n (cl_request_id c);
          active = (cl_request_id c \<in> set (active_request_ids n))
      in first_error
       [(cl_state c = CALL_PENDING \<and> ticket \<noteq> None,
          AssertionError ''pending call owns prepare ticket''),
        (cl_state c \<noteq> CALL_PENDING \<and> ticket = None,
          AssertionError ''admitted call lacks prepare ticket''),
        (cl_state c = CALL_INTERNAL_COMPLETE \<and>
           (cl_internal_completion_ns c = None \<or> active \<or>
            (case ticket of None \<Rightarrow> True | Some t \<Rightarrow> \<not> pt_committed t)),
          AssertionError ''invalid internally completed call''),
        (cl_state c \<noteq> CALL_INTERNAL_COMPLETE \<and> cl_state c \<noteq> CALL_PENDING \<and> \<not> active,
          AssertionError ''active tiered call lacks session owner''),
        (cl_user_completion_ns c \<noteq> None \<and>
           (case cl_pool_request c of None \<Rightarrow> True
            | Some i \<Rightarrow> cl_user_completion_ns c \<noteq> request_completion n i),
          AssertionError ''tiered user completion mismatch'')])"

definition lineage_check :: "node \<Rightarrow> session_lineage \<Rightarrow> exn option" where
  "lineage_check n l =
     (case dget (tl_sessions (nd_lifecycle n)) (ln_session_id l) of
        None \<Rightarrow> if ln_active_request_id l \<noteq> None
                then Some (AssertionError ''active lineage lacks lifecycle session'') else None
      | Some r \<Rightarrow> first_error
          [(ln_ended l \<and> (ln_active_request_id l \<noteq> None \<or> se_state r \<noteq> ENDED),
             AssertionError ''ended tiered lineage retains state''),
           (ln_active_request_id l \<noteq> se_active_request_id r,
             AssertionError ''lineage/lifecycle active request mismatch'')])"

definition internal_count :: "node \<Rightarrow> int" where
  "internal_count n = int (length (filter (\<lambda>c. cl_state c = CALL_INTERNAL_COMPLETE) (dvalues (nd_calls n))))"

definition conservation_check :: "node \<Rightarrow> exn option" where
  "conservation_check n =
     (let m = nd_metrics n in first_error
       [(nm_submitted_calls m \<noteq> int (length (nd_calls n)) \<or>
         nm_admitted_calls m \<noteq> int (length (nd_ticket_by_request n)) \<or>
         nm_user_completed_calls m \<noteq> int (length (nd_user_completion_seen n)) \<or>
         nm_internal_completed_calls m \<noteq> internal_count n \<or>
         \<not> (nm_internal_completed_calls m \<le> nm_user_completed_calls m \<and>
            nm_user_completed_calls m \<le> nm_admitted_calls m \<and>
            nm_admitted_calls m \<le> nm_submitted_calls m),
          AssertionError ''tiered node metric conservation failed''),
        (\<not> (set (nd_user_completion_seen n) \<subseteq> set (dkeys (nd_calls n)) \<and>
            set (nd_handoff_completion_seen n) \<subseteq> set (dkeys (nd_calls n))),
          AssertionError ''tiered completion set contains unknown request'')])"

definition node_check :: "node \<Rightarrow> exn option" where
  "node_check n =
     or_else (lifecycle_check (nd_lifecycle n))
     (or_else (pool_check (nd_pool n))
     (or_else (clock_check n)
     (or_else (find_error (ready_check n) (nd_ready_call_ids n))
     (or_else (if \<not> distinct (active_request_ids n)
               then Some (AssertionError ''one request is active in multiple lineages'') else None)
     (or_else (find_error (call_check n) (dvalues (nd_calls n)))
     (or_else (find_error (lineage_check n) (dvalues (nd_sessions n)))
       (conservation_check n)))))))"

definition raise_if :: "exn option \<Rightarrow> 's \<Rightarrow> (unit, 's) outcome" where
  "raise_if e n = (case e of None \<Rightarrow> (Inr (), n) | Some e \<Rightarrow> (Inl e, n))"

definition node_checked :: "node \<Rightarrow> (unit, node) outcome" where
  "node_checked n = (if nd_validate_every_event n then raise_if (node_check n) n else (Inr (), n))"

section \<open>Time\<close>

definition node_flush_scheduling :: "int \<Rightarrow> node \<Rightarrow> (unit, node) outcome" where
  "node_flush_scheduling now n =
     (if now \<noteq> nd_current_ns n \<or> now \<noteq> tl_current_ns (nd_lifecycle n) \<or> now \<noteq> pl_current_ns (nd_pool n)
      then (Inl (ValueError ''flush_scheduling must run at the current node timestamp''), n)
      else
        andthen (admit_pending now n) (\<lambda>_ n.
        andthen (on_lifecycle (tier_advance now) n) (\<lambda>_ n.
        andthen (consume_prepare_notifications now n) (\<lambda>_ n.
        andthen (submit_ready now n) (\<lambda>submitted n.
          if submitted then (Inr (), n) else on_pool (flush_scheduling now) n)))))"

text \<open>\<^verbatim>\<open>pool.next_event_ns\<close> drops stale launches from the pool's heap.\<close>

definition node_next_event :: "node \<Rightarrow> int option \<times> node" where
  "node_next_event n =
     (case next_event_ns (nd_pool n) of (pool_event, p) \<Rightarrow>
      let values = (case pool_event of None \<Rightarrow> [] | Some t \<Rightarrow> [t]) @
            (case tier_next_event_ns (nd_lifecycle n) of None \<Rightarrow> [] | Some t \<Rightarrow> [t])
      in (if values = [] then None else Some (min_list1 values), n\<lparr>nd_pool := p\<rparr>))"

text \<open>The body of the event loop.\<close>

definition node_event :: "int \<Rightarrow> bool \<Rightarrow> node \<Rightarrow> (unit, node) outcome" where
  "node_event event_ns flush n =
     andthen (on_lifecycle (tier_advance event_ns) n) (\<lambda>_ n.
     andthen (on_pool (advance event_ns True) n) (\<lambda>_ n.
     let n = n\<lparr>nd_current_ns := event_ns\<rparr> in
     andthen (consume_prepare_notifications event_ns n) (\<lambda>_ n.
     andthen (consume_pool_notifications event_ns n) (\<lambda>_ n.
       if flush then node_flush_scheduling event_ns n else (Inr (), n)))))"

partial_function (option) node_advance_loop :: "int \<Rightarrow> bool \<Rightarrow> node \<Rightarrow> (unit, node) outcome option" where
  "node_advance_loop now defer_schedule n =
     (case node_next_event n of
        (None, n) \<Rightarrow> Some (Inr (), n)
      | (Some event_ns, n) \<Rightarrow>
          if event_ns > now then Some (Inr (), n)
          else (case node_event event_ns (\<not> (defer_schedule \<and> event_ns = now)) n of
              (Inl e, n) \<Rightarrow> Some (Inl e, n)
            | (Inr _, n) \<Rightarrow> node_advance_loop now defer_schedule n))"

text \<open>Sequencing after an operation that may not return.\<close>

definition and_then :: "('a, 's) outcome option \<Rightarrow> ('a \<Rightarrow> 's \<Rightarrow> ('b, 's) outcome option)
    \<Rightarrow> ('b, 's) outcome option" where
  "and_then r f = (case r of None \<Rightarrow> None | Some (Inl e, n) \<Rightarrow> Some (Inl e, n) | Some (Inr x, n) \<Rightarrow> f x n)"

definition node_advance :: "int \<Rightarrow> bool \<Rightarrow> node \<Rightarrow> (unit, node) outcome option" where
  "node_advance now defer_schedule n =
     (if now < nd_current_ns n
      then Some (Inl (ValueError (''time cannot move backwards: current='' @ show_int (nd_current_ns n)
             @ '', requested='' @ show_int now)), n)
      else and_then (node_advance_loop now defer_schedule n) (\<lambda>_ n.
        Some (
          andthen (on_lifecycle (tier_advance now) n) (\<lambda>_ n.
          andthen (on_pool (advance now True) n) (\<lambda>_ n.
          let n = n\<lparr>nd_current_ns := now\<rparr> in
          andthen (if defer_schedule then (Inr (), n) else node_flush_scheduling now n) (\<lambda>_ n.
            node_checked n))))))"

section \<open>Submission, restart and runs\<close>

definition node_submit_many :: "tiered_call list \<Rightarrow> int \<Rightarrow> node \<Rightarrow> (unit, node) outcome option" where
  "node_submit_many cs now n =
     (case submission_check n now cs of Some e \<Rightarrow> Some (Inl e, n) | None \<Rightarrow>
      and_then (node_advance now True n) (\<lambda>_ n.
        let n = fold register_call cs n;
            n = node_metric (\<lambda>m. m\<lparr>nm_max_pending_calls :=
                  max (nm_max_pending_calls m) (int (length (nd_pending_call_ids n)))\<rparr>) n
        in Some (node_flush_scheduling now n)))"

definition node_submit :: "tiered_call \<Rightarrow> int \<Rightarrow> node \<Rightarrow> (unit, node) outcome option" where
  "node_submit c now n = node_submit_many [c] now n"

text \<open>Looking for a queued call of the session: \<^verbatim>\<open>any(...)\<close> over \<^verbatim>\<open>self.calls[id]\<close>.\<close>

fun queues_session :: "node \<Rightarrow> string \<Rightarrow> int list \<Rightarrow> exn + bool" where
  "queues_session n sid [] = Inr False"
| "queues_session n sid (i # is) =
     ebind (item (nd_calls n) i) (\<lambda>c. if cl_session_id c = sid then Inr True else queues_session n sid is)"

definition restart_ended_session :: "string \<Rightarrow> int \<Rightarrow> node \<Rightarrow> (unit, node) outcome option" where
  "restart_ended_session sid now n =
     (if sid = [] then Some (Inl (ValueError ''session_id must be non-empty''), n)
      else and_then (node_advance now True n) (\<lambda>_ n. Some (
        andthen (lift_err (item (nd_sessions n) sid) n) (\<lambda>l n.
        if \<not> ln_ended l \<or> ln_active_request_id l \<noteq> None
        then (Inl (RuntimeError ''only an inactive ended tiered session can restart''), n)
        else andthen (lift_err (ebind (queues_session n sid (nd_pending_call_ids n)) (\<lambda>b.
               if b then Inr True else queues_session n sid (nd_ready_call_ids n))) n) (\<lambda>queued n.
          if queued then (Inl (RuntimeError ''ended tiered session retains queued calls''), n)
          else andthen (on_lifecycle (restart_ended sid now) n) (\<lambda>_ n.
            let n = upd_lineage sid (\<lambda>l. l\<lparr>ln_last_call_index := - 1, ln_ended := False\<rparr>) n;
                n = n\<lparr>nd_last_submitted_call_index := dpop sid (nd_last_submitted_call_index n),
                      nd_last_submitted_request_id := dpop sid (nd_last_submitted_request_id n)\<rparr>;
                n = node_metric (\<lambda>m. m\<lparr>nm_session_restarts := nm_session_restarts m + 1\<rparr>) n
            in node_checked n))))))"

fun pop_calls :: "node \<Rightarrow> int list \<Rightarrow> int list \<Rightarrow> (int list, node) outcome" where
  "pop_calls n [] completed = (Inr completed, n\<lparr>nd_user_completed_ids := []\<rparr>)"
| "pop_calls n (i # is) completed =
     (case dget (nd_calls n) i of
        None \<Rightarrow> (Inl KeyError, n\<lparr>nd_user_completed_ids := is\<rparr>)
      | Some _ \<Rightarrow> pop_calls n is (completed @ [i]))"

definition node_pop_completed :: "node \<Rightarrow> (int list, node) outcome" where
  "node_pop_completed n = pop_calls n (nd_user_completed_ids n) []"

definition pending_pair :: "tiered_call \<Rightarrow> string" where
  "pending_pair c = ''('' @ show_int (cl_request_id c) @ '', '' @ py_repr (cl_session_id c) @ '')''"

definition deadlock_diagnostic :: "node \<Rightarrow> exn" where
  "deadlock_diagnostic n =
     (if list_ex (\<lambda>i. dget (nd_calls n) i = None) (nd_pending_call_ids n) then KeyError
      else RuntimeError (''tiered node has unfinished work but no future event: policy='' @ nd_policy n
        @ '', pending=['' @ join '', '' (map (\<lambda>i. pending_pair (the (dget (nd_calls n) i))) (nd_pending_call_ids n))
        @ ''], p_free='' @ show_int (p_free n) @ '', d_free='' @ show_int (d_free n)
        @ '', cpu_free='' @ show_int (cpu_free n)
        @ '', ssd_free='' @ show_int (free_bytes (tl_ssd_ledger (nd_lifecycle n)))))"

definition unfinished :: "node \<Rightarrow> bool" where
  "unfinished n \<longleftrightarrow> nd_pending_call_ids n \<noteq> [] \<or> nd_ready_call_ids n \<noteq> [] \<or>
     list_ex (\<lambda>c. cl_state c \<noteq> CALL_INTERNAL_COMPLETE) (dvalues (nd_calls n))"

partial_function (option) node_idle_loop :: "int list \<Rightarrow> node \<Rightarrow> (int list, node) outcome option" where
  "node_idle_loop completed n =
     (case node_next_event n of
        (None, n) \<Rightarrow> Some (Inr completed, n)
      | (Some event_ns, n) \<Rightarrow>
          (case node_advance event_ns False n of
             None \<Rightarrow> None
           | Some (Inl e, n) \<Rightarrow> Some (Inl e, n)
           | Some (Inr _, n) \<Rightarrow>
               (case node_pop_completed n of
                  (Inl e, n) \<Rightarrow> Some (Inl e, n)
                | (Inr ids, n) \<Rightarrow> node_idle_loop (completed @ ids) n)))"

definition node_run_until_idle :: "node \<Rightarrow> (int list, node) outcome option" where
  "node_run_until_idle n =
     and_then (Some (node_pop_completed n)) (\<lambda>completed n.
     and_then (node_idle_loop completed n) (\<lambda>completed n. Some (
       if unfinished n then (Inl (deadlock_diagnostic n), n)
       else andthen (raise_if (lifecycle_check (nd_lifecycle n)) n) (\<lambda>_ n.
            andthen (raise_if (pool_check (nd_pool n)) n) (\<lambda>_ n.
            andthen (raise_if (node_check n) n) (\<lambda>_ n. (Inr completed, n)))))))"

declare node_advance_loop.simps [code] node_idle_loop.simps [code]

end
