(* ===== verification/Node_Safety.thy ===== *)
theory Node_Safety
  imports Tiered_Node Tier_Props PD_Pool_Runs
begin

text \<open>
  The composition: what holds of a tiered node whatever is called on it, with whatever outcome.  The
  node drives its two components through their operations only, on one shared calendar.  The locale
  \<open>node_closed\<close> says what a predicate on nodes must be closed under; it is interpreted with the
  reachability of the lifecycle, the invariant of the pool, and the configuration.
\<close>

section \<open>The steps of the components\<close>

inductive tier_step :: "lifecycle \<Rightarrow> lifecycle \<Rightarrow> bool" where
  "tier_step s (snd (tier_advance now s))"
| "tier_step s (snd (ensure_d_headroom b now ex s))"
| "tier_step s (snd (ensure_cpu_bounce_headroom h now p s))"
| "tier_step s (snd (begin_prepare sid rid now i out u succ s))"
| "tier_step s (snd (pop_prepare_completed s))"
| "tier_step s (snd (release_prepare_to_pool pid now s))"
| "tier_step s (snd (mark_active pid now s))"
| "tier_step s (snd (release_p_after_handoff pid now s))"
| "tier_step s (snd (commit_d_ready pid now h s))"
| "tier_step s (snd (restart_ended sid now s))"

lemma tier_step_reach: "tier_step s s' \<Longrightarrow> tier_reach s \<Longrightarrow> tier_reach s'"
  by (induction rule: tier_step.induct) (auto intro: tier_reach.intros)

context lifecycle_closed begin

lemma step: "tier_step s s' \<Longrightarrow> I s \<Longrightarrow> I s'"
  by (induction rule: tier_step.induct) (auto intro: operations [unfolded keeps_def])

end

inductive pool_step :: "pool \<Rightarrow> pool \<Rightarrow> bool" where
  "pool_step p (snd (advance now defer p))"
| "pool_step p (snd (flush_scheduling now p))"
| "pool_step p (snd (submit_many rs now p))"
| "pool_step p (snd (pop_completed p))"
| "pool_step p (snd (pop_handoff_completed p))"

section \<open>Predicates that every operation of the node keeps\<close>

text \<open>The part of the node that its own bookkeeping never writes.\<close>

definition node_parts where
  "node_parts n = (nd_lifecycle n, nd_pool n, nd_calendar n, nd_hardware n, nd_node_id n, nd_policy n,
     nd_restore_execution_mode n, nd_d_reservation_policy n)"

locale node_closed =
  fixes J :: "node \<Rightarrow> bool"
  assumes own: "J n \<Longrightarrow> node_parts n' = node_parts n \<Longrightarrow> J n'"
    and tier: "J n \<Longrightarrow> tier_step ((nd_lifecycle n)\<lparr>tl_calendar := nd_calendar n\<rparr>) l \<Longrightarrow>
      J (n\<lparr>nd_lifecycle := l, nd_calendar := tl_calendar l\<rparr>)"
    and pool: "J n \<Longrightarrow> pool_step ((nd_pool n)\<lparr>pl_calendar := nd_calendar n\<rparr>) p \<Longrightarrow>
      J (n\<lparr>nd_pool := p, nd_calendar := pl_calendar p\<rparr>)"
    and event: "J n \<Longrightarrow> J (snd (node_next_event n))"
begin

lemma on_lifecycle_keeps:
  assumes "J n" and "\<And>s. tier_step s (snd (f s))"
  shows "keeps J (on_lifecycle f n)"
  using tier [OF assms(1) assms(2)] by (auto simp: on_lifecycle_def keeps_def split: prod.split)

lemma on_pool_keeps:
  assumes "J n" and "\<And>p. pool_step p (snd (f p))"
  shows "keeps J (on_pool f n)"
  using pool [OF assms(1) assms(2)] by (auto simp: on_pool_def keeps_def split: prod.split)

lemma fields:
  assumes "J n"
  shows "J (n\<lparr>nd_calls := x1\<rparr>)" "J (n\<lparr>nd_sessions := x2\<rparr>)" "J (n\<lparr>nd_metrics := x3\<rparr>)"
    "J (n\<lparr>nd_current_ns := x4\<rparr>)" "J (n\<lparr>nd_pending_call_ids := x5\<rparr>)" "J (n\<lparr>nd_ready_call_ids := x6\<rparr>)"
    "J (n\<lparr>nd_user_completed_ids := x7\<rparr>)" "J (n\<lparr>nd_ticket_by_request := x8\<rparr>)"
    "J (n\<lparr>nd_user_completion_seen := x9\<rparr>)" "J (n\<lparr>nd_handoff_completion_seen := x10\<rparr>)"
    "J (n\<lparr>nd_last_submitted_call_index := x11\<rparr>)" "J (n\<lparr>nd_last_submitted_request_id := x12\<rparr>)"
  by (rule own [OF assms], simp add: node_parts_def)+

lemma bookkeeping:
  "J n \<Longrightarrow> J (node_metric f1 n)" "J n \<Longrightarrow> J (upd_call i f2 n)" "J n \<Longrightarrow> J (upd_lineage sid f3 n)"
  "J n \<Longrightarrow> J (record_deferral i b1 b2 b3 n)"
  by (simp_all add: node_metric_def upd_call_def upd_lineage_def record_deferral_def fields split: option.split)

lemma keeps_lift: "J n \<Longrightarrow> keeps J (lift_err m n)"
  by (simp add: lift_err_def)

lemma keeps_raise: "J n \<Longrightarrow> keeps J (raise_if e n)" "J n \<Longrightarrow> keeps J (node_checked n)"
  by (simp_all add: raise_if_def node_checked_def split: option.split)

lemmas tier_ops = on_lifecycle_keeps [OF _ tier_step.intros(1)] on_lifecycle_keeps [OF _ tier_step.intros(2)]
  on_lifecycle_keeps [OF _ tier_step.intros(3)] on_lifecycle_keeps [OF _ tier_step.intros(4)]
  on_lifecycle_keeps [OF _ tier_step.intros(5)] on_lifecycle_keeps [OF _ tier_step.intros(6)]
  on_lifecycle_keeps [OF _ tier_step.intros(7)] on_lifecycle_keeps [OF _ tier_step.intros(8)]
  on_lifecycle_keeps [OF _ tier_step.intros(9)] on_lifecycle_keeps [OF _ tier_step.intros(10)]

lemmas pool_ops = on_pool_keeps [OF _ pool_step.intros(1)] on_pool_keeps [OF _ pool_step.intros(2)]
  on_pool_keeps [OF _ pool_step.intros(3)] on_pool_keeps [OF _ pool_step.intros(4)]
  on_pool_keeps [OF _ pool_step.intros(5)]

lemmas closed = keeps_lift keeps_raise bookkeeping fields tier_ops pool_ops

lemma reclaim_d: "J n \<Longrightarrow> keeps J (reclaim_d c need now n)"
  unfolding reclaim_d_def Let_def by (auto intro!: keeps_andthen closed)

lemma prepare_call: "J n \<Longrightarrow> keeps J (prepare_call c now n)"
  unfolding prepare_call_def by (auto intro!: keeps_andthen closed)

lemma try_prepare: "J n \<Longrightarrow> keeps J (try_prepare c now n)"
  unfolding try_prepare_def by (auto intro!: keeps_andthen reclaim_d prepare_call closed)

lemma admission_attempt: "J n \<Longrightarrow> keeps J (admission_attempt now i n)"
  unfolding admission_attempt_def by (auto intro!: keeps_andthen try_prepare closed)

lemma admitted: "J n \<Longrightarrow> keeps J (admitted now i pid n)"
  unfolding admitted_def Let_def by (auto intro!: keeps_andthen closed)

lemma admit_loop: "J n \<Longrightarrow> keeps J (admit_loop now ws is n)"
proof (induction now ws "is" n rule: admit_loop.induct)
  case (2 now ws i "is" n)
  obtain y n1 where a: "admission_attempt now i (n\<lparr>nd_pending_call_ids := is\<rparr>) = (y, n1)"
    by (cases "admission_attempt now i (n\<lparr>nd_pending_call_ids := is\<rparr>)")
  then have n1: "J n1"
    using admission_attempt [OF fields(5) [OF 2(3)], of now i "is"] by simp
  show ?case
  proof (cases y)
    case (Inr t)
    then show ?thesis
      using 2(1) [OF a [symmetric]] 2(2) [OF a [symmetric]] n1 a
      by (cases t) (auto intro!: keeps_andthen admitted)
  qed (use a n1 in \<open>simp add: fields\<close>)
qed (simp add: fields)

lemma admit_pending: "J n \<Longrightarrow> keeps J (admit_pending now n)"
  by (simp add: admit_pending_def admit_loop)

lemma keeps_each: "J n \<Longrightarrow> (\<And>x n. J n \<Longrightarrow> keeps J (f x n)) \<Longrightarrow> keeps J (each f xs n)"
  by (induction xs arbitrary: n) (auto intro!: keeps_andthen)

lemma consume_prepare: "J n \<Longrightarrow> keeps J (consume_prepare now pid n)"
  unfolding consume_prepare_def by (auto intro!: keeps_andthen closed)

lemma consume_prepare_notifications: "J n \<Longrightarrow> keeps J (consume_prepare_notifications now n)"
  unfolding consume_prepare_notifications_def by (auto intro!: keeps_andthen keeps_each consume_prepare closed)

lemma make_pool_request: "J n \<Longrightarrow> keeps J (make_pool_request c n)"
  unfolding make_pool_request_def Let_def by (auto intro!: keeps_andthen closed)

lemma make_pool_requests: "J n \<Longrightarrow> keeps J (make_pool_requests ids n)"
  by (induction ids arbitrary: n) (auto intro!: keeps_andthen make_pool_request closed)

lemma submit_ready: "J n \<Longrightarrow> keeps J (submit_ready now n)"
  unfolding submit_ready_def Let_def by (auto intro!: keeps_andthen make_pool_requests closed)

lemma finish_internal: "J n \<Longrightarrow> keeps J (finish_internal i now n)"
  unfolding finish_internal_def Let_def by (auto intro!: keeps_andthen closed)

lemma consume_handoff: "J n \<Longrightarrow> keeps J (consume_handoff now i n)"
  unfolding consume_handoff_def Let_def by (auto intro!: keeps_andthen finish_internal closed)

lemma consume_completion: "J n \<Longrightarrow> keeps J (consume_completion now i n)"
  unfolding consume_completion_def Let_def by (auto intro!: keeps_andthen finish_internal closed)

lemma consume_pool_notifications: "J n \<Longrightarrow> keeps J (consume_pool_notifications now n)"
  unfolding consume_pool_notifications_def
  by (auto intro!: keeps_andthen keeps_each consume_handoff consume_completion closed)

lemma node_flush_scheduling: "J n \<Longrightarrow> keeps J (node_flush_scheduling now n)"
  unfolding node_flush_scheduling_def
  by (auto intro!: keeps_andthen admit_pending consume_prepare_notifications submit_ready closed)

lemma node_event: "J n \<Longrightarrow> keeps J (node_event t flush n)"
  unfolding node_event_def Let_def
  by (auto intro!: keeps_andthen consume_prepare_notifications consume_pool_notifications
      node_flush_scheduling closed)

end

section \<open>The public operations\<close>

text \<open>An operation that may not return keeps a predicate: so does every outcome it has.\<close>

definition keeps_if_returns :: "('s \<Rightarrow> bool) \<Rightarrow> ('a, 's) outcome option \<Rightarrow> bool" where
  "keeps_if_returns J r \<longleftrightarrow> (\<forall>y. r = Some y \<longrightarrow> keeps J y)"

lemma keeps_if_returns_simps [simp]:
  "keeps_if_returns J None" "keeps_if_returns J (Some y) \<longleftrightarrow> keeps J y"
  by (simp_all add: keeps_if_returns_def)

lemma keeps_and_then:
  assumes "keeps_if_returns J r" and "\<And>x n. J n \<Longrightarrow> keeps_if_returns J (f x n)"
  shows "keeps_if_returns J (and_then r f)"
proof (cases r)
  case (Some y)
  obtain x n where y: "y = (x, n)" by (cases y)
  with Some assms(1) have "J n" by (simp add: keeps_def)
  with Some y assms(2) show ?thesis by (cases x) (auto simp: and_then_def keeps_def)
qed (simp add: and_then_def)

context node_closed begin

lemma next_event_keeps: "J n \<Longrightarrow> node_next_event n = (e, n') \<Longrightarrow> J n'"
  using event [of n] by simp

lemma node_advance_loop: "J n \<Longrightarrow> keeps_if_returns J (node_advance_loop now d n)"
proof -
  have "J n \<longrightarrow> keeps J y" if "node_advance_loop now d n = Some y" for y
  proof (rule node_advance_loop.raw_induct [where P = "\<lambda>_ _ n y. J n \<longrightarrow> keeps J y", OF _ that])
    fix loop now d n y
    assume 1: "\<And>now d n y. loop now d n = Some y \<Longrightarrow> J n \<longrightarrow> keeps J y"
      "(case node_next_event n of (None, n) \<Rightarrow> Some (Inr (), n)
       | (Some t, n) \<Rightarrow> if now < t then Some (Inr (), n)
           else (case node_event t (\<not> (d \<and> t = now)) n of
             (Inl e, n) \<Rightarrow> Some (Inl e, n) | (Inr _, n) \<Rightarrow> loop now d n)) = Some y"
    show "J n \<longrightarrow> keeps J y"
    proof
      assume "J n"
      obtain e n1 where e: "node_next_event n = (e, n1)" by (cases "node_next_event n")
      then have n1: "J n1" using next_event_keeps \<open>J n\<close> by blast
      show "keeps J y"
      proof (cases e)
        case None
        with 1(2) e n1 show ?thesis by (auto simp: keeps_def)
      next
        case (Some t)
        obtain z n2 where z: "node_event t (d \<longrightarrow> t \<noteq> now) n1 = (z, n2)"
          by (cases "node_event t (d \<longrightarrow> t \<noteq> now) n1")
        then have n2: "J n2" using node_event [OF n1, of t "d \<longrightarrow> t \<noteq> now"] by simp
        show ?thesis
        proof (cases z)
          case (Inl x)
          with 1(2) e Some z have "y = (Inr (), n1) \<or> y = (Inl x, n2)" by (simp split: if_splits)
          with n1 n2 show ?thesis by (auto simp: keeps_def)
        next
          case (Inr u)
          with 1(2) e Some z have "y = (Inr (), n1) \<or> loop now d n2 = Some y" by (simp split: if_splits)
          with 1(1) [of now d n2 y] n1 n2 show ?thesis by (auto simp: keeps_def)
        qed
      qed
    qed
  qed
  then show "J n \<Longrightarrow> keeps_if_returns J (node_advance_loop now d n)" by (simp add: keeps_if_returns_def)
qed

lemma node_advance: "J n \<Longrightarrow> keeps_if_returns J (node_advance now d n)"
  unfolding node_advance_def Let_def
  by (auto intro!: keeps_and_then node_advance_loop keeps_andthen node_flush_scheduling closed)

lemma register_calls: "J n \<Longrightarrow> J (fold register_call cs n)"
  by (induction cs arbitrary: n) (auto simp: register_call_def Let_def fields bookkeeping)

lemma node_submit_many: "J n \<Longrightarrow> keeps_if_returns J (node_submit_many cs now n)"
  unfolding node_submit_many_def Let_def
  by (auto intro!: keeps_and_then node_advance node_flush_scheduling register_calls closed split: option.split)

lemma restart_ended_session: "J n \<Longrightarrow> keeps_if_returns J (restart_ended_session sid now n)"
  unfolding restart_ended_session_def Let_def
  by (auto intro!: keeps_and_then keeps_andthen node_advance closed)

lemma pop_calls: "J n \<Longrightarrow> keeps J (pop_calls n ids done)"
  by (induction ids arbitrary: "done") (auto simp: fields split: option.split)

lemma node_pop_completed: "J n \<Longrightarrow> keeps J (node_pop_completed n)"
  by (simp add: node_pop_completed_def pop_calls)

lemma node_idle_loop: "J n \<Longrightarrow> keeps_if_returns J (node_idle_loop ids n)"
proof -
  have "J n \<longrightarrow> keeps J y" if "node_idle_loop ids n = Some y" for y
  proof (rule node_idle_loop.raw_induct [where P = "\<lambda>_ n y. J n \<longrightarrow> keeps J y", OF _ that])
    fix loop ids n y
    assume 1: "\<And>ids n y. loop ids n = Some y \<Longrightarrow> J n \<longrightarrow> keeps J y"
      "(case node_next_event n of (None, n) \<Rightarrow> Some (Inr ids, n)
       | (Some t, n) \<Rightarrow> (case node_advance t False n of None \<Rightarrow> None
         | Some (Inl e, n) \<Rightarrow> Some (Inl e, n)
         | Some (Inr _, n) \<Rightarrow> (case node_pop_completed n of
             (Inl e, n) \<Rightarrow> Some (Inl e, n) | (Inr done, n) \<Rightarrow> loop (ids @ done) n))) = Some y"
    show "J n \<longrightarrow> keeps J y"
    proof
      assume "J n"
      obtain e n1 where e: "node_next_event n = (e, n1)" by (cases "node_next_event n")
      then have n1: "J n1" using next_event_keeps \<open>J n\<close> by blast
      show "keeps J y"
      proof (cases e)
        case None
        with 1(2) e n1 show ?thesis by (auto simp: keeps_def)
      next
        case (Some t)
        with 1(2) e obtain z n2 where z: "node_advance t False n1 = Some (z, n2)"
          by (auto split: option.splits)
        then have n2: "J n2" using node_advance [OF n1, of t False] by simp
        obtain w n3 where w: "node_pop_completed n2 = (w, n3)" by (cases "node_pop_completed n2")
        then have n3: "J n3" using node_pop_completed [OF n2] by simp
        show ?thesis
          using 1(2) e Some z w n2 n3 1(1) by (cases z; cases w) (auto simp: keeps_def)
      qed
    qed
  qed
  then show "J n \<Longrightarrow> keeps_if_returns J (node_idle_loop ids n)" by (simp add: keeps_if_returns_def)
qed

lemma node_run_until_idle: "J n \<Longrightarrow> keeps_if_returns J (node_run_until_idle n)"
  unfolding node_run_until_idle_def
  by (auto intro!: keeps_and_then keeps_andthen node_idle_loop node_pop_completed closed)

end

section \<open>Reachable nodes\<close>

text \<open>
  Every state that some sequence of calls produces, calls that raise included.  The node is constructed
  over a calendar on which nothing has booked its model groups.
\<close>

inductive node_reach :: "node \<Rightarrow> bool" where
  new: "new_node hw pv node_id policy cal pc dc cc sc budget seqs ps ds chunk mode dp validate retain = Inr n \<Longrightarrow>
    provider_ok pv \<Longrightarrow> \<forall>s. free_at (nd_calendar n) (model_resource (nd_pool n) s) \<le> 0 \<Longrightarrow> node_reach n"
| submit: "node_reach n \<Longrightarrow> node_submit_many cs now n = Some (r, n') \<Longrightarrow> node_reach n'"
| restart: "node_reach n \<Longrightarrow> restart_ended_session sid now n = Some (r, n') \<Longrightarrow> node_reach n'"
| advance: "node_reach n \<Longrightarrow> node_advance now d n = Some (r, n') \<Longrightarrow> node_reach n'"
| flush: "node_reach n \<Longrightarrow> node_flush_scheduling now n = (r, n') \<Longrightarrow> node_reach n'"
| next_event: "node_reach n \<Longrightarrow> node_next_event n = (e, n') \<Longrightarrow> node_reach n'"
| pop_completed: "node_reach n \<Longrightarrow> node_pop_completed n = (ids, n') \<Longrightarrow> node_reach n'"
| run_until_idle: "node_reach n \<Longrightarrow> node_run_until_idle n = Some (ids', n') \<Longrightarrow> node_reach n'"

context node_closed begin

lemma reach:
  assumes "node_reach n"
    and "\<And>hw pv node_id policy cal pc dc cc sc budget seqs ps ds chunk mode dp validate retain n.
      new_node hw pv node_id policy cal pc dc cc sc budget seqs ps ds chunk mode dp validate retain = Inr n \<Longrightarrow>
      provider_ok pv \<Longrightarrow> \<forall>s. free_at (nd_calendar n) (model_resource (nd_pool n) s) \<le> 0 \<Longrightarrow> J n"
  shows "J n"
  using assms(1)
proof (induction rule: node_reach.induct)
  case (submit n cs now r n')
  then show ?case using node_submit_many [of n cs now] by simp
next
  case (restart n sid now r n')
  then show ?case using restart_ended_session [of n sid now] by simp
next
  case (advance n now d r n')
  then show ?case using node_advance [of n now d] by simp
next
  case (flush n now r n')
  then show ?case using node_flush_scheduling [of n now] by simp
next
  case (pop_completed n ids n')
  then show ?case using node_pop_completed [of n] by simp
next
  case (run_until_idle n ids' n')
  then show ?case using node_run_until_idle [of n] by simp
qed (blast intro: assms(2) next_event_keeps)+

end

section \<open>The lifecycle of a reachable node is reachable\<close>

interpretation reachable_tiers: node_closed "\<lambda>n. tier_reach (nd_lifecycle n)"
proof
  fix n l
  assume n: "tier_reach (nd_lifecycle n)"
    and st: "tier_step ((nd_lifecycle n)\<lparr>tl_calendar := nd_calendar n\<rparr>) l"
  show "tier_reach (nd_lifecycle (n\<lparr>nd_lifecycle := l, nd_calendar := tl_calendar l\<rparr>))"
    using tier_step_reach [OF st tier_reach.shared_calendar [OF n]] by simp
qed (simp_all add: node_parts_def node_next_event_def Let_def split: prod.split)

lemma new_node_parts:
  assumes "new_node hw pv node_id policy cal pc dc cc sc budget seqs ps ds chunk mode dp validate retain = Inr n"
  shows "new_lifecycle hw node_id policy (Some (nd_calendar n)) pc dc cc sc mode dp validate = Inr (nd_lifecycle n)"
    and "new_pool hw pv node_id (Some (nd_calendar n)) budget seqs ps ds chunk ''layerwise'' validate retain
      = Inr (nd_pool n)"
    and "nd_hardware n = hw" "nd_node_id n = node_id" "nd_policy n = policy"
      "nd_restore_execution_mode n = mode" "nd_d_reservation_policy n = dp" "nd_current_ns n = 0"
      "nd_pending_call_ids n = []" "nd_calls n = []" "nd_ticket_by_request n = []" "nd_sessions n = []"
  using assms by (auto simp: new_node_def Let_def ebind_Inr_iff split: option.splits)

lemma node_reach_tiers: "node_reach n \<Longrightarrow> tier_reach (nd_lifecycle n)"
  by (erule reachable_tiers.reach) (blast intro: tier_reach.new dest: new_node_parts(1))

section \<open>The configuration\<close>

definition node_config where
  "node_config n = (nd_hardware n, nd_node_id n, nd_policy n, nd_restore_execution_mode n,
     nd_d_reservation_policy n)"

definition config_agrees :: "node \<Rightarrow> bool" where
  "config_agrees n \<longleftrightarrow> (case tier_config (nd_lifecycle n) of (hw, node_id, policy, mode, dp, _) \<Rightarrow>
     node_config n = (hw, node_id, policy, mode, dp))"

lemma tier_step_config: "tier_step s s' \<Longrightarrow> tier_config s' = tier_config s"
  using config.step [of s s' "tier_config s" "capacities s"] by simp

interpretation configuration: node_closed config_agrees
proof
  fix n l
  assume "config_agrees n" and st: "tier_step ((nd_lifecycle n)\<lparr>tl_calendar := nd_calendar n\<rparr>) l"
  then show "config_agrees (n\<lparr>nd_lifecycle := l, nd_calendar := tl_calendar l\<rparr>)"
    using tier_step_config [OF st] by (simp add: config_agrees_def node_config_def tier_config_def)
qed (simp_all add: config_agrees_def node_config_def node_parts_def node_next_event_def Let_def split: prod.splits)

lemma node_reach_config: "node_reach n \<Longrightarrow> config_agrees n"
proof (erule configuration.reach)
  fix hw pv node_id policy cal pc dc cc sc budget seqs ps ds chunk mode dp validate retain and n :: node
  assume "new_node hw pv node_id policy cal pc dc cc sc budget seqs ps ds chunk mode dp validate retain = Inr n"
  note p = new_node_parts [OF this]
  from new_lifecycle_config [OF p(1)] p(3-7) show "config_agrees n"
    by (simp add: config_agrees_def node_config_def tier_config_def)
qed

section \<open>The pool of a reachable node\<close>

text \<open>Transfers never book a model group of the pool.\<close>

lemma calendar_demands_wf:
  "dwf (calendar_demands st) \<and> (r \<notin> set (stage_resources st) \<longrightarrow> dget (calendar_demands st) r = None)"
proof -
  have "dwf d \<Longrightarrow> dget d r = None \<Longrightarrow> dwf (foldl (\<lambda>d x. dput (rd_resource x) (rd_service_ns x, rd_byte_count x) d) d xs) \<and>
     (r \<notin> rd_resource ` set xs \<longrightarrow>
       dget (foldl (\<lambda>d x. dput (rd_resource x) (rd_service_ns x, rd_byte_count x) d) d xs) r = None)" for xs d
  proof (induction xs arbitrary: d)
    case (Cons x xs)
    then show ?case
    proof (cases "rd_resource x = r")
      case True
      have "dwf (foldl (\<lambda>d x. dput (rd_resource x) (rd_service_ns x, rd_byte_count x) d) d ys)" if "dwf d" for ys d
        using that by (induction ys arbitrary: d) (simp_all add: dwf_dput)
      from this [of "dput r (rd_service_ns x, rd_byte_count x) d" xs] True Cons.prems(1) show ?thesis by simp
    qed (simp add: dwf_dput)
  qed simp
  from this [of "[]" "ts_demands st"] show ?thesis by (simp add: calendar_demands_def stage_resources_def)
qed

lemma stage_reserve_other:
  assumes "r \<notin> set (stage_resources st)"
  shows "free_at (snd (stage_reserve st cal ready j ns)) r = free_at cal r"
proof -
  obtain y cal' where e: "reserve_parallel cal ready j (ts_kind st) (calendar_demands st) ns = (y, cal')"
    by (cases "reserve_parallel cal ready j (ts_kind st) (calendar_demands st) ns")
  show ?thesis
  proof (cases y)
    case (Inl x)
    with reserve_parallel_Inl [of cal ready j "ts_kind st" "calendar_demands st" ns] e
    show ?thesis by (simp add: stage_reserve_def)
  next
    case (Inr p)
    with e reserve_free [of cal ready j "ts_kind st" "calendar_demands st" ns "fst p" "snd p" cal' r]
      calendar_demands_wf [of st r] assms
    show ?thesis by (simp add: stage_reserve_def)
  qed
qed

lemma schedule_stages_other:
  "\<forall>st \<in> set sts. r \<notin> set (stage_resources st) \<Longrightarrow>
   free_at (snd (schedule_stages sts ready j ns cal)) r = free_at cal r"
proof (induction sts arbitrary: ready cal)
  case (Cons st sts)
  obtain y c where e: "stage_reserve st cal ready j ns = (y, c)" by (cases "stage_reserve st cal ready j ns")
  with stage_reserve_other [of r st cal ready j ns] Cons.prems have c: "free_at c r = free_at cal r" by simp
  show ?case
  proof (cases y)
    case (Inr p)
    obtain a b where p: "p = (a, b)" by (cases p)
    obtain z c' where z: "schedule_stages sts b j ns c = (z, c')" by (cases "schedule_stages sts b j ns c")
    with Cons.IH [of b c] Cons.prems c have "free_at c' r = free_at cal r" by simp
    with Inr e p z show ?thesis by (cases z) simp_all
  qed (use e c in simp)
qed simp

lemma calendar_step_model:
  assumes "calendar_step c c'"
  shows "free_at c' (model_resource p s) = free_at c (model_resource p s)"
  using assms
proof (cases rule: calendar_step.cases)
  case (1 sts ready j ns)
  have "last (model_resource p s) = CHR ''l''" by (simp add: model_resource_def)
  with 1(2) have "\<forall>st \<in> set sts. model_resource p s \<notin> set (stage_resources st)"
    by (auto simp: list_all_iff transfer_stage_def)
  with 1(1) schedule_stages_other show ?thesis by simp
qed

text \<open>The pool depends on the calendar through the times its model groups are free at.\<close>

definition pool_good :: "pool \<Rightarrow> bool" where
  "pool_good p \<longleftrightarrow> pool_ok (pl_current_ns p) p"

lemma pool_ok_calendar:
  assumes "\<And>s. free_at c (model_resource p s) = free_at (pl_calendar p) (model_resource p s)"
  shows "pool_ok now (p\<lparr>pl_calendar := c\<rparr>) = pool_ok now p"
proof -
  have w: "worker_of s (p\<lparr>pl_calendar := c\<rparr>) = worker_of s p" for s by (cases s) simp_all
  have m: "model_resource (p\<lparr>pl_calendar := c\<rparr>) s = model_resource p s" for s by (simp add: model_resource_def)
  show ?thesis
    by (simp add: pool_ok_def pool_core_def stages_ok_def inflight_items_def batch_ok_def w m assms
        cong: option.case_cong)
qed

lemma pool_good_calendar:
  "calendar_step (pl_calendar p) c \<Longrightarrow> pool_good (p\<lparr>pl_calendar := c\<rparr>) = pool_good p"
  by (simp add: pool_good_def pool_ok_calendar [OF calendar_step_model])

interpretation undisturbed: lifecycle_closed "\<lambda>s. pool_good (p\<lparr>pl_calendar := tl_calendar s\<rparr>)" for p
proof
  fix s :: lifecycle and t l
  show "pool_good (p\<lparr>pl_calendar := tl_calendar s\<rparr>) \<Longrightarrow>
      pool_good (p\<lparr>pl_calendar := tl_calendar (set_ledger t l s)\<rparr>)"
    by (cases t) simp_all
next
  fix s :: lifecycle and c
  assume "pool_good (p\<lparr>pl_calendar := tl_calendar s\<rparr>)" and "calendar_step (tl_calendar s) c"
  then show "pool_good (p\<lparr>pl_calendar := tl_calendar (s\<lparr>tl_calendar := c\<rparr>)\<rparr>)"
    using pool_good_calendar [of "p\<lparr>pl_calendar := tl_calendar s\<rparr>" c] by simp
qed simp_all

lemma pool_step_good: "pool_step p p' \<Longrightarrow> pool_good p \<Longrightarrow> pool_good p'"
proof (induction rule: pool_step.induct)
  case (1 p now d)
  show ?case
  proof (cases "now < pl_current_ns p")
    case True
    with 1 show ?thesis by (simp add: advance_def)
  next
    case False
    with 1 advance_ok [of p now d] obtain p' where "advance now d p = (Inr (), p')" "pool_ok now p'"
      "pl_current_ns p' = now" by (auto simp: pool_good_def)
    then show ?thesis by (simp add: pool_good_def)
  qed
next
  case (2 p now)
  show ?case
  proof (cases "now = pl_current_ns p")
    case False
    with 2 show ?thesis by (simp add: flush_scheduling_def)
  next
    case True
    with 2 flush_scheduling_ok [of now p] obtain p' where "flush_scheduling now p = (Inr (), p')"
      "pool_ok now p'" "pl_current_ns p' = now" unfolding pool_good_def by blast
    then show ?thesis by (simp add: pool_good_def)
  qed
next
  case (3 p rs now)
  show ?case
  proof (cases "submission_error p now rs [] []")
    case None
    show ?thesis
    proof (cases "pl_current_ns p \<le> now")
      case True
      with submit_many_ok [of p now rs] None 3 show ?thesis by (auto simp: pool_good_def)
    next
      case False
      with None 3 show ?thesis by (simp add: submit_many_def advance_def)
    qed
  qed (use 3 in \<open>simp add: submit_many_def\<close>)
next
  case (4 p)
  then show ?case using pop_completed_ok(1) [of _ p] pool_ok_popped(1) by (auto simp: pool_good_def)
next
  case (5 p)
  then show ?case using pop_completed_ok(2) [of _ p] pool_ok_popped(2) by (auto simp: pool_good_def)
qed

lemma pool_good_clean: "pool_good (p\<lparr>pl_calendar := c\<rparr>) \<Longrightarrow> snd (next_event_ns p) = p"
proof -
  assume "pool_good (p\<lparr>pl_calendar := c\<rparr>)"
  then have "pl_launch_heap p = []"
    using stages_okD(3) [OF pool_ok_parts(2)] by (fastforce simp: pool_good_def)
  then have "clean_launch_heap p = p" by (cases p) (simp add: clean_launch_heap_def)
  then show ?thesis by (simp add: next_event_ns_def next_raw_event_ns_def Let_def)
qed

interpretation sound_pool: node_closed "\<lambda>n. pool_good ((nd_pool n)\<lparr>pl_calendar := nd_calendar n\<rparr>)"
proof
  fix n n' :: node
  assume "pool_good ((nd_pool n)\<lparr>pl_calendar := nd_calendar n\<rparr>)" and "node_parts n' = node_parts n"
  then show "pool_good ((nd_pool n')\<lparr>pl_calendar := nd_calendar n'\<rparr>)" by (simp add: node_parts_def)
next
  fix n :: node and l
  assume "pool_good ((nd_pool n)\<lparr>pl_calendar := nd_calendar n\<rparr>)"
    and "tier_step ((nd_lifecycle n)\<lparr>tl_calendar := nd_calendar n\<rparr>) l"
  then show "pool_good ((nd_pool (n\<lparr>nd_lifecycle := l, nd_calendar := tl_calendar l\<rparr>))
      \<lparr>pl_calendar := nd_calendar (n\<lparr>nd_lifecycle := l, nd_calendar := tl_calendar l\<rparr>)\<rparr>)"
    using undisturbed.step [of "(nd_lifecycle n)\<lparr>tl_calendar := nd_calendar n\<rparr>" l "nd_pool n"] by simp
next
  fix n :: node and p
  assume "pool_good ((nd_pool n)\<lparr>pl_calendar := nd_calendar n\<rparr>)"
    and "pool_step ((nd_pool n)\<lparr>pl_calendar := nd_calendar n\<rparr>) p"
  then show "pool_good ((nd_pool (n\<lparr>nd_pool := p, nd_calendar := pl_calendar p\<rparr>))
      \<lparr>pl_calendar := nd_calendar (n\<lparr>nd_pool := p, nd_calendar := pl_calendar p\<rparr>)\<rparr>)"
    using pool_step_good by simp
next
  fix n :: node
  assume "pool_good ((nd_pool n)\<lparr>pl_calendar := nd_calendar n\<rparr>)"
  then show "pool_good ((nd_pool (snd (node_next_event n)))\<lparr>pl_calendar := nd_calendar (snd (node_next_event n))\<rparr>)"
    using pool_good_clean [where p = "nd_pool n" and c = "nd_calendar n"]
    by (cases "next_event_ns (nd_pool n)") (simp add: node_next_event_def Let_def)
qed

lemma new_pool_calendar:
  "new_pool hw pv n (Some c) budget seqs ps ds chunk overlap v retain = Inr p \<Longrightarrow> pl_calendar p = c"
  by (auto simp: new_pool_def Let_def split: option.splits)

lemma node_reach_pool: "node_reach n \<Longrightarrow> pool_good ((nd_pool n)\<lparr>pl_calendar := nd_calendar n\<rparr>)"
proof (erule sound_pool.reach)
  fix hw pv node_id policy cal pc dc cc sc budget seqs ps ds chunk mode dp validate retain and n :: node
  assume "new_node hw pv node_id policy cal pc dc cc sc budget seqs ps ds chunk mode dp validate retain = Inr n"
    and pv: "provider_ok pv" and free: "\<forall>s. free_at (nd_calendar n) (model_resource (nd_pool n) s) \<le> 0"
  note p = new_node_parts(2) [OF this(1)]
  note c = new_pool_calendar [OF p]
  have "pool_ok 0 (nd_pool n)" "pl_current_ns (nd_pool n) = 0"
    using new_pool_ok(1,3) [OF p pv] free c by simp_all
  moreover have "(nd_pool n)\<lparr>pl_calendar := nd_calendar n\<rparr> = nd_pool n" using c by (cases "nd_pool n") simp
  ultimately show "pool_good ((nd_pool n)\<lparr>pl_calendar := nd_calendar n\<rparr>)" by (simp add: pool_good_def)
qed

end
