(* ===== verification/Node_Props.thy ===== *)
theory Node_Props
  imports Node_Safety PD_Pool_Props "HOL-Library.Sublist"
begin

text \<open>
  What the composition guarantees: both components keep their invariants on the shared calendar, the
  node's own capacity estimate agrees with the decision of the lifecycle, and the queue of pending calls
  is served in order.
\<close>

section \<open>The admission precheck\<close>

text \<open>A result that is \<open>None\<close> exactly when the request does not fit.\<close>

definition decides :: "bool \<Rightarrow> ('a option, 's) outcome \<Rightarrow> bool" where
  "decides short r \<longleftrightarrow> (\<forall>x. fst r = Inr x \<longrightarrow> (x = None \<longleftrightarrow> short))"

lemma decides_error: "decides q (Inl e, s)"
  by (simp add: decides_def)

lemma decides_lift:
  "(\<And>x. m = Inr x \<Longrightarrow> decides q (f x s)) \<Longrightarrow> decides q (andthen (lift_err m s) f)"
  by (cases m) (simp_all add: lift_err_def decides_def)

lemma decides_if: "(b \<Longrightarrow> decides q x) \<Longrightarrow> (\<not> b \<Longrightarrow> decides q y) \<Longrightarrow> decides q (if b then x else y)"
  by simp

lemma decides_let: "(\<And>v. v = x \<Longrightarrow> decides q (f v)) \<Longrightarrow> decides q (Let x f)"
  by (simp add: Let_def)

lemma decides_none: "q \<Longrightarrow> decides q (Inr None, s)"
  by (simp add: decides_def)

lemma decides_some: "\<not> q \<Longrightarrow> some_result r \<Longrightarrow> decides q r"
  by (auto simp: decides_def some_result_def)

lemma decides_then:
  assumes "decides q m" and "\<And>x s. some_result (f x s)"
  shows "decides q (andthen m (\<lambda>c s. case c of None \<Rightarrow> (Inr None, s) | Some x \<Rightarrow> f x s))"
proof (cases m)
  case (Pair y t)
  show ?thesis
  proof (cases y)
    case (Inr c)
    show ?thesis
    proof (cases c)
      case (Some x)
      have "\<not> q" using assms(1) Pair Inr Some by (simp add: decides_def)
      with Pair Inr Some show ?thesis by (simp add: decides_some assms(2))
    qed (use assms(1) Pair Inr in \<open>simp add: decides_def\<close>)
  qed (use Pair in \<open>simp add: decides_error\<close>)
qed

lemmas decides_rules = decides_lift decides_let decides_if decides_error

text \<open>The D copy that a request can take over, and the D bytes it has to reserve next to it.\<close>

definition reusable_copy :: "int option \<Rightarrow> tier_copy option \<Rightarrow> tier_copy option" where
  "reusable_copy primary source = (case source of None \<Rightarrow> None
     | Some c \<Rightarrow> if tc_tier c = Tier_D \<and> primary = Some (tc_copy_id c) \<and> tc_pins c = 0 then Some c else None)"

definition d_need :: "bool \<Rightarrow> int \<Rightarrow> tier_copy option \<Rightarrow> int" where
  "d_need needs target reusable = (if \<not> needs then 0 else case reusable of
     None \<Rightarrow> target | Some c \<Rightarrow> max 0 (target - tc_byte_count c))"

definition admission_tokens :: "string \<Rightarrow> int \<Rightarrow> int \<Rightarrow> int" where
  "admission_tokens policy input final = (if policy = D_RESERVATION_FINAL_UPFRONT then final else input)"

lemma prepare_capacity_decides:
  assumes p: "per_rank_bytes s i = Inr p"
    and d: "(if needs then per_rank_bytes s (admission_tokens (tl_d_reservation_policy s) i final) else Inr 0) = Inr d"
  shows "decides (free_bytes (tl_p_ledger s) < p
      \<or> free_bytes (tl_d_ledger s) < d_need needs d (reusable_copy (se_primary_copy_id r) source)
      \<or> free_bytes (tl_cpu_ledger s) < bounce)
    (prepare_capacity r source i final needs bounce pid s)"
  unfolding prepare_capacity_def p
proof (intro decides_rules, goal_cases)
  case (1 p' t adm p_owner d_owner bounce_owner reusable full_d d_reserved p_short d_sh cpu_short)
  have adm: "adm = d" using 1(2,3) d p by (auto simp: admission_tokens_def split: if_splits)
  have "d_reserved = d_need needs d (reusable_copy (se_primary_copy_id r) source)"
    unfolding 1(9) 1(7) d_need_def reusable_copy_def adm by (rule refl)
  with 1(1,13) show ?case unfolding 1(10-12) by (intro decides_none) simp
next
  case (2 p' t adm p_owner d_owner bounce_owner reusable full_d d_reserved p_short d_sh cpu_short)
  have adm: "adm = d" using 2(2,3) d p by (auto simp: admission_tokens_def split: if_splits)
  have "d_reserved = d_need needs d (reusable_copy (se_primary_copy_id r) source)"
    unfolding 2(9) 2(7) d_need_def reusable_copy_def adm by (rule refl)
  with 2(1,13) have n: "\<not> (free_bytes (tl_p_ledger s) < p
      \<or> free_bytes (tl_d_ledger s) < d_need needs d (reusable_copy (se_primary_copy_id r) source)
      \<or> free_bytes (tl_cpu_ledger s) < bounce)"
    unfolding 2(10-12) by simp
  show ?case
    by (rule decides_some [OF n]) (intro some_result_andthen some_result_if, simp_all)
qed

definition known_session :: "lifecycle \<Rightarrow> string \<Rightarrow> int \<Rightarrow> tier_session" where
  "known_session s sid now = (case dget (tl_sessions s) sid of None \<Rightarrow> lost_session sid now | Some r \<Rightarrow> r)"

definition hit_of :: "int \<Rightarrow> tier_copy option \<Rightarrow> int \<Rightarrow> int" where
  "hit_of reusable source input =
     min (min reusable (case source of None \<Rightarrow> 0 | Some c \<Rightarrow> tc_tokens c)) (input - 1)"

definition bounce_of :: "lifecycle \<Rightarrow> int \<Rightarrow> tier_copy option \<Rightarrow> exn + int" where
  "bounce_of s hit source = (case (if hit \<noteq> 0 then source else None) of
     Some c \<Rightarrow> if tc_tier c = Tier_SSD then aggregate_bytes s hit else Inr 0 | None \<Rightarrow> Inr 0)"

lemma begin_prepare_decides:
  assumes adv: "tier_advance now s0 = (Inr (), s)"
    and e: "prepare_argument_error s0 sid rid now i out u = None"
    and src: "primary_copy s (known_session s sid now) = Inr source"
    and p: "per_rank_bytes s i = Inr p" and b: "bounce_of s (hit_of u source i) source = Inr b"
    and d: "(if out > 1 \<or> succ then per_rank_bytes s (admission_tokens (tl_d_reservation_policy s) i (i + out - 1))
      else Inr 0) = Inr d"
  shows "decides (free_bytes (tl_p_ledger s) < p
      \<or> free_bytes (tl_d_ledger s) < d_need (out > 1 \<or> succ) d
          (reusable_copy (se_primary_copy_id (known_session s sid now)) source)
      \<or> free_bytes (tl_cpu_ledger s) < b)
    (begin_prepare sid rid now i out u succ s0)"
proof -
  have i: "0 < i" using e by (auto simp: prepare_argument_error_def or_else_def validate_positive_def split: option.splits if_splits)
  show ?thesis
    unfolding begin_prepare_def at_time_def guarded_def e option.case adv andthen_Inr
  proof (intro decides_rules, goal_cases)
    case (1 final needs_d stored r source' source_tokens hit effective bounce p' d' s2 parts pid)
    note H = 1
    have r: "r = known_session s sid now" by (simp add: H(4) H(3) known_session_def)
    have so: "source' = source" using H(6) src by (simp add: r)
    have hit: "hit = hit_of u source i" using i by (simp add: H(8) H(7) so hit_of_def)
    have bo: "bounce = b" using H(10) b unfolding H(9) so hit bounce_of_def by simp
    have s2: "tl_p_ledger s2 = tl_p_ledger s" "tl_d_ledger s2 = tl_d_ledger s" "tl_cpu_ledger s2 = tl_cpu_ledger s"
      "per_rank_bytes s2 = per_rank_bytes s" "tl_d_reservation_policy s2 = tl_d_reservation_policy s"
      by (simp_all add: H(13) per_rank_bytes_note fun_eq_iff)
    have fin: "final = i + out - 1" "needs_d = (out > 1 \<or> succ)" using H(1,2) by simp_all
    show ?case
    proof (rule decides_then, goal_cases)
      case 1
      show ?case
        using prepare_capacity_decides [of s2 i p needs_d final d r source bounce pid] p d
        unfolding s2 fin r so bo by simp
    next
      case (2 cl s3)
      show ?case
        by (intro some_result_andthen some_result_if some_result_let some_result_prod)
          (simp_all, rule some_result_checked)
    qed
  qed
qed

text \<open>The estimate of the node in the terms of the lifecycle.\<close>

lemma node_capacity_Inr:
  assumes need: "node_capacity n c = Inr need" and agree: "config_agrees n" and s: "nd_lifecycle n = s"
  obtains source p d b where "primary_copy s (known_session s (cl_session_id c) now) = Inr source"
    and "per_rank_bytes s (cl_input_tokens c) = Inr p"
    and "bounce_of s (hit_of (cl_prefix_reuse_tokens c) source (cl_input_tokens c)) source = Inr b"
    and "(if cl_output_tokens c > 1 \<or> cl_has_successor c
     then per_rank_bytes s (admission_tokens (tl_d_reservation_policy s) (cl_input_tokens c)
            (cl_input_tokens c + cl_output_tokens c - 1)) else Inr 0) = Inr d"
    and "cn_p_bytes_per_rank need = p" and "cn_cpu_bounce_bytes need = b"
    and "cn_d_bytes_per_rank need = d_need (cl_output_tokens c > 1 \<or> cl_has_successor c) d
      (reusable_copy (se_primary_copy_id (known_session s (cl_session_id c) now)) source)"
proof -
  let ?stored = "dget (tl_sessions s) (cl_session_id c)" and ?r = "known_session s (cl_session_id c) now"
  have hw: "nd_hardware n = tl_hardware s" "nd_d_reservation_policy n = tl_d_reservation_policy s"
    using agree by (simp_all add: config_agrees_def node_config_def tier_config_def s)
  have source: "(case ?stored of None \<Rightarrow> Inr None | Some r \<Rightarrow> primary_copy s r) = primary_copy s ?r"
    by (simp add: known_session_def lost_session_def primary_copy_def split: option.split)
  have "Option.bind ?stored se_primary_copy_id = se_primary_copy_id ?r"
    by (simp add: known_session_def lost_session_def split: option.split)
  then have reuse: "(case x of None \<Rightarrow> None | Some x \<Rightarrow> if tc_tier x = Tier_D
      \<and> Some (tc_copy_id x) = Option.bind ?stored se_primary_copy_id \<and> tc_pins x = 0 then Some x else None)
      = reusable_copy (se_primary_copy_id ?r) x" for x
    by (auto simp: reusable_copy_def split: option.split)
  have bounce: "(case (if hit \<noteq> 0 then x else None) of Some y \<Rightarrow> if tc_tier y = Tier_SSD
      then ebind (kv_capacity_bytes_per_rank (tl_hardware s) hit) (\<lambda>b. Inr (b * tp_size (tl_hardware s)))
      else Inr 0 | None \<Rightarrow> Inr 0) = bounce_of s hit x" for hit x
    by (simp add: bounce_of_def aggregate_bytes_def per_rank_bytes_def split: option.split)
  have hit: "min (min u (case x of None \<Rightarrow> 0 | Some y \<Rightarrow> tc_tokens y)) (i - 1) = hit_of u x i" for u x i
    by (simp add: hit_of_def)
  note D = need [unfolded node_capacity_def Let_def s hw source reuse hit bounce ebind_Inr_iff,
      unfolded per_rank_bytes_def [symmetric] admission_tokens_def [symmetric] d_need_def [symmetric]]
  then obtain source p d b where "primary_copy s ?r = Inr source" "per_rank_bytes s (cl_input_tokens c) = Inr p"
    "(if cl_output_tokens c > 1 \<or> cl_has_successor c
     then per_rank_bytes s (admission_tokens (tl_d_reservation_policy s) (cl_input_tokens c)
            (cl_input_tokens c + cl_output_tokens c - 1)) else Inr 0) = Inr d"
    "bounce_of s (hit_of (cl_prefix_reuse_tokens c) source (cl_input_tokens c)) source = Inr b"
    and r: "need = \<lparr>cn_p_bytes_per_rank = p,
      cn_d_bytes_per_rank = d_need (cl_output_tokens c > 1 \<or> cl_has_successor c) d
        (reusable_copy (se_primary_copy_id ?r) source),
      cn_cpu_bounce_bytes = b, cn_hit_tokens = hit_of (cl_prefix_reuse_tokens c) source (cl_input_tokens c),
      cn_source = map_option tc_tier
        (if hit_of (cl_prefix_reuse_tokens c) source (cl_input_tokens c) \<noteq> 0 then source else None),
      cn_stable_d_source = (hit_of (cl_prefix_reuse_tokens c) source (cl_input_tokens c) \<noteq> 0 \<and>
        reusable_copy (se_primary_copy_id ?r) source \<noteq> None)\<rparr>" by auto
  then show ?thesis by (intro that [of source p b d]) (simp_all add: r)
qed

lemma tier_advance_no_event:
  assumes "tier_advance now s = (Inr (), s1)" and "\<forall>t. tier_next_event_ns s = Some t \<longrightarrow> now < t"
  shows "s1 = s\<lparr>tl_current_ns := now\<rparr>"
proof -
  have "advance_completions k now s = (Inr (), s)" for k
    using assms(2) by (subst advance_completions.simps)
      (auto simp: tier_next_event_ns_def split: option.split)
  with assms(1) show ?thesis
    by (auto simp: tier_advance_def checked_def split: option.splits if_splits)
qed

lemma begin_prepare_returns:
  assumes "begin_prepare sid rid now i out u succ s = (Inr r, s')"
  obtains s1 where "tier_advance now s = (Inr (), s1)"
    and "prepare_argument_error s sid rid now i out u = None"
proof -
  obtain y s1 where a: "tier_advance now s = (y, s1)" by (cases "tier_advance now s")
  have e: "prepare_argument_error s sid rid now i out u = None"
    using assms by (auto simp: begin_prepare_def at_time_def guarded_def split: option.splits)
  have "\<exists>v. y = Inr v" using assms a e by (cases y) (auto simp: begin_prepare_def at_time_def guarded_def)
  then show ?thesis using that a e by simp
qed

text \<open>The other half, for evaluation: a request of a new session that fits is granted at once.\<close>

lemma prepare_capacity_grants:
  assumes inv: "ledger_ok (tl_p_ledger s)" "ledger_ok (tl_d_ledger s)" "0 \<le> p" "0 \<le> d"
    and p: "per_rank_bytes s i = Inr p"
    and f: "(if needs then per_rank_bytes s final else Inr 0) = Inr f"
    and d: "(if needs then per_rank_bytes s (admission_tokens (tl_d_reservation_policy s) i final) else Inr 0) = Inr d"
    and fits: "p \<le> free_bytes (tl_p_ledger s)" "d \<le> free_bytes (tl_d_ledger s)" "0 \<le> free_bytes (tl_cpu_ledger s)"
    and free: "owner_bytes (tl_p_ledger s) (tl_node_name s @ '':p:prepare:'' @ show_int pid) = 0"
      "owner_bytes (tl_d_ledger s) (tl_node_name s @ '':d:prepare:'' @ show_int pid) = 0"
  shows "\<exists>cl lp ld. prepare_capacity r None i final needs 0 pid s =
    (Inr (Some cl), s\<lparr>tl_p_ledger := lp, tl_d_ledger := ld\<rparr>) \<and> pc_bounce_owner cl = None"
proof -
  have adm: "(if tl_d_reservation_policy s = D_RESERVATION_FINAL_UPFRONT then Inr f
      else if needs then per_rank_bytes s i else Inr 0) = Inr d"
    using f d by (auto simp: admission_tokens_def split: if_splits)
  have d0: "\<not> needs \<Longrightarrow> d = 0" using d by (simp split: if_splits)
  have l: "andthen (lift_err m t) g = g y t" if "m = Inr y" for m :: "exn + int" and y and t :: lifecycle
      and g :: "int \<Rightarrow> lifecycle \<Rightarrow> (prepare_claim option, lifecycle) outcome"
    using that by (simp add: lift_err_def)
  let ?po = "tl_node_name s @ '':p:prepare:'' @ show_int pid" and ?do = "tl_node_name s @ '':d:prepare:'' @ show_int pid"
  obtain lp where r1: "on_p_ledger (ledger_reserve ?po p) s = (Inr True, s\<lparr>tl_p_ledger := lp\<rparr>)"
    using inv fits free by (simp add: on_p_ledger_def reserve_fits tl_node_name_def)
  obtain ld where r2: "reserve_unless_zero Tier_D ?do d (s\<lparr>tl_p_ledger := lp\<rparr>)
      = (Inr True, s\<lparr>tl_p_ledger := lp, tl_d_ledger := ld\<rparr>)"
  proof (cases "d = 0")
    case True
    have "s\<lparr>tl_p_ledger := lp, tl_d_ledger := tl_d_ledger s\<rparr> = s\<lparr>tl_p_ledger := lp\<rparr>" by (cases s) simp
    with that [of "tl_d_ledger s"] True show ?thesis by (simp add: reserve_unless_zero_def)
  next
    case False
    with that inv fits free show ?thesis
      by (simp add: reserve_unless_zero_def on_ledger_def reserve_fits tl_node_name_def)
  qed
  have r3: "reserve_unless_zero Tier_CPU w 0 t = (Inr True, t)" for w t by (simp add: reserve_unless_zero_def)
  have ds: "(if \<not> needs then 0 else d) = d" using d0 by simp
  have short: "\<not> (free_bytes (tl_p_ledger s) < p \<or> free_bytes (tl_d_ledger s) < d \<or> free_bytes (tl_cpu_ledger s) < 0)"
    using fits by simp
  show ?thesis
    unfolding prepare_capacity_def l [OF p] l [OF f] l [OF adm] Let_def option.case ds if_not_P [OF short]
      r1 andthen_Inr r2 r3 not_True_eq_False if_False
    by (intro exI conjI, rule refl) simp
qed

lemma start_prepare_miss:
  "\<exists>s'. start_prepare sid rid None h s = (Inr ([], []), s') \<and>
     (dget (tl_sessions s) sid \<noteq> None \<longrightarrow> dget (tl_sessions s') sid \<noteq> None) \<and>
     tl_validate_every_event s' = tl_validate_every_event s"
  by (simp add: start_prepare_def prepare_stages_def Let_def upd_session_def upd_metrics_def split: option.split)

lemma schedule_nothing:
  assumes "dget (tl_sessions s) sid \<noteq> None"
  shows "\<exists>job s'. schedule_job k sid rq src d dw bw [] ready s = (Inr job, s') \<and> tj_stages job = [] \<and>
    tj_start_ns job = ready \<and> tj_completion_ns job = ready \<and>
    tl_validate_every_event s' = tl_validate_every_event s"
  using assms by (auto simp: schedule_job_def Let_def upd_session_def upd_metrics_def)

lemma fresh_session_granted:
  assumes adv: "tier_advance now s0 = (Inr (), s)"
    and e: "prepare_argument_error s0 sid rid now i out u = None"
    and new: "dget (tl_sessions s) sid = None" and quiet: "\<not> tl_validate_every_event s"
    and inv: "ledger_ok (tl_p_ledger s)" "ledger_ok (tl_d_ledger s)" "0 \<le> p" "0 \<le> d"
    and p: "per_rank_bytes s i = Inr p"
    and f: "(if out > 1 \<or> succ then per_rank_bytes s (i + out - 1) else Inr 0) = Inr f"
    and d: "(if out > 1 \<or> succ then per_rank_bytes s (admission_tokens (tl_d_reservation_policy s) i (i + out - 1))
      else Inr 0) = Inr d"
    and fits: "p \<le> free_bytes (tl_p_ledger s)" "d \<le> free_bytes (tl_d_ledger s)" "0 \<le> free_bytes (tl_cpu_ledger s)"
    and feasible: "p \<le> lg_capacity_bytes (tl_p_ledger s)" "f \<le> lg_capacity_bytes (tl_d_ledger s)"
      "0 \<le> lg_capacity_bytes (tl_cpu_ledger s)"
    and free: "owner_bytes (tl_p_ledger s) (tl_node_name s @ '':p:prepare:'' @ show_int (tl_next_prepare_id s)) = 0"
      "owner_bytes (tl_d_ledger s) (tl_node_name s @ '':d:prepare:'' @ show_int (tl_next_prepare_id s)) = 0"
  shows "\<exists>s' t. begin_prepare sid rid now i out u succ s0 = (Inr (Some (tl_next_prepare_id s)), s') \<and>
    dget (tl_prepares s') (tl_next_prepare_id s) = Some t \<and> pt_source t = None \<and> pt_hit_tokens t = 0 \<and>
    pt_start_ns t = now \<and> pt_completion_ns t = now \<and> pt_request_id t = rid \<and> pt_restore_layer_ready_ns t = []"
proof -
  have i: "0 < i" and u: "0 \<le> u" using e
    by (auto simp: prepare_argument_error_def or_else_def validate_positive_def first_error_None split: option.splits if_splits)
  let ?s = "note_infeasible p f 0 s"
  have ok: "infeasible_parts ?s p f 0 = []"
    using feasible by (simp add: infeasible_parts_def over_capacity_def)
  have same: "tl_node_name ?s = tl_node_name s" "tl_next_prepare_id ?s = tl_next_prepare_id s"
    "tl_sessions ?s = tl_sessions s" "\<not> tl_validate_every_event ?s" "tl_prepares ?s = tl_prepares s"
    using quiet by (simp_all add: note_infeasible_def upd_metrics_def tl_node_name_def)
  obtain cl lp ld where c: "prepare_capacity (lost_session sid now) None i (i + out - 1) (out > 1 \<or> succ) 0
      (tl_next_prepare_id s) ?s = (Inr (Some cl), ?s\<lparr>tl_p_ledger := lp, tl_d_ledger := ld\<rparr>)"
    and bo: "pc_bounce_owner cl = None"
    using prepare_capacity_grants [where s = ?s, unfolded per_rank_bytes_note note_infeasible_fields same,
      OF inv p f d fits free] by blast
  define t where "t = ?s\<lparr>tl_p_ledger := lp, tl_d_ledger := ld\<rparr>"
  have t: "tl_sessions t = tl_sessions s" "\<not> tl_validate_every_event t" "tl_next_prepare_id t = tl_next_prepare_id s"
    by (simp_all add: t_def same)
  have ls: "se_state (lost_session sid now) = LOST" "primary_copy s (lost_session sid now) = Inr None"
    by (simp_all add: lost_session_def primary_copy_def)
  have hit: "min (min u 0) (max 0 (i - 1)) = 0" using i u by simp
  let ?t1 = "upd_session sid (se_last_access_ns_update (\<lambda>_. now))
    (t\<lparr>tl_sessions := dput sid (lost_session sid now) (tl_sessions t), tl_next_prepare_id := tl_next_prepare_id t + 1\<rparr>)"
  have "dget (tl_sessions ?t1) sid \<noteq> None" "\<not> tl_validate_every_event ?t1"
    using t by (simp_all add: upd_session_def)
  then obtain s2 where sp: "start_prepare sid rid None 0 ?t1 = (Inr ([], []), s2)"
    and s2: "dget (tl_sessions s2) sid \<noteq> None" "\<not> tl_validate_every_event s2"
    using start_prepare_miss [of sid rid 0 ?t1] by auto
  obtain job s3 where sj: "schedule_job PREPARE sid (Some rid) None None None (pc_bounce_owner cl) [] now s2 = (Inr job, s3)"
    and job: "tj_stages job = []" "tj_start_ns job = now" "tj_completion_ns job = now" "\<not> tl_validate_every_event s3"
    using schedule_nothing [OF s2(1)] s2(2) by metis
  show ?thesis
    unfolding begin_prepare_def at_time_def guarded_def e option.case adv andthen_Inr new ls hit
    using p f ok c ls u i hit
    by (simp add: Let_def same t_def [symmetric])
      (simp add: sp sj job layer_ready_times_def drop_unused_source_def checked_def upd_metrics_def same)
qed

section \<open>A node to evaluate on\<close>

definition start_node :: node where
  "start_node = projr (new_node default_hardware unit_provider 0 ''cpu_ssd'' None (Some 1000000) (Some 800000)
     (Some 4000000) (Some 8000000) 64 8 None None 32 ''layerwise_streaming'' ''final_context_upfront'' False True)"

definition small_call :: tiered_call where
  "small_call = new_call 1 ''a'' 0 0 20 2 0 True"

lemma start_node_new:
  "new_node default_hardware unit_provider 0 ''cpu_ssd'' None (Some 1000000) (Some 800000)
     (Some 4000000) (Some 8000000) 64 8 None None 32 ''layerwise_streaming'' ''final_context_upfront'' False True
     = Inr start_node"
proof -
  have h: "validate_hardware default_hardware = None" using default_hw_ok by (simp add: hw_ok_def)
  have a: "lifecycle_argument_error ''cpu_ssd'' ''layerwise_streaming'' ''final_context_upfront'' 0 = None"
    using new_lifecycle_config(2) [OF start_lifecycle_new] .
  have e: "node_argument_error ''cpu_ssd'' ''final_context_upfront'' ''layerwise_streaming'' = None"
    by (simp add: node_argument_error_def SUPPORTED_TIER_POLICIES_def SUPPORTED_RESTORE_EXECUTION_MODES_def
        RESTORE_EXECUTION_BULK_def RESTORE_EXECUTION_LAYERWISE_def SUPPORTED_D_RESERVATION_POLICIES_def
        D_RESERVATION_FINAL_UPFRONT_def)
  obtain l where l: "new_lifecycle default_hardware 0 ''cpu_ssd'' (Some (new_calendar True)) (Some 1000000)
      (Some 800000) (Some 4000000) (Some 8000000) ''layerwise_streaming'' ''final_context_upfront'' False = Inr l"
    using new_lifecycle_ok [OF h a default_tr_new, of 1000000 800000 4000000 8000000] by fastforce
  have p: "new_pool_error default_hardware 0 64 8 8 8 32 ''layerwise'' = None"
    using h by (simp add: new_pool_error_def)
  show ?thesis by (simp add: start_node_def new_node_def e l new_pool_def p Let_def)
qed

lemma start_node_calendar: "nd_calendar start_node = new_calendar True"
proof -
  have "nd_calendar n = new_calendar True"
    if "new_node hw pv node_id policy None pc dc cc sc budget seqs ps ds chunk mode dp validate retain = Inr n"
    for hw pv node_id policy pc dc cc sc budget seqs ps ds chunk mode dp validate retain n
    using that by (auto simp: new_node_def Let_def ebind_Inr_iff split: option.splits)
  from this [OF start_node_new] show ?thesis .
qed

lemma start_node_reach: "node_reach start_node"
  by (rule node_reach.new [OF start_node_new unit_provider_ok])
    (simp add: start_node_calendar new_calendar_def free_at_def)

lemmas start_node_parts = new_node_parts [OF start_node_new]
  new_lifecycle_config [OF new_node_parts(1) [OF start_node_new]]
  new_lifecycle_empty [OF new_node_parts(1) [OF start_node_new]]
  new_lifecycle_ledger_fields [OF new_node_parts(1) [OF start_node_new]]

lemma start_node_grants:
  "\<exists>l' t. begin_prepare ''a'' 1 0 20 2 0 True ((nd_lifecycle start_node)\<lparr>tl_calendar := nd_calendar start_node\<rparr>)
     = (Inr (Some (tl_next_prepare_id (nd_lifecycle start_node))), l') \<and>
     dget (tl_prepares l') (tl_next_prepare_id (nd_lifecycle start_node)) = Some t \<and> pt_source t = None"
proof -
  let ?l = "nd_lifecycle start_node"
  let ?init = "?l\<lparr>tl_calendar := nd_calendar start_node\<rparr>"
  let ?s = "?init\<lparr>tl_current_ns := 0\<rparr>"
  have adv: "tier_advance 0 ?init = (Inr (), ?s)"
    by (simp add: tier_advance_def validate_time_def start_node_parts advance_completions.simps checked_def)
  have e: "prepare_argument_error ?init ''a'' 1 0 20 2 0 = None"
    by (simp add: prepare_argument_error_def or_else_def validate_session_def validate_time_def
        validate_positive_def MAX_CONTEXT_TOKENS_def start_node_parts)
  have kv: "per_rank_bytes ?s 20 = Inr 786432" "per_rank_bytes ?s 21 = Inr 786432"
    by (simp_all add: per_rank_bytes_def start_node_parts kv_capacity_ok [OF default_hw_ok] kv_capacity_default)
  have ledgers: "ledger_ok (tl_p_ledger ?s)" "ledger_ok (tl_d_ledger ?s)"
    by (simp_all add: ledger_ok_def used_bytes_def dsum_def dpos_def start_node_parts)
  show ?thesis
    using fresh_session_granted [OF adv e _ _ ledgers _ _ kv(1), where f = 786432 and d = 786432 and succ = True]
    by (fastforce simp: kv start_node_parts free_bytes_def used_bytes_def dsum_def owner_bytes_def dget_or_def
        admission_tokens_def D_RESERVATION_FINAL_UPFRONT_def)
qed

definition small_need :: capacity_need where
  "small_need = \<lparr>cn_p_bytes_per_rank = 786432, cn_d_bytes_per_rank = 786432, cn_cpu_bounce_bytes = 0,
     cn_hit_tokens = 0, cn_source = None, cn_stable_d_source = False\<rparr>"

lemma small_call_need:
  assumes "nd_lifecycle n = nd_lifecycle start_node" "nd_hardware n = default_hardware"
    "nd_d_reservation_policy n = ''final_context_upfront''"
  shows "node_capacity n small_call = Inr small_need"
proof -
  have kv: "kv_capacity_bytes_per_rank default_hardware 20 = Inr 786432"
    "kv_capacity_bytes_per_rank default_hardware 21 = Inr 786432"
    by (simp_all add: kv_capacity_ok [OF default_hw_ok] kv_capacity_default)
  show ?thesis
    by (simp add: node_capacity_def small_call_def new_call_def start_node_parts kv Let_def small_need_def
        D_RESERVATION_FINAL_UPFRONT_def assms)
qed

lemmas start_node_need = small_call_need [OF refl start_node_parts(3) start_node_parts(7)]

lemma small_call_fits:
  "786432 \<le> p_free start_node" "786432 \<le> d_free start_node" "0 \<le> cpu_free start_node"
  by (simp_all add: p_free_def d_free_def cpu_free_def free_bytes_def used_bytes_def dsum_def start_node_parts)

text \<open>The node with one call waiting.\<close>

definition queued_node :: node where
  "queued_node = register_call small_call start_node"

lemma queued_node_parts:
  "nd_pending_call_ids queued_node = [1]" "nd_lifecycle queued_node = nd_lifecycle start_node"
  "nd_calendar queued_node = nd_calendar start_node" "dget (nd_calls queued_node) 1 = Some small_call"
  "dget (nd_sessions queued_node) ''a'' = Some (new_lineage ''a'')"
  "nd_hardware queued_node = default_hardware" "nd_d_reservation_policy queued_node = ''final_context_upfront''"
  by (simp_all add: queued_node_def register_call_def small_call_def new_call_def Let_def node_metric_def
      start_node_parts)

lemma queued_call_admitted:
  "fst (admit_pending 0 queued_node) = Inr () \<and> nd_pending_call_ids (snd (admit_pending 0 queued_node)) = []"
proof -
  let ?n = "queued_node\<lparr>nd_pending_call_ids := []\<rparr>"
  obtain l' t where g: "begin_prepare ''a'' 1 0 20 2 0 True ((nd_lifecycle start_node)\<lparr>tl_calendar := nd_calendar start_node\<rparr>)
       = (Inr (Some (tl_next_prepare_id (nd_lifecycle start_node))), l')"
    and t: "dget (tl_prepares l') (tl_next_prepare_id (nd_lifecycle start_node)) = Some t" "pt_source t = None"
    using start_node_grants by blast
  let ?n1 = "?n\<lparr>nd_lifecycle := l', nd_calendar := tl_calendar l'\<rparr>" and ?pid = "tl_next_prepare_id (nd_lifecycle start_node)"
  have call: "cl_session_id small_call = ''a''" "cl_request_id small_call = 1" "cl_call_index small_call = 0"
    "cl_input_tokens small_call = 20" "cl_output_tokens small_call = 2" "cl_prefix_reuse_tokens small_call = 0"
    "cl_has_successor small_call" by (simp_all add: small_call_def new_call_def)
  have need: "node_capacity ?n small_call = Inr small_need"
    by (rule small_call_need) (simp_all add: queued_node_parts)
  have free: "p_free ?n = p_free start_node" "d_free ?n = d_free start_node" "cpu_free ?n = cpu_free start_node"
    by (simp_all add: p_free_def d_free_def cpu_free_def queued_node_parts)
  have "prepare_call small_call 0 ?n = (Inr (Some ?pid), ?n1)"
    using g by (simp add: prepare_call_def on_lifecycle_def call queued_node_parts)
  then have "admission_attempt 0 1 ?n = (Inr (Some ?pid), ?n1)"
    using small_call_fits
    by (simp add: admission_attempt_def item_def queued_node_parts call new_lineage_def try_prepare_def need free
        small_need_def)
  moreover have "fst (admitted 0 1 ?pid ?n1) = Inr ()"
    by (simp add: admitted_def item_def queued_node_parts t call Let_def)
  ultimately show ?thesis
    by (cases "admitted 0 1 ?pid ?n1") (simp add: admit_pending_def queued_node_parts)
qed

section \<open>Properties\<close>

text \<open>C10: The node's own estimate of the capacity a call needs agrees with the decision of the tier
  lifecycle: in a reachable node, when no transfer is due, the lifecycle puts a call off exactly when
  one of the three memories has less room than the node computed, so a call that passes the precheck is
  never deferred afterwards.\<close>
theorem precheck_agrees_with_lifecycle:
  assumes reach: "node_reach n"
    and idle: "\<forall>t. tier_next_event_ns (nd_lifecycle n) = Some t \<longrightarrow> now < t"
    and need: "node_capacity n c = Inr need"
    and result: "on_lifecycle (begin_prepare (cl_session_id c) (cl_request_id c) now (cl_input_tokens c)
      (cl_output_tokens c) (cl_prefix_reuse_tokens c) (cl_has_successor c)) n = (Inr r, n')"
  shows "r = None \<longleftrightarrow> p_free n < cn_p_bytes_per_rank need \<or> cpu_free n < cn_cpu_bounce_bytes need
    \<or> d_free n < cn_d_bytes_per_rank need"
proof -
  let ?l = "nd_lifecycle n" and ?init = "(nd_lifecycle n)\<lparr>tl_calendar := nd_calendar n\<rparr>"
  let ?s = "?init\<lparr>tl_current_ns := now\<rparr>"
  obtain s' where b: "begin_prepare (cl_session_id c) (cl_request_id c) now (cl_input_tokens c)
      (cl_output_tokens c) (cl_prefix_reuse_tokens c) (cl_has_successor c) ?init = (Inr r, s')"
    using result by (auto simp: on_lifecycle_def split: prod.splits)
  then obtain s1 where adv: "tier_advance now ?init = (Inr (), s1)"
    and e: "prepare_argument_error ?init (cl_session_id c) (cl_request_id c) now (cl_input_tokens c)
      (cl_output_tokens c) (cl_prefix_reuse_tokens c) = None" by (rule begin_prepare_returns)
  have "\<forall>t. tier_next_event_ns ?init = Some t \<longrightarrow> now < t" using idle by (simp add: tier_next_event_ns_def)
  from tier_advance_no_event [OF adv this] adv have adv: "tier_advance now ?init = (Inr (), ?s)" by simp
  have same: "known_session ?s = known_session ?l" "primary_copy ?s = primary_copy ?l"
    "per_rank_bytes ?s = per_rank_bytes ?l" "bounce_of ?s = bounce_of ?l"
    "tl_d_reservation_policy ?s = tl_d_reservation_policy ?l"
    by (simp_all add: known_session_def primary_copy_def per_rank_bytes_def bounce_of_def aggregate_bytes_def
        fun_eq_iff split: option.split)
  obtain source p d b' where src: "primary_copy ?l (known_session ?l (cl_session_id c) now) = Inr source"
    and p: "per_rank_bytes ?l (cl_input_tokens c) = Inr p"
    and b': "bounce_of ?l (hit_of (cl_prefix_reuse_tokens c) source (cl_input_tokens c)) source = Inr b'"
    and d: "(if cl_output_tokens c > 1 \<or> cl_has_successor c
     then per_rank_bytes ?l (admission_tokens (tl_d_reservation_policy ?l) (cl_input_tokens c)
            (cl_input_tokens c + cl_output_tokens c - 1)) else Inr 0) = Inr d"
    and n: "cn_p_bytes_per_rank need = p" "cn_cpu_bounce_bytes need = b'"
      "cn_d_bytes_per_rank need = d_need (cl_output_tokens c > 1 \<or> cl_has_successor c) d
        (reusable_copy (se_primary_copy_id (known_session ?l (cl_session_id c) now)) source)"
    by (rule node_capacity_Inr [OF need node_reach_config [OF reach] refl])
  note dec = begin_prepare_decides [OF adv e, unfolded same, OF src p b' d]
  show ?thesis
    using dec b by (auto simp: decides_def n p_free_def d_free_def cpu_free_def)
qed

theorem precheck_agrees_with_lifecycle_witness:
  "\<exists>pid n'. on_lifecycle (begin_prepare ''a'' 1 0 20 2 0 True) start_node = (Inr (Some pid), n') \<and>
     cn_p_bytes_per_rank small_need \<le> p_free start_node \<and> cn_d_bytes_per_rank small_need \<le> d_free start_node"
proof -
  obtain pid n' where r: "on_lifecycle (begin_prepare ''a'' 1 0 20 2 0 True) start_node = (Inr (Some pid), n')"
    using start_node_grants by (auto simp: on_lifecycle_def)
  have idle: "\<forall>t. tier_next_event_ns (nd_lifecycle start_node) = Some t \<longrightarrow> 0 < t"
    by (simp add: tier_next_event_ns_def start_node_parts)
  from precheck_agrees_with_lifecycle [OF start_node_reach idle start_node_need, of "Some pid" n'] r show ?thesis
    by (auto simp: small_call_def new_call_def)
qed

text \<open>C4: The composition is sound: in every reachable node, calls that raised included, the pool, on
  the calendar it shares with the transfers, passes its self check and never fails to advance, and each
  memory of the lifecycle stays within its capacity, with the configuration the node was built with.\<close>
theorem node_components_stay_sound:
  assumes "node_reach n"
  shows "pool_check ((nd_pool n)\<lparr>pl_calendar := nd_calendar n\<rparr>) = None \<and>
    (\<forall>now d. pl_current_ns (nd_pool n) \<le> now \<longrightarrow> fst (on_pool (advance now d) n) = Inr ()) \<and>
    (\<forall>l \<in> {tl_p_ledger (nd_lifecycle n), tl_d_ledger (nd_lifecycle n), tl_cpu_ledger (nd_lifecycle n),
       tl_ssd_ledger (nd_lifecycle n)}. 0 \<le> used_bytes l \<and> used_bytes l \<le> lg_capacity_bytes l \<and>
       ledger_check l = None) \<and>
    nd_hardware n = tl_hardware (nd_lifecycle n) \<and> nd_policy n = tl_policy (nd_lifecycle n)"
proof -
  let ?p = "(nd_pool n)\<lparr>pl_calendar := nd_calendar n\<rparr>" and ?l = "nd_lifecycle n"
  have good: "pool_ok (pl_current_ns ?p) ?p" using node_reach_pool [OF assms] by (simp add: pool_good_def)
  have "fst (on_pool (advance now d) n) = Inr ()" if "pl_current_ns (nd_pool n) \<le> now" for now d
    using advance_ok [OF good, of now d] that by (auto simp: on_pool_def)
  moreover have "ledger_inv (tl_p_ledger ?l)" "ledger_inv (ledger_of t ?l)" for t
    using tier_reach_ledgers [OF node_reach_tiers [OF assms]] by (simp_all add: ledgers_inv_def)
  note this(1) this(2) [of Tier_D] this(2) [of Tier_CPU] this(2) [of Tier_SSD]
  ultimately show ?thesis
    using pool_check_ok [OF good] node_reach_config [OF assms] lg.used_bounds
    by (auto simp: config_agrees_def node_config_def tier_config_def ledger_inv_def ledger_check_None)
qed

theorem node_components_stay_sound_witness:
  "pool_check ((nd_pool start_node)\<lparr>pl_calendar := nd_calendar start_node\<rparr>) = None \<and>
   fst (on_pool (advance 5 False) start_node) = Inr () \<and>
   used_bytes (tl_d_ledger (nd_lifecycle start_node)) \<le> 800000"
  using node_components_stay_sound [OF start_node_reach]
    new_pool_ok(3) [OF start_node_parts(2) unit_provider_ok]
  by (simp add: start_node_parts new_pool_calendar [OF start_node_parts(2)] start_node_calendar
      new_calendar_def free_at_def)

section \<open>The queue of pending calls\<close>

text \<open>What an attempt never touches: the rest of the queue and the tickets.\<close>

definition holds_queue :: "int list \<Rightarrow> (int, int) dict \<Rightarrow> node \<Rightarrow> bool" where
  "holds_queue q d n \<longleftrightarrow> nd_pending_call_ids n = q \<and> nd_ticket_by_request n = d"

lemma queue_ops:
  "holds_queue q d n \<Longrightarrow> keeps (holds_queue q d) (on_lifecycle f n)"
  "holds_queue q d n \<Longrightarrow> keeps (holds_queue q d) (lift_err m n)"
  "holds_queue q d n \<Longrightarrow> holds_queue q d (node_metric f1 n)"
  "holds_queue q d n \<Longrightarrow> holds_queue q d (upd_call i f2 n)"
  "holds_queue q d n \<Longrightarrow> holds_queue q d (upd_lineage sid f3 n)"
  "holds_queue q d n \<Longrightarrow> holds_queue q d (n\<lparr>nd_ready_call_ids := r\<rparr>)"
  by (auto simp: holds_queue_def on_lifecycle_def lift_err_def node_metric_def upd_call_def upd_lineage_def
      keeps_def split: prod.splits option.split)

lemma attempt_queue:
  assumes "holds_queue q d n"
  shows "keeps (holds_queue q d) (admission_attempt now i n)"
proof -
  have r: "holds_queue q d n \<Longrightarrow> holds_queue q d (record_deferral i b1 b2 b3 n)" for n i b1 b2 b3
    by (simp add: record_deferral_def queue_ops)
  have c: "holds_queue q d n \<Longrightarrow> keeps (holds_queue q d) (prepare_call c now n)" for n c
    unfolding prepare_call_def by (auto intro!: keeps_andthen queue_ops)
  have d: "holds_queue q d n \<Longrightarrow> keeps (holds_queue q d) (reclaim_d c need now n)" for n c need
    unfolding reclaim_d_def Let_def by (auto intro!: keeps_andthen queue_ops r)
  show ?thesis
    using assms unfolding admission_attempt_def try_prepare_def
    by (auto intro!: keeps_andthen queue_ops r c d)
qed

text \<open>The bookkeeping of an admission adds the ticket, or raises before anything is written.\<close>

lemma admitted_queue:
  assumes "holds_queue q d n"
  obtains "\<exists>e. fst (admitted now i pid n) = Inl e" and "holds_queue q d (snd (admitted now i pid n))"
  | "holds_queue q (dput i pid d) (snd (admitted now i pid n))"
proof (cases "dget (nd_calls n) i")
  case None
  then show ?thesis using that(1) assms by (simp add: admitted_def item_def)
next
  case (Some c)
  show ?thesis
  proof (cases "dget (tl_prepares (nd_lifecycle n)) pid")
    case None
    with Some show ?thesis using that(1) assms by (simp add: admitted_def item_def)
  next
    case t: (Some t)
    have n: "holds_queue q (dput i pid d) (m\<lparr>nd_ticket_by_request := dput i pid (nd_ticket_by_request m)\<rparr>)"
      if "holds_queue q d m" for m
      using that by (simp add: holds_queue_def)
    have "keeps (holds_queue q (dput i pid d)) (admitted now i pid n)"
      unfolding admitted_def item_def Some t option.case andthen_lift Let_def
      by (auto intro!: keeps_andthen queue_ops n assms)
    then show ?thesis using that(2) by (simp add: keeps_def)
  qed
qed

definition served :: "(int, int) dict \<Rightarrow> int list \<Rightarrow> (unit, node) outcome \<Rightarrow> bool" where
  "served d q r \<longleftrightarrow> subseq (nd_pending_call_ids (snd r)) q \<and>
     (\<forall>i. dget d i \<noteq> None \<longrightarrow> dget (nd_ticket_by_request (snd r)) i \<noteq> None) \<and>
     (fst r = Inr () \<longrightarrow> (\<forall>i \<in> set q. i \<in> set (nd_pending_call_ids (snd r)) \<or>
        dget (nd_ticket_by_request (snd r)) i \<noteq> None))"

lemma served_more: "served (dput i pid d) (ws @ is) r \<Longrightarrow> served d (ws @ i # is) r"
proof -
  assume s: "served (dput i pid d) (ws @ is) r"
  have "subseq (ws @ is) (ws @ i # is)" by (simp add: list_emb_append_mono subseq_Cons')
  with s show ?thesis
    unfolding served_def by (auto intro: subseq_order.trans)
qed

lemma served_error:
  "holds_queue is d n \<Longrightarrow> (\<And>j. dget d0 j \<noteq> None \<Longrightarrow> dget d j \<noteq> None) \<Longrightarrow> served d0 (ws @ i # is) (Inl e, n)"
  by (auto simp: served_def holds_queue_def intro: list_emb_append2 list_emb_Cons)

lemma admit_loop_served:
  "nd_ticket_by_request n = d \<Longrightarrow> served d (ws @ is) (admit_loop now ws is n)"
proof (induction now ws "is" n arbitrary: d rule: admit_loop.induct)
  case (1 now ws n)
  then show ?case by (simp add: served_def)
next
  case (2 now ws i "is" n)
  have "holds_queue is d (n\<lparr>nd_pending_call_ids := is\<rparr>)" using 2(3) by (simp add: holds_queue_def)
  note kept = attempt_queue [OF this, of now i]
  obtain y n1 where a: "admission_attempt now i (n\<lparr>nd_pending_call_ids := is\<rparr>) = (y, n1)"
    by (cases "admission_attempt now i (n\<lparr>nd_pending_call_ids := is\<rparr>)")
  with kept have n1: "holds_queue is d n1" by simp
  show ?case
  proof (cases y)
    case (Inl e)
    with a n1 show ?thesis by (simp add: served_def holds_queue_def)
  next
    case (Inr t)
    show ?thesis
    proof (cases t)
      case None
      with 2(1) [OF a [symmetric] Inr, of d] a Inr n1 show ?thesis by (simp add: holds_queue_def)
    next
      case (Some pid)
      obtain z n2 where z: "admitted now i pid n1 = (z, n2)" by (cases "admitted now i pid n1")
      show ?thesis
      proof (cases rule: admitted_queue [OF n1, of now i pid])
        case 1
        with z a Inr Some served_error [of "is" d n2 d] show ?thesis by auto
      next
        case q: 2
        show ?thesis
        proof (cases z)
          case (Inl e)
          with q z a Inr Some \<open>y = Inr t\<close> served_error [of "is" "dput i pid d" n2 d] show ?thesis by auto
        next
          case (Inr u)
          have "served (dput i pid d) (ws @ is) (admit_loop now ws is n2)"
            using 2(2) [OF a [symmetric] \<open>y = Inr t\<close> Some, of n2 "dput i pid d"] q z Inr
            by (simp add: holds_queue_def)
          with served_more z a Inr Some \<open>y = Inr t\<close> show ?thesis by simp
        qed
      qed
    qed
  qed
qed



section \<open>Submission\<close>

text \<open>What a single call needs to be accepted, over the calls last submitted.\<close>

definition acceptable :: "node \<Rightarrow> int \<Rightarrow> (string, tiered_call) dict \<Rightarrow> tiered_call \<Rightarrow> bool" where
  "acceptable n now latest c \<longleftrightarrow>
     validate_call c = None \<and> capacity_contract_error n c = None \<and> cl_release_ns c = now \<and>
     dget (nd_calls n) (cl_request_id c) = None \<and>
     cl_call_index c = dget_or (nd_last_submitted_call_index n) (cl_session_id c) (- 1) + 1 \<and>
     (case dget latest (cl_session_id c) of None \<Rightarrow> True | Some q \<Rightarrow> cl_has_successor q \<and>
        (\<exists>t. cl_user_completion_ns q = Some t \<and> t \<le> now)) \<and>
     (case dget (nd_sessions n) (cl_session_id c) of None \<Rightarrow> True | Some l \<Rightarrow> \<not> ln_ended l)"

lemma or_else_eq_None: "or_else a b = None \<longleftrightarrow> a = None \<and> b = None"
  by (simp add: or_else_def split: option.split)

lemma predecessor_error_None: "predecessor_error c q = None \<longleftrightarrow> (case q of None \<Rightarrow> True
   | Some q \<Rightarrow> cl_has_successor q \<and> (\<exists>t. cl_user_completion_ns q = Some t \<and> t \<le> cl_release_ns c))"
  by (auto simp: predecessor_error_def split: option.split)

text \<open>A call of the batch blocks later calls of its session: it cannot be complete yet.\<close>

lemma submission_error_iff:
  assumes "\<forall>k. k \<notin> ss \<longrightarrow> dget_or index k (- 1) = dget_or (nd_last_submitted_call_index n) k (- 1)"
    and "\<forall>k. k \<notin> ss \<longrightarrow> dget preds k = dget latest k"
    and "\<forall>k \<in> ss. \<exists>q. dget preds k = Some q \<and> cl_user_completion_ns q = None"
  shows "node_submission_error n now cs seen index preds = None \<longleftrightarrow>
    (\<forall>c \<in> set cs. acceptable n now latest c \<and> cl_request_id c \<notin> set seen \<and> cl_session_id c \<notin> ss) \<and>
    distinct (map cl_request_id cs) \<and> distinct (map cl_session_id cs)"
  using assms
proof (induction cs arbitrary: ss seen index preds)
  case Nil
  then show ?case by simp
next
  case (Cons c cs)
  let ?sid = "cl_session_id c"
  let ?index = "dput ?sid (cl_call_index c) index" and ?preds = "dput ?sid c preds"
  show ?case
  proof (cases "acceptable n now latest c \<and> cl_request_id c \<notin> set seen \<and> ?sid \<notin> ss")
    case False
    have "node_submission_error n now (c # cs) seen index preds \<noteq> None"
    proof
      assume "node_submission_error n now (c # cs) seen index preds = None"
      note N = this [unfolded node_submission_error.simps Let_def or_else_eq_None first_error_None predecessor_error_None]
      from N Cons.prems(3) have ss: "?sid \<notin> ss" by fastforce
      with N Cons.prems(1,2) False show False
        by (auto simp: acceptable_def split: option.splits)
    qed
    with False show ?thesis by auto
  next
    case True
    then have "validate_call c = None" by (simp add: acceptable_def)
    then have v: "cl_user_completion_ns c = None"
      unfolding validate_call_def first_error_None by (simp add: pristine_call_def)
    have step: "node_submission_error n now (c # cs) seen index preds =
        node_submission_error n now cs (cl_request_id c # seen) ?index ?preds"
      using True Cons.prems(1,2)
      by (auto simp: acceptable_def or_else_def predecessor_error_def split: option.splits)
    have tail: "node_submission_error n now cs (cl_request_id c # seen) ?index ?preds = None \<longleftrightarrow>
      (\<forall>d \<in> set cs. acceptable n now latest d \<and> cl_request_id d \<notin> set (cl_request_id c # seen) \<and>
         cl_session_id d \<notin> insert ?sid ss) \<and> distinct (map cl_request_id cs) \<and> distinct (map cl_session_id cs)"
    proof (rule Cons.IH)
      show "\<forall>k. k \<notin> insert ?sid ss \<longrightarrow> dget_or ?index k (- 1) = dget_or (nd_last_submitted_call_index n) k (- 1)"
        using Cons.prems(1) by (simp add: dget_or_def)
      show "\<forall>k. k \<notin> insert ?sid ss \<longrightarrow> dget ?preds k = dget latest k" using Cons.prems(2) by simp
      show "\<forall>k \<in> insert ?sid ss. \<exists>q. dget ?preds k = Some q \<and> cl_user_completion_ns q = None"
        using Cons.prems(3) v by simp
    qed
    show ?thesis unfolding step tail using True by (auto simp: image_iff)
  qed
qed

text \<open>C17: \<open>submit_many\<close> accepts a batch exactly when every call is valid, fits the node, is released now,
  is new, is the next of its session, follows a predecessor that announced it and that the user has
  seen complete, and no two calls share an id or a session; a rejected batch changes nothing.\<close>
theorem node_submission_exact:
  "(submission_check n now cs = None \<longleftrightarrow>
     (\<exists>latest. last_submitted_calls n (nd_last_submitted_request_id n) = Inr latest \<and>
        (\<forall>c \<in> set cs. acceptable n now latest c)) \<and>
     distinct (map cl_request_id cs) \<and> distinct (map cl_session_id cs)) \<and>
   (\<forall>e. submission_check n now cs = Some e \<longrightarrow> node_submit_many cs now n = Some (Inl e, n))"
proof -
  have "node_submission_error n now cs [] (nd_last_submitted_call_index n) latest = None \<longleftrightarrow>
    (\<forall>c \<in> set cs. acceptable n now latest c) \<and> distinct (map cl_request_id cs) \<and> distinct (map cl_session_id cs)"
    for latest
    using submission_error_iff [of "{}" "nd_last_submitted_call_index n" n latest latest now cs "[]"] by simp
  then show ?thesis
    by (auto simp: submission_check_def node_submit_many_def split: sum.split)
qed

theorem node_submission_exact_witness:
  "submission_check start_node 0 [small_call, small_call] \<noteq> None \<and>
   (\<exists>e. node_submit_many [small_call, small_call] 0 start_node = Some (Inl e, start_node))"
  using node_submission_exact [of start_node 0 "[small_call, small_call]"] by auto

end
