(* ===== verification/Oracle_Node.thy ===== *)
theory Oracle_Node
  imports Tiered_Node PD_HBM
begin

text \<open>
  \<^verbatim>\<open>serving/core/gpu_pd_oracle_node.py\<close>: \<^verbatim>\<open>StrictInfiniteHBMNode\<close>, the node without capacity pressure that
  serves as the upper bound of the comparison.  Completed KV stays on D; a call that reuses it pays a copy
  from D to P before it runs.  The node composes the HBM reservations, with a capacity of \<open>10 ^ 30\<close> bytes,
  the transfer resources and the serving pool, over one calendar, which is a field of the node here.  The
  admission that a call holds is a value, as in the code (a frozen dataclass compared by its fields).
\<close>

section \<open>Calls, placements and jobs\<close>

definition INFINITE_HBM_PROOF_BYTES_PER_RANK :: int where
  "INFINITE_HBM_PROOF_BYTES_PER_RANK = 10 ^ 30"

datatype oracle_call_state = ORACLE_PENDING | ORACLE_PREPARING | ORACLE_EXECUTING
  | ORACLE_USER_COMPLETE | ORACLE_INTERNAL_COMPLETE

record oracle_call =
  oc_request_id :: int
  oc_session_id :: string
  oc_call_index :: int
  oc_release_ns :: int
  oc_input_tokens :: int
  oc_output_tokens :: int
  oc_prefix_reuse_tokens :: int
  oc_has_successor :: bool
  oc_state :: oracle_call_state
  oc_operational_hit_tokens :: "int option"
  oc_admission_id :: "int option"
  oc_prepare_start_ns :: "int option"
  oc_prepare_completion_ns :: "int option"
  oc_pool_request :: "int option"
  oc_user_completion_ns :: "int option"
  oc_internal_completion_ns :: "int option"

definition new_oracle_call ::
  "int \<Rightarrow> string \<Rightarrow> int \<Rightarrow> int \<Rightarrow> int \<Rightarrow> int \<Rightarrow> int \<Rightarrow> bool \<Rightarrow> oracle_call" where
  "new_oracle_call request_id session_id call_index release_ns input_tokens output_tokens reuse
     has_successor =
     \<lparr>oc_request_id = request_id, oc_session_id = session_id, oc_call_index = call_index,
      oc_release_ns = release_ns, oc_input_tokens = input_tokens, oc_output_tokens = output_tokens,
      oc_prefix_reuse_tokens = reuse, oc_has_successor = has_successor, oc_state = ORACLE_PENDING,
      oc_operational_hit_tokens = None, oc_admission_id = None, oc_prepare_start_ns = None,
      oc_prepare_completion_ns = None, oc_pool_request = None, oc_user_completion_ns = None,
      oc_internal_completion_ns = None\<rparr>"

definition pristine_oracle_call :: "oracle_call \<Rightarrow> bool" where
  "pristine_oracle_call c \<longleftrightarrow>
     oc_state c = ORACLE_PENDING \<and> oc_operational_hit_tokens c = None \<and> oc_admission_id c = None \<and>
     oc_prepare_start_ns c = None \<and> oc_prepare_completion_ns c = None \<and> oc_pool_request c = None \<and>
     oc_user_completion_ns c = None \<and> oc_internal_completion_ns c = None"

definition validate_oracle_call :: "oracle_call \<Rightarrow> exn option" where
  "validate_oracle_call c = first_error
     [(oc_request_id c < 0 \<or> oc_call_index c < 0 \<or> oc_release_ns c < 0,
        ValueError ''request_id/call_index/release_ns must be non-negative''),
      (oc_input_tokens c \<le> 0 \<or> oc_output_tokens c \<le> 0,
        ValueError ''input/output tokens must be positive''),
      (\<not> (0 \<le> oc_prefix_reuse_tokens c \<and> oc_prefix_reuse_tokens c \<le> oc_input_tokens c),
        ValueError ''prefix_reuse_tokens must be in 0..input_tokens''),
      (oc_input_tokens c + oc_output_tokens c - 1 > 1010000,
        ValueError ''request output would exceed 1,010,000-token contract''),
      (oc_session_id c = [], ValueError ''session_id must be a non-empty string''),
      (oc_call_index c = 0 \<and> oc_prefix_reuse_tokens c \<noteq> 0,
        ValueError ''first call cannot reuse an earlier prefix''),
      (\<not> pristine_oracle_call c, ValueError ''submitted oracle call must be pristine'')]"

record placement =
  pm_session_id :: string
  pm_last_call_index :: int
  pm_materialized_tokens :: int
  pm_d_resident :: bool
  pm_active_request_id :: "int option"
  pm_ended :: bool

definition new_placement :: "string \<Rightarrow> placement" where
  "new_placement sid = \<lparr>pm_session_id = sid, pm_last_call_index = - 1, pm_materialized_tokens = 0,
     pm_d_resident = False, pm_active_request_id = None, pm_ended = False\<rparr>"

record oracle_job =
  oj_job_id :: int
  oj_request_id :: int
  oj_hit_tokens :: int
  oj_stage :: tier_stage
  oj_start_ns :: int
  oj_completion_ns :: int

record oracle_metrics =
  om_submitted_calls :: int
  om_admitted_calls :: int
  om_user_completed_calls :: int
  om_internal_completed_calls :: int
  om_d_to_p_jobs :: int
  om_d_to_p_tokens :: int
  om_d_to_p_bytes_per_rank :: int
  om_d_to_p_aggregate_bytes :: int
  om_d_to_p_service_ns :: int
  om_d_to_p_queue_delay_ns :: int
  om_context_shrink_calls :: int
  om_full_prefix_cap_calls :: int
  om_max_pending_calls :: int

definition new_oracle_metrics :: oracle_metrics where
  "new_oracle_metrics =
     \<lparr>om_submitted_calls = 0, om_admitted_calls = 0, om_user_completed_calls = 0,
      om_internal_completed_calls = 0, om_d_to_p_jobs = 0, om_d_to_p_tokens = 0,
      om_d_to_p_bytes_per_rank = 0, om_d_to_p_aggregate_bytes = 0, om_d_to_p_service_ns = 0,
      om_d_to_p_queue_delay_ns = 0, om_context_shrink_calls = 0, om_full_prefix_cap_calls = 0,
      om_max_pending_calls = 0\<rparr>"

section \<open>The node\<close>

record oracle_node =
  og_hardware :: hardware
  og_node_id :: int
  og_validate_every_event :: bool
  og_calendar :: calendar
  og_resources :: tier_resources
  og_hbm :: hbm
  og_pool :: pool
  og_calls :: "(int, oracle_call) dict"
  og_sessions :: "(string, placement) dict"
  og_metrics :: oracle_metrics
  og_prepare_history :: "oracle_job list"
  og_pending_call_ids :: "int list"
  og_ready_call_ids :: "int list"
  og_prepare_jobs :: "(int, oracle_job) dict"
  og_prepare_completion_heap :: "(int \<times> int \<times> int) list"
  og_user_completed_ids :: "int list"
  og_admission_by_request :: "(int, admission) dict"
  og_user_completion_seen :: "int list"
  og_handoff_completion_seen :: "int list"
  og_last_submitted_call_index :: "(string, int) dict"
  og_last_submitted_request_id :: "(string, int) dict"
  og_next_prepare_job_id :: int
  og_current_ns :: int

definition new_oracle ::
  "hardware \<Rightarrow> provider \<Rightarrow> int \<Rightarrow> calendar option \<Rightarrow> int \<Rightarrow> int \<Rightarrow> int option \<Rightarrow> int option \<Rightarrow> int
     \<Rightarrow> bool \<Rightarrow> bool \<Rightarrow> exn + oracle_node" where
  "new_oracle hw pv node_id cal budget seqs p_seqs d_seqs chunk validate retain =
     (let calendar = (case cal of None \<Rightarrow> new_calendar True | Some c \<Rightarrow> c) in
      ebind (new_tier_resources hw node_id) (\<lambda>resources.
      ebind (new_hbm hw node_id (Some INFINITE_HBM_PROOF_BYTES_PER_RANK)
               (Some INFINITE_HBM_PROOF_BYTES_PER_RANK)) (\<lambda>hbm.
      ebind (new_pool hw pv node_id (Some calendar) budget seqs p_seqs d_seqs chunk ''layerwise''
               validate retain) (\<lambda>pool.
      Inr \<lparr>og_hardware = hw, og_node_id = node_id, og_validate_every_event = validate,
           og_calendar = calendar, og_resources = resources, og_hbm = hbm, og_pool = pool,
           og_calls = [], og_sessions = [], og_metrics = new_oracle_metrics, og_prepare_history = [],
           og_pending_call_ids = [], og_ready_call_ids = [], og_prepare_jobs = [],
           og_prepare_completion_heap = [], og_user_completed_ids = [],
           og_admission_by_request = [], og_user_completion_seen = [],
           og_handoff_completion_seen = [], og_last_submitted_call_index = [],
           og_last_submitted_request_id = [], og_next_prepare_job_id = 1, og_current_ns = 0\<rparr>))))"

text \<open>Running an operation of a component.\<close>

definition at_hbm :: "(hbm \<Rightarrow> ('a, hbm) outcome) \<Rightarrow> oracle_node \<Rightarrow> ('a, oracle_node) outcome" where
  "at_hbm f n = (case f (og_hbm n) of (r, h) \<Rightarrow> (r, n\<lparr>og_hbm := h\<rparr>))"

definition at_pool :: "(pool \<Rightarrow> ('a, pool) outcome) \<Rightarrow> oracle_node \<Rightarrow> ('a, oracle_node) outcome" where
  "at_pool f n = (case f ((og_pool n)\<lparr>pl_calendar := og_calendar n\<rparr>) of
     (r, p) \<Rightarrow> (r, n\<lparr>og_pool := p, og_calendar := pl_calendar p\<rparr>))"

definition oracle_metric :: "(oracle_metrics \<Rightarrow> oracle_metrics) \<Rightarrow> oracle_node \<Rightarrow> oracle_node" where
  "oracle_metric f n = n\<lparr>og_metrics := f (og_metrics n)\<rparr>"

definition upd_oracle_call :: "int \<Rightarrow> (oracle_call \<Rightarrow> oracle_call) \<Rightarrow> oracle_node \<Rightarrow> oracle_node" where
  "upd_oracle_call i f n = (case dget (og_calls n) i of
     None \<Rightarrow> n | Some c \<Rightarrow> n\<lparr>og_calls := dput i (f c) (og_calls n)\<rparr>)"

definition upd_placement :: "string \<Rightarrow> (placement \<Rightarrow> placement) \<Rightarrow> oracle_node \<Rightarrow> oracle_node" where
  "upd_placement sid f n = (case dget (og_sessions n) sid of
     None \<Rightarrow> n | Some p \<Rightarrow> n\<lparr>og_sessions := dput sid (f p) (og_sessions n)\<rparr>)"

section \<open>Admission\<close>

definition oracle_predecessor_error :: "oracle_call \<Rightarrow> oracle_call option \<Rightarrow> exn option" where
  "oracle_predecessor_error c predecessor =
     (case predecessor of None \<Rightarrow> None | Some q \<Rightarrow>
      if \<not> oc_has_successor q
      then Some (ValueError (''cannot submit a call after a terminal predecessor: session=''
             @ py_repr (oc_session_id c) @ '', predecessor='' @ show_int (oc_request_id q)))
      else case oc_user_completion_ns q of
        None \<Rightarrow> Some (ValueError ''successor cannot be submitted before its predecessor is user-complete'')
      | Some t \<Rightarrow> if oc_release_ns c < t
          then Some (ValueError ''successor release cannot precede predecessor user completion'')
          else None)"

fun oracle_submission_error ::
  "oracle_node \<Rightarrow> int \<Rightarrow> oracle_call list \<Rightarrow> int list \<Rightarrow> (string, int) dict \<Rightarrow> (string, oracle_call) dict
     \<Rightarrow> exn option" where
  "oracle_submission_error n now [] seen proposed_last proposed_predecessors = None"
| "oracle_submission_error n now (c # cs) seen proposed_last proposed_predecessors =
     (let prior_index = dget_or proposed_last (oc_session_id c) (- 1) in
      or_else (validate_oracle_call c)
      (or_else (first_error
         [(oc_release_ns c \<noteq> now, ValueError ''oracle calls must be submitted at logical release''),
          (dget (og_calls n) (oc_request_id c) \<noteq> None \<or> oc_request_id c \<in> set seen,
            ValueError (''duplicate request_id='' @ show_int (oc_request_id c))),
          (oc_call_index c \<noteq> prior_index + 1,
            ValueError (''session calls must be submitted in contiguous order: session=''
              @ py_repr (oc_session_id c) @ '', got='' @ show_int (oc_call_index c)
              @ '', expected='' @ show_int (prior_index + 1)))])
      (or_else (oracle_predecessor_error c (dget proposed_predecessors (oc_session_id c)))
      (or_else (case dget (og_sessions n) (oc_session_id c) of None \<Rightarrow> None
                | Some p \<Rightarrow> if pm_ended p
                    then Some (ValueError (''session '' @ py_repr (oc_session_id c) @ '' already ended''))
                    else None)
        (oracle_submission_error n now cs (oc_request_id c # seen)
          (dput (oc_session_id c) (oc_call_index c) proposed_last)
          (dput (oc_session_id c) c proposed_predecessors))))))"

fun last_oracle_calls :: "oracle_node \<Rightarrow> (string, int) dict \<Rightarrow> exn + (string, oracle_call) dict" where
  "last_oracle_calls n [] = Inr []"
| "last_oracle_calls n ((sid, i) # d) =
     ebind (item (og_calls n) i) (\<lambda>c. ebind (last_oracle_calls n d) (\<lambda>cs. Inr ((sid, c) # cs)))"

definition oracle_submission_check :: "oracle_node \<Rightarrow> int \<Rightarrow> oracle_call list \<Rightarrow> exn option" where
  "oracle_submission_check n now cs =
     (case last_oracle_calls n (og_last_submitted_request_id n) of
        Inl e \<Rightarrow> Some e
      | Inr predecessors \<Rightarrow>
          oracle_submission_error n now cs [] (og_last_submitted_call_index n) predecessors)"

definition register_oracle_call :: "oracle_call \<Rightarrow> oracle_node \<Rightarrow> oracle_node" where
  "register_oracle_call c n =
     (let sid = oc_session_id c;
          n = n\<lparr>og_calls := dput (oc_request_id c) c (og_calls n)\<rparr>;
          n = (if dget (og_sessions n) sid = None
               then n\<lparr>og_sessions := dput sid (new_placement sid) (og_sessions n)\<rparr> else n);
          n = n\<lparr>og_last_submitted_call_index :=
                 dput sid (oc_call_index c) (og_last_submitted_call_index n),
                og_last_submitted_request_id :=
                 dput sid (oc_request_id c) (og_last_submitted_request_id n),
                og_pending_call_ids := og_pending_call_ids n @ [oc_request_id c]\<rparr>
      in oracle_metric (\<lambda>m. m\<lparr>om_submitted_calls := om_submitted_calls m + 1\<rparr>) n)"

definition operational_hit :: "oracle_call \<Rightarrow> placement \<Rightarrow> oracle_node \<Rightarrow> int \<times> oracle_node" where
  "operational_hit c p n =
     (if oc_call_index c = 0 \<or> \<not> pm_d_resident p then (0, n)
      else (min (min (oc_prefix_reuse_tokens c) (pm_materialized_tokens p)) (oc_input_tokens c - 1),
        oracle_metric (\<lambda>m. m\<lparr>
          om_full_prefix_cap_calls := om_full_prefix_cap_calls m
            + (if oc_prefix_reuse_tokens c = oc_input_tokens c then 1 else 0),
          om_context_shrink_calls := om_context_shrink_calls m
            + (if oc_input_tokens c < pm_materialized_tokens p then 1 else 0)\<rparr>) n))"

definition reserve_prepare :: "tier_stage \<Rightarrow> int \<Rightarrow> int \<Rightarrow> oracle_node \<Rightarrow> (int \<times> int, oracle_node) outcome" where
  "reserve_prepare stage now job_id n =
     (case stage_reserve stage (og_calendar n) now job_id
             (''oracle-prepare-node-'' @ show_int (og_node_id n)) of
        (r, cal) \<Rightarrow> (r, n\<lparr>og_calendar := cal\<rparr>))"

definition queue_prepare :: "oracle_call \<Rightarrow> int \<Rightarrow> int \<Rightarrow> oracle_node \<Rightarrow> (unit, oracle_node) outcome" where
  "queue_prepare c hit_tokens now n =
     andthen (lift_err (peer_stage (og_resources n) hit_tokens ''d_to_p'' False) n) (\<lambda>stage n.
     let job_id = og_next_prepare_job_id n;
         n = n\<lparr>og_next_prepare_job_id := job_id + 1\<rparr> in
     andthen (reserve_prepare stage now job_id n) (\<lambda>(start_ns, completion_ns) n.
     let job = \<lparr>oj_job_id = job_id, oj_request_id = oc_request_id c, oj_hit_tokens = hit_tokens,
           oj_stage = stage, oj_start_ns = start_ns, oj_completion_ns = completion_ns\<rparr>;
         n = upd_oracle_call (oc_request_id c) (\<lambda>c. c\<lparr>oc_state := ORACLE_PREPARING,
               oc_prepare_start_ns := Some start_ns,
               oc_prepare_completion_ns := Some completion_ns\<rparr>) n;
         n = n\<lparr>og_prepare_history := og_prepare_history n @ [job],
               og_prepare_jobs := dput job_id job (og_prepare_jobs n),
               og_prepare_completion_heap := heappush (completion_ns, oc_request_id c, job_id)
                 (og_prepare_completion_heap n)\<rparr>
     in (Inr (), oracle_metric (\<lambda>m. m\<lparr>
           om_d_to_p_jobs := om_d_to_p_jobs m + 1,
           om_d_to_p_tokens := om_d_to_p_tokens m + hit_tokens,
           om_d_to_p_bytes_per_rank := om_d_to_p_bytes_per_rank m + ts_bytes_per_rank stage,
           om_d_to_p_aggregate_bytes := om_d_to_p_aggregate_bytes m + ts_aggregate_bytes stage,
           om_d_to_p_service_ns := om_d_to_p_service_ns m + ts_latency_ns stage,
           om_d_to_p_queue_delay_ns := om_d_to_p_queue_delay_ns m + (start_ns - now)\<rparr>) n)))"

text \<open>The admission of one call whose session is free.\<close>

definition oracle_admit :: "oracle_call \<Rightarrow> placement \<Rightarrow> int \<Rightarrow> int \<Rightarrow> oracle_node \<Rightarrow> (unit, oracle_node) outcome" where
  "oracle_admit c p request_id now n =
     (case operational_hit c p n of (hit_tokens, n) \<Rightarrow>
      andthen (at_hbm (\<lambda>h. try_admit h (oc_session_id c) (oc_input_tokens c) (oc_output_tokens c)
          (oc_output_tokens c > 1 \<or> oc_has_successor c)) n) (\<lambda>admission n.
      case admission of
        None \<Rightarrow> (Inl (RuntimeError
          ''strict infinite-HBM oracle experienced a capacity deferral''), n)
      | Some a \<Rightarrow>
          let n = n\<lparr>og_admission_by_request := dput request_id a (og_admission_by_request n)\<rparr>;
              n = upd_placement (oc_session_id c) (\<lambda>p. p\<lparr>pm_active_request_id := Some request_id\<rparr>) n;
              n = upd_oracle_call request_id (\<lambda>c. c\<lparr>oc_operational_hit_tokens := Some hit_tokens,
                    oc_admission_id := Some (ad_admission_id a)\<rparr>) n;
              n = oracle_metric (\<lambda>m. m\<lparr>om_admitted_calls := om_admitted_calls m + 1\<rparr>) n
          in if hit_tokens \<noteq> 0 then queue_prepare c hit_tokens now n
             else andthen (at_hbm (\<lambda>h. release_d_source h a) n) (\<lambda>_ n.
               (Inr (), n\<lparr>og_ready_call_ids := og_ready_call_ids n @ [request_id]\<rparr>))))"

text \<open>Here an exception loses the calls deferred so far, and the one at hand.\<close>

fun oracle_admit_loop :: "int \<Rightarrow> int list \<Rightarrow> int list \<Rightarrow> oracle_node \<Rightarrow> (unit, oracle_node) outcome" where
  "oracle_admit_loop now deferred [] n = (Inr (), n\<lparr>og_pending_call_ids := deferred\<rparr>)"
| "oracle_admit_loop now deferred (i # is) n =
     andthen (lift_err (item (og_calls n) i) (n\<lparr>og_pending_call_ids := is\<rparr>)) (\<lambda>c n.
     andthen (lift_err (item (og_sessions n) (oc_session_id c)) n) (\<lambda>p n.
       if pm_active_request_id p \<noteq> None then oracle_admit_loop now (deferred @ [i]) is n
       else if oc_call_index c \<noteq> pm_last_call_index p + 1
       then (Inl (RuntimeError ''oracle session lifecycle skipped a call''), n)
       else andthen (oracle_admit c p i now n) (\<lambda>_ n. oracle_admit_loop now deferred is n)))"

definition oracle_admit_pending :: "int \<Rightarrow> oracle_node \<Rightarrow> (unit, oracle_node) outcome" where
  "oracle_admit_pending now n = oracle_admit_loop now [] (og_pending_call_ids n) n"

section \<open>Execution\<close>

definition oracle_pool_request :: "oracle_call \<Rightarrow> oracle_node \<Rightarrow> (request, oracle_node) outcome" where
  "oracle_pool_request c n =
     (case oc_operational_hit_tokens c of
        None \<Rightarrow> (Inl (RuntimeError ''oracle call lacks resolved prefix hit''), n)
      | Some hit_tokens \<Rightarrow>
          (Inr (new_request (oc_request_id c) (oc_session_id c) (oc_release_ns c) (oc_input_tokens c)
             (oc_output_tokens c) hit_tokens hit_tokens (oc_has_successor c) []),
           upd_oracle_call (oc_request_id c)
             (\<lambda>c. c\<lparr>oc_pool_request := Some (oc_request_id c), oc_state := ORACLE_EXECUTING\<rparr>) n))"

fun oracle_pool_requests :: "int list \<Rightarrow> oracle_node \<Rightarrow> (request list, oracle_node) outcome" where
  "oracle_pool_requests [] n = (Inr [], n)"
| "oracle_pool_requests (i # is) n =
     andthen (lift_err (item (og_calls n) i) n) (\<lambda>c n.
     andthen (oracle_pool_request c n) (\<lambda>r n.
     andthen (oracle_pool_requests is n) (\<lambda>rs n. (Inr (r # rs), n))))"

definition oracle_submit_ready :: "int \<Rightarrow> oracle_node \<Rightarrow> (bool, oracle_node) outcome" where
  "oracle_submit_ready now n =
     (let ids = og_ready_call_ids n in
      if ids = [] then (Inr False, n)
      else andthen (oracle_pool_requests ids (n\<lparr>og_ready_call_ids := []\<rparr>)) (\<lambda>rs n.
           andthen (at_pool (submit_many rs now) n) (\<lambda>_ n. (Inr True, n))))"

text \<open>The request object of a call: the entry of the pool's table with the id the call keeps.\<close>

definition request_of :: "oracle_node \<Rightarrow> oracle_call \<Rightarrow> request option" where
  "request_of n c = Option.bind (oc_pool_request c) (dget (pl_requests (og_pool n)))"

definition oracle_finish :: "int \<Rightarrow> int \<Rightarrow> oracle_node \<Rightarrow> (unit, oracle_node) outcome" where
  "oracle_finish request_id now n =
     andthen (lift_err (item (og_calls n) request_id) n) (\<lambda>c n.
       if oc_state c = ORACLE_INTERNAL_COMPLETE then (Inr (), n)
       else if oc_user_completion_ns c = None
       then (Inl (RuntimeError ''oracle internal completion precedes user completion''), n)
       else
         andthen (lift_err (item (og_admission_by_request n) (oc_request_id c)) n) (\<lambda>a n.
         let n = n\<lparr>og_admission_by_request := dpop (oc_request_id c) (og_admission_by_request n)\<rparr> in
         andthen (at_hbm (\<lambda>h. finish h a (oc_has_successor c)) n) (\<lambda>_ n.
         andthen (lift_err (item (og_sessions n) (oc_session_id c)) n) (\<lambda>p n.
           if pm_active_request_id p \<noteq> Some (oc_request_id c)
           then (Inl (RuntimeError ''oracle session active-request identity mismatch''), n)
           else case request_of n c of
             None \<Rightarrow> (Inl (AssertionError []), n)
           | Some r \<Rightarrow>
             let n = upd_placement (oc_session_id c) (\<lambda>p. p\<lparr>pm_last_call_index := oc_call_index c,
                   pm_materialized_tokens := final_materialized_kv_tokens r,
                   pm_d_resident := oc_has_successor c, pm_active_request_id := None,
                   pm_ended := \<not> oc_has_successor c\<rparr>) n;
                 n = upd_oracle_call request_id (\<lambda>c. c\<lparr>oc_internal_completion_ns := Some now,
                   oc_state := ORACLE_INTERNAL_COMPLETE\<rparr>) n
             in (Inr (), oracle_metric (\<lambda>m. m\<lparr>om_internal_completed_calls :=
                   om_internal_completed_calls m + 1\<rparr>) n)))))"

definition oracle_handoff :: "int \<Rightarrow> int \<Rightarrow> oracle_node \<Rightarrow> (unit, oracle_node) outcome" where
  "oracle_handoff now i n =
     (if i \<in> set (og_handoff_completion_seen n)
      then (Inl (RuntimeError ''duplicate oracle handoff notification''), n)
      else
        let n = n\<lparr>og_handoff_completion_seen := set_add i (og_handoff_completion_seen n)\<rparr> in
        andthen (lift_err (item (og_admission_by_request n) i) n) (\<lambda>a n.
        andthen (at_hbm (\<lambda>h. release_p h a) n) (\<lambda>_ n.
        andthen (lift_err (item (og_calls n) i) n) (\<lambda>_ n.
          if i \<in> set (og_user_completion_seen n) then oracle_finish i now n else (Inr (), n)))))"

definition oracle_completion :: "int \<Rightarrow> int \<Rightarrow> oracle_node \<Rightarrow> (unit, oracle_node) outcome" where
  "oracle_completion now i n =
     (if i \<in> set (og_user_completion_seen n)
      then (Inl (RuntimeError ''duplicate oracle user completion''), n)
      else
        let n = n\<lparr>og_user_completion_seen := set_add i (og_user_completion_seen n)\<rparr> in
        andthen (lift_err (item (og_calls n) i) n) (\<lambda>_ n.
        andthen (lift_err (get_request (og_pool n) i) n) (\<lambda>r n.
          let n = upd_oracle_call i (\<lambda>c. c\<lparr>oc_user_completion_ns := rq_completion_ns r,
                oc_state := ORACLE_USER_COMPLETE\<rparr>) n;
              n = n\<lparr>og_user_completed_ids := og_user_completed_ids n @ [i]\<rparr>;
              n = oracle_metric (\<lambda>m. m\<lparr>om_user_completed_calls := om_user_completed_calls m + 1\<rparr>) n
          in if rq_handoff_done r \<or> \<not> (rq_output_tokens r = 1 \<and> rq_has_successor r)
             then oracle_finish i now n else (Inr (), n))))"

definition oracle_pool_notifications :: "int \<Rightarrow> oracle_node \<Rightarrow> (unit, oracle_node) outcome" where
  "oracle_pool_notifications now n =
     andthen (at_pool pop_handoff_completed n) (\<lambda>ids n.
     andthen (each (oracle_handoff now) ids n) (\<lambda>_ n.
     andthen (at_pool pop_completed n) (\<lambda>ids n.
       each (oracle_completion now) ids n)))"

text \<open>The copies that complete now: a call whose source was copied releases it and is ready.\<close>

definition complete_oracle_prepare :: "int \<Rightarrow> int \<Rightarrow> int \<Rightarrow> oracle_node \<Rightarrow> (unit, oracle_node) outcome" where
  "complete_oracle_prepare now request_id job_id n =
     andthen (lift_err (item (og_prepare_jobs n) job_id) n) (\<lambda>_ n.
     let n = n\<lparr>og_prepare_jobs := dpop job_id (og_prepare_jobs n)\<rparr> in
     andthen (lift_err (item (og_calls n) request_id) n) (\<lambda>c n.
       if oc_state c \<noteq> ORACLE_PREPARING \<or> oc_prepare_completion_ns c \<noteq> Some now
       then (Inl (RuntimeError ''stale oracle prepare completion''), n)
       else
         andthen (lift_err (item (og_admission_by_request n) request_id) n) (\<lambda>a n.
         andthen (at_hbm (\<lambda>h. release_d_source h a) n) (\<lambda>_ n.
           (Inr (), n\<lparr>og_ready_call_ids := og_ready_call_ids n @ [request_id]\<rparr>)))))"

fun oracle_prepare_loop :: "int \<Rightarrow> (int \<times> int \<times> int) list \<Rightarrow> oracle_node \<Rightarrow> (unit, oracle_node) outcome" where
  "oracle_prepare_loop now [] n = (Inr (), n)"
| "oracle_prepare_loop now ((t, request_id, job_id) # h) n =
     (if t \<noteq> now then (Inr (), n)
      else andthen (complete_oracle_prepare now request_id job_id (n\<lparr>og_prepare_completion_heap := h\<rparr>))
        (\<lambda>_ n. oracle_prepare_loop now h n))"

definition oracle_prepare_completions :: "int \<Rightarrow> oracle_node \<Rightarrow> (unit, oracle_node) outcome" where
  "oracle_prepare_completions now n = oracle_prepare_loop now (og_prepare_completion_heap n) n"

section \<open>The self check\<close>

definition active_oracle_ids :: "oracle_node \<Rightarrow> int list" where
  "active_oracle_ids n = concat (map (\<lambda>p. case pm_active_request_id p of None \<Rightarrow> [] | Some i \<Rightarrow> [i])
     (dvalues (og_sessions n)))"

definition oracle_call_check :: "oracle_node \<Rightarrow> oracle_call \<Rightarrow> exn option" where
  "oracle_call_check n c =
     (if dget (og_sessions n) (oc_session_id c) = None then Some KeyError
      else let active = (oc_request_id c \<in> set (active_oracle_ids n)) in first_error
        [(oc_state c = ORACLE_INTERNAL_COMPLETE \<and> (oc_internal_completion_ns c = None \<or> active),
           AssertionError ''invalid internally completed call: ''),
         (oc_state c \<noteq> ORACLE_INTERNAL_COMPLETE \<and> oc_state c \<noteq> ORACLE_PENDING \<and> \<not> active,
           AssertionError ''active oracle call lacks session owner: ''),
         (oc_user_completion_ns c \<noteq> None \<and>
            (case request_of n c of None \<Rightarrow> True | Some r \<Rightarrow> oc_user_completion_ns c \<noteq> rq_completion_ns r),
           AssertionError ''oracle user completion mismatch: '')])"

definition placement_check :: "placement \<Rightarrow> exn option" where
  "placement_check p = first_error
     [(pm_ended p \<and> (pm_active_request_id p \<noteq> None \<or> pm_d_resident p),
        AssertionError ''ended oracle session retains state: '')]"

definition oracle_check :: "oracle_node \<Rightarrow> exn option" where
  "oracle_check n =
     or_else (hbm_check (og_hbm n))
     (or_else (pool_check (og_pool n))
     (or_else (first_error [(hm_capacity_deferrals (hb_metrics (og_hbm n)) \<noteq> 0,
          AssertionError ''strict oracle must not have HBM capacity deferrals'')])
     (or_else (find_error (oracle_call_check n) (dvalues (og_calls n)))
     (or_else (find_error placement_check (dvalues (og_sessions n)))
       (first_error [(om_user_completed_calls (og_metrics n) > om_submitted_calls (og_metrics n),
          AssertionError ''oracle completions exceed submissions'')])))))"

section \<open>Time\<close>

definition oracle_flush :: "int \<Rightarrow> oracle_node \<Rightarrow> (unit, oracle_node) outcome" where
  "oracle_flush now n =
     (if now \<noteq> og_current_ns n \<or> now \<noteq> pl_current_ns (og_pool n)
      then (Inl (ValueError ''flush_scheduling must run at the current node timestamp''), n)
      else
        andthen (oracle_admit_pending now n) (\<lambda>_ n.
        andthen (oracle_submit_ready now n) (\<lambda>submitted n.
          if submitted then (Inr (), n) else at_pool (flush_scheduling now) n)))"

definition oracle_next_event :: "oracle_node \<Rightarrow> int option \<times> oracle_node" where
  "oracle_next_event n =
     (case next_event_ns (og_pool n) of (pool_event, p) \<Rightarrow>
      let values = (case pool_event of None \<Rightarrow> [] | Some t \<Rightarrow> [t]) @
            (case heappeek (og_prepare_completion_heap n) of None \<Rightarrow> [] | Some (t, _) \<Rightarrow> [t])
      in (if values = [] then None else Some (min_list1 values), n\<lparr>og_pool := p\<rparr>))"

definition oracle_event :: "int \<Rightarrow> bool \<Rightarrow> oracle_node \<Rightarrow> (unit, oracle_node) outcome" where
  "oracle_event event_ns flush n =
     andthen (at_pool (advance event_ns True) n) (\<lambda>_ n.
     andthen (oracle_prepare_completions event_ns n) (\<lambda>_ n.
     andthen (oracle_pool_notifications event_ns n) (\<lambda>_ n.
     let n = n\<lparr>og_current_ns := event_ns\<rparr> in
       if flush then oracle_flush event_ns n else (Inr (), n))))"

partial_function (option) oracle_advance_loop ::
  "int \<Rightarrow> bool \<Rightarrow> oracle_node \<Rightarrow> (unit, oracle_node) outcome option" where
  "oracle_advance_loop now defer_schedule n =
     (case oracle_next_event n of
        (None, n) \<Rightarrow> Some (Inr (), n)
      | (Some event_ns, n) \<Rightarrow>
          if event_ns > now then Some (Inr (), n)
          else (case oracle_event event_ns (\<not> (defer_schedule \<and> event_ns = now)) n of
              (Inl e, n) \<Rightarrow> Some (Inl e, n)
            | (Inr _, n) \<Rightarrow> oracle_advance_loop now defer_schedule n))"

definition oracle_advance :: "int \<Rightarrow> bool \<Rightarrow> oracle_node \<Rightarrow> (unit, oracle_node) outcome option" where
  "oracle_advance now defer_schedule n =
     (if now < og_current_ns n
      then Some (Inl (ValueError (''time cannot move backwards: current='' @ show_int (og_current_ns n)
             @ '', requested='' @ show_int now)), n)
      else and_then (oracle_advance_loop now defer_schedule n) (\<lambda>_ n.
        Some (
          andthen (at_pool (advance now True) n) (\<lambda>_ n.
          let n = n\<lparr>og_current_ns := now\<rparr> in
          andthen (if defer_schedule then (Inr (), n) else oracle_flush now n) (\<lambda>_ n.
            if og_validate_every_event n then raise_if (oracle_check n) n else (Inr (), n))))))"

definition oracle_submit_many :: "oracle_call list \<Rightarrow> int \<Rightarrow> oracle_node \<Rightarrow> (unit, oracle_node) outcome option" where
  "oracle_submit_many cs now n =
     (case oracle_submission_check n now cs of Some e \<Rightarrow> Some (Inl e, n) | None \<Rightarrow>
      and_then (oracle_advance now True n) (\<lambda>_ n.
        let n = fold register_oracle_call cs n;
            n = oracle_metric (\<lambda>m. m\<lparr>om_max_pending_calls :=
                  max (om_max_pending_calls m) (int (length (og_pending_call_ids n)))\<rparr>) n
        in Some (oracle_flush now n)))"

definition oracle_submit :: "oracle_call \<Rightarrow> int \<Rightarrow> oracle_node \<Rightarrow> (unit, oracle_node) outcome option" where
  "oracle_submit c now n = oracle_submit_many [c] now n"

fun pop_oracle_calls :: "oracle_node \<Rightarrow> int list \<Rightarrow> int list \<Rightarrow> (int list, oracle_node) outcome" where
  "pop_oracle_calls n [] completed = (Inr completed, n\<lparr>og_user_completed_ids := []\<rparr>)"
| "pop_oracle_calls n (i # is) completed =
     (case dget (og_calls n) i of
        None \<Rightarrow> (Inl KeyError, n\<lparr>og_user_completed_ids := is\<rparr>)
      | Some _ \<Rightarrow> pop_oracle_calls n is (completed @ [i]))"

definition oracle_pop_completed :: "oracle_node \<Rightarrow> (int list, oracle_node) outcome" where
  "oracle_pop_completed n = pop_oracle_calls n (og_user_completed_ids n) []"

definition oracle_unfinished :: "oracle_node \<Rightarrow> bool" where
  "oracle_unfinished n \<longleftrightarrow> og_pending_call_ids n \<noteq> [] \<or> og_ready_call_ids n \<noteq> [] \<or>
     og_prepare_completion_heap n \<noteq> [] \<or>
     list_ex (\<lambda>c. oc_state c \<noteq> ORACLE_INTERNAL_COMPLETE) (dvalues (og_calls n))"

partial_function (option) oracle_idle_loop ::
  "int list \<Rightarrow> oracle_node \<Rightarrow> (int list, oracle_node) outcome option" where
  "oracle_idle_loop completed n =
     (case oracle_next_event n of
        (None, n) \<Rightarrow> Some (Inr completed, n)
      | (Some event_ns, n) \<Rightarrow>
          (case oracle_advance event_ns False n of
             None \<Rightarrow> None
           | Some (Inl e, n) \<Rightarrow> Some (Inl e, n)
           | Some (Inr _, n) \<Rightarrow>
               (case oracle_pop_completed n of
                  (Inl e, n) \<Rightarrow> Some (Inl e, n)
                | (Inr ids, n) \<Rightarrow> oracle_idle_loop (completed @ ids) n)))"

definition oracle_run_until_idle :: "oracle_node \<Rightarrow> (int list, oracle_node) outcome option" where
  "oracle_run_until_idle n =
     and_then (Some (oracle_pop_completed n)) (\<lambda>completed n.
     and_then (oracle_idle_loop completed n) (\<lambda>completed n. Some (
       if oracle_unfinished n
       then (Inl (RuntimeError ''oracle node became idle before full internal drain''), n)
       else andthen (raise_if (oracle_check n) n) (\<lambda>_ n. (Inr completed, n)))))"

declare oracle_advance_loop.simps [code] oracle_idle_loop.simps [code]

end
