(* ===== verification/Oracle_Safety.thy ===== *)
theory Oracle_Safety
  imports Oracle_Node Node_Safety
begin

text \<open>
  What holds of the oracle node whatever is called on it: its reservations and its pool stay sound on the
  shared calendar, and its memory never refuses a call, which is what makes it the upper bound it is
  named for.  The locale \<open>oracle_closed\<close> says what a predicate on nodes must be closed under; it is
  interpreted with the reservations and with the pool.
\<close>

section \<open>Reservations that never run out\<close>

text \<open>Every session of the ledgers is known, and holds no more than one request may need.\<close>

definition hbm_within :: "int \<Rightarrow> string set \<Rightarrow> hbm \<Rightarrow> bool" where
  "hbm_within k S h \<longleftrightarrow> hbm_ok h \<and> 0 \<le> k \<and> finite S \<and>
     (\<forall>s v. dget (hb_p_by_session h) s = Some v \<longrightarrow> s \<in> S \<and> v \<le> k) \<and>
     (\<forall>s v. dget (hb_d_by_session h) s = Some v \<longrightarrow> s \<in> S \<and> v \<le> k) \<and>
     (\<forall>i a. dget (hb_active_by_id h) i = Some a \<longrightarrow> ad_session_id a \<in> S \<and> ad_d_target a \<le> k)"

lemma hbm_withinD:
  assumes "hbm_within k S h"
  shows "hbm_ok h" "0 \<le> k" "finite S"
    "dget (hb_p_by_session h) s = Some v \<Longrightarrow> s \<in> S \<and> v \<le> k"
    "dget (hb_d_by_session h) s = Some v \<Longrightarrow> s \<in> S \<and> v \<le> k"
    "dget (hb_active_by_id h) i = Some a \<Longrightarrow> ad_session_id a \<in> S \<and> ad_d_target a \<le> k"
  using assms by (auto simp: hbm_within_def)

lemma hbm_within_mono: "hbm_within k S h \<Longrightarrow> S \<subseteq> T \<Longrightarrow> finite T \<Longrightarrow> hbm_within k T h"
  by (auto simp: hbm_within_def)

lemma hbm_within_metrics [simp]: "hbm_within k S (h\<lparr>hb_metrics := m\<rparr>) = hbm_within k S h"
  by (simp add: hbm_within_def)

lemma dsum_bound:
  assumes wf: "dwf d" and bound: "\<And>s v. dget d s = Some v \<Longrightarrow> s \<in> S \<and> v \<le> k" and k: "0 \<le> k" and S: "finite S"
  shows "dsum d \<le> k * int (card S)"
proof -
  have "dsum d \<le> k * int (card (set (dkeys d)))" using wf bound
  proof (induction d)
    case (Cons p d)
    obtain s v where p: "p = (s, v)" by (cases p)
    have "dsum d \<le> k * int (card (set (dkeys d)))"
    proof (rule Cons.IH)
      show "dwf d" using Cons.prems(1) by (simp add: p)
      fix t w assume t: "dget d t = Some w"
      with Cons.prems(1) have "t \<noteq> s"
        by (auto simp: p dget_Some_iff image_iff)
      with t Cons.prems(2) [of t w] show "t \<in> S \<and> w \<le> k" by (simp add: p)
    qed
    moreover have "v \<le> k" using Cons.prems(2) [of s v] by (simp add: p)
    moreover have "card (set (dkeys (p # d))) = Suc (card (set (dkeys d)))"
      using Cons.prems(1) by (auto simp: p card_insert_if)
    ultimately show ?case by (simp add: p algebra_simps)
  qed simp
  also have "set (dkeys d) \<subseteq> S"
  proof
    fix s assume "s \<in> set (dkeys d)"
    then have "dget d s \<noteq> None" by (simp add: dget_None_iff)
    with bound show "s \<in> S" by auto
  qed
  then have "k * int (card (set (dkeys d))) \<le> k * int (card S)"
    using S k by (simp add: card_mono mult_left_mono)
  finally show ?thesis .
qed

text \<open>What every session but one holds.\<close>

lemma dsum_others:
  assumes "dwf d" and "\<And>s v. dget d s = Some v \<Longrightarrow> s \<in> S \<and> v \<le> k" and "0 \<le> k" and "finite S" and "t \<in> S"
  shows "dsum d - dget_or d t 0 + k \<le> k * int (card S)"
proof -
  have "dsum (dpop t d) \<le> k * int (card (S - {t}))"
  proof (rule dsum_bound)
    show "dwf (dpop t d)" "0 \<le> k" "finite (S - {t})" using assms(1,3,4) by simp_all
    fix s v assume "dget (dpop t d) s = Some v"
    then have "s \<noteq> t" "dget d s = Some v" using assms(1) by (simp_all split: if_split_asm)
    with assms(2) show "s \<in> S - {t} \<and> v \<le> k" by simp
  qed
  moreover have "int (card S) = int (card (S - {t})) + 1"
    using card.remove [OF assms(4,5)] by simp
  ultimately show ?thesis by (simp only: dsum_dpop [OF assms(1)]) (simp add: distrib_left)
qed

lemma used_others:
  assumes "hbm_within k S h" and "s \<in> S"
  shows "p_used_bytes h - p_bytes h s + k \<le> k * int (card S)"
    and "d_used_bytes h - d_bytes h s + k \<le> k * int (card S)"
proof -
  note d = hbm_withinD [OF assms(1)]
  have wf: "dwf (hb_p_by_session h)" "dwf (hb_d_by_session h)" using d(1) by (simp_all add: hbm_ok_def)
  show "p_used_bytes h - p_bytes h s + k \<le> k * int (card S)"
    unfolding p_used_bytes_def p_bytes_def by (rule dsum_others [OF wf(1) d(4) d(2,3) assms(2)])
  show "d_used_bytes h - d_bytes h s + k \<le> k * int (card S)"
    unfolding d_used_bytes_def d_bytes_def by (rule dsum_others [OF wf(2) d(5) d(2,3) assms(2)])
qed

text \<open>The largest reservation of one session: the longest context the contract allows.\<close>

definition session_limit :: "hbm \<Rightarrow> int" where
  "session_limit h = kv_capacity (hb_hardware h) 1010000"

definition hbm_static where
  "hbm_static h = (hb_hardware h, hb_p_capacity h, hb_d_capacity h, hm_capacity_deferrals (hb_metrics h),
     hm_infeasible_requests (hb_metrics h))"

definition roomy :: "string set \<Rightarrow> hbm \<Rightarrow> bool" where
  "roomy S h \<longleftrightarrow> hbm_within (session_limit h) S h \<and> hb_p_capacity h = INFINITE_HBM_PROOF_BYTES_PER_RANK \<and>
     hb_d_capacity h = INFINITE_HBM_PROOF_BYTES_PER_RANK \<and>
     (session_limit h * int (card S) \<le> INFINITE_HBM_PROOF_BYTES_PER_RANK \<longrightarrow>
        hm_capacity_deferrals (hb_metrics h) = 0 \<and> hm_infeasible_requests (hb_metrics h) = 0)"

lemma roomy_mono:
  assumes "roomy S h" and "S \<subseteq> T" and "finite T"
  shows "roomy T h"
proof -
  have "card S \<le> card T" using assms(2,3) by (simp add: card_mono)
  moreover have "0 \<le> session_limit h" using assms(1) by (simp add: roomy_def hbm_within_def)
  ultimately have "session_limit h * int (card S) \<le> session_limit h * int (card T)"
    by (simp add: mult_left_mono)
  then show ?thesis using assms hbm_within_mono by (auto simp: roomy_def)
qed

lemma roomy_static: "roomy S h \<Longrightarrow> hbm_static h' = hbm_static h \<Longrightarrow> hbm_within (session_limit h) S h' \<Longrightarrow> roomy S h'"
  by (simp add: roomy_def hbm_static_def session_limit_def)

text \<open>Giving back a reservation.\<close>

inductive hbm_release :: "hbm \<Rightarrow> hbm \<Rightarrow> bool" where
  "hbm_release h (snd (release_p h a))"
| "hbm_release h (snd (release_d_source h a))"
| "hbm_release h (snd (finish h a suc))"

lemma hbm_return_snd: "snd (hbm_return x h) = h"
  by (simp add: hbm_return_def split: option.split)

lemma hbm_release_static: "hbm_release h h' \<Longrightarrow> hbm_static h' = hbm_static h"
  by (induction rule: hbm_release.induct)
    (auto simp: release_p_def release_d_source_def finish_def require_active_def hbm_return_snd hbm_static_def
      Let_def)

lemma put_or_pop_get:
  "dget (if v \<noteq> (0 :: int) then dput k v d else dpop k d) s = (if s = k then (if v = 0 then None else Some v)
     else dget d s)"
  by simp

lemma hbm_release_tables:
  assumes "hbm_release h h'"
  shows "(\<forall>s v. dget (hb_p_by_session h') s = Some v \<longrightarrow> dget (hb_p_by_session h) s = Some v) \<and>
    (\<forall>i b. dget (hb_active_by_id h') i = Some b \<longrightarrow> dget (hb_active_by_id h) i = Some b) \<and>
    (\<forall>s v. dget (hb_d_by_session h') s = Some v \<longrightarrow> dget (hb_d_by_session h) s = Some v \<or>
       (\<exists>i b. dget (hb_active_by_id h) i = Some b \<and> ad_session_id b = s \<and> ad_d_target b = v))"
  using assms
  by (induction rule: hbm_release.induct)
    (auto simp: release_p_def release_d_source_def finish_def require_active_def hbm_return_snd Let_def
      split: if_splits)

lemma hbm_release_ok: "hbm_release h h' \<Longrightarrow> hbm_ok h \<Longrightarrow> hbm_ok h'"
  by (induction rule: hbm_release.induct) (use hbm_sound(2-4) in \<open>simp_all add: sound_def keeps_def\<close>)

lemma roomy_release:
  assumes "roomy S h" and r: "hbm_release h h'"
  shows "roomy S h'"
proof (rule roomy_static [OF assms(1) hbm_release_static [OF r]])
  have w: "hbm_within (session_limit h) S h" using assms(1) by (simp add: roomy_def)
  note d = hbm_withinD [OF w] and t = hbm_release_tables [OF r]
  show "hbm_within (session_limit h) S h'"
    unfolding hbm_within_def
    using t d hbm_release_ok [OF r d(1)] by blast
qed

text \<open>Taking one: the session is known, so there is room.\<close>

lemma roomy_admit:
  assumes rm: "roomy S h" and s: "s \<in> S"
  shows "roomy S (snd (try_admit h s i out nd))"
proof (cases "admissible h s i out")
  case False
  then obtain e where "try_admit h s i out nd = (Inl e, h)"
    using try_admit_request_errors [of s i out h nd] by (auto simp: admissible_def not_less not_le)
  with rm show ?thesis by simp
next
  case adm: True
  have w: "hbm_within (session_limit h) S h" using rm by (simp add: roomy_def)
  note d = hbm_withinD [OF w] and u = used_others [OF w s]
  have hw: "hw_ok (hb_hardware h)" using d(1) by (simp add: hbm_ok_def)
  have need: "p_need h i \<le> session_limit h" "d_need h i out nd \<le> session_limit h"
    using adm d(2) kv_capacity_mono [OF hw]
    by (auto simp: admissible_def p_need_def d_need_def session_limit_def)
  have db: "d_bytes h s \<le> session_limit h" using d(2,5)
    by (cases "dget (hb_d_by_session h) s") (auto simp: d_bytes_def)
  have "p_bytes h s = 0"
    using adm d(1) by (cases "dget (hb_p_by_session h) s") (auto simp: p_bytes_def admissible_def hbm_ok_def)
  moreover have "session_limit h \<le> session_limit h * int (card S)"
    using d(2,3) s card_gt_0_iff [of S] mult_left_mono [of 1 "int (card S)" "session_limit h"] by fastforce
  moreover have "max (d_bytes h s) (d_need h i out nd) \<le> session_limit h" using need db by simp
  ultimately have fits: "\<not> (p_need h i > hb_p_capacity h \<or> d_need h i out nd > hb_d_capacity h)"
    "\<not> (p_used_bytes h + p_need h i > hb_p_capacity h \<or>
       d_used_bytes h - d_bytes h s + max (d_bytes h s) (d_need h i out nd) > hb_d_capacity h)"
    if "session_limit h * int (card S) \<le> INFINITE_HBM_PROOF_BYTES_PER_RANK"
    using that rm need u unfolding roomy_def by linarith+
  let ?m = "(hb_metrics h)\<lparr>hm_admission_attempts := hm_admission_attempts (hb_metrics h) + 1\<rparr>"
  let ?a = "new_admission h s i out nd"
  note eq = try_admit_eq [OF hw adm, of nd, unfolded Let_def]
  consider "p_need h i > hb_p_capacity h \<or> d_need h i out nd > hb_d_capacity h \<or>
      p_used_bytes h + p_need h i > hb_p_capacity h \<or>
      d_used_bytes h - d_bytes h s + max (d_bytes h s) (d_need h i out nd) > hb_d_capacity h"
    | "try_admit h s i out nd = hbm_return (Some ?a) (commit_admission ?a (h\<lparr>hb_metrics := ?m\<rparr>))"
    using eq by (auto split: if_splits)
  then show ?thesis
  proof cases
    case 1
    then have "\<exists>m. snd (try_admit h s i out nd) = h\<lparr>hb_metrics := m\<rparr>"
      by (cases "p_need h i > hb_p_capacity h \<or> d_need h i out nd > hb_d_capacity h")
        (simp add: eq, rule exI, rule refl)+
    then obtain m where "snd (try_admit h s i out nd) = h\<lparr>hb_metrics := m\<rparr>" by blast
    with 1 fits rm show ?thesis by (auto simp: roomy_def session_limit_def)
  next
    case 2
    let ?h = "commit_admission ?a (h\<lparr>hb_metrics := ?m\<rparr>)"
    have snd: "snd (try_admit h s i out nd) = ?h" by (simp add: 2 hbm_return_snd)
    have "hbm_ok ?h" using try_admit_sound [OF d(1), of s i out nd] snd by (simp add: sound_def keeps_def)
    then have "hbm_within (session_limit h) S ?h"
      using d(2-6) s need db by (auto simp: hbm_within_def commit_admission_def update_peaks_def)
    moreover have "hbm_static ?h = hbm_static h"
      by (simp add: hbm_static_def commit_admission_def update_peaks_def)
    ultimately show ?thesis using roomy_static [OF rm] snd by simp
  qed
qed

lemma roomy_new:
  assumes "new_hbm hw node_id (Some INFINITE_HBM_PROOF_BYTES_PER_RANK) (Some INFINITE_HBM_PROOF_BYTES_PER_RANK)
    = Inr h"
  shows "roomy {} h" and "hb_hardware h = hw"
proof -
  have ok: "hbm_ok h" by (rule new_hbm_ok [OF assms])
  then have "0 \<le> session_limit h" by (simp add: session_limit_def hbm_ok_def kv_capacity_nonneg)
  with ok assms show "roomy {} h" "hb_hardware h = hw"
    by (auto simp: new_hbm_def roomy_def hbm_within_def Let_def ebind_Inr_iff split: option.splits if_splits)
qed

section \<open>Predicates that every operation of the node keeps\<close>

text \<open>The part of the node that its own bookkeeping never writes; it may add sessions.\<close>

definition oracle_parts where
  "oracle_parts n = (og_hbm n, og_pool n, og_calendar n, og_hardware n)"

definition known_sessions :: "oracle_node \<Rightarrow> string set" where
  "known_sessions n = {s. dget (og_sessions n) s \<noteq> None}"

lemma known_sessions_keys: "known_sessions n = set (dkeys (og_sessions n))"
proof -
  have "s \<in> known_sessions n \<longleftrightarrow> s \<in> set (dkeys (og_sessions n))" for s
    using dget_None_iff [of "og_sessions n" s] by (simp add: known_sessions_def del: not_None_eq)
  then show ?thesis by blast
qed

lemma known_sessions_put:
  "known_sessions n \<subseteq> known_sessions (n\<lparr>og_sessions := dput s p (og_sessions n)\<rparr>)"
  by (auto simp: known_sessions_def)

locale oracle_closed =
  fixes J :: "oracle_node \<Rightarrow> bool"
  assumes own: "J n \<Longrightarrow> oracle_parts n' = oracle_parts n \<Longrightarrow> known_sessions n \<subseteq> known_sessions n' \<Longrightarrow> J n'"
    and admit: "J n \<Longrightarrow> s \<in> known_sessions n \<Longrightarrow> J (n\<lparr>og_hbm := snd (try_admit (og_hbm n) s i out nd)\<rparr>)"
    and release: "J n \<Longrightarrow> hbm_release (og_hbm n) h \<Longrightarrow> J (n\<lparr>og_hbm := h\<rparr>)"
    and pool: "J n \<Longrightarrow> pool_step ((og_pool n)\<lparr>pl_calendar := og_calendar n\<rparr>) p \<Longrightarrow>
      J (n\<lparr>og_pool := p, og_calendar := pl_calendar p\<rparr>)"
    and transfer: "J n \<Longrightarrow> calendar_step (og_calendar n) c \<Longrightarrow> J (n\<lparr>og_calendar := c\<rparr>)"
    and event: "J n \<Longrightarrow> J (snd (oracle_next_event n))"
begin

lemma at_hbm_keeps:
  assumes "J n" and "\<And>h. hbm_release h (snd (f h))"
  shows "keeps J (at_hbm f n)"
  using release [OF assms(1) assms(2)] by (auto simp: at_hbm_def keeps_def split: prod.split)

lemma at_pool_keeps:
  assumes "J n" and "\<And>p. pool_step p (snd (f p))"
  shows "keeps J (at_pool f n)"
  using pool [OF assms(1) assms(2)] by (auto simp: at_pool_def keeps_def split: prod.split)

lemma fields:
  assumes "J n"
  shows "J (n\<lparr>og_calls := x1\<rparr>)" "J (n\<lparr>og_metrics := x2\<rparr>)" "J (n\<lparr>og_prepare_history := x3\<rparr>)"
    "J (n\<lparr>og_pending_call_ids := x4\<rparr>)" "J (n\<lparr>og_ready_call_ids := x5\<rparr>)" "J (n\<lparr>og_prepare_jobs := x6\<rparr>)"
    "J (n\<lparr>og_prepare_completion_heap := x7\<rparr>)" "J (n\<lparr>og_user_completed_ids := x8\<rparr>)"
    "J (n\<lparr>og_admission_by_request := x9\<rparr>)" "J (n\<lparr>og_user_completion_seen := x10\<rparr>)"
    "J (n\<lparr>og_handoff_completion_seen := x11\<rparr>)" "J (n\<lparr>og_last_submitted_call_index := x12\<rparr>)"
    "J (n\<lparr>og_last_submitted_request_id := x13\<rparr>)" "J (n\<lparr>og_next_prepare_job_id := x14\<rparr>)"
    "J (n\<lparr>og_current_ns := x15\<rparr>)" "J (n\<lparr>og_sessions := dput s p (og_sessions n)\<rparr>)"
  by (rule own [OF assms], simp add: oracle_parts_def, auto simp: known_sessions_def)+

lemma bookkeeping:
  "J n \<Longrightarrow> J (oracle_metric f1 n)" "J n \<Longrightarrow> J (upd_oracle_call i f2 n)" "J n \<Longrightarrow> J (upd_placement s f3 n)"
  by (simp_all add: oracle_metric_def upd_oracle_call_def upd_placement_def fields split: option.split)

lemma keeps_lift: "J n \<Longrightarrow> keeps J (lift_err m n)"
  by (simp add: lift_err_def)

lemma keeps_raise: "J n \<Longrightarrow> keeps J (raise_if e n)"
  by (simp add: raise_if_def split: option.split)

lemmas hbm_ops = at_hbm_keeps [OF _ hbm_release.intros(1)] at_hbm_keeps [OF _ hbm_release.intros(2)]
  at_hbm_keeps [OF _ hbm_release.intros(3)]

lemmas pool_ops = at_pool_keeps [OF _ pool_step.intros(1)] at_pool_keeps [OF _ pool_step.intros(2)]
  at_pool_keeps [OF _ pool_step.intros(3)] at_pool_keeps [OF _ pool_step.intros(4)]
  at_pool_keeps [OF _ pool_step.intros(5)]

lemmas closed = keeps_lift keeps_raise bookkeeping fields hbm_ops pool_ops

lemma reserve_prepare:
  assumes "J n" and "transfer_stage st"
  shows "keeps J (reserve_prepare st now j n)"
proof -
  let ?ns = "''oracle-prepare-node-'' @ show_int (og_node_id n)"
  obtain y c where e: "stage_reserve st (og_calendar n) now j ?ns = (y, c)"
    by (cases "stage_reserve st (og_calendar n) now j ?ns")
  have "snd (schedule_stages [st] now j ?ns (og_calendar n)) = c" using e by (cases y) auto
  with calendar_step.intros [of "[st]" "og_calendar n" now j ?ns] assms(2)
  have "calendar_step (og_calendar n) c" by simp
  from transfer [OF assms(1) this] e show ?thesis by (simp add: reserve_prepare_def)
qed

lemma queue_prepare: "J n \<Longrightarrow> keeps J (queue_prepare c hit now n)"
proof (cases "peer_stage (og_resources n) hit ''d_to_p'' False")
  case (Inr st)
  assume "J n"
  with transfer_stages(5) [OF Inr] Inr show ?thesis
    unfolding queue_prepare_def Let_def lift_err_def
    by (auto intro!: keeps_andthen reserve_prepare closed)
qed (simp add: queue_prepare_def lift_err_def)

lemma operational_hit: "J n \<Longrightarrow> operational_hit c p n = (hit, n') \<Longrightarrow> J n' \<and> known_sessions n' = known_sessions n"
  by (auto simp: operational_hit_def oracle_metric_def known_sessions_def fields split: if_splits)

lemma at_admit:
  "J n \<Longrightarrow> s \<in> known_sessions n \<Longrightarrow> keeps J (at_hbm (\<lambda>h. try_admit h s i out nd) n)"
  using admit [of n s i out nd] by (auto simp: at_hbm_def keeps_def split: prod.split)

lemma oracle_admit:
  assumes "J n" and "oc_session_id c \<in> known_sessions n"
  shows "keeps J (oracle_admit c p i now n)"
proof -
  obtain hit n' where h: "operational_hit c p n = (hit, n')" by (cases "operational_hit c p n")
  from operational_hit [OF assms(1) h] assms(2) show ?thesis
    unfolding oracle_admit_def h prod.case Let_def
    by (auto intro!: keeps_andthen at_admit queue_prepare closed split: option.split)
qed

lemma oracle_admit_loop: "J n \<Longrightarrow> keeps J (oracle_admit_loop now ws is n)"
proof (induction "is" arbitrary: ws n)
  case (Cons i "is")
  let ?n = "n\<lparr>og_pending_call_ids := is\<rparr>"
  have n: "J ?n" using Cons.prems by (rule fields)
  show ?case
  proof (cases "item (og_calls ?n) i")
    case (Inr c)
    note c = Inr
    show ?thesis
    proof (cases "item (og_sessions ?n) (oc_session_id c)")
      case (Inr p)
      then have "oc_session_id c \<in> known_sessions ?n" by (auto simp: item_def known_sessions_def split: option.splits)
      from oracle_admit [OF n this] show ?thesis
        using Cons.IH n c Inr by (auto simp: lift_err_def intro!: keeps_andthen)
    qed (use n c in \<open>simp add: lift_err_def\<close>)
  qed (use n in \<open>simp add: lift_err_def\<close>)
qed (simp add: fields)

lemma oracle_admit_pending: "J n \<Longrightarrow> keeps J (oracle_admit_pending now n)"
  by (simp add: oracle_admit_pending_def oracle_admit_loop)

lemma keeps_each: "J n \<Longrightarrow> (\<And>x n. J n \<Longrightarrow> keeps J (f x n)) \<Longrightarrow> keeps J (each f xs n)"
  by (induction xs arbitrary: n) (auto intro!: keeps_andthen)

lemma oracle_pool_request: "J n \<Longrightarrow> keeps J (oracle_pool_request c n)"
  unfolding oracle_pool_request_def by (auto intro!: closed split: option.split)

lemma oracle_pool_requests: "J n \<Longrightarrow> keeps J (oracle_pool_requests ids n)"
  by (induction ids arbitrary: n) (auto intro!: keeps_andthen oracle_pool_request closed)

lemma oracle_submit_ready: "J n \<Longrightarrow> keeps J (oracle_submit_ready now n)"
  unfolding oracle_submit_ready_def Let_def by (auto intro!: keeps_andthen oracle_pool_requests closed)

lemma oracle_finish: "J n \<Longrightarrow> keeps J (oracle_finish i now n)"
  unfolding oracle_finish_def Let_def by (auto intro!: keeps_andthen closed split: option.split)

lemma oracle_handoff: "J n \<Longrightarrow> keeps J (oracle_handoff now i n)"
  unfolding oracle_handoff_def Let_def by (auto intro!: keeps_andthen oracle_finish closed)

lemma oracle_completion: "J n \<Longrightarrow> keeps J (oracle_completion now i n)"
  unfolding oracle_completion_def Let_def by (auto intro!: keeps_andthen oracle_finish closed)

lemma oracle_pool_notifications: "J n \<Longrightarrow> keeps J (oracle_pool_notifications now n)"
  unfolding oracle_pool_notifications_def
  by (auto intro!: keeps_andthen keeps_each oracle_handoff oracle_completion closed)

lemma complete_oracle_prepare: "J n \<Longrightarrow> keeps J (complete_oracle_prepare now i j n)"
  unfolding complete_oracle_prepare_def Let_def by (auto intro!: keeps_andthen closed)

lemma oracle_prepare_loop: "J n \<Longrightarrow> keeps J (oracle_prepare_loop now h n)"
  by (induction now h n rule: oracle_prepare_loop.induct)
    (auto intro!: keeps_andthen complete_oracle_prepare fields)

lemma oracle_flush: "J n \<Longrightarrow> keeps J (oracle_flush now n)"
  unfolding oracle_flush_def
  by (auto intro!: keeps_andthen oracle_admit_pending oracle_submit_ready closed)

lemma oracle_event: "J n \<Longrightarrow> keeps J (oracle_event t flush n)"
  unfolding oracle_event_def oracle_prepare_completions_def Let_def
  by (auto intro!: keeps_andthen oracle_prepare_loop oracle_pool_notifications oracle_flush closed)

lemma next_event_keeps: "J n \<Longrightarrow> oracle_next_event n = (e, n') \<Longrightarrow> J n'"
  using event [of n] by simp

lemma oracle_advance_loop: "J n \<Longrightarrow> keeps_if_returns J (oracle_advance_loop now d n)"
proof -
  have "J n \<longrightarrow> keeps J y" if "oracle_advance_loop now d n = Some y" for y
  proof (rule oracle_advance_loop.raw_induct [where P = "\<lambda>_ _ n y. J n \<longrightarrow> keeps J y", OF _ that], rule impI)
    fix loop now d n y
    assume 1: "\<And>now d n y. loop now d n = Some y \<Longrightarrow> J n \<longrightarrow> keeps J y"
      "(case oracle_next_event n of (None, n) \<Rightarrow> Some (Inr (), n)
       | (Some t, n) \<Rightarrow> if now < t then Some (Inr (), n)
           else (case oracle_event t (\<not> (d \<and> t = now)) n of
             (Inl e, n) \<Rightarrow> Some (Inl e, n) | (Inr _, n) \<Rightarrow> loop now d n)) = Some y"
      and n: "J n"
    obtain e n1 where e: "oracle_next_event n = (e, n1)" by (cases "oracle_next_event n")
    with n have n1: "J n1" using next_event_keeps by blast
    show "keeps J y"
    proof (cases e)
      case (Some t)
      obtain z n2 where z: "oracle_event t (d \<longrightarrow> t \<noteq> now) n1 = (z, n2)"
        by (cases "oracle_event t (d \<longrightarrow> t \<noteq> now) n1")
      then have n2: "J n2" using oracle_event [OF n1, of t "d \<longrightarrow> t \<noteq> now"] by simp
      show ?thesis
      proof (cases z)
        case (Inl x)
        with 1(2) e Some z have "y = (Inr (), n1) \<or> y = (Inl x, n2)" by (simp split: if_splits)
        with n1 n2 show ?thesis by (auto simp: keeps_def)
      next
        case (Inr u)
        with 1(2) e Some z have "y = (Inr (), n1) \<or> loop now d n2 = Some y" by (simp split: if_splits)
        with 1(1) [of now d n2 y] n1 n2 show ?thesis by (auto simp: keeps_def)
      qed
    qed (use 1(2) e n1 in \<open>auto simp: keeps_def\<close>)
  qed
  then show "J n \<Longrightarrow> keeps_if_returns J (oracle_advance_loop now d n)" by (simp add: keeps_if_returns_def)
qed

lemma oracle_advance: "J n \<Longrightarrow> keeps_if_returns J (oracle_advance now d n)"
  unfolding oracle_advance_def Let_def
  by (auto intro!: keeps_and_then oracle_advance_loop keeps_andthen oracle_flush closed)

lemma register_call: "J n \<Longrightarrow> J (register_oracle_call c n)"
  by (erule own) (auto simp: register_oracle_call_def oracle_metric_def oracle_parts_def known_sessions_def Let_def)

lemma register_calls: "J n \<Longrightarrow> J (fold register_oracle_call cs n)"
  by (induction cs arbitrary: n) (simp_all add: register_call)

lemma oracle_submit_many: "J n \<Longrightarrow> keeps_if_returns J (oracle_submit_many cs now n)"
  unfolding oracle_submit_many_def Let_def
  by (auto intro!: keeps_and_then oracle_advance oracle_flush register_calls closed split: option.split)

lemma pop_calls: "J n \<Longrightarrow> keeps J (pop_oracle_calls n ids popped)"
  by (induction ids arbitrary: popped) (auto simp: fields split: option.split)

lemma oracle_pop_completed: "J n \<Longrightarrow> keeps J (oracle_pop_completed n)"
  by (simp add: oracle_pop_completed_def pop_calls)

lemma oracle_idle_loop: "J n \<Longrightarrow> keeps_if_returns J (oracle_idle_loop ids n)"
proof -
  have "J n \<longrightarrow> keeps J y" if "oracle_idle_loop ids n = Some y" for y
  proof (rule oracle_idle_loop.raw_induct [where P = "\<lambda>_ n y. J n \<longrightarrow> keeps J y", OF _ that], rule impI)
    fix loop ids n y
    assume 1: "\<And>ids n y. loop ids n = Some y \<Longrightarrow> J n \<longrightarrow> keeps J y"
      "(case oracle_next_event n of (None, n) \<Rightarrow> Some (Inr ids, n)
       | (Some t, n) \<Rightarrow> (case oracle_advance t False n of None \<Rightarrow> None
         | Some (Inl e, n) \<Rightarrow> Some (Inl e, n)
         | Some (Inr _, n) \<Rightarrow> (case oracle_pop_completed n of
             (Inl e, n) \<Rightarrow> Some (Inl e, n) | (Inr popped, n) \<Rightarrow> loop (ids @ popped) n))) = Some y"
      and n: "J n"
    obtain e n1 where e: "oracle_next_event n = (e, n1)" by (cases "oracle_next_event n")
    with n have n1: "J n1" using next_event_keeps by blast
    show "keeps J y"
    proof (cases e)
      case (Some t)
      with 1(2) e obtain z n2 where z: "oracle_advance t False n1 = Some (z, n2)"
        by (auto split: option.splits)
      then have n2: "J n2" using oracle_advance [OF n1, of t False] by simp
      obtain w n3 where w: "oracle_pop_completed n2 = (w, n3)" by (cases "oracle_pop_completed n2")
      then have n3: "J n3" using oracle_pop_completed [OF n2] by simp
      show ?thesis
        using 1(2) e Some z w n2 n3 1(1) by (cases z; cases w) (auto simp: keeps_def)
    qed (use 1(2) e n1 in \<open>auto simp: keeps_def\<close>)
  qed
  then show "J n \<Longrightarrow> keeps_if_returns J (oracle_idle_loop ids n)" by (simp add: keeps_if_returns_def)
qed

lemma oracle_run_until_idle: "J n \<Longrightarrow> keeps_if_returns J (oracle_run_until_idle n)"
  unfolding oracle_run_until_idle_def
  by (auto intro!: keeps_and_then keeps_andthen oracle_idle_loop oracle_pop_completed closed)

end

section \<open>Reachable nodes\<close>

text \<open>
  Every state that some sequence of calls produces, calls that raise included.  As for the tiered node,
  nothing has booked the model groups of the calendar the node is built over.
\<close>

inductive oracle_reach :: "oracle_node \<Rightarrow> bool" where
  new: "new_oracle hw pv node_id cal budget seqs ps ds chunk validate retain = Inr n \<Longrightarrow> provider_ok pv \<Longrightarrow>
    \<forall>s. free_at (og_calendar n) (model_resource (og_pool n) s) \<le> 0 \<Longrightarrow> oracle_reach n"
| submit: "oracle_reach n \<Longrightarrow> oracle_submit_many cs now n = Some (r, n') \<Longrightarrow> oracle_reach n'"
| advance: "oracle_reach n \<Longrightarrow> oracle_advance now d n = Some (r, n') \<Longrightarrow> oracle_reach n'"
| flush: "oracle_reach n \<Longrightarrow> oracle_flush now n = (r, n') \<Longrightarrow> oracle_reach n'"
| next_event: "oracle_reach n \<Longrightarrow> oracle_next_event n = (e, n') \<Longrightarrow> oracle_reach n'"
| pop_completed: "oracle_reach n \<Longrightarrow> oracle_pop_completed n = (ids, n') \<Longrightarrow> oracle_reach n'"
| run_until_idle: "oracle_reach n \<Longrightarrow> oracle_run_until_idle n = Some (ids', n') \<Longrightarrow> oracle_reach n'"

context oracle_closed begin

lemma reach:
  assumes "oracle_reach n"
    and "\<And>hw pv node_id cal budget seqs ps ds chunk validate retain n.
      new_oracle hw pv node_id cal budget seqs ps ds chunk validate retain = Inr n \<Longrightarrow> provider_ok pv \<Longrightarrow>
      \<forall>s. free_at (og_calendar n) (model_resource (og_pool n) s) \<le> 0 \<Longrightarrow> J n"
  shows "J n"
  using assms(1)
proof (induction rule: oracle_reach.induct)
  case (submit n cs now r n')
  then show ?case using oracle_submit_many [of n cs now] by simp
next
  case (advance n now d r n')
  then show ?case using oracle_advance [of n now d] by simp
next
  case (flush n now r n')
  then show ?case using oracle_flush [of n now] by simp
next
  case (pop_completed n ids n')
  then show ?case using oracle_pop_completed [of n] by simp
next
  case (run_until_idle n ids' n')
  then show ?case using oracle_run_until_idle [of n] by simp
qed (blast intro: assms(2) next_event_keeps)+

end

lemma new_oracle_parts:
  assumes "new_oracle hw pv node_id cal budget seqs ps ds chunk validate retain = Inr n"
  shows "new_hbm hw node_id (Some INFINITE_HBM_PROOF_BYTES_PER_RANK) (Some INFINITE_HBM_PROOF_BYTES_PER_RANK)
      = Inr (og_hbm n)"
    and "new_pool hw pv node_id (Some (og_calendar n)) budget seqs ps ds chunk ''layerwise'' validate retain
      = Inr (og_pool n)"
    and "og_hardware n = hw" "og_sessions n = []"
  using assms by (auto simp: new_oracle_def Let_def ebind_Inr_iff split: option.splits)

section \<open>The reservations of a reachable node\<close>

definition oracle_room :: "oracle_node \<Rightarrow> bool" where
  "oracle_room n \<longleftrightarrow> roomy (known_sessions n) (og_hbm n) \<and> hb_hardware (og_hbm n) = og_hardware n"

lemma finite_known_sessions: "finite (known_sessions n)"
  by (simp add: known_sessions_keys)

lemma known_sessions_same [simp]:
  "known_sessions (n\<lparr>og_hbm := h\<rparr>) = known_sessions n"
  "known_sessions (n\<lparr>og_pool := p, og_calendar := c\<rparr>) = known_sessions n"
  "known_sessions (n\<lparr>og_calendar := c\<rparr>) = known_sessions n"
  "known_sessions (n\<lparr>og_pool := p\<rparr>) = known_sessions n"
  by (simp_all add: known_sessions_def)

lemma try_admit_hardware: "hb_hardware (snd (try_admit h s i out nd)) = hb_hardware h"
proof -
  have "keeps (\<lambda>x. hb_hardware x = hb_hardware h) (hbm_return y (commit_admission a h1))"
    if "hb_hardware h1 = hb_hardware h" for y :: "admission option" and a h1
    using that by (simp add: keeps_def hbm_return_snd commit_admission_def update_peaks_def)
  then have "keeps (\<lambda>x. hb_hardware x = hb_hardware h) (try_admit h s i out nd)"
    unfolding try_admit_def Let_def by (auto intro!: keeps_andthen simp: lift_err_def)
  then show ?thesis by (simp add: keeps_def)
qed

interpretation endless_memory: oracle_closed oracle_room
proof
  fix n n' :: oracle_node
  assume "oracle_room n" and "oracle_parts n' = oracle_parts n" and "known_sessions n \<subseteq> known_sessions n'"
  then show "oracle_room n'" using roomy_mono [OF _ _ finite_known_sessions]
    by (auto simp: oracle_room_def oracle_parts_def)
next
  fix n :: oracle_node and h
  assume "oracle_room n" and r: "hbm_release (og_hbm n) h"
  then show "oracle_room (n\<lparr>og_hbm := h\<rparr>)"
    using roomy_release [OF _ r] hbm_release_static [OF r] by (simp add: oracle_room_def hbm_static_def)
qed (simp_all add: oracle_room_def roomy_admit try_admit_hardware oracle_next_event_def Let_def split: prod.split)

lemma oracle_reach_room: "oracle_reach n \<Longrightarrow> oracle_room n"
proof (erule endless_memory.reach)
  fix hw pv node_id cal budget seqs ps ds chunk validate retain and n :: oracle_node
  assume "new_oracle hw pv node_id cal budget seqs ps ds chunk validate retain = Inr n"
  note p = new_oracle_parts [OF this]
  from roomy_new [OF p(1)] p(3,4) show "oracle_room n" by (simp add: oracle_room_def known_sessions_def)
qed

section \<open>The pool of a reachable node\<close>

interpretation sound_oracle_pool: oracle_closed "\<lambda>n. pool_good ((og_pool n)\<lparr>pl_calendar := og_calendar n\<rparr>)"
proof
  fix n :: oracle_node and c
  assume "pool_good ((og_pool n)\<lparr>pl_calendar := og_calendar n\<rparr>)" and "calendar_step (og_calendar n) c"
  then show "pool_good ((og_pool (n\<lparr>og_calendar := c\<rparr>))\<lparr>pl_calendar := og_calendar (n\<lparr>og_calendar := c\<rparr>)\<rparr>)"
    using pool_good_calendar [of "(og_pool n)\<lparr>pl_calendar := og_calendar n\<rparr>" c] by simp
next
  fix n :: oracle_node and p
  assume "pool_good ((og_pool n)\<lparr>pl_calendar := og_calendar n\<rparr>)"
    and "pool_step ((og_pool n)\<lparr>pl_calendar := og_calendar n\<rparr>) p"
  then show "pool_good ((og_pool (n\<lparr>og_pool := p, og_calendar := pl_calendar p\<rparr>))
      \<lparr>pl_calendar := og_calendar (n\<lparr>og_pool := p, og_calendar := pl_calendar p\<rparr>)\<rparr>)"
    using pool_step_good by simp
next
  fix n :: oracle_node
  assume "pool_good ((og_pool n)\<lparr>pl_calendar := og_calendar n\<rparr>)"
  then show "pool_good ((og_pool (snd (oracle_next_event n)))
      \<lparr>pl_calendar := og_calendar (snd (oracle_next_event n))\<rparr>)"
    using pool_good_clean [where p = "og_pool n" and c = "og_calendar n"]
    by (cases "next_event_ns (og_pool n)") (simp add: oracle_next_event_def Let_def)
qed (simp_all add: oracle_parts_def)

lemma oracle_reach_pool: "oracle_reach n \<Longrightarrow> pool_good ((og_pool n)\<lparr>pl_calendar := og_calendar n\<rparr>)"
proof (erule sound_oracle_pool.reach)
  fix hw pv node_id cal budget seqs ps ds chunk validate retain and n :: oracle_node
  assume "new_oracle hw pv node_id cal budget seqs ps ds chunk validate retain = Inr n"
    and pv: "provider_ok pv" and free: "\<forall>s. free_at (og_calendar n) (model_resource (og_pool n) s) \<le> 0"
  note p = new_oracle_parts(2) [OF this(1)]
  note c = new_pool_calendar [OF p]
  have "pool_ok 0 (og_pool n)" "pl_current_ns (og_pool n) = 0"
    using new_pool_ok(1,3) [OF p pv] free c by simp_all
  moreover have "(og_pool n)\<lparr>pl_calendar := og_calendar n\<rparr> = og_pool n" using c by (cases "og_pool n") simp
  ultimately show "pool_good ((og_pool n)\<lparr>pl_calendar := og_calendar n\<rparr>)" by (simp add: pool_good_def)
qed

end
