(* ===== verification/Oracle_Props.thy ===== *)
theory Oracle_Props
  imports Oracle_Safety
begin

text \<open>
  What the oracle node guarantees: it is sound like the finite node, and it really is free of capacity
  pressure, for every workload whose sessions fit the proof capacity of \<open>10 ^ 30\<close> bytes per rank.
\<close>

section \<open>A node to evaluate on\<close>

definition start_oracle :: oracle_node where
  "start_oracle = projr (new_oracle default_hardware unit_provider 0 None 64 8 None None 32 False True)"

lemma start_oracle_new:
  "new_oracle default_hardware unit_provider 0 None 64 8 None None 32 False True = Inr start_oracle"
proof -
  have h: "validate_hardware default_hardware = None" using default_hw_ok by (simp add: hw_ok_def)
  obtain u where u: "usable_hbm_bytes_per_rank default_hardware = Inr u" using default_usable by blast
  have p: "new_pool_error default_hardware 0 64 8 8 8 32 ''layerwise'' = None"
    using h by (simp add: new_pool_error_def)
  show ?thesis
    by (simp add: start_oracle_def new_oracle_def new_pool_def p default_tr_new new_hbm_def h u
        INFINITE_HBM_PROOF_BYTES_PER_RANK_def Let_def)
qed

lemma start_oracle_calendar: "og_calendar start_oracle = new_calendar True"
proof -
  have "og_calendar n = new_calendar True"
    if "new_oracle hw pv node_id None budget seqs ps ds chunk validate retain = Inr n"
    for hw pv node_id budget seqs ps ds chunk validate retain n
    using that by (auto simp: new_oracle_def Let_def ebind_Inr_iff split: option.splits)
  from this [OF start_oracle_new] show ?thesis .
qed

lemma start_oracle_reach: "oracle_reach start_oracle"
  by (rule oracle_reach.new [OF start_oracle_new unit_provider_ok])
    (simp add: start_oracle_calendar new_calendar_def free_at_def)

section \<open>The upper bound\<close>

lemma pool_check_calendar: "pool_check (p\<lparr>pl_calendar := c\<rparr>) = pool_check p"
  by (simp add: pool_check_def queued_ids_def cong: option.case_cong)

lemma deferral_counted:
  assumes "fst (try_admit h s i out nd) = Inr None"
  shows "hm_capacity_deferrals (hb_metrics (snd (try_admit h s i out nd)))
    = hm_capacity_deferrals (hb_metrics h) + 1"
  using assms unfolding try_admit_def
  by (cases "kv_capacity_bytes_per_rank (hb_hardware h) i";
      cases "kv_capacity_bytes_per_rank (hb_hardware h) (i + out - 1)")
    (auto simp: Let_def lift_err_def hbm_return_def split: if_splits option.splits)

text \<open>C5: The oracle is an upper bound: in every reachable node, calls that raised included, the
  reservations and the pool pass their self checks and the pool never fails to advance; and as long as the
  longest context of every session fits in \<open>10 ^ 30\<close> bytes, no request was ever deferred or rejected for
  want of memory, and none of a known session will be deferred next.\<close>
theorem oracle_never_runs_out:
  assumes "oracle_reach n"
  shows "hbm_check (og_hbm n) = None \<and> pool_check (og_pool n) = None \<and>
    (\<forall>now d. pl_current_ns (og_pool n) \<le> now \<longrightarrow> fst (at_pool (advance now d) n) = Inr ()) \<and>
    (\<forall>k. kv_capacity_bytes_per_rank (og_hardware n) 1010000 = Inr k \<longrightarrow>
       k * int (card (set (dkeys (og_sessions n)))) \<le> INFINITE_HBM_PROOF_BYTES_PER_RANK \<longrightarrow>
       hm_capacity_deferrals (hb_metrics (og_hbm n)) = 0 \<and>
       hm_infeasible_requests (hb_metrics (og_hbm n)) = 0 \<and>
       (\<forall>s i out nd. dget (og_sessions n) s \<noteq> None \<longrightarrow> fst (try_admit (og_hbm n) s i out nd) \<noteq> Inr None))"
proof (intro conjI allI impI)
  let ?h = "og_hbm n" and ?p = "(og_pool n)\<lparr>pl_calendar := og_calendar n\<rparr>" and ?S = "known_sessions n"
  have rm: "roomy ?S ?h" and hw: "hb_hardware ?h = og_hardware n"
    using oracle_reach_room [OF assms] by (simp_all add: oracle_room_def)
  have ok: "hbm_ok ?h" using rm by (simp add: roomy_def hbm_within_def)
  have good: "pool_ok (pl_current_ns ?p) ?p" using oracle_reach_pool [OF assms] by (simp add: pool_good_def)
  show "hbm_check ?h = None" by (rule hbm_ok_check [OF ok])
  show "pool_check (og_pool n) = None" using pool_check_ok [OF good] by (simp add: pool_check_calendar)
  show "fst (at_pool (advance now d) n) = Inr ()" if "pl_current_ns (og_pool n) \<le> now" for now d
    using advance_ok [OF good, of now d] that by (auto simp: at_pool_def)
  fix k assume "kv_capacity_bytes_per_rank (og_hardware n) 1010000 = Inr k"
    and fits: "k * int (card (set (dkeys (og_sessions n)))) \<le> INFINITE_HBM_PROOF_BYTES_PER_RANK"
  then have k: "session_limit ?h = k"
    using ok hw kv_capacity_ok [of "og_hardware n" 1010000] by (simp add: session_limit_def hbm_ok_def)
  have quiet: "hm_capacity_deferrals (hb_metrics h) = 0 \<and> hm_infeasible_requests (hb_metrics h) = 0"
    if "roomy ?S h" "hb_hardware h = hb_hardware ?h" for h
    using that fits k unfolding roomy_def session_limit_def known_sessions_keys by simp
  show "hm_capacity_deferrals (hb_metrics ?h) = 0" "hm_infeasible_requests (hb_metrics ?h) = 0"
    using quiet [OF rm] by simp_all
  fix s i out nd assume "dget (og_sessions n) s \<noteq> None"
  then have "s \<in> ?S" by (simp add: known_sessions_def)
  from quiet [OF roomy_admit [OF rm this] try_admit_hardware] quiet [OF rm]
  show "fst (try_admit ?h s i out nd) \<noteq> Inr None" using deferral_counted by fastforce
qed

theorem oracle_never_runs_out_witness:
  "hbm_check (og_hbm start_oracle) = None \<and> pool_check (og_pool start_oracle) = None \<and>
   fst (at_pool (advance 5 False) start_oracle) = Inr () \<and>
   hm_capacity_deferrals (hb_metrics (og_hbm start_oracle)) = 0"
  using oracle_never_runs_out [OF start_oracle_reach]
    new_pool_ok(3) [OF new_oracle_parts(2) [OF start_oracle_new] unit_provider_ok]
    new_oracle_parts(3,4) [OF start_oracle_new] kv_capacity_ok [OF default_hw_ok, of 1010000]
  by (simp add: new_pool_calendar [OF new_oracle_parts(2) [OF start_oracle_new]] start_oracle_calendar
      new_calendar_def free_at_def INFINITE_HBM_PROOF_BYTES_PER_RANK_def)

end
