(* ===== verification/Causal_State.thy ===== *)
theory Causal_State
  imports Tiered_Node Oracle_Node
begin

text \<open>
  The systems that run a whole workload: \<^verbatim>\<open>serving/core/gpu_pd_dual_oracle.py\<close> and its subclass
  \<^verbatim>\<open>gpu_pd_dual_tiered.py\<close>, two independent nodes of one class, and \<^verbatim>\<open>gpu_pd_single_system.py\<close>, one node.
  They share one event loop over the methods of their nodes.  Python finds these methods by the class of
  the node; here the class is a record \<open>serving\<close> of the methods, an argument of every operation.  This
  theory holds the workload, the routes, the state and the loading of a schedule.
\<close>

section \<open>The workload\<close>

text \<open>The fields of \<^verbatim>\<open>hbf_comparison_workload.py\<close> that the systems read.\<close>

record call_demand =
  cd_session_id :: string
  cd_call_index :: int
  cd_input_tokens :: int
  cd_output_tokens :: int
  cd_tool_duration_ns :: int
  cd_cached_prefix_tokens :: int

definition completion_identity :: "string \<Rightarrow> int \<Rightarrow> string" where
  "completion_identity sid i = sid @ ''::call-'' @ show_int i"

record session_demand =
  sd_source_index :: int
  sd_session_id :: string
  sd_calls :: "call_demand list"

record scheduled_session =
  sc_offer_index :: int
  sc_session :: session_demand
  sc_arrival_time_ns :: int

abbreviation sc_session_id :: "scheduled_session \<Rightarrow> string" where
  "sc_session_id x \<equiv> sd_session_id (sc_session x)"

abbreviation sc_calls :: "scheduled_session \<Rightarrow> call_demand list" where
  "sc_calls x \<equiv> sd_calls (sc_session x)"

fun validate_demands :: "string \<Rightarrow> int \<Rightarrow> call_demand list \<Rightarrow> exn option" where
  "validate_demands sid i [] = None"
| "validate_demands sid i (c # cs) = or_else (first_error
     [(cd_session_id c \<noteq> sid, ValueError ''call/session identity mismatch in scheduled session''),
      (cd_call_index c \<noteq> i, ValueError ''scheduled calls must use contiguous call indices''),
      (cd_input_tokens c \<le> 0 \<or> cd_output_tokens c \<le> 0,
        ValueError ''scheduled input/output tokens must be positive''),
      (\<not> (0 \<le> cd_cached_prefix_tokens c \<and> cd_cached_prefix_tokens c \<le> cd_input_tokens c),
        ValueError ''cached_prefix_tokens must be in 0..input_tokens''),
      (cd_call_index c = 0 \<and> cd_cached_prefix_tokens c \<noteq> 0,
        ValueError ''first call cannot reuse an earlier prefix''),
      (cd_tool_duration_ns c < 0, ValueError ''tool_duration_ns must be non-negative'')])
     (validate_demands sid (i + 1) cs)"

definition validate_scheduled :: "scheduled_session \<Rightarrow> exn option" where
  "validate_scheduled x =
     or_else (first_error
       [(sc_offer_index x < 0, ValueError ''scheduled offer_index must be a non-negative integer''),
        (sc_arrival_time_ns x < 0, ValueError ''scheduled arrival_time_ns must be a non-negative integer''),
        (sc_session_id x = [] \<or> sc_calls x = [], ValueError ''scheduled session must have calls'')])
     (validate_demands (sc_session_id x) (cd_call_index (hd (sc_calls x))) (sc_calls x))"

section \<open>Requests and their completion\<close>

record request_key =
  rk_session_id :: string
  rk_sub_request_index :: int

definition new_request_key :: "string \<Rightarrow> int \<Rightarrow> exn + request_key" where
  "new_request_key sid i =
     (if sid = [] then Inl (ValueError ''session_id must be a non-empty string'')
      else if i < 0 then Inl (ValueError (''sub_request_index must be a non-negative integer, got '' @ show_int i))
      else Inr \<lparr>rk_session_id = sid, rk_sub_request_index = i\<rparr>)"

record completed_request =
  cr_key :: request_key
  cr_release_ns :: int
  cr_first_token_ns :: int
  cr_completion_ns :: int
  cr_output_tokens :: int

definition new_completed_request :: "request_key \<Rightarrow> int \<Rightarrow> int \<Rightarrow> int \<Rightarrow> int \<Rightarrow> exn + completed_request" where
  "new_completed_request key release first_token completion output =
     (case first_error
        [(release < 0, ValueError (''release_ns must be a non-negative integer, got '' @ show_int release)),
         (first_token < 0,
           ValueError (''first_token_ns must be a non-negative integer, got '' @ show_int first_token)),
         (completion < 0,
           ValueError (''completion_ns must be a non-negative integer, got '' @ show_int completion)),
         (output \<le> 0, ValueError (''output_tokens must be a positive integer, got '' @ show_int output)),
         (first_token < release, ValueError '': first token precedes request release''),
         (completion < first_token, ValueError '': completion precedes first token''),
         (output = 1 \<and> completion \<noteq> first_token,
           ValueError '': one-token completion must equal first token'')] of
        Some e \<Rightarrow> Inl e
      | None \<Rightarrow> Inr \<lparr>cr_key = key, cr_release_ns = release, cr_first_token_ns = first_token,
          cr_completion_ns = completion, cr_output_tokens = output\<rparr>)"

record call_spec =
  sp_request_id :: int
  sp_key :: request_key
  sp_source_index :: int
  sp_offer_index :: int
  sp_node_id :: int
  sp_session_id :: string
  sp_call_index :: int
  sp_input_tokens :: int
  sp_output_tokens :: int
  sp_cached_prefix_tokens :: int
  sp_tool_duration_ns :: int
  sp_has_successor :: bool

text \<open>The arguments that construct the call of a node.\<close>

record runtime_call =
  rc_request_id :: int
  rc_session_id :: string
  rc_call_index :: int
  rc_release_ns :: int
  rc_input_tokens :: int
  rc_output_tokens :: int
  rc_prefix_reuse_tokens :: int
  rc_has_successor :: bool

definition runtime_call_of :: "call_spec \<Rightarrow> int \<Rightarrow> runtime_call" where
  "runtime_call_of spec release_ns =
     \<lparr>rc_request_id = sp_request_id spec, rc_session_id = sp_session_id spec,
      rc_call_index = sp_call_index spec, rc_release_ns = release_ns,
      rc_input_tokens = sp_input_tokens spec, rc_output_tokens = sp_output_tokens spec,
      rc_prefix_reuse_tokens = sp_cached_prefix_tokens spec, rc_has_successor = sp_has_successor spec\<rparr>"

section \<open>The class of a node\<close>

text \<open>What a system reads of a call that a node owns; the token times are those of its pool request.\<close>

record call_view =
  cv_session_id :: string
  cv_call_index :: int
  cv_release_ns :: int
  cv_output_tokens :: int
  cv_user_completion_ns :: "int option"
  cv_first_token_ns :: "int option"
  cv_completion_ns :: "int option"
  cv_internal_complete :: bool

record 'n serving =
  sv_advance :: "int \<Rightarrow> bool \<Rightarrow> 'n \<Rightarrow> (unit, 'n) outcome option"
  sv_submit_many :: "runtime_call list \<Rightarrow> int \<Rightarrow> 'n \<Rightarrow> (unit, 'n) outcome option"
  sv_flush_scheduling :: "int \<Rightarrow> 'n \<Rightarrow> (unit, 'n) outcome"
  sv_pop_completed :: "'n \<Rightarrow> (int list, 'n) outcome"
  sv_next_event :: "'n \<Rightarrow> int option \<times> 'n"
  sv_check :: "'n \<Rightarrow> exn option"
  sv_call :: "'n \<Rightarrow> int \<Rightarrow> call_view option"
  sv_call_ids :: "'n \<Rightarrow> int list"
  sv_node_id :: "'n \<Rightarrow> int"
  sv_validate_call :: "runtime_call \<Rightarrow> exn option"
  sv_capacity_error :: "runtime_call \<Rightarrow> 'n \<Rightarrow> exn option"
  sv_family_check :: "'n list \<Rightarrow> exn option"

text \<open>\<^verbatim>\<open>StrictInfiniteHBMNode\<close> and \<^verbatim>\<open>FiniteHBMTieredP4D4Node\<close>.\<close>

definition oracle_call_of :: "runtime_call \<Rightarrow> oracle_call" where
  "oracle_call_of c = new_oracle_call (rc_request_id c) (rc_session_id c) (rc_call_index c) (rc_release_ns c)
     (rc_input_tokens c) (rc_output_tokens c) (rc_prefix_reuse_tokens c) (rc_has_successor c)"

definition tiered_call_of :: "runtime_call \<Rightarrow> tiered_call" where
  "tiered_call_of c = new_call (rc_request_id c) (rc_session_id c) (rc_call_index c) (rc_release_ns c)
     (rc_input_tokens c) (rc_output_tokens c) (rc_prefix_reuse_tokens c) (rc_has_successor c)"

definition oracle_call_view :: "oracle_node \<Rightarrow> oracle_call \<Rightarrow> call_view" where
  "oracle_call_view n c =
     \<lparr>cv_session_id = oc_session_id c, cv_call_index = oc_call_index c, cv_release_ns = oc_release_ns c,
      cv_output_tokens = oc_output_tokens c, cv_user_completion_ns = oc_user_completion_ns c,
      cv_first_token_ns = Option.bind (request_of n c) rq_first_token_ns,
      cv_completion_ns = Option.bind (request_of n c) rq_completion_ns,
      cv_internal_complete = (oc_state c = ORACLE_INTERNAL_COMPLETE)\<rparr>"

definition oracle_serving :: "oracle_node serving" where
  "oracle_serving =
     \<lparr>sv_advance = oracle_advance,
      sv_submit_many = (\<lambda>cs. oracle_submit_many (map oracle_call_of cs)),
      sv_flush_scheduling = oracle_flush, sv_pop_completed = oracle_pop_completed,
      sv_next_event = oracle_next_event, sv_check = oracle_check,
      sv_call = (\<lambda>n i. map_option (oracle_call_view n) (dget (og_calls n) i)),
      sv_call_ids = (\<lambda>n. dkeys (og_calls n)), sv_node_id = og_node_id,
      sv_validate_call = (\<lambda>c. validate_oracle_call (oracle_call_of c)),
      sv_capacity_error = (\<lambda>c n. None), sv_family_check = (\<lambda>ns. None)\<rparr>"

definition tiered_call_view :: "node \<Rightarrow> tiered_call \<Rightarrow> call_view" where
  "tiered_call_view n c =
     (let r = Option.bind (cl_pool_request c) (dget (pl_requests (nd_pool n))) in
      \<lparr>cv_session_id = cl_session_id c, cv_call_index = cl_call_index c, cv_release_ns = cl_release_ns c,
       cv_output_tokens = cl_output_tokens c, cv_user_completion_ns = cl_user_completion_ns c,
       cv_first_token_ns = Option.bind r rq_first_token_ns,
       cv_completion_ns = Option.bind r rq_completion_ns,
       cv_internal_complete = (cl_state c = CALL_INTERNAL_COMPLETE)\<rparr>)"

definition tiered_serving :: "node serving" where
  "tiered_serving =
     \<lparr>sv_advance = node_advance,
      sv_submit_many = (\<lambda>cs. node_submit_many (map tiered_call_of cs)),
      sv_flush_scheduling = node_flush_scheduling, sv_pop_completed = node_pop_completed,
      sv_next_event = node_next_event, sv_check = node_check,
      sv_call = (\<lambda>n i. map_option (tiered_call_view n) (dget (nd_calls n) i)),
      sv_call_ids = (\<lambda>n. dkeys (nd_calls n)), sv_node_id = nd_node_id,
      sv_validate_call = (\<lambda>c. validate_call (tiered_call_of c)),
      sv_capacity_error = (\<lambda>c n. capacity_contract_error n (tiered_call_of c)),
      sv_family_check = (\<lambda>ns. None)\<rparr>"

end
