(* ===== verification/Causal_System.thy ===== *)
theory Causal_System
  imports Causal_State
begin

text \<open>
  The state of a system, its routes, and the loading of a schedule.  A set of ids is the list of its
  elements in the order of insertion; messages leave out the representation of the object at fault.
\<close>

section \<open>State\<close>

definition DUAL_ORACLE_NODE_COUNT :: nat where
  "DUAL_ORACLE_NODE_COUNT = 2"

definition ROUTE_OFFER_RR :: string where
  "ROUTE_OFFER_RR = ''offer_index_mod_2_sticky''"

definition ROUTE_BALANCED_TRACE_WORK :: string where
  "ROUTE_BALANCED_TRACE_WORK = ''balanced_trace_work_static''"

definition SUPPORTED_ROUTE_POLICIES :: "string list" where
  "SUPPORTED_ROUTE_POLICIES = [ROUTE_BALANCED_TRACE_WORK, ROUTE_OFFER_RR]"

definition SINGLE_NODE_ROUTE_POLICY :: string where
  "SINGLE_NODE_ROUTE_POLICY = ''single_gpu_node_sticky''"

text \<open>The class of the system: the two dual classes, the second with its tier policy, and the single one
  with its mode.\<close>

datatype system_class = Dual_Oracle | Dual_Tiered string | Single string

record system_metrics =
  sm_scheduled_sessions :: int
  sm_scheduled_calls :: int
  sm_released_calls :: int
  sm_completed_calls :: int
  sm_event_timestamps :: int
  sm_fixed_point_rounds :: int
  sm_max_release_heap :: int

record 'n causal =
  sy_class :: system_class
  sy_validate_every_event :: bool
  sy_route_policy :: string
  sy_nodes :: "'n list"
  sy_metrics :: system_metrics
  sy_current_ns :: int
  sy_call_specs :: "call_spec list"
  sy_spec_by_request :: "(int, call_spec) dict"
  sy_request_by_identity :: "(string, int) dict"
  sy_successor_by_request :: "(int, int) dict"
  sy_first_arrival_by_request :: "(int, int) dict"
  sy_route_by_session :: "(string, int) dict"
  sy_route_work_by_session :: "(string, int) dict"
  sy_offer_by_session :: "(string, int) dict"
  sy_release_heap :: "(int \<times> int) list"
  sy_queued_release_ids :: "int list"
  sy_released_ids :: "int list"
  sy_completed_ids :: "int list"
  sy_runtime_calls :: "(int, runtime_call) dict"
  sy_completed_snapshots :: "(int, completed_request) dict"
  sy_completion_order :: "int list"
  sy_completed_session_order :: "string list"
  sy_loaded :: bool
  sy_running :: bool
  sy_finished :: bool

definition new_system :: "system_class \<Rightarrow> bool \<Rightarrow> string \<Rightarrow> 'n list \<Rightarrow> 'n causal" where
  "new_system cls validate policy nodes =
     \<lparr>sy_class = cls, sy_validate_every_event = validate, sy_route_policy = policy, sy_nodes = nodes,
      sy_metrics = \<lparr>sm_scheduled_sessions = 0, sm_scheduled_calls = 0, sm_released_calls = 0,
        sm_completed_calls = 0, sm_event_timestamps = 0, sm_fixed_point_rounds = 0,
        sm_max_release_heap = 0\<rparr>,
      sy_current_ns = 0, sy_call_specs = [], sy_spec_by_request = [], sy_request_by_identity = [],
      sy_successor_by_request = [], sy_first_arrival_by_request = [], sy_route_by_session = [],
      sy_route_work_by_session = [], sy_offer_by_session = [], sy_release_heap = [],
      sy_queued_release_ids = [], sy_released_ids = [], sy_completed_ids = [], sy_runtime_calls = [],
      sy_completed_snapshots = [], sy_completion_order = [], sy_completed_session_order = [],
      sy_loaded = False, sy_running = False, sy_finished = False\<rparr>"

definition system_metric :: "(system_metrics \<Rightarrow> system_metrics) \<Rightarrow> 'n causal \<Rightarrow> 'n causal" where
  "system_metric f s = s\<lparr>sy_metrics := f (sy_metrics s)\<rparr>"

section \<open>Routes\<close>

definition route_offer :: "int \<Rightarrow> exn + int" where
  "route_offer offer_index =
     (if offer_index < 0 then Inl (ValueError ''offer_index must be a non-negative integer'')
      else Inr (offer_index mod int DUAL_ORACLE_NODE_COUNT))"

text \<open>The attention work of one call: the contexts of its fresh prompt tokens on P and of its decode
  steps on D, and the linear movement of its KV.\<close>

definition call_work :: "call_demand \<Rightarrow> int" where
  "call_work c =
     (let fresh = cd_input_tokens c - cd_cached_prefix_tokens c;
          prefill_context_work = fresh * (2 * cd_cached_prefix_tokens c + fresh + 1) div 2;
          decode_steps = cd_output_tokens c - 1;
          decode_context_work = decode_steps * cd_input_tokens c + decode_steps * (decode_steps - 1) div 2
      in prefill_context_work + decode_context_work + cd_cached_prefix_tokens c + fresh + cd_output_tokens c)"

definition trace_work_proxy :: "scheduled_session \<Rightarrow> exn + int" where
  "trace_work_proxy x =
     (case validate_scheduled x of Some e \<Rightarrow> Inl e
      | None \<Rightarrow> Inr (sum_list (map call_work (sc_calls x))))"

fun each_result :: "('a \<Rightarrow> exn + 'b) \<Rightarrow> 'a list \<Rightarrow> exn + 'b list" where
  "each_result f [] = Inr []"
| "each_result f (x # xs) = ebind (f x) (\<lambda>y. ebind (each_result f xs) (\<lambda>ys. Inr (y # ys)))"

text \<open>The least loaded node that still has room for a session, the first on a tie.\<close>

definition least_loaded :: "int list \<Rightarrow> nat list \<Rightarrow> nat" where
  "least_loaded loads candidates = hd (sort_key (\<lambda>k. (loads ! k, k)) candidates)"

fun balance_sessions ::
  "nat list \<Rightarrow> (int \<times> scheduled_session) list \<Rightarrow> nat list \<Rightarrow> int list \<Rightarrow> (string, int) dict
     \<Rightarrow> exn + (string, int) dict" where
  "balance_sessions targets [] counts loads routes = Inr routes"
| "balance_sessions targets ((work, x) # xs) counts loads routes =
     (let candidates = filter (\<lambda>k. counts ! k < targets ! k) [0..<DUAL_ORACLE_NODE_COUNT] in
      if candidates = [] then Inl (ValueError ''min() arg is an empty sequence'')
      else let k = least_loaded loads candidates in
        balance_sessions targets xs (counts[k := counts ! k + 1]) (loads[k := loads ! k + work])
          (dput (sc_session_id x) (int k) routes))"

definition by_work :: "(int \<times> scheduled_session) list \<Rightarrow> (int \<times> scheduled_session) list" where
  "by_work xs = sort_key (\<lambda>(work, x). (- work, sd_source_index (sc_session x), sc_session_id x)) xs"

definition freeze_routes :: "string \<Rightarrow> scheduled_session list \<Rightarrow> exn + (string, int) dict" where
  "freeze_routes policy xs =
     (if policy = ROUTE_OFFER_RR
      then ebind (each_result (\<lambda>x. route_offer (sc_offer_index x)) xs) (\<lambda>rs.
        Inr (fold (\<lambda>(x, r). dput (sc_session_id x) r) (zip xs rs) []))
      else ebind (each_result trace_work_proxy xs) (\<lambda>works.
        balance_sessions [(length xs + 1) div 2, length xs div 2] (by_work (zip works xs)) [0, 0] [0, 0] []))"

definition node_for_session :: "'n causal \<Rightarrow> string \<Rightarrow> exn + int" where
  "node_for_session s sid = item (sy_route_by_session s) sid"

definition request_id_for :: "'n causal \<Rightarrow> string \<Rightarrow> exn + int" where
  "request_id_for s identity = item (sy_request_by_identity s) identity"

fun completed_requests_of :: "'n causal \<Rightarrow> int list \<Rightarrow> exn + completed_request list" where
  "completed_requests_of s [] = Inr []"
| "completed_requests_of s (i # is) =
     ebind (item (sy_completed_snapshots s) i) (\<lambda>r.
     ebind (completed_requests_of s is) (\<lambda>rs. Inr (r # rs)))"

definition completed_requests :: "'n causal \<Rightarrow> exn + completed_request list" where
  "completed_requests s = completed_requests_of s (sy_completion_order s)"

section \<open>The self check\<close>

text \<open>\<^verbatim>\<open>nodes[i]\<close> with the negative indices of Python.\<close>

definition node_at :: "'n causal \<Rightarrow> int \<Rightarrow> exn + 'n" where
  "node_at s i =
     (let n = int (length (sy_nodes s)); k = (if i < 0 then i + n else i) in
      if 0 \<le> k \<and> k < n then Inr (sy_nodes s ! nat k) else Inl IndexError)"

definition runtime_owner_error :: "'n serving \<Rightarrow> 'n causal \<Rightarrow> call_spec \<Rightarrow> exn option" where
  "runtime_owner_error M s spec =
     (if dget (sy_runtime_calls s) (sp_request_id spec) = None then None
      else case node_at s (sp_node_id spec) of
        Inl e \<Rightarrow> Some e
      | Inr n \<Rightarrow> if sv_call M n (sp_request_id spec) = None
          then Some (AssertionError (case sy_class s of Single _ \<Rightarrow> ''runtime call is not owned by the single node''
            | _ \<Rightarrow> ''runtime call is owned by the wrong node''))
          else None)"

definition spec_check :: "'n serving \<Rightarrow> 'n causal \<Rightarrow> call_spec \<Rightarrow> exn option" where
  "spec_check M s spec =
     or_else (case sy_class s of
         Single _ \<Rightarrow> if sp_node_id spec \<noteq> 0 then Some (AssertionError ''single-node spec has invalid route: '')
           else None
       | _ \<Rightarrow> if sy_route_policy s = ROUTE_OFFER_RR \<and> sp_node_id spec \<noteq> sp_offer_index spec mod 2
           then Some (AssertionError ''non-deterministic route in spec='') else None)
     (or_else (case item (sy_route_by_session s) (sp_session_id spec) of
         Inl e \<Rightarrow> Some e
       | Inr r \<Rightarrow> if r \<noteq> sp_node_id spec
           then Some (AssertionError ''non-sticky session route in spec='') else None)
       (runtime_owner_error M s spec))"

definition shape_check :: "'n serving \<Rightarrow> 'n causal \<Rightarrow> exn option" where
  "shape_check M s =
     (let routes = set (dvalues (sy_route_by_session s)) in case sy_class s of
       Single _ \<Rightarrow> first_error
         [(length (sy_nodes s) \<noteq> 1 \<or> (case sy_nodes s of n # _ \<Rightarrow> sv_node_id M n \<noteq> 0 | [] \<Rightarrow> True),
            AssertionError ''single-node system must own exactly GPU node 0''),
          (routes - {0} \<noteq> {}, AssertionError ''single-node system contains invalid route'')]
     | _ \<Rightarrow> first_error
         [(length (sy_nodes s) \<noteq> DUAL_ORACLE_NODE_COUNT,
            AssertionError ''dual oracle must have exactly two nodes''),
          (routes - {0, 1} \<noteq> {}, AssertionError ''dual oracle contains an invalid route'')])"

definition drain_check :: "'n causal \<Rightarrow> exn option" where
  "drain_check s =
     (let specs = length (sy_call_specs s) in first_error
       [(\<not> set (sy_completed_ids s) \<subseteq> set (sy_released_ids s),
          AssertionError ''completed request was never released''),
        (sm_released_calls (sy_metrics s) \<noteq> int (length (sy_released_ids s)),
          AssertionError ''released-call metric mismatch''),
        (sm_completed_calls (sy_metrics s) \<noteq> int (length (sy_completed_ids s)),
          AssertionError ''completed-call metric mismatch''),
        (set (sy_completed_ids s) \<noteq> set (dkeys (sy_completed_snapshots s)),
          AssertionError ''completed-request snapshot mismatch''),
        (sy_finished s \<and> (length (sy_completed_ids s) \<noteq> specs \<or>
            (case sy_class s of Single _ \<Rightarrow> length (sy_released_ids s) \<noteq> specs | _ \<Rightarrow> False)),
          AssertionError (case sy_class s of Single _ \<Rightarrow> ''finished system lacks full call drain''
            | _ \<Rightarrow> ''finished system lacks completions'')),
        (\<not> distinct (sy_completed_session_order s), AssertionError ''session completed more than once''),
        (sy_finished s \<and> int (length (sy_completed_session_order s)) \<noteq> sm_scheduled_sessions (sy_metrics s),
          AssertionError ''finished system lacks session completions'')])"

definition system_check :: "'n serving \<Rightarrow> 'n causal \<Rightarrow> exn option" where
  "system_check M s =
     or_else (find_error (sv_check M) (sy_nodes s))
     (or_else (shape_check M s)
     (or_else (find_error (spec_check M s) (sy_call_specs s))
     (or_else (drain_check s)
       (sv_family_check M (sy_nodes s)))))"

end
