(* ===== verification/Causal_Loop.thy ===== *)
theory Causal_Loop
  imports Causal_System
begin

text \<open>
  The operations of the systems: loading a schedule, and the event loop of \<^verbatim>\<open>gpu_pd_dual_oracle.py\<close>,
  \<^verbatim>\<open>gpu_pd_dual_tiered.py\<close> and \<^verbatim>\<open>gpu_pd_single_system.py\<close> with the resumable cutoffs of
  \<^verbatim>\<open>comparison_cutoff.py\<close>.  The methods that the classes repeat with their own messages are one
  definition with the class of the system as a field.
\<close>

section \<open>Releases\<close>

definition queue_release :: "int \<Rightarrow> int \<Rightarrow> 'n causal \<Rightarrow> (unit, 'n causal) outcome" where
  "queue_release request_id release_ns s =
     (if request_id \<in> set (sy_queued_release_ids s)
      then (Inl (RuntimeError (''request_id='' @ show_int request_id @ '' was released twice'')), s)
      else if release_ns < 0 then (Inl (ValueError ''release_ns must be a non-negative integer''), s)
      else
        let s = s\<lparr>sy_release_heap := heappush (release_ns, request_id) (sy_release_heap s),
              sy_queued_release_ids := set_add request_id (sy_queued_release_ids s)\<rparr>
        in (Inr (), system_metric (\<lambda>m. m\<lparr>sm_max_release_heap :=
              max (sm_max_release_heap m) (int (length (sy_release_heap s)))\<rparr>) s))"

section \<open>Loading a schedule\<close>

definition schedule_error :: "scheduled_session list \<Rightarrow> exn option" where
  "schedule_error xs =
     or_else (first_error [(xs = [], ValueError ''scheduled_sessions cannot be empty'')])
     (or_else (find_error validate_scheduled xs)
       (first_error
         [(\<not> distinct (map sc_offer_index xs), ValueError ''scheduled sessions contain duplicate offers''),
          (\<not> distinct (map sc_session_id xs), ValueError ''scheduled sessions contain duplicate session IDs''),
          (\<not> distinct (map (\<lambda>x. sd_source_index (sc_session x)) xs),
            ValueError ''scheduled sessions contain duplicate source indices'')]))"

definition canonical_order :: "scheduled_session list \<Rightarrow> scheduled_session list" where
  "canonical_order xs = sort_key (\<lambda>x. (sd_source_index (sc_session x), sc_session_id x)) xs"

definition new_spec :: "int \<Rightarrow> request_key \<Rightarrow> scheduled_session \<Rightarrow> int \<Rightarrow> call_demand \<Rightarrow> bool \<Rightarrow> call_spec" where
  "new_spec request_id key x node_id c has_successor =
     \<lparr>sp_request_id = request_id, sp_key = key, sp_source_index = sd_source_index (sc_session x),
      sp_offer_index = sc_offer_index x, sp_node_id = node_id, sp_session_id = sc_session_id x,
      sp_call_index = cd_call_index c, sp_input_tokens = cd_input_tokens c,
      sp_output_tokens = cd_output_tokens c, sp_cached_prefix_tokens = cd_cached_prefix_tokens c,
      sp_tool_duration_ns = cd_tool_duration_ns c, sp_has_successor = has_successor\<rparr>"

definition identity_error :: "string \<Rightarrow> exn" where
  "identity_error identity =
     ValueError (''scheduled calls contain duplicate completion identity='' @ py_repr identity)"

text \<open>A call enters the schedule: the first of its session at its arrival, another one behind its
  predecessor.\<close>

definition link_call :: "int option \<Rightarrow> int \<Rightarrow> int \<Rightarrow> 'n causal \<Rightarrow> (unit, 'n causal) outcome" where
  "link_call prior request_id arrival s =
     (case prior of
        None \<Rightarrow> queue_release request_id arrival
          (s\<lparr>sy_first_arrival_by_request := dput request_id arrival (sy_first_arrival_by_request s)\<rparr>)
      | Some p \<Rightarrow> (Inr (), s\<lparr>sy_successor_by_request := dput p request_id (sy_successor_by_request s)\<rparr>))"

fun load_calls ::
  "scheduled_session \<Rightarrow> int \<Rightarrow> call_demand list \<Rightarrow> int option \<Rightarrow> string list \<Rightarrow> int \<Rightarrow> call_spec list
     \<Rightarrow> 'n causal \<Rightarrow> (string list \<times> int \<times> call_spec list, 'n causal) outcome" where
  "load_calls x node_id [] prior identities next_id specs s = (Inr (identities, next_id, specs), s)"
| "load_calls x node_id (c # cs) prior identities next_id specs s =
     (let identity = completion_identity (cd_session_id c) (cd_call_index c) in
      if identity \<in> set identities then (Inl (identity_error identity), s)
      else andthen (lift_err (new_request_key (sc_session_id x) (cd_call_index c)) s) (\<lambda>key s.
        let spec = new_spec next_id key x node_id c (cs \<noteq> []);
            s = s\<lparr>sy_spec_by_request := dput next_id spec (sy_spec_by_request s),
                  sy_request_by_identity := dput identity next_id (sy_request_by_identity s)\<rparr>
        in andthen (link_call prior next_id (sc_arrival_time_ns x) s) (\<lambda>_ s.
          load_calls x node_id cs (Some next_id) (identity # identities) (next_id + 1) (specs @ [spec]) s)))"

fun load_sessions ::
  "(string, int) dict \<Rightarrow> scheduled_session list \<Rightarrow> string list \<Rightarrow> int \<Rightarrow> call_spec list \<Rightarrow> 'n causal
     \<Rightarrow> (call_spec list, 'n causal) outcome" where
  "load_sessions routes [] identities next_id specs s = (Inr specs, s)"
| "load_sessions routes (x # xs) identities next_id specs s =
     andthen (lift_err (item routes (sc_session_id x)) s) (\<lambda>node_id s.
     let s = s\<lparr>sy_route_by_session := dput (sc_session_id x) node_id (sy_route_by_session s),
               sy_offer_by_session := dput (sc_session_id x) (sc_offer_index x) (sy_offer_by_session s)\<rparr>
     in andthen (load_calls x node_id (sc_calls x) None identities next_id specs s)
          (\<lambda>(identities, next_id, specs) s. load_sessions routes xs identities next_id specs s))"

definition loaded_with :: "'n serving \<Rightarrow> int \<Rightarrow> call_spec list \<Rightarrow> 'n causal \<Rightarrow> (unit, 'n causal) outcome" where
  "loaded_with M sessions specs s =
     (let s = s\<lparr>sy_call_specs := specs\<rparr>;
          s = system_metric (\<lambda>m. m\<lparr>sm_scheduled_sessions := sessions,
                sm_scheduled_calls := int (length specs)\<rparr>) s;
          s = s\<lparr>sy_loaded := True\<rparr>
      in raise_if (system_check M s) s)"

definition oracle_load :: "'n serving \<Rightarrow> scheduled_session list \<Rightarrow> 'n causal \<Rightarrow> (unit, 'n causal) outcome" where
  "oracle_load M xs s =
     (if sy_loaded s then (Inl (RuntimeError ''dual oracle schedule is already loaded''), s)
      else case schedule_error xs of Some e \<Rightarrow> (Inl e, s) | None \<Rightarrow>
        andthen (lift_err (freeze_routes (sy_route_policy s) xs) s) (\<lambda>routes s.
        andthen (lift_err (each_result trace_work_proxy xs) s) (\<lambda>works s.
        let s = s\<lparr>sy_route_work_by_session :=
              fold (\<lambda>(x, w). dput (sc_session_id x) w) (zip xs works) []\<rparr>
        in andthen (load_sessions routes (canonical_order xs) [] 0 [] s) (\<lambda>specs s.
          loaded_with M (int (length xs)) specs s))))"

text \<open>The probes of the tiered systems: every call must be valid and fit every node before anything is
  loaded.\<close>

fun probe_calls :: "'n serving \<Rightarrow> 'n list \<Rightarrow> scheduled_session \<Rightarrow> int \<Rightarrow> call_demand list \<Rightarrow> exn option" where
  "probe_calls M nodes x i [] = None"
| "probe_calls M nodes x i (c # cs) =
     (let probe = \<lparr>rc_request_id = i, rc_session_id = sc_session_id x, rc_call_index = cd_call_index c,
            rc_release_ns = sc_arrival_time_ns x, rc_input_tokens = cd_input_tokens c,
            rc_output_tokens = cd_output_tokens c, rc_prefix_reuse_tokens = cd_cached_prefix_tokens c,
            rc_has_successor = (cs \<noteq> [])\<rparr>
      in or_else (sv_validate_call M probe)
         (or_else (find_error (sv_capacity_error M probe) nodes)
           (probe_calls M nodes x (i + 1) cs)))"

definition probe_session :: "'n serving \<Rightarrow> 'n list \<Rightarrow> scheduled_session \<Rightarrow> exn option" where
  "probe_session M nodes x = or_else (validate_scheduled x) (probe_calls M nodes x 0 (sc_calls x))"

definition tiered_load :: "'n serving \<Rightarrow> scheduled_session list \<Rightarrow> 'n causal \<Rightarrow> (unit, 'n causal) outcome" where
  "tiered_load M xs s =
     (if sy_loaded s then (Inl (RuntimeError ''dual tiered schedule is already loaded''), s)
      else case find_error (probe_session M (sy_nodes s)) xs of Some e \<Rightarrow> (Inl e, s)
        | None \<Rightarrow> oracle_load M xs s)"

text \<open>The single-node system builds and checks all specifications before it changes its state.\<close>

definition preflight_call :: "'n serving \<Rightarrow> 'n list \<Rightarrow> runtime_call \<Rightarrow> exn option" where
  "preflight_call M nodes c = or_else (sv_validate_call M c) (find_error (sv_capacity_error M c) nodes)"

fun provisional_calls ::
  "'n serving \<Rightarrow> 'n list \<Rightarrow> scheduled_session \<Rightarrow> call_demand list \<Rightarrow> string list \<Rightarrow> int
     \<Rightarrow> (scheduled_session \<times> call_spec) list
     \<Rightarrow> exn + (string list \<times> int \<times> (scheduled_session \<times> call_spec) list)" where
  "provisional_calls M nodes x [] identities next_id specs = Inr (identities, next_id, specs)"
| "provisional_calls M nodes x (c # cs) identities next_id specs =
     (let identity = completion_identity (cd_session_id c) (cd_call_index c) in
      if identity \<in> set identities then Inl (identity_error identity)
      else ebind (new_request_key (sc_session_id x) (cd_call_index c)) (\<lambda>key.
        let spec = new_spec next_id key x 0 c (cs \<noteq> []) in
        case preflight_call M nodes (runtime_call_of spec (sc_arrival_time_ns x)) of Some e \<Rightarrow> Inl e
        | None \<Rightarrow> provisional_calls M nodes x cs (identity # identities) (next_id + 1) (specs @ [(x, spec)])))"

fun provisional_sessions ::
  "'n serving \<Rightarrow> 'n list \<Rightarrow> scheduled_session list \<Rightarrow> string list \<Rightarrow> int
     \<Rightarrow> (scheduled_session \<times> call_spec) list \<Rightarrow> exn + (scheduled_session \<times> call_spec) list" where
  "provisional_sessions M nodes [] identities next_id specs = Inr specs"
| "provisional_sessions M nodes (x # xs) identities next_id specs =
     ebind (provisional_calls M nodes x (sc_calls x) identities next_id specs)
       (\<lambda>(identities, next_id, specs). provisional_sessions M nodes xs identities next_id specs)"

fun load_specs ::
  "(scheduled_session \<times> call_spec) list \<Rightarrow> (string, int) dict \<Rightarrow> 'n causal \<Rightarrow> (unit, 'n causal) outcome" where
  "load_specs [] prior s = (Inr (), s)"
| "load_specs ((x, spec) # xs) prior s =
     (let sid = sp_session_id spec; i = sp_request_id spec;
          s = s\<lparr>sy_spec_by_request := dput i spec (sy_spec_by_request s),
                sy_request_by_identity := dput (completion_identity (rk_session_id (sp_key spec))
                  (rk_sub_request_index (sp_key spec))) i (sy_request_by_identity s),
                sy_route_by_session := dput sid 0 (sy_route_by_session s),
                sy_offer_by_session := dput sid (sp_offer_index spec) (sy_offer_by_session s)\<rparr>
      in andthen (link_call (dget prior sid) i (sc_arrival_time_ns x) s) (\<lambda>_ s.
           load_specs xs (dput sid i prior) s))"

definition single_load :: "'n serving \<Rightarrow> scheduled_session list \<Rightarrow> 'n causal \<Rightarrow> (unit, 'n causal) outcome" where
  "single_load M xs s =
     (if sy_loaded s then (Inl (RuntimeError ''single-node schedule is already loaded''), s)
      else case schedule_error xs of Some e \<Rightarrow> (Inl e, s) | None \<Rightarrow>
        andthen (lift_err (provisional_sessions M (sy_nodes s) (canonical_order xs) [] 0 []) s) (\<lambda>specs s.
        andthen (load_specs specs [] s) (\<lambda>_ s.
          loaded_with M (int (length xs)) (map snd specs) s)))"

definition system_load :: "'n serving \<Rightarrow> scheduled_session list \<Rightarrow> 'n causal \<Rightarrow> (unit, 'n causal) outcome" where
  "system_load M xs s = (case sy_class s of Dual_Oracle \<Rightarrow> oracle_load M xs s
     | Dual_Tiered _ \<Rightarrow> tiered_load M xs s | Single _ \<Rightarrow> single_load M xs s)"

section \<open>Completions and releases at one time\<close>

text \<open>An operation on every node in turn; an exception keeps what the earlier ones did.\<close>

fun each_node :: "(nat \<Rightarrow> 'n \<Rightarrow> ('a, 'n) outcome option) \<Rightarrow> nat \<Rightarrow> 'n list \<Rightarrow> ('a list, 'n list) outcome option" where
  "each_node f k [] = Some (Inr [], [])"
| "each_node f k (n # ns) =
     (case f k n of None \<Rightarrow> None
      | Some (Inl e, n) \<Rightarrow> Some (Inl e, n # ns)
      | Some (Inr x, n) \<Rightarrow>
          (case each_node f (Suc k) ns of None \<Rightarrow> None
           | Some (Inl e, ns) \<Rightarrow> Some (Inl e, n # ns)
           | Some (Inr xs, ns) \<Rightarrow> Some (Inr (x # xs), n # ns)))"

definition at_nodes :: "(nat \<Rightarrow> 'n \<Rightarrow> ('a, 'n) outcome option) \<Rightarrow> 'n causal \<Rightarrow> ('a list, 'n causal) outcome option" where
  "at_nodes f s = map_option (\<lambda>(r, ns). (r, s\<lparr>sy_nodes := ns\<rparr>)) (each_node f 0 (sy_nodes s))"

definition pop_views :: "'n serving \<Rightarrow> 'n \<Rightarrow> ((int \<times> call_view) list, 'n) outcome" where
  "pop_views M n = andthen (sv_pop_completed M n) (\<lambda>ids n.
     (Inr (concat (map (\<lambda>i. case sv_call M n i of None \<Rightarrow> [] | Some v \<Rightarrow> [(i, v)]) ids)), n))"

text \<open>Sorting by completion and id; \<^verbatim>\<open>None\<close> does not compare with an integer.\<close>

definition sort_views :: "(int \<times> call_view) list \<Rightarrow> exn + (int \<times> call_view) list" where
  "sort_views xs =
     (if (\<exists>x \<in> set xs. cv_user_completion_ns (snd x) = None) \<and>
         (\<exists>x \<in> set xs. cv_user_completion_ns (snd x) \<noteq> None)
      then Inl TypeError
      else Inr (sort_key (\<lambda>(i, v). (case cv_user_completion_ns v of None \<Rightarrow> 0 | Some t \<Rightarrow> t, i)) xs))"

definition snapshot_of :: "call_spec \<Rightarrow> call_view \<Rightarrow> int \<Rightarrow> int \<Rightarrow> exn + completed_request" where
  "snapshot_of spec v first_token completion =
     new_completed_request (sp_key spec) (cv_release_ns v) first_token completion (cv_output_tokens v)"

definition missing_tokens :: "system_class \<Rightarrow> exn" where
  "missing_tokens cls = RuntimeError (case cls of
     Dual_Oracle \<Rightarrow> ''completed oracle call lacks token timestamps''
   | Dual_Tiered _ \<Rightarrow> ''completed tiered call lacks token timestamps''
   | Single _ \<Rightarrow> ''completed single-node call lacks token timestamps'')"

definition mark_completed :: "int \<Rightarrow> 'n causal \<Rightarrow> 'n causal" where
  "mark_completed i s = s\<lparr>sy_completed_ids := set_add i (sy_completed_ids s),
     sy_completion_order := sy_completion_order s @ [i]\<rparr>"

definition system_completion :: "int \<Rightarrow> int \<times> call_view \<Rightarrow> 'n causal \<Rightarrow> (unit, 'n causal) outcome" where
  "system_completion now = (\<lambda>(i, v) s.
     if i \<in> set (sy_completed_ids s)
     then (Inl (RuntimeError (''duplicate system completion request_id='' @ show_int i)), s)
     else if cv_user_completion_ns v \<noteq> Some now
     then (Inl (RuntimeError ''node returned a completion at the wrong global time''), s)
     else andthen (lift_err (item (sy_spec_by_request s) i) s) (\<lambda>spec s.
       if cv_session_id v \<noteq> sp_session_id spec \<or> cv_call_index v \<noteq> sp_call_index spec
       then (Inl (RuntimeError ''runtime completion does not match frozen call spec''), s)
       else case (cv_first_token_ns v, cv_completion_ns v) of
         (Some first_token, Some completion) \<Rightarrow>
           andthen (lift_err (snapshot_of spec v first_token completion) (mark_completed i s)) (\<lambda>r s.
           let s = s\<lparr>sy_completed_snapshots := dput i r (sy_completed_snapshots s)\<rparr>;
               s = system_metric (\<lambda>m. m\<lparr>sm_completed_calls := sm_completed_calls m + 1\<rparr>) s
           in case dget (sy_successor_by_request s) i of
                Some j \<Rightarrow> queue_release j (now + sp_tool_duration_ns spec) s
              | None \<Rightarrow> (Inr (), s\<lparr>sy_completed_session_order :=
                  sy_completed_session_order s @ [sp_session_id spec]\<rparr>))
       | _ \<Rightarrow> (Inl (missing_tokens (sy_class s)),
               if sy_class s = Dual_Oracle then mark_completed i s else s)))"

definition consume_node_completions :: "'n serving \<Rightarrow> int \<Rightarrow> 'n causal \<Rightarrow> (unit, 'n causal) outcome option" where
  "consume_node_completions M now s =
     and_then (at_nodes (\<lambda>k n. Some (pop_views M n)) s) (\<lambda>views s. Some (
       andthen (lift_err (sort_views (concat views)) s) (\<lambda>completed s.
         each (system_completion now) completed s)))"

text \<open>The calls released now, with their nodes; the heap is the ordered list of its entries.\<close>

fun pop_releases_loop ::
  "int \<Rightarrow> (int \<times> int) list \<Rightarrow> (int \<times> runtime_call) list \<Rightarrow> 'n causal
     \<Rightarrow> ((int \<times> runtime_call) list, 'n causal) outcome" where
  "pop_releases_loop now [] arrivals s = (Inr arrivals, s)"
| "pop_releases_loop now ((release_ns, i) # h) arrivals s =
     (if release_ns \<noteq> now
      then (if release_ns < now
            then (Inl (RuntimeError ''global release heap fell behind current time''), s)
            else (Inr arrivals, s))
      else
        let s = s\<lparr>sy_release_heap := h\<rparr> in
        if i \<in> set (sy_released_ids s)
        then (Inl (RuntimeError (''duplicate runtime release request_id='' @ show_int i)), s)
        else andthen (lift_err (item (sy_spec_by_request s) i) s) (\<lambda>spec s.
          let call = runtime_call_of spec release_ns;
              s = s\<lparr>sy_released_ids := set_add i (sy_released_ids s),
                    sy_runtime_calls := dput i call (sy_runtime_calls s)\<rparr>
          in if sp_node_id spec < 0 \<or> int (length (sy_nodes s)) \<le> sp_node_id spec
             then (Inl KeyError, s)
             else pop_releases_loop now h (arrivals @ [(sp_node_id spec, call)])
               (system_metric (\<lambda>m. m\<lparr>sm_released_calls := sm_released_calls m + 1\<rparr>) s)))"

definition pop_releases :: "int \<Rightarrow> 'n causal \<Rightarrow> ((int \<times> runtime_call) list, 'n causal) outcome" where
  "pop_releases now s = pop_releases_loop now (sy_release_heap s) [] s"

definition calls_for :: "nat \<Rightarrow> (int \<times> runtime_call) list \<Rightarrow> runtime_call list" where
  "calls_for k arrivals = sort_key rc_request_id (map snd (filter (\<lambda>a. fst a = int k) arrivals))"

section \<open>The event loop\<close>

text \<open>\<^verbatim>\<open>any\<close> stops at the first node with an event now.\<close>

fun any_event_now :: "'n serving \<Rightarrow> int \<Rightarrow> 'n list \<Rightarrow> bool \<times> 'n list" where
  "any_event_now M now [] = (False, [])"
| "any_event_now M now (n # ns) =
     (case sv_next_event M n of (e, n) \<Rightarrow>
      if e = Some now then (True, n # ns)
      else case any_event_now M now ns of (b, ns) \<Rightarrow> (b, n # ns))"

definition same_time_work_exists :: "'n serving \<Rightarrow> int \<Rightarrow> 'n causal \<Rightarrow> bool \<times> 'n causal" where
  "same_time_work_exists M now s =
     (case heappeek (sy_release_heap s) of
        Some (t, _) \<Rightarrow> if t = now then (True, s)
          else (case any_event_now M now (sy_nodes s) of (b, ns) \<Rightarrow> (b, s\<lparr>sy_nodes := ns\<rparr>))
      | None \<Rightarrow> (case any_event_now M now (sy_nodes s) of (b, ns) \<Rightarrow> (b, s\<lparr>sy_nodes := ns\<rparr>)))"

text \<open>One round: every node is advanced before any completion is observed, and every node then has
  exactly one scheduling boundary.\<close>

definition fixed_point_round :: "'n serving \<Rightarrow> int \<Rightarrow> 'n causal \<Rightarrow> (unit, 'n causal) outcome option" where
  "fixed_point_round M now s =
     and_then (at_nodes (\<lambda>k n. sv_advance M now True n) s) (\<lambda>_ s.
     and_then (consume_node_completions M now s) (\<lambda>_ s.
     and_then (Some (pop_releases now s)) (\<lambda>arrivals s.
     and_then (at_nodes (\<lambda>k n.
         let calls = calls_for k arrivals in
         if calls \<noteq> [] then sv_submit_many M calls now n else Some (sv_flush_scheduling M now n)) s) (\<lambda>_ s.
       Some (Inr (), (system_metric (\<lambda>m. m\<lparr>sm_fixed_point_rounds := sm_fixed_point_rounds m + 1\<rparr>) s)
         \<lparr>sy_current_ns := now\<rparr>)))))"

text \<open>The loop over the rounds, with the number of rounds that are left; the code raises after
  \<^verbatim>\<open>scheduled_calls + 4\<close> of them.\<close>

fun fixed_point :: "'n serving \<Rightarrow> nat \<Rightarrow> int \<Rightarrow> 'n causal \<Rightarrow> (unit, 'n causal) outcome option" where
  "fixed_point M 0 now s = Some (Inl (RuntimeError ''same-timestamp fixed point did not converge''), s)"
| "fixed_point M (Suc k) now s =
     and_then (fixed_point_round M now s) (\<lambda>_ s.
       case same_time_work_exists M now s of
         (True, s) \<Rightarrow> fixed_point M k now s
       | (False, s) \<Rightarrow> Some (Inr (), s))"

definition backwards_text :: "system_class \<Rightarrow> string" where
  "backwards_text cls = (case cls of
     Dual_Oracle \<Rightarrow> ''global oracle time cannot move backwards''
   | Dual_Tiered _ \<Rightarrow> ''global tiered time cannot move backwards''
   | Single _ \<Rightarrow> ''global single-node time cannot move backwards'')"

definition process_timestamp :: "'n serving \<Rightarrow> int \<Rightarrow> 'n causal \<Rightarrow> (unit, 'n causal) outcome option" where
  "process_timestamp M now s =
     (if now < sy_current_ns s then Some (Inl (ValueError (backwards_text (sy_class s))), s)
      else
        let s = system_metric (\<lambda>m. m\<lparr>sm_event_timestamps := sm_event_timestamps m + 1\<rparr>) s in
        and_then (fixed_point M (nat (sm_scheduled_calls (sy_metrics s) + 4)) now s) (\<lambda>_ s. Some (
          if sy_validate_every_event s then raise_if (system_check M s) s else (Inr (), s))))"

fun node_events :: "'n serving \<Rightarrow> 'n list \<Rightarrow> int list \<times> 'n list" where
  "node_events M [] = ([], [])"
| "node_events M (n # ns) =
     (case sv_next_event M n of (e, n) \<Rightarrow> case node_events M ns of (ts, ns) \<Rightarrow>
        ((case e of None \<Rightarrow> [] | Some t \<Rightarrow> [t]) @ ts, n # ns))"

definition system_next_event :: "'n serving \<Rightarrow> 'n causal \<Rightarrow> int option \<times> 'n causal" where
  "system_next_event M s =
     (case node_events M (sy_nodes s) of (ts, ns) \<Rightarrow>
      let values = (case heappeek (sy_release_heap s) of None \<Rightarrow> [] | Some (t, _) \<Rightarrow> [t]) @ ts
      in (if values = [] then None else Some (min_list1 values), s\<lparr>sy_nodes := ns\<rparr>))"

section \<open>Running\<close>

definition drained :: "'n serving \<Rightarrow> 'n causal \<Rightarrow> bool" where
  "drained M s \<longleftrightarrow>
     int (length (sy_completed_ids s)) = sm_scheduled_calls (sy_metrics s) \<and>
     list_all (\<lambda>n. list_all (\<lambda>i. case sv_call M n i of None \<Rightarrow> False | Some v \<Rightarrow> cv_internal_complete v)
       (sv_call_ids M n)) (sy_nodes s) \<and>
     int (length (sy_released_ids s)) = sm_scheduled_calls (sy_metrics s)"

definition show_ids :: "int list \<Rightarrow> string" where
  "show_ids xs = ''['' @ join '', '' (map show_int xs) @ '']''"

definition pending_ids :: "'n serving \<Rightarrow> 'n \<Rightarrow> int list" where
  "pending_ids M n = filter (\<lambda>i. case sv_call M n i of None \<Rightarrow> False | Some v \<Rightarrow> \<not> cv_internal_complete v)
     (sv_call_ids M n)"

definition deadlock_detail :: "'n serving \<Rightarrow> 'n causal \<Rightarrow> string" where
  "deadlock_detail M s =
     (let ids = dkeys (sy_spec_by_request s);
          unreleased = sort (filter (\<lambda>i. i \<notin> set (sy_released_ids s)) ids);
          unfinished = sort (filter (\<lambda>i. i \<notin> set (sy_completed_ids s)) ids);
          front = (case sy_class s of Dual_Oracle \<Rightarrow> [] | Dual_Tiered policy \<Rightarrow> ''policy='' @ policy @ '', ''
            | Single mode \<Rightarrow> ''mode='' @ mode @ '', '');
          pending = (case sy_class s of
              Single _ \<Rightarrow> show_ids (take 8 (sort (concat (map (pending_ids M) (sy_nodes s)))))
            | _ \<Rightarrow> ''{'' @ join '', '' (map (\<lambda>n. show_int (sv_node_id M n) @ '': '' @ show_ids (pending_ids M n))
                (sy_nodes s)) @ ''}'')
      in front @ ''unreleased='' @ show_ids (take 8 unreleased) @ '', unfinished='' @ show_ids (take 8 unfinished)
        @ '', node_pending='' @ pending)"

definition deadlock_error :: "'n serving \<Rightarrow> 'n causal \<Rightarrow> exn" where
  "deadlock_error M s = RuntimeError ((case sy_class s of
       Dual_Oracle \<Rightarrow> ''unfinished dual-oracle work has no future event: ''
     | Dual_Tiered _ \<Rightarrow> ''unfinished dual-tiered work has no future event: ''
     | Single _ \<Rightarrow> ''unfinished single-node work has no future event: '') @ deadlock_detail M s)"

partial_function (option) run_loop :: "'n serving \<Rightarrow> 'n causal \<Rightarrow> (unit, 'n causal) outcome option" where
  "run_loop M s =
     (case system_next_event M s of
        (None, s) \<Rightarrow> Some (if drained M s then (Inr (), s) else (Inl (deadlock_error M s), s))
      | (Some t, s) \<Rightarrow>
          (case process_timestamp M t s of
             None \<Rightarrow> None
           | Some (Inl e, s) \<Rightarrow> Some (Inl e, s)
           | Some (Inr _, s) \<Rightarrow> run_loop M s))"

text \<open>The flag \<^verbatim>\<open>_running\<close> is reset on every way out of the loop.\<close>

definition while_running :: "('n causal \<Rightarrow> ('a, 'n causal) outcome option) \<Rightarrow> 'n causal \<Rightarrow> ('a, 'n causal) outcome option" where
  "while_running f s = map_option (\<lambda>(r, s). (r, s\<lparr>sy_running := False\<rparr>)) (f (s\<lparr>sy_running := True\<rparr>))"

definition load_given :: "'n serving \<Rightarrow> scheduled_session list option \<Rightarrow> 'n causal \<Rightarrow> (unit, 'n causal) outcome" where
  "load_given M given s = (case given of None \<Rightarrow> (Inr (), s) | Some xs \<Rightarrow> system_load M xs s)"

definition running_text :: "system_class \<Rightarrow> string" where
  "running_text cls = (case cls of
     Dual_Oracle \<Rightarrow> ''dual oracle is already running''
   | Dual_Tiered _ \<Rightarrow> ''dual tiered baseline is already running''
   | Single _ \<Rightarrow> ''single-node system is already running'')"

definition system_run ::
  "'n serving \<Rightarrow> scheduled_session list option \<Rightarrow> 'n causal \<Rightarrow> (completed_request list, 'n causal) outcome option" where
  "system_run M given s =
     and_then (Some (load_given M given s)) (\<lambda>_ s.
       if \<not> sy_loaded s then Some (Inl (RuntimeError ''load a schedule before running''), s)
       else if sy_running s then Some (Inl (RuntimeError (running_text (sy_class s))), s)
       else if sy_finished s then Some (lift_err (completed_requests s) s)
       else and_then (while_running (run_loop M) s) (\<lambda>_ s.
         let s = s\<lparr>sy_finished := True\<rparr> in Some (
           andthen (raise_if (system_check M s) s) (\<lambda>_ s. lift_err (completed_requests s) s))))"

section \<open>Resumable cutoffs\<close>

text \<open>\<^verbatim>\<open>ResumableCutoffEventLoopMixin\<close>: process the events inside a boundary, and audit the state there.\<close>

record partial_run_audit =
  pa_cutoff_ns :: int
  pa_inclusive :: bool
  pa_current_ns :: int
  pa_last_processed_event_ns :: "int option"
  pa_next_event_ns :: "int option"
  pa_scheduled_request_ids :: "int list"
  pa_unreleased_request_ids :: "int list"
  pa_released_live_request_ids :: "int list"
  pa_user_completed_request_ids :: "int list"
  pa_internal_work_request_ids :: "int list"
  pa_internal_complete_request_ids :: "int list"
  pa_user_completed_internal_work_request_ids :: "int list"
  pa_system_finished :: bool

definition sorted_set :: "int list \<Rightarrow> int list" where
  "sorted_set xs = sort (remdups xs)"

definition audit_clock_error :: "partial_run_audit \<Rightarrow> exn option" where
  "audit_clock_error a = first_error
     [(pa_cutoff_ns a < 0, ValueError ''cutoff_ns must be a non-negative integer''),
      (pa_current_ns a < 0 \<or> pa_cutoff_ns a < pa_current_ns a,
        ValueError ''current_ns must lie within the cutoff boundary''),
      (\<exists>t \<in> set_option (pa_last_processed_event_ns a). t \<noteq> pa_current_ns a,
        ValueError ''last processed event must equal the event-loop clock''),
      (\<exists>t \<in> set_option (pa_last_processed_event_ns a).
          if pa_inclusive a then pa_cutoff_ns a < t else pa_cutoff_ns a \<le> t,
        ValueError ''last processed event violates cutoff inclusivity''),
      (\<exists>t \<in> set_option (pa_next_event_ns a). t < pa_current_ns a,
        ValueError ''next event cannot precede the event-loop clock'')]"

definition audit_partition_error :: "partial_run_audit \<Rightarrow> exn option" where
  "audit_partition_error a =
     (let scheduled = set (pa_scheduled_request_ids a); unreleased = set (pa_unreleased_request_ids a);
          released_live = set (pa_released_live_request_ids a);
          user_completed = set (pa_user_completed_request_ids a);
          released = released_live \<union> user_completed;
          internal_work = set (pa_internal_work_request_ids a);
          internal_complete = set (pa_internal_complete_request_ids a)
      in first_error
        [(list_ex (\<lambda>ids. ids \<noteq> sorted_set ids)
            [pa_scheduled_request_ids a, pa_unreleased_request_ids a, pa_released_live_request_ids a,
             pa_user_completed_request_ids a, pa_internal_work_request_ids a,
             pa_internal_complete_request_ids a, pa_user_completed_internal_work_request_ids a],
           ValueError ''audit request-ID tuples must be sorted and unique''),
         (unreleased \<inter> released_live \<noteq> {} \<or> unreleased \<inter> user_completed \<noteq> {} \<or>
            released_live \<inter> user_completed \<noteq> {},
           ValueError ''user-state request-ID partition is not disjoint''),
         (unreleased \<union> released_live \<union> user_completed \<noteq> scheduled,
           ValueError ''user-state request-ID partition is not exhaustive''),
         (internal_work \<inter> internal_complete \<noteq> {},
           ValueError ''internal-state request-ID partition is not disjoint''),
         (internal_work \<union> internal_complete \<noteq> released,
           ValueError ''internal-state request-ID partition is not exhaustive''),
         (set (pa_user_completed_internal_work_request_ids a) \<noteq> user_completed \<inter> internal_work,
           ValueError ''user-completed internal-work subset is incorrect'')])"

text \<open>The call that a node owns, wherever it is; one that its node refused is still pristine.\<close>

definition internally_complete :: "'n serving \<Rightarrow> 'n causal \<Rightarrow> int \<Rightarrow> bool" where
  "internally_complete M s i = list_ex (\<lambda>n. case sv_call M n i of None \<Rightarrow> False
     | Some v \<Rightarrow> cv_internal_complete v) (sy_nodes s)"

definition audit_partial_run :: "'n serving \<Rightarrow> int \<Rightarrow> bool \<Rightarrow> 'n causal \<Rightarrow> (partial_run_audit, 'n causal) outcome" where
  "audit_partial_run M cutoff_ns inclusive s =
     (let scheduled = dkeys (sy_spec_by_request s); released = sy_released_ids s;
          completed = sy_completed_ids s; runtime = dkeys (sy_runtime_calls s) in
      if set runtime \<noteq> set released
      then (Inl (AssertionError ''runtime-call ownership does not match released IDs''), s)
      else if \<not> set completed \<subseteq> set released
      then (Inl (AssertionError ''completed request was not released''), s)
      else
        let internal_complete = filter (internally_complete M s) runtime;
            internal_work = filter (\<lambda>i. i \<notin> set internal_complete) released in
        case system_next_event M s of (next_event, s) \<Rightarrow>
        let a = \<lparr>pa_cutoff_ns = cutoff_ns, pa_inclusive = inclusive, pa_current_ns = sy_current_ns s,
              pa_last_processed_event_ns =
                (if sm_event_timestamps (sy_metrics s) \<noteq> 0 then Some (sy_current_ns s) else None),
              pa_next_event_ns = next_event,
              pa_scheduled_request_ids = sort scheduled,
              pa_unreleased_request_ids = sort (filter (\<lambda>i. i \<notin> set released) scheduled),
              pa_released_live_request_ids = sort (filter (\<lambda>i. i \<notin> set completed) released),
              pa_user_completed_request_ids = sort completed,
              pa_internal_work_request_ids = sort internal_work,
              pa_internal_complete_request_ids = sort internal_complete,
              pa_user_completed_internal_work_request_ids =
                sort (filter (\<lambda>i. i \<in> set internal_work) completed),
              pa_system_finished = sy_finished s\<rparr>
        in andthen (raise_if (or_else (audit_clock_error a) (audit_partition_error a)) s) (\<lambda>_ s. (Inr a, s)))"

definition inside_cutoff :: "int \<Rightarrow> bool \<Rightarrow> int \<Rightarrow> bool" where
  "inside_cutoff cutoff_ns inclusive t \<longleftrightarrow> (if inclusive then t \<le> cutoff_ns else t < cutoff_ns)"

partial_function (option) cutoff_loop ::
  "'n serving \<Rightarrow> int \<Rightarrow> bool \<Rightarrow> 'n causal \<Rightarrow> (unit, 'n causal) outcome option" where
  "cutoff_loop M cutoff_ns inclusive s =
     (case system_next_event M s of
        (None, s) \<Rightarrow> Some (Inr (), s)
      | (Some t, s) \<Rightarrow>
          if \<not> inside_cutoff cutoff_ns inclusive t then Some (Inr (), s)
          else (case process_timestamp M t s of
             None \<Rightarrow> None
           | Some (Inl e, s) \<Rightarrow> Some (Inl e, s)
           | Some (Inr _, s) \<Rightarrow> cutoff_loop M cutoff_ns inclusive s))"

definition run_until ::
  "'n serving \<Rightarrow> int \<Rightarrow> bool \<Rightarrow> scheduled_session list option \<Rightarrow> 'n causal
     \<Rightarrow> (partial_run_audit, 'n causal) outcome option" where
  "run_until M cutoff_ns inclusive given s =
     (if cutoff_ns < 0 then Some (Inl (ValueError ''cutoff_ns must be a non-negative integer''), s)
      else and_then (Some (load_given M given s)) (\<lambda>_ s.
       if \<not> sy_loaded s then Some (Inl (RuntimeError ''load a schedule before running''), s)
       else if sy_running s then Some (Inl (RuntimeError ''comparison system is already running''), s)
       else if cutoff_ns < sy_current_ns s
       then Some (Inl (ValueError ''cutoff_ns cannot precede current event-loop time''), s)
       else if \<not> inclusive \<and> sm_event_timestamps (sy_metrics s) \<noteq> 0 \<and> cutoff_ns \<le> sy_current_ns s
       then Some (Inl (ValueError ''exclusive cutoff cannot equal an already processed event timestamp''), s)
       else and_then (while_running (cutoff_loop M cutoff_ns inclusive) s) (\<lambda>_ s. Some (
         andthen (raise_if (system_check M s) s) (\<lambda>_ s. audit_partial_run M cutoff_ns inclusive s)))))"

section \<open>The classes\<close>

text \<open>The nodes of a tiered pair must not share a resource and must have the policy of the system; two
  constructions never share a calendar or a ledger object.\<close>

definition tiered_pair_check :: "string \<Rightarrow> string \<Rightarrow> node list \<Rightarrow> exn option" where
  "tiered_pair_check policy mode nodes =
     or_else (first_error
       [(length nodes \<noteq> DUAL_ORACLE_NODE_COUNT,
           AssertionError ''dual tiered baseline must have exactly two nodes''),
        (set (dkeys (available_ns (nd_calendar (nodes ! 0)))) \<inter>
           set (dkeys (available_ns (nd_calendar (nodes ! 1)))) \<noteq> {},
           AssertionError ''physical tiered nodes share resource names: '')])
     (find_error (\<lambda>n. if nd_policy n \<noteq> policy \<or> tl_policy (nd_lifecycle n) \<noteq> policy \<or>
           nd_restore_execution_mode n \<noteq> mode
         then Some (AssertionError ''dual tiered policy/restore propagation failed'') else None) nodes)"

definition dual_tiered_serving :: "string \<Rightarrow> string \<Rightarrow> node serving" where
  "dual_tiered_serving policy mode = tiered_serving\<lparr>sv_family_check := tiered_pair_check policy mode\<rparr>"

definition route_policy_error :: "string \<Rightarrow> exn option" where
  "route_policy_error policy = first_error [(policy \<notin> set SUPPORTED_ROUTE_POLICIES,
     ValueError (''route_policy must be one of '' @ py_repr_list SUPPORTED_ROUTE_POLICIES))]"

definition new_dual_oracle ::
  "hardware \<Rightarrow> provider \<Rightarrow> int \<Rightarrow> int \<Rightarrow> int option \<Rightarrow> int option \<Rightarrow> int \<Rightarrow> bool \<Rightarrow> string
     \<Rightarrow> exn + oracle_node causal" where
  "new_dual_oracle hw pv budget seqs p_seqs d_seqs chunk validate policy =
     (case route_policy_error policy of Some e \<Rightarrow> Inl e | None \<Rightarrow>
      ebind (each_result (\<lambda>k. new_oracle hw pv (int k) None budget seqs p_seqs d_seqs chunk validate validate)
        [0..<DUAL_ORACLE_NODE_COUNT]) (\<lambda>nodes. Inr (new_system Dual_Oracle validate policy nodes)))"

definition tier_policy_error :: "string \<Rightarrow> exn option" where
  "tier_policy_error policy = first_error [(policy \<notin> set SUPPORTED_TIER_POLICIES,
     ValueError (''unsupported tier policy '' @ py_repr policy))]"

definition new_tiered_nodes ::
  "hardware \<Rightarrow> provider \<Rightarrow> string \<Rightarrow> int option \<Rightarrow> int option \<Rightarrow> int option \<Rightarrow> int option \<Rightarrow> int \<Rightarrow> int
     \<Rightarrow> int option \<Rightarrow> int option \<Rightarrow> int \<Rightarrow> string \<Rightarrow> bool \<Rightarrow> nat list \<Rightarrow> exn + node list" where
  "new_tiered_nodes hw pv policy p_cap d_cap cpu_cap ssd_cap budget seqs p_seqs d_seqs chunk mode validate ids =
     each_result (\<lambda>k. new_node hw pv (int k) policy None p_cap d_cap cpu_cap ssd_cap budget seqs p_seqs d_seqs
       chunk mode D_RESERVATION_FINAL_UPFRONT validate validate) ids"

definition new_dual_tiered ::
  "hardware \<Rightarrow> provider \<Rightarrow> string \<Rightarrow> int option \<Rightarrow> int option \<Rightarrow> int option \<Rightarrow> int option \<Rightarrow> int \<Rightarrow> int
     \<Rightarrow> int option \<Rightarrow> int option \<Rightarrow> int \<Rightarrow> string \<Rightarrow> bool \<Rightarrow> string \<Rightarrow> exn + node causal" where
  "new_dual_tiered hw pv policy p_cap d_cap cpu_cap ssd_cap budget seqs p_seqs d_seqs chunk mode validate
     route_policy =
     (case or_else (tier_policy_error policy) (route_policy_error route_policy) of Some e \<Rightarrow> Inl e | None \<Rightarrow>
      ebind (new_tiered_nodes hw pv policy p_cap d_cap cpu_cap ssd_cap budget seqs p_seqs d_seqs chunk mode
        validate [0..<DUAL_ORACLE_NODE_COUNT]) (\<lambda>nodes.
      let s = new_system (Dual_Tiered policy) validate route_policy nodes in
      case system_check (dual_tiered_serving policy mode) s of Some e \<Rightarrow> Inl e | None \<Rightarrow> Inr s))"

definition new_single :: "'n serving \<Rightarrow> 'n \<Rightarrow> bool \<Rightarrow> string \<Rightarrow> exn + 'n causal" where
  "new_single M node validate mode =
     (if sv_node_id M node \<noteq> 0 then Inl (ValueError ''single-node systems require node_id=0'')
      else if mode = [] then Inl (ValueError ''mode must be a non-empty string'')
      else let s = new_system (Single mode) validate SINGLE_NODE_ROUTE_POLICY [node] in
        case system_check M s of Some e \<Rightarrow> Inl e | None \<Rightarrow> Inr s)"

definition new_single_oracle ::
  "hardware \<Rightarrow> provider \<Rightarrow> int \<Rightarrow> int \<Rightarrow> int option \<Rightarrow> int option \<Rightarrow> int \<Rightarrow> bool \<Rightarrow> exn + oracle_node causal" where
  "new_single_oracle hw pv budget seqs p_seqs d_seqs chunk validate =
     ebind (new_oracle hw pv 0 None budget seqs p_seqs d_seqs chunk validate validate) (\<lambda>node.
       new_single oracle_serving node validate ''single_strict_infinite_hbm_residency_oracle'')"

definition new_single_tiered ::
  "hardware \<Rightarrow> provider \<Rightarrow> string \<Rightarrow> int option \<Rightarrow> int option \<Rightarrow> int option \<Rightarrow> int option \<Rightarrow> int \<Rightarrow> int
     \<Rightarrow> int option \<Rightarrow> int option \<Rightarrow> int \<Rightarrow> string \<Rightarrow> bool \<Rightarrow> exn + node causal" where
  "new_single_tiered hw pv policy p_cap d_cap cpu_cap ssd_cap budget seqs p_seqs d_seqs chunk mode validate =
     (case tier_policy_error policy of Some e \<Rightarrow> Inl e | None \<Rightarrow>
      ebind (new_tiered_nodes hw pv policy p_cap d_cap cpu_cap ssd_cap budget seqs p_seqs d_seqs chunk mode
        validate [0]) (\<lambda>nodes.
      new_single tiered_serving (hd nodes) validate ''single_finite_hbm_p4d4_local_tiering''))"

declare run_loop.simps [code] cutoff_loop.simps [code]

end
