(* ===== verification/Causal_Safety.thy ===== *)
theory Causal_Safety
  imports Causal_Loop Node_Safety Oracle_Safety
begin

text \<open>
  The event loop of the systems.  The locale \<open>event_closed\<close> says what a predicate on systems must be
  closed under to survive the loop: steps of the nodes, a completion, the releases, the clock.  It gives
  the frame of the loop, the nodes of a reachable system, and the order of the releases; the resumption
  of a run at a cutoff rests on the loop being a function of the state at a boundary.
\<close>

section \<open>Steps of the nodes\<close>

inductive node_step :: "'n serving \<Rightarrow> 'n \<Rightarrow> 'n \<Rightarrow> bool" for M where
  same: "node_step M n n"
| advance: "sv_advance M t d n = Some (r, n') \<Longrightarrow> node_step M n n'"
| submit: "sv_submit_many M cs t n = Some (r, n') \<Longrightarrow> node_step M n n'"
| flush: "sv_flush_scheduling M t n = (r, n') \<Longrightarrow> node_step M n n'"
| pop_completed: "sv_pop_completed M n = (ids, n') \<Longrightarrow> node_step M n n'"
| next_event: "sv_next_event M n = (e, n') \<Longrightarrow> node_step M n n'"

lemma same_nodes: "list_all2 (node_step M) ns ns"
  by (simp add: list_all2_refl node_step.same)

lemma each_node_steps:
  assumes "each_node f k ns = Some (r, ns')" and "\<And>k n r n'. f k n = Some (r, n') \<Longrightarrow> node_step M n n'"
  shows "list_all2 (node_step M) ns ns'"
  using assms(1)
proof (induction ns arbitrary: k r ns')
  case (Cons n ns)
  from Cons.prems obtain x n1 where f: "f k n = Some (x, n1)" by (auto split: option.splits)
  show ?case
  proof (cases x)
    case (Inl e)
    with Cons.prems f assms(2) [OF f] show ?thesis by (auto simp: same_nodes)
  next
    case (Inr v)
    with Cons.prems f obtain y ns1 where e: "each_node f (Suc k) ns = Some (y, ns1)"
      by (auto split: option.splits)
    with Cons.prems f Inr have "ns' = n1 # ns1" by (cases y) auto
    with Cons.IH [OF e] assms(2) [OF f] show ?thesis by simp
  qed
qed simp

lemma any_event_now_steps: "any_event_now M t ns = (b, ns') \<Longrightarrow> list_all2 (node_step M) ns ns'"
  by (induction ns arbitrary: b ns')
    (auto intro: node_step.next_event simp: same_nodes split: prod.splits if_splits)

lemma node_events_steps: "node_events M ns = (ts, ns') \<Longrightarrow> list_all2 (node_step M) ns ns'"
  by (induction ns arbitrary: ts ns') (auto intro: node_step.next_event split: prod.splits)

lemma pop_views_step: "pop_views M n = (r, n') \<Longrightarrow> node_step M n n'"
  by (cases "sv_pop_completed M n"; cases "fst (sv_pop_completed M n)")
    (auto simp: pop_views_def intro: node_step.pop_completed)

section \<open>Predicates that the event loop keeps\<close>

lemma keeps_lift_err [simp]: "keeps J (lift_err m s) = J s"
  by (simp add: lift_err_def)

abbreviation count_event :: "'n causal \<Rightarrow> 'n causal" where
  "count_event \<equiv> system_metric (\<lambda>m. m\<lparr>sm_event_timestamps := sm_event_timestamps m + 1\<rparr>)"

abbreviation count_round :: "'n causal \<Rightarrow> 'n causal" where
  "count_round \<equiv> system_metric (\<lambda>m. m\<lparr>sm_fixed_point_rounds := sm_fixed_point_rounds m + 1\<rparr>)"

locale event_closed =
  fixes M :: "'n serving" and I :: "'n causal \<Rightarrow> bool"
  assumes nodes: "I s \<Longrightarrow> list_all2 (node_step M) (sy_nodes s) ns \<Longrightarrow> I (s\<lparr>sy_nodes := ns\<rparr>)"
    and completion: "I s \<Longrightarrow> I (snd (system_completion t x s))"
    and releases: "I s \<Longrightarrow> I (snd (pop_releases t s))"
    and clock: "I s \<Longrightarrow> I (s\<lparr>sy_current_ns := t\<rparr>)"
    and counted: "I s \<Longrightarrow> I (count_event s)" "I s \<Longrightarrow> I (count_round s)"
begin

lemma at_nodes_keeps:
  assumes "I s" and "\<And>k n r n'. f k n = Some (r, n') \<Longrightarrow> node_step M n n'"
  shows "keeps_if_returns I (at_nodes f s)"
proof (cases "each_node f 0 (sy_nodes s)")
  case (Some y)
  obtain r ns where y: "y = (r, ns)" by (cases y)
  from nodes [OF assms(1) each_node_steps [OF Some [unfolded y] assms(2)]] Some y
  show ?thesis by (simp add: at_nodes_def)
qed (simp add: at_nodes_def)

lemma each_completion: "I s \<Longrightarrow> keeps I (each (system_completion t) xs s)"
proof (induction xs arbitrary: s)
  case (Cons x xs)
  then have "keeps I (system_completion t x s)" using completion by (simp add: keeps_def)
  with Cons.IH show ?case by (auto intro!: keeps_andthen)
qed simp

lemma consume_node_completions: "I s \<Longrightarrow> keeps_if_returns I (consume_node_completions M t s)"
  unfolding consume_node_completions_def
  by (rule keeps_and_then, erule at_nodes_keeps)
    (auto intro: pop_views_step intro!: keeps_andthen each_completion simp: lift_err_def)

lemma fixed_point_round: "I s \<Longrightarrow> keeps_if_returns I (fixed_point_round M t s)"
  unfolding fixed_point_round_def
proof (intro keeps_and_then, goal_cases)
  case 1
  then show ?case by (rule at_nodes_keeps) (rule node_step.advance)
next
  case 2
  show ?case by (rule consume_node_completions [OF 2(2)])
next
  case (3 _ s)
  then show ?case using releases [OF 3(3)] by (simp add: keeps_def)
next
  case (4 _ s _ s' arrivals s'')
  show ?case
    by (rule at_nodes_keeps [OF 4(4)])
      (auto simp: Let_def intro: node_step.submit node_step.flush split: if_splits)
next
  case (5 _ _ _ _ _ _ _ s)
  then show ?case using clock [OF counted(2) [OF 5(5)]] by simp
qed

end

context event_closed begin

lemma same_time_work: "I s \<Longrightarrow> same_time_work_exists M t s = (b, s') \<Longrightarrow> I s'"
  by (auto simp: same_time_work_exists_def intro: nodes [OF _ any_event_now_steps]
      split: option.splits prod.splits if_splits)

lemma fixed_point: "I s \<Longrightarrow> keeps_if_returns I (fixed_point M k t s)"
proof (induction k arbitrary: s)
  case (Suc k)
  show ?case
    unfolding fixed_point.simps
  proof (rule keeps_and_then [OF fixed_point_round [OF Suc.prems]])
    fix s assume s: "I s"
    obtain b s' where b: "same_time_work_exists M t s = (b, s')" by (cases "same_time_work_exists M t s")
    with same_time_work [OF s] Suc.IH [of s']
    show "keeps_if_returns I (case same_time_work_exists M t s of (True, s) \<Rightarrow> fixed_point M k t s
        | (False, s) \<Rightarrow> Some (Inr (), s))"
      by (cases b) simp_all
  qed
qed simp

lemma keeps_raise: "I s \<Longrightarrow> keeps I (raise_if e s)"
  by (simp add: raise_if_def split: option.split)

lemma process_timestamp: "I s \<Longrightarrow> keeps_if_returns I (process_timestamp M t s)"
  unfolding process_timestamp_def Let_def
  by (auto intro!: keeps_and_then fixed_point counted keeps_raise)

lemma next_event: "I s \<Longrightarrow> system_next_event M s = (e, s') \<Longrightarrow> I s'"
  by (auto simp: system_next_event_def Let_def intro: nodes [OF _ node_events_steps] split: prod.splits)

lemma cutoff_loop: "I s \<Longrightarrow> keeps_if_returns I (cutoff_loop M c incl s)"
proof -
  have "M = M \<longrightarrow> I s \<longrightarrow> keeps I y" if "cutoff_loop M c incl s = Some y" for y
  proof (rule cutoff_loop.raw_induct [where P = "\<lambda>M' _ _ s y. M' = M \<longrightarrow> I s \<longrightarrow> keeps I y", OF _ that],
      intro impI, goal_cases)
    case (1 loop M' c incl s y)
    note loop = 1(1) and eq = 1(2) and M' = 1(3) and s = 1(4)
    obtain e s1 where e: "system_next_event M s = (e, s1)" by (cases "system_next_event M s")
    with s have s1: "I s1" using next_event by blast
    show ?case
    proof (cases "\<exists>t. e = Some t \<and> inside_cutoff c incl t")
      case True
      then obtain t where t: "e = Some t" "inside_cutoff c incl t" by blast
      with eq M' e obtain z s2 where z: "process_timestamp M t s1 = Some (z, s2)"
        by (auto split: option.splits)
      then have s2: "I s2" using process_timestamp [OF s1, of t] by simp
      show ?thesis using eq M' e t z s2 loop [of M c incl s2 y] by (cases z) (auto simp: keeps_def)
    qed (use eq M' e s1 in \<open>auto simp: keeps_def split: option.splits\<close>)
  qed
  then show "I s \<Longrightarrow> keeps_if_returns I (cutoff_loop M c incl s)" by (simp add: keeps_if_returns_def)
qed

lemma run_loop: "I s \<Longrightarrow> keeps_if_returns I (run_loop M s)"
proof -
  have "M = M \<longrightarrow> I s \<longrightarrow> keeps I y" if "run_loop M s = Some y" for y
  proof (rule run_loop.raw_induct [where P = "\<lambda>M' s y. M' = M \<longrightarrow> I s \<longrightarrow> keeps I y", OF _ that],
      intro impI, goal_cases)
    case (1 loop M' s y)
    note loop = 1(1) and eq = 1(2) and M' = 1(3) and s = 1(4)
    obtain e s1 where e: "system_next_event M s = (e, s1)" by (cases "system_next_event M s")
    with s have s1: "I s1" using next_event by blast
    show ?case
    proof (cases e)
      case (Some t)
      with eq M' e obtain z s2 where z: "process_timestamp M t s1 = Some (z, s2)"
        by (auto split: option.splits)
      then have s2: "I s2" using process_timestamp [OF s1, of t] by simp
      show ?thesis using eq M' e Some z s2 loop [of M s2 y] by (cases z) (auto simp: keeps_def)
    qed (use eq M' e s1 in \<open>auto simp: keeps_def split: if_splits\<close>)
  qed
  then show "I s \<Longrightarrow> keeps_if_returns I (run_loop M s)" by (simp add: keeps_if_returns_def)
qed

lemma audit: "I s \<Longrightarrow> keeps I (audit_partial_run M c incl s)"
proof (cases "system_next_event M s")
  case (Pair e s')
  assume "I s"
  then have "I s'" using next_event Pair by blast
  with Pair \<open>I s\<close> show ?thesis
    unfolding audit_partial_run_def Let_def by (auto intro!: keeps_andthen keeps_raise)
qed

end

section \<open>The frame of the loop\<close>

definition system_frame where
  "system_frame s = (sy_class s, sy_validate_every_event s, sy_route_policy s, sy_call_specs s,
     sy_spec_by_request s, sy_successor_by_request s, sy_first_arrival_by_request s,
     sy_route_by_session s, sm_scheduled_calls (sy_metrics s), sy_loaded s, sy_running s, sy_finished s)"

lemma system_frame_updates [simp]:
  "system_frame (s\<lparr>sy_nodes := x1\<rparr>) = system_frame s" "system_frame (s\<lparr>sy_current_ns := x2\<rparr>) = system_frame s"
  "system_frame (s\<lparr>sy_release_heap := x3\<rparr>) = system_frame s"
  "system_frame (s\<lparr>sy_queued_release_ids := x4\<rparr>) = system_frame s"
  "system_frame (s\<lparr>sy_released_ids := x5\<rparr>) = system_frame s"
  "system_frame (s\<lparr>sy_completed_ids := x6\<rparr>) = system_frame s"
  "system_frame (s\<lparr>sy_runtime_calls := x7\<rparr>) = system_frame s"
  "system_frame (s\<lparr>sy_completed_snapshots := x8\<rparr>) = system_frame s"
  "system_frame (s\<lparr>sy_completion_order := x9\<rparr>) = system_frame s"
  "system_frame (s\<lparr>sy_completed_session_order := x10\<rparr>) = system_frame s"
  by (simp_all add: system_frame_def)

lemma system_frame_metric [simp]:
  "(\<And>m. sm_scheduled_calls (f m) = sm_scheduled_calls m) \<Longrightarrow> system_frame (system_metric f s) = system_frame s"
  by (simp add: system_frame_def system_metric_def)

lemma keeps_release_frame: "keeps (\<lambda>s'. system_frame s' = F) (queue_release i t s) = (system_frame s = F)"
  by (simp add: queue_release_def Let_def)

lemma system_completion_frame: "keeps (\<lambda>s'. system_frame s' = system_frame s) (system_completion t x s)"
proof (cases x)
  case (Pair i v)
  show ?thesis
    unfolding system_completion_def Pair prod.case Let_def
    by (auto intro!: keeps_andthen simp: mark_completed_def keeps_release_frame split: option.split)
qed

lemma pop_releases_frame: "keeps (\<lambda>s'. system_frame s' = system_frame s) (pop_releases t s)"
proof -
  have "system_frame s = F \<Longrightarrow> keeps (\<lambda>s'. system_frame s' = F) (pop_releases_loop t h as s)" for h as F
    by (induction t h as s rule: pop_releases_loop.induct)
      (auto intro!: keeps_andthen simp: Let_def)
  then show ?thesis by (simp add: pop_releases_def)
qed

interpretation framed: event_closed M "\<lambda>s. system_frame s = F" for M :: "'n serving" and F
  by unfold_locales
    (use system_completion_frame pop_releases_frame in \<open>fastforce simp: keeps_def\<close>)+

section \<open>Resuming at a cutoff\<close>

text \<open>Asking a node for its next event drops stale launches only: asking again gives the same.\<close>

definition settles :: "'n serving \<Rightarrow> bool" where
  "settles M \<longleftrightarrow> (\<forall>n e n'. sv_next_event M n = (e, n') \<longrightarrow> sv_next_event M n' = (e, n'))"

lemma drop_stale_idem: "drop_stale_launches p (drop_stale_launches p h) = drop_stale_launches p h"
  by (induction h rule: drop_stale_launches.induct) auto

lemma drop_stale_heap: "drop_stale_launches (p\<lparr>pl_launch_heap := x\<rparr>) h = drop_stale_launches p h"
proof (induction h)
  case (Cons a h)
  then show ?case by (cases a; cases "snd a") simp_all
qed simp

lemma clean_idem: "clean_launch_heap (clean_launch_heap p) = clean_launch_heap p"
  by (simp add: clean_launch_heap_def drop_stale_heap drop_stale_idem)

lemma pool_settles: "next_event_ns p = (e, p') \<Longrightarrow> next_event_ns p' = (e, p')"
  by (auto simp: next_event_ns_def next_raw_event_ns_def Let_def clean_idem)

lemma oracle_settles: "settles oracle_serving"
  using pool_settles
  by (auto simp: settles_def oracle_serving_def oracle_next_event_def Let_def split: prod.splits)

lemma tiered_settles: "settles tiered_serving" "settles (dual_tiered_serving policy mode)"
  using pool_settles
  by (auto simp: settles_def tiered_serving_def dual_tiered_serving_def node_next_event_def Let_def
      split: prod.splits)

lemma node_events_settle: "settles M \<Longrightarrow> node_events M ns = (ts, ns') \<Longrightarrow> node_events M ns' = (ts, ns')"
proof (induction ns arbitrary: ts ns')
  case (Cons n ns)
  obtain e n' where n: "sv_next_event M n = (e, n')" by (cases "sv_next_event M n")
  obtain us ms where m: "node_events M ns = (us, ms)" by (cases "node_events M ns")
  with Cons.IH Cons.prems(1) n have "node_events M ms = (us, ms)" "sv_next_event M n' = (e, n')"
    by (simp_all add: settles_def)
  with Cons.prems(2) n m show ?case by auto
qed simp

lemma next_event_settles:
  "settles M \<Longrightarrow> system_next_event M s = (e, s') \<Longrightarrow> system_next_event M s' = (e, s')"
  by (cases "node_events M (sy_nodes s)") (auto simp: system_next_event_def Let_def dest: node_events_settle)

lemma next_event_running:
  "system_next_event M (s\<lparr>sy_running := b\<rparr>) = (case system_next_event M s of (e, s) \<Rightarrow> (e, s\<lparr>sy_running := b\<rparr>))"
  by (simp add: system_next_event_def Let_def split: prod.split)

text \<open>A loop can be entered after the next event was asked for.\<close>

lemma loops_after_asking:
  assumes "settles M" and "system_next_event M s = (e, s')"
  shows "cutoff_loop M c incl s' = cutoff_loop M c incl s" and "run_loop M s' = run_loop M s"
  using next_event_settles [OF assms] assms(2)
  by (simp_all add: cutoff_loop.simps [of M c incl s'] cutoff_loop.simps [of M c incl s]
      run_loop.simps [of M s'] run_loop.simps [of M s])

lemma fixed_point_now: "fixed_point M k t s = Some (Inr (), s') \<Longrightarrow> sy_current_ns s' = t"
proof (induction k arbitrary: s)
  case (Suc k)
  then obtain s1 where r: "fixed_point_round M t s = Some (Inr (), s1)"
    by (auto simp: and_then_def split: option.splits sum.splits prod.splits)
  then have "sy_current_ns s1 = t"
    by (auto simp: fixed_point_round_def and_then_def split: option.splits sum.splits prod.splits)
  with Suc r show ?case
    by (auto simp: and_then_def same_time_work_exists_def
        split: option.splits prod.splits if_splits bool.splits)
qed simp

lemma process_timestamp_now: "process_timestamp M t s = Some (Inr (), s') \<Longrightarrow> sy_current_ns s' = t"
  using fixed_point_now
  by (fastforce simp: process_timestamp_def Let_def and_then_def raise_if_def
      split: option.splits sum.splits prod.splits if_splits)

text \<open>What the loop did up to a boundary is a prefix of what any run beyond it does.\<close>

definition covers :: "int \<Rightarrow> bool \<Rightarrow> int \<Rightarrow> bool \<Rightarrow> bool" where
  "covers c1 i1 c2 i2 \<longleftrightarrow> (\<forall>t. inside_cutoff c1 i1 t \<longrightarrow> inside_cutoff c2 i2 t)"

lemma cutoff_prefix:
  assumes set: "settles M" and "covers c1 i1 c2 i2" and "cutoff_loop M c1 i1 s = Some (Inr (), s1)"
  shows "cutoff_loop M c2 i2 s1 = cutoff_loop M c2 i2 s \<and> run_loop M s1 = run_loop M s \<and>
    (sy_current_ns s1 = sy_current_ns s \<and> sy_metrics s1 = sy_metrics s \<or> inside_cutoff c1 i1 (sy_current_ns s1))"
proof -
  let ?P = "\<lambda>s s1. cutoff_loop M c2 i2 s1 = cutoff_loop M c2 i2 s \<and> run_loop M s1 = run_loop M s \<and>
    (sy_current_ns s1 = sy_current_ns s \<and> sy_metrics s1 = sy_metrics s \<or> inside_cutoff c1 i1 (sy_current_ns s1))"
  have "M = M \<longrightarrow> c1 = c1 \<longrightarrow> i1 = i1 \<longrightarrow> (\<forall>s1'. (Inr (), s1) = (Inr () :: exn + unit, s1') \<longrightarrow> ?P s s1')"
  proof (rule cutoff_loop.raw_induct [where P = "\<lambda>M' c i s y. M' = M \<longrightarrow> c = c1 \<longrightarrow> i = i1 \<longrightarrow>
        (\<forall>s1. y = (Inr (), s1) \<longrightarrow> ?P s s1)", OF _ assms(3)], intro impI allI, goal_cases)
    case (1 loop M' c i s y s1)
    note loop = 1(1) and eq = 1(2) and MC = 1(3-5) and y = 1(6)
    obtain e s2 where e: "system_next_event M s = (e, s2)" by (cases "system_next_event M s")
    have keep: "sy_current_ns s2 = sy_current_ns s" "sy_metrics s2 = sy_metrics s"
      using e by (auto simp: system_next_event_def Let_def split: prod.splits)
    note asked = loops_after_asking [OF set e]
    show ?case
    proof (cases "\<exists>t. e = Some t \<and> inside_cutoff c1 i1 t")
      case True
      then obtain t where t: "e = Some t" "inside_cutoff c1 i1 t" by blast
      with eq MC e obtain z s3 where z: "process_timestamp M t s2 = Some (z, s3)"
        by (auto split: option.splits)
      with eq MC e t y have r: "z = Inr ()" "loop M c1 i1 s3 = Some (Inr (), s1)" by (auto split: sum.splits)
      from process_timestamp_now z r(1) have now: "sy_current_ns s3 = t" by simp
      have "?P s3 s1" using loop [OF r(2)] by simp
      moreover have "cutoff_loop M c2 i2 s3 = cutoff_loop M c2 i2 s" "run_loop M s3 = run_loop M s"
        using e t z r(1) assms(2)
        by (simp_all add: covers_def cutoff_loop.simps [of M c2 i2 s] run_loop.simps [of M s])
      ultimately show ?thesis using now t(2) by auto
    next
      case False
      with eq MC e y have "s1 = s2" by (auto split: option.splits)
      with asked keep show ?thesis by simp
    qed
  qed
  then show ?thesis by blast
qed

lemma coversI: "c1 \<le> c2 \<Longrightarrow> (i1 \<Longrightarrow> i2 \<or> c1 < c2) \<Longrightarrow> covers c1 i1 c2 i2"
  by (auto simp: covers_def inside_cutoff_def split: if_splits)

text \<open>What a successful \<open>run_until\<close> did, step by step.\<close>

lemma run_until_Inr:
  assumes "run_until M c incl given s = Some (Inr a, s1)"
  obtains s' l e where "0 \<le> c" "load_given M given s = (Inr (), s')" "sy_loaded s'" "\<not> sy_running s'"
    "sy_current_ns s' \<le> c" "incl \<or> sm_event_timestamps (sy_metrics s') = 0 \<or> sy_current_ns s' < c"
    "cutoff_loop M c incl (s'\<lparr>sy_running := True\<rparr>) = Some (Inr (), l)"
    "system_check M (l\<lparr>sy_running := False\<rparr>) = None"
    "system_next_event M (l\<lparr>sy_running := False\<rparr>) = (e, s1)" "pa_system_finished a = sy_finished l"
proof -
  obtain r s' where g: "load_given M given s = (r, s')" by (cases "load_given M given s")
  have c: "0 \<le> c" and r: "r = Inr ()"
    using assms g by (auto simp: run_until_def and_then_def split: if_splits sum.splits)
  have guards: "sy_loaded s'" "\<not> sy_running s'" "sy_current_ns s' \<le> c"
      "incl \<or> sm_event_timestamps (sy_metrics s') = 0 \<or> sy_current_ns s' < c"
    and rest: "and_then (while_running (cutoff_loop M c incl) s') (\<lambda>_ s. Some (
         andthen (raise_if (system_check M s) s) (\<lambda>_ s. audit_partial_run M c incl s))) = Some (Inr a, s1)"
    using assms g r by (auto simp: run_until_def and_then_def split: if_splits)
  from rest obtain z l where l: "cutoff_loop M c incl (s'\<lparr>sy_running := True\<rparr>) = Some (z, l)"
    by (auto simp: while_running_def and_then_def split: option.splits)
  with rest have z: "z = Inr ()" and k: "system_check M (l\<lparr>sy_running := False\<rparr>) = None"
    and p: "audit_partial_run M c incl (l\<lparr>sy_running := False\<rparr>) = (Inr a, s1)"
    by (auto simp: while_running_def and_then_def raise_if_def split: sum.splits option.splits)
  obtain e s2 where e: "system_next_event M (l\<lparr>sy_running := False\<rparr>) = (e, s2)"
    by (cases "system_next_event M (l\<lparr>sy_running := False\<rparr>)")
  then have f: "sy_finished s2 = sy_finished l"
    by (auto simp: system_next_event_def Let_def split: prod.splits)
  from p e f have "s2 = s1" "pa_system_finished a = sy_finished l"
    by (auto simp: audit_partial_run_def Let_def raise_if_def split: if_splits option.splits)
  with that [OF c g [unfolded r] guards l [unfolded z] k] e show thesis by blast
qed

lemma run_until_start:
  assumes "0 \<le> c" "load_given M given s = (Inr (), t)" "sy_loaded t" "\<not> sy_running t" "sy_current_ns t \<le> c"
    "incl \<or> sm_event_timestamps (sy_metrics t) = 0 \<or> sy_current_ns t < c"
  shows "run_until M c incl given s = and_then (while_running (cutoff_loop M c incl) t) (\<lambda>_ s. Some (
    andthen (raise_if (system_check M s) s) (\<lambda>_ s. audit_partial_run M c incl s)))"
  unfolding run_until_def assms(2) using assms by (auto simp: and_then_def)

lemma system_run_start:
  assumes "load_given M given s = (Inr (), t)" "sy_loaded t" "\<not> sy_running t" "\<not> sy_finished t"
  shows "system_run M given s = and_then (while_running (run_loop M) t) (\<lambda>_ s.
    let s = s\<lparr>sy_finished := True\<rparr> in Some (
      andthen (raise_if (system_check M s) s) (\<lambda>_ s. lift_err (completed_requests s) s)))"
  unfolding system_run_def assms(1) using assms by (simp add: and_then_def)

lemma resumed:
  assumes set: "settles M" and first: "run_until M c1 i1 given s = Some (Inr a, s1)"
    and c: "c1 \<le> c2" "i1 \<Longrightarrow> i2 \<or> c1 < c2"
  shows "run_until M c2 i2 None s1 = run_until M c2 i2 given s"
    and "\<not> pa_system_finished a \<Longrightarrow> system_run M None s1 = system_run M given s"
proof -
  obtain s' l e where d: "0 \<le> c1" "load_given M given s = (Inr (), s')" "sy_loaded s'" "\<not> sy_running s'"
    "sy_current_ns s' \<le> c1" "i1 \<or> sm_event_timestamps (sy_metrics s') = 0 \<or> sy_current_ns s' < c1"
    "cutoff_loop M c1 i1 (s'\<lparr>sy_running := True\<rparr>) = Some (Inr (), l)"
    "system_check M (l\<lparr>sy_running := False\<rparr>) = None"
    "system_next_event M (l\<lparr>sy_running := False\<rparr>) = (e, s1)" "pa_system_finished a = sy_finished l"
    by (rule run_until_Inr [OF first])
  have "system_frame l = system_frame (s'\<lparr>sy_running := True\<rparr>)"
    using framed.cutoff_loop [of "s'\<lparr>sy_running := True\<rparr>" "system_frame (s'\<lparr>sy_running := True\<rparr>)" M c1 i1] d(7)
    by simp
  then have l: "sy_loaded l" "sy_running l" "sy_finished l = sy_finished s'"
    using d(3) by (simp_all add: system_frame_def)
  obtain sl where sl: "system_next_event M l = (e, sl)" "s1 = sl\<lparr>sy_running := False\<rparr>"
    using d(9) by (cases "system_next_event M l") (auto simp: next_event_running)
  then obtain ns where ns: "sl = l\<lparr>sy_nodes := ns\<rparr>"
    by (auto simp: system_next_event_def Let_def split: prod.splits)
  then have again: "s1\<lparr>sy_running := True\<rparr> = sl" using sl(2) l(2) by (cases l) simp
  note pre = cutoff_prefix [OF set coversI [OF c] d(7)]
  have loops: "cutoff_loop M c2 i2 (s1\<lparr>sy_running := True\<rparr>) = cutoff_loop M c2 i2 (s'\<lparr>sy_running := True\<rparr>)"
    "run_loop M (s1\<lparr>sy_running := True\<rparr>) = run_loop M (s'\<lparr>sy_running := True\<rparr>)"
    unfolding again using loops_after_asking [OF set sl(1)] pre by simp_all
  have s1: "sy_loaded s1" "\<not> sy_running s1" "sy_current_ns s1 = sy_current_ns l" "sy_metrics s1 = sy_metrics l"
    using l sl(2) ns by simp_all
  have at: "sy_current_ns l = sy_current_ns s' \<and> sy_metrics l = sy_metrics s' \<or>
      inside_cutoff c1 i1 (sy_current_ns l)" using pre by simp
  then have now: "sy_current_ns s1 \<le> c2"
    "i2 \<or> sm_event_timestamps (sy_metrics s1) = 0 \<or> sy_current_ns s1 < c2"
    using d(5,6) c s1(3,4) by (auto simp: inside_cutoff_def split: if_splits)
  have then': "sy_current_ns s' \<le> c2"
    "i2 \<or> sm_event_timestamps (sy_metrics s') = 0 \<or> sy_current_ns s' < c2"
    using d(5,6) c by auto
  show "run_until M c2 i2 None s1 = run_until M c2 i2 given s"
    using run_until_start [OF order.trans [OF d(1) c(1)] d(2-4) then']
      run_until_start [OF order.trans [OF d(1) c(1)] _ s1(1,2) now, of M None s1] loops(1)
    by (simp add: load_given_def while_running_def)
  show "system_run M None s1 = system_run M given s" if "\<not> pa_system_finished a"
    using that d(10) l(3) sl(2) ns loops(2) system_run_start [OF d(2-4)]
      system_run_start [OF _ s1(1,2), of M None s1]
    by (simp add: load_given_def while_running_def)
qed

end
