(* ===== verification/Causal_Order.thy ===== *)
theory Causal_Order
  imports Causal_Safety
begin

text \<open>
  The causality of the systems: requests are released once, first calls at their offered arrival, and a
  successor only after the completion of its predecessor was observed.  The invariant \<open>release_order\<close> is
  established by loading a schedule and kept by the event loop.
\<close>

section \<open>The invariant\<close>

definition heap_ids :: "'n causal \<Rightarrow> int list" where
  "heap_ids s = map snd (sy_release_heap s)"

definition release_order :: "'n causal \<Rightarrow> bool" where
  "release_order s \<longleftrightarrow>
     distinct (heap_ids s) \<and> distinct (sy_released_ids s) \<and> distinct (sy_completed_ids s) \<and>
     set (heap_ids s) \<inter> set (sy_released_ids s) = {} \<and>
     set (heap_ids s) \<subseteq> set (sy_queued_release_ids s) \<and> set (sy_released_ids s) \<subseteq> set (sy_queued_release_ids s) \<and>
     (\<forall>i j. dget (sy_successor_by_request s) i = Some j \<longrightarrow>
        dget (sy_first_arrival_by_request s) j = None \<and>
        (\<forall>k. dget (sy_successor_by_request s) k = Some j \<longrightarrow> k = i) \<and>
        (j \<in> set (sy_queued_release_ids s) \<longrightarrow> i \<in> set (sy_completed_ids s))) \<and>
     (\<forall>t j. (t, j) \<in> set (sy_release_heap s) \<longrightarrow>
        dget (sy_first_arrival_by_request s) j \<noteq> None \<longrightarrow> dget (sy_first_arrival_by_request s) j = Some t) \<and>
     (\<forall>j c. dget (sy_runtime_calls s) j = Some c \<longrightarrow> j \<in> set (sy_released_ids s) \<and>
        (dget (sy_first_arrival_by_request s) j \<noteq> None \<longrightarrow>
         dget (sy_first_arrival_by_request s) j = Some (rc_release_ns c)))"

text \<open>The part of the state that the invariant reads.\<close>

definition order_parts where
  "order_parts s = (sy_release_heap s, sy_queued_release_ids s, sy_released_ids s, sy_completed_ids s,
     sy_runtime_calls s, sy_successor_by_request s, sy_first_arrival_by_request s)"

lemma release_order_cong: "order_parts s' = order_parts s \<Longrightarrow> release_order s' = release_order s"
  by (simp add: order_parts_def release_order_def heap_ids_def)

lemma release_order_updates [simp]:
  "release_order (s\<lparr>sy_nodes := x1\<rparr>) = release_order s" "release_order (s\<lparr>sy_current_ns := x2\<rparr>) = release_order s"
  "release_order (s\<lparr>sy_completed_snapshots := x3\<rparr>) = release_order s"
  "release_order (s\<lparr>sy_completion_order := x4\<rparr>) = release_order s"
  "release_order (s\<lparr>sy_completed_session_order := x5\<rparr>) = release_order s"
  "release_order (s\<lparr>sy_call_specs := x6\<rparr>) = release_order s"
  "release_order (s\<lparr>sy_spec_by_request := x7\<rparr>) = release_order s"
  "release_order (s\<lparr>sy_request_by_identity := x8\<rparr>) = release_order s"
  "release_order (s\<lparr>sy_route_by_session := x9\<rparr>) = release_order s"
  "release_order (s\<lparr>sy_route_work_by_session := x10\<rparr>) = release_order s"
  "release_order (s\<lparr>sy_offer_by_session := x11\<rparr>) = release_order s"
  "release_order (s\<lparr>sy_loaded := x12\<rparr>) = release_order s" "release_order (s\<lparr>sy_running := x13\<rparr>) = release_order s"
  "release_order (s\<lparr>sy_finished := x14\<rparr>) = release_order s"
  "release_order (system_metric f s) = release_order s"
  by (rule release_order_cong, simp add: order_parts_def system_metric_def)+

lemma set_add_set [simp]: "set (set_add x xs) = insert x (set xs)"
  by (auto simp: set_add_def)

lemma distinct_set_add: "distinct (set_add x xs) = distinct xs"
  by (auto simp: set_add_def)

lemma order_queue:
  assumes "release_order s"
    and "\<And>i. dget (sy_successor_by_request s) i = Some j \<Longrightarrow> i \<in> set (sy_completed_ids s)"
    and "dget (sy_first_arrival_by_request s) j \<noteq> None \<Longrightarrow> dget (sy_first_arrival_by_request s) j = Some t"
  shows "keeps release_order (queue_release j t s)"
proof (cases "j \<in> set (sy_queued_release_ids s) \<or> t < 0")
  case False
  let ?s = "s\<lparr>sy_release_heap := heappush (t, j) (sy_release_heap s),
     sy_queued_release_ids := set_add j (sy_queued_release_ids s)\<rparr>"
  have "mset (map snd (heappush (t, j) (sy_release_heap s))) = mset (j # heap_ids s)"
    by (simp add: heap_ids_def)
  then have "distinct (map snd (heappush (t, j) (sy_release_heap s))) = distinct (j # heap_ids s)"
    by (rule mset_eq_imp_distinct_iff)
  with False assms have "release_order ?s"
    by (auto simp: release_order_def heap_ids_def)
  with False show ?thesis by (simp add: queue_release_def Let_def)
qed (use assms(1) in \<open>auto simp: queue_release_def\<close>)

lemma order_completed: "release_order s \<Longrightarrow> release_order (mark_completed i s)"
  by (auto simp: release_order_def mark_completed_def heap_ids_def distinct_set_add)

lemma order_completion: "release_order s \<Longrightarrow> keeps release_order (system_completion t x s)"
proof (cases x)
  case (Pair i v)
  assume s: "release_order s"
  have done': "keeps release_order (case dget (sy_successor_by_request s') i of
      Some j \<Rightarrow> queue_release j t' s' | None \<Rightarrow> (Inr (), s'\<lparr>sy_completed_session_order := ss\<rparr>))"
    if s': "release_order s'" "i \<in> set (sy_completed_ids s')" for s' t' ss
  proof (cases "dget (sy_successor_by_request s') i")
    case (Some j)
    have "(\<forall>k. dget (sy_successor_by_request s') k = Some j \<longrightarrow> k = i) \<and>
        dget (sy_first_arrival_by_request s') j = None"
      using s'(1) Some unfolding release_order_def by blast
    with s' have "keeps release_order (queue_release j t' s')" by (intro order_queue) auto
    with Some show ?thesis by simp
  qed (use s' in simp)
  have m: "i \<in> set (sy_completed_ids (mark_completed i s))" by (simp add: mark_completed_def)
  show ?thesis
    unfolding system_completion_def Pair prod.case Let_def
    by (auto intro!: keeps_andthen done' order_completed s split: option.split)
      (auto simp: mark_completed_def system_metric_def lift_err_def)
qed

lemma order_releases: "release_order s \<Longrightarrow> keeps release_order (pop_releases t s)"
proof -
  have "sy_release_heap s = h \<Longrightarrow> release_order s \<Longrightarrow> keeps release_order (pop_releases_loop t h as s)" for h as
  proof (induction h arbitrary: as s)
    case (Cons a h)
    obtain r i where a: "a = (r, i)" by (cases a)
    let ?s = "s\<lparr>sy_release_heap := h\<rparr>"
    have s1: "release_order ?s" using Cons.prems by (auto simp: release_order_def heap_ids_def a)
    have fresh: "i \<notin> set (sy_released_ids s)" using Cons.prems by (auto simp: release_order_def heap_ids_def a)
    have s2: "release_order (?s\<lparr>sy_released_ids := set_add i (sy_released_ids s),
        sy_runtime_calls := dput i (runtime_call_of spec r) (sy_runtime_calls s)\<rparr>)" for spec
      using Cons.prems
      by (auto simp: release_order_def heap_ids_def a runtime_call_of_def distinct_set_add)
    show ?case
    proof (cases "item (sy_spec_by_request s) i")
      case (Inr spec)
      let ?t = "?s\<lparr>sy_released_ids := set_add i (sy_released_ids s),
        sy_runtime_calls := dput i (runtime_call_of spec r) (sy_runtime_calls s)\<rparr>"
      let ?u = "system_metric (\<lambda>m. m\<lparr>sm_released_calls := sm_released_calls m + 1\<rparr>) ?t"
      have "keeps release_order (pop_releases_loop t h as' ?u)" for as'
        by (rule Cons.IH) (simp add: system_metric_def, simp add: s2)
      with Inr s2 Cons.prems(2) fresh show ?thesis by (cases "r = t") (simp_all add: a Let_def)
    qed (use Cons.prems(2) s1 fresh in \<open>simp add: a\<close>)
  qed simp
  then show "release_order s \<Longrightarrow> keeps release_order (pop_releases t s)" by (simp add: pop_releases_def)
qed

interpretation ordered: event_closed M release_order for M :: "'n serving"
  by unfold_locales (use order_completion order_releases in \<open>auto simp: keeps_def\<close>)

section \<open>Loading establishes it\<close>

text \<open>While a schedule is loaded, the ids used so far are below the next one.\<close>

definition load_order :: "int \<Rightarrow> 'n causal \<Rightarrow> bool" where
  "load_order k s \<longleftrightarrow> release_order s \<and> (\<forall>i \<in> set (sy_queued_release_ids s). i < k) \<and>
     (\<forall>i j. dget (sy_successor_by_request s) i = Some j \<longrightarrow> i < k \<and> j < k) \<and>
     (\<forall>j. dget (sy_first_arrival_by_request s) j \<noteq> None \<longrightarrow> j < k) \<and>
     sy_runtime_calls s = [] \<and>
     (\<forall>t j. (t, j) \<in> set (sy_release_heap s) \<longrightarrow> dget (sy_first_arrival_by_request s) j = Some t)"

lemma load_order_new: "load_order 0 (new_system cls v p ns)"
  by (simp add: load_order_def new_system_def release_order_def heap_ids_def)

lemma load_order_cong:
  assumes "order_parts s' = order_parts s"
  shows "load_order k s' = load_order k s"
  using assms release_order_cong [OF assms] by (simp add: load_order_def order_parts_def)

lemma load_order_updates [simp]:
  "load_order k (s\<lparr>sy_spec_by_request := x1, sy_request_by_identity := x2\<rparr>) = load_order k s"
  "load_order k (s\<lparr>sy_route_by_session := x3, sy_offer_by_session := x4\<rparr>) = load_order k s"
  "load_order k (s\<lparr>sy_route_work_by_session := x5\<rparr>) = load_order k s"
  "load_order k (s\<lparr>sy_spec_by_request := x1, sy_request_by_identity := x2, sy_route_by_session := x3,
     sy_offer_by_session := x4\<rparr>) = load_order k s"
  by (rule load_order_cong, simp add: order_parts_def)+

lemma queue_release_effect:
  "queue_release j t s = (r, s') \<Longrightarrow> s' = s \<or>
     j \<notin> set (sy_queued_release_ids s) \<and> sy_queued_release_ids s' = set_add j (sy_queued_release_ids s) \<and>
     sy_release_heap s' = heappush (t, j) (sy_release_heap s) \<and>
     sy_successor_by_request s' = sy_successor_by_request s \<and>
     sy_first_arrival_by_request s' = sy_first_arrival_by_request s \<and>
     sy_runtime_calls s' = sy_runtime_calls s"
  by (auto simp: queue_release_def Let_def system_metric_def split: if_splits)

lemma order_first:
  assumes ok: "release_order s" and s: "\<forall>i. dget (sy_successor_by_request s) i \<noteq> Some k"
    and h: "\<forall>u. (u, k) \<notin> set (sy_release_heap s)" and r: "dget (sy_runtime_calls s) k = None"
  shows "release_order (s\<lparr>sy_first_arrival_by_request := dput k t (sy_first_arrival_by_request s)\<rparr>)"
proof -
  have "\<forall>i j. dget (sy_successor_by_request s) i = Some j \<longrightarrow> j \<noteq> k" using s by auto
  moreover have "\<forall>u j. (u, j) \<in> set (sy_release_heap s) \<longrightarrow> j \<noteq> k" using h by auto
  moreover have "\<forall>j c. dget (sy_runtime_calls s) j = Some c \<longrightarrow> j \<noteq> k" using r by auto
  ultimately show ?thesis using ok unfolding release_order_def heap_ids_def by simp
qed

lemma load_orderD:
  assumes "load_order k s"
  shows "release_order s" "sy_runtime_calls s = []" "i \<in> set (sy_queued_release_ids s) \<Longrightarrow> i < k"
    "dget (sy_successor_by_request s) i = Some j \<Longrightarrow> i < k \<and> j < k"
    "dget (sy_first_arrival_by_request s) j = Some u \<Longrightarrow> j < k"
    "(t, j) \<in> set (sy_release_heap s) \<Longrightarrow> dget (sy_first_arrival_by_request s) j = Some t"
    "(t, j) \<in> set (sy_release_heap s) \<Longrightarrow> j \<in> set (sy_queued_release_ids s)"
proof -
  show "release_order s" "sy_runtime_calls s = []" using assms by (simp_all add: load_order_def)
  then have "set (map snd (sy_release_heap s)) \<subseteq> set (sy_queued_release_ids s)"
    by (simp add: release_order_def heap_ids_def)
  then show "(t, j) \<in> set (sy_release_heap s) \<Longrightarrow> j \<in> set (sy_queued_release_ids s)" by force
qed (use assms in \<open>auto simp: load_order_def\<close>)

lemma link_call_order:
  assumes ok: "load_order i s" and k: "i \<le> k" and p: "\<And>q. p = Some q \<Longrightarrow> q < k \<and>
      dget (sy_successor_by_request s) q = None"
    and link: "link_call p k t s = (r, s')"
  shows "load_order (k + 1) s' \<and> dget (sy_successor_by_request s') k = None"
proof -
  note d = load_orderD [OF ok]
  have fresh: "k \<notin> set (sy_queued_release_ids s)" "dget (sy_first_arrival_by_request s) k = None"
    "dget (sy_successor_by_request s) k = None" "\<forall>j. dget (sy_successor_by_request s) j \<noteq> Some k"
    "\<forall>u. (u, k) \<notin> set (sy_release_heap s)"
    using d(3) [of k] d(4) [of k] d(4) [of _ k] d(5) [of k] d(7) [of _ k] k by fastforce+
  have below: "\<forall>j \<in> set (sy_queued_release_ids s). j < k + 1"
    "\<forall>j h. dget (sy_successor_by_request s) j = Some h \<longrightarrow> j < k + 1 \<and> h < k + 1"
    "\<forall>j. dget (sy_first_arrival_by_request s) j \<noteq> None \<longrightarrow> j < k + 1"
    using d(3,4,5) k by fastforce+
  show ?thesis
  proof (cases p)
    case None
    let ?s = "s\<lparr>sy_first_arrival_by_request := dput k t (sy_first_arrival_by_request s)\<rparr>"
    have s1: "release_order ?s" using d(1,2) fresh(4,5) by (intro order_first) simp_all
    have heap: "\<forall>u j. (u, j) \<in> set (sy_release_heap s) \<longrightarrow> j \<noteq> k \<and>
        dget (sy_first_arrival_by_request s) j = Some u" using d(6) fresh(5) by blast
    have q: "queue_release k t ?s = (r, s')" using link None by (simp add: link_call_def)
    have s2: "release_order s'"
      using order_queue [OF s1, of k t] q fresh(4) by (simp add: keeps_def)
    from queue_release_effect [OF q] consider "s' = ?s"
      | "sy_queued_release_ids s' = set_add k (sy_queued_release_ids s)"
        "sy_release_heap s' = heappush (t, k) (sy_release_heap s)"
        "sy_successor_by_request s' = sy_successor_by_request s" "sy_runtime_calls s' = sy_runtime_calls s"
        "sy_first_arrival_by_request s' = dput k t (sy_first_arrival_by_request s)" by auto
    then show ?thesis
    proof cases
      case 1
      then show ?thesis using s1 below heap d(2) fresh(3) by (simp add: load_order_def)
    next
      case 2
      then show ?thesis using s2 below heap d(2) fresh(3) by (simp add: load_order_def)
    qed
  next
    case (Some q)
    then have s': "s' = s\<lparr>sy_successor_by_request := dput q k (sy_successor_by_request s)\<rparr>"
      using link by (simp add: link_call_def)
    have "\<forall>i j. dget (sy_successor_by_request s) i = Some j \<longrightarrow> k \<noteq> j" using fresh(4) by auto
    then have "release_order s'"
      using d(1) fresh(1,2,4) p [OF Some] unfolding s' release_order_def heap_ids_def by simp
    then show ?thesis using p [OF Some] below d(2,6) fresh(3) by (auto simp: load_order_def s')
  qed
qed

lemma link_call_successor:
  "link_call p k t s = (r, s') \<Longrightarrow>
     dget (sy_successor_by_request s') j = (if p = Some j then Some k else dget (sy_successor_by_request s) j)"
  using queue_release_effect [of k t "s\<lparr>sy_first_arrival_by_request := dput k t (sy_first_arrival_by_request s)\<rparr>"]
  by (fastforce simp: link_call_def split: option.splits)

lemma load_calls_order:
  assumes "load_order k s" and "\<And>q. prior = Some q \<Longrightarrow> q < k \<and> dget (sy_successor_by_request s) q = None"
    and "load_calls x nid cs prior ids k specs s = (Inr (ids', k', specs'), s')"
  shows "load_order k' s'"
  using assms
proof (induction cs arbitrary: prior ids k specs s)
  case (Cons c cs)
  obtain key where key: "new_request_key (sc_session_id x) (cd_call_index c) = Inr key"
    using Cons.prems(3) by (cases "new_request_key (sc_session_id x) (cd_call_index c)")
      (auto simp: Let_def split: if_splits)
  let ?spec = "new_spec k key x nid c (cs \<noteq> [])"
  let ?s = "s\<lparr>sy_spec_by_request := dput k ?spec (sy_spec_by_request s), sy_request_by_identity :=
    dput (completion_identity (cd_session_id c) (cd_call_index c)) k (sy_request_by_identity s)\<rparr>"
  obtain r s1 where l: "link_call prior k (sc_arrival_time_ns x) ?s = (r, s1)"
    by (cases "link_call prior k (sc_arrival_time_ns x) ?s")
  have "load_order (k + 1) s1 \<and> dget (sy_successor_by_request s1) k = None"
    by (rule link_call_order [OF _ order.refl _ l]) (use Cons.prems(1,2) in simp_all)
  with Cons.prems(3) key l Cons.IH [of "k + 1" s1 "Some k"] show ?case
    by (cases r) (auto simp: Let_def split: if_splits)
qed simp

lemma load_sessions_order:
  "load_order k s \<Longrightarrow> load_sessions routes xs ids k specs s = (Inr specs', s') \<Longrightarrow> \<exists>k'. load_order k' s'"
proof (induction xs arbitrary: ids k specs s)
  case (Cons x xs)
  obtain nid where nid: "item routes (sc_session_id x) = Inr nid"
    using Cons.prems(2) by (cases "item routes (sc_session_id x)") auto
  let ?s = "s\<lparr>sy_route_by_session := dput (sc_session_id x) nid (sy_route_by_session s),
    sy_offer_by_session := dput (sc_session_id x) (sc_offer_index x) (sy_offer_by_session s)\<rparr>"
  obtain r s1 where l: "load_calls x nid (sc_calls x) None ids k specs ?s = (r, s1)"
    by (cases "load_calls x nid (sc_calls x) None ids k specs ?s")
  show ?case
  proof (cases r)
    case (Inr y)
    obtain ids' k' specs2 where y: "y = (ids', k', specs2)" by (cases y)
    have "load_order k' s1"
      by (rule load_calls_order [OF _ _ l [unfolded Inr y]]) (use Cons.prems(1) in simp_all)
    from Cons.IH [OF this, of ids' specs2] Cons.prems(2) nid l Inr y show ?thesis by (simp add: Let_def)
  qed (use Cons.prems(2) nid l in \<open>simp add: Let_def\<close>)
qed auto

text \<open>The single-node system numbers its calls before it enters them.\<close>

definition numbered :: "int \<Rightarrow> (scheduled_session \<times> call_spec) list \<Rightarrow> int \<Rightarrow> bool" where
  "numbered k xs k' \<longleftrightarrow> k \<le> k' \<and> sorted_wrt (\<lambda>a b. sp_request_id (snd a) < sp_request_id (snd b)) xs \<and>
     (\<forall>a \<in> set xs. k \<le> sp_request_id (snd a) \<and> sp_request_id (snd a) < k')"

lemma numbered_append: "numbered k xs k' \<Longrightarrow> numbered k' ys k'' \<Longrightarrow> numbered k (xs @ ys) k''"
  by (fastforce simp: numbered_def sorted_wrt_append)

lemma provisional_calls_numbered:
  "provisional_calls M ns x cs ids k specs = Inr (ids', k', specs') \<Longrightarrow> \<exists>new. specs' = specs @ new \<and> numbered k new k'"
proof (induction cs arbitrary: ids k specs)
  case (Cons c cs)
  obtain key where key: "new_request_key (sc_session_id x) (cd_call_index c) = Inr key"
    using Cons.prems by (cases "new_request_key (sc_session_id x) (cd_call_index c)")
      (auto simp: Let_def split: if_splits)
  let ?spec = "new_spec k key x 0 c (cs \<noteq> [])"
  obtain ids2 where "provisional_calls M ns x cs ids2 (k + 1) (specs @ [(x, ?spec)]) = Inr (ids', k', specs')"
    using Cons.prems key by (auto simp: Let_def split: if_splits option.splits)
  from Cons.IH [OF this] obtain new where "specs' = specs @ (x, ?spec) # new" "numbered (k + 1) new k'" by auto
  moreover have "numbered k [(x, ?spec)] (k + 1)" by (simp add: numbered_def new_spec_def)
  ultimately show ?case using numbered_append [of k "[(x, ?spec)]" "k + 1" new k'] by auto
qed (simp add: numbered_def)

lemma provisional_sessions_numbered:
  "provisional_sessions M ns xs ids k specs = Inr specs' \<Longrightarrow> \<exists>new k'. specs' = specs @ new \<and> numbered k new k'"
proof (induction xs arbitrary: ids k specs)
  case Nil
  then have "specs' = specs @ [] \<and> numbered k [] k" by (simp add: numbered_def)
  then show ?case by blast
next
  case (Cons x xs)
  then obtain ids2 k2 specs2 where c: "provisional_calls M ns x (sc_calls x) ids k specs = Inr (ids2, k2, specs2)"
    and s: "provisional_sessions M ns xs ids2 k2 specs2 = Inr specs'" by (auto simp: ebind_Inr_iff)
  from provisional_calls_numbered [OF c] Cons.IH [OF s] obtain new new' k' where
    "specs2 = specs @ new" "numbered k new k2" "specs' = specs2 @ new'" "numbered k2 new' k'" by blast
  with numbered_append [of k new k2 new' k'] show ?case by fastforce
qed

lemma load_specs_order:
  assumes "load_order k s" and "numbered k xs k'"
    and "\<And>sid q. dget prior sid = Some q \<Longrightarrow> q < k \<and> dget (sy_successor_by_request s) q = None"
    and "\<And>sid sid' q. dget prior sid = Some q \<Longrightarrow> dget prior sid' = Some q \<Longrightarrow> sid = sid'"
    and "load_specs xs prior s = (Inr (), s')"
  shows "\<exists>k''. load_order k'' s'"
  using assms
proof (induction xs arbitrary: k prior s)
  case Nil
  then show ?case by auto
next
  case (Cons a xs)
  obtain x spec where a: "a = (x, spec)" by (cases a)
  let ?i = "sp_request_id spec" and ?sid = "sp_session_id spec"
  let ?s = "s\<lparr>sy_spec_by_request := dput ?i spec (sy_spec_by_request s), sy_request_by_identity :=
      dput (completion_identity (rk_session_id (sp_key spec)) (rk_sub_request_index (sp_key spec))) ?i
        (sy_request_by_identity s), sy_route_by_session := dput ?sid 0 (sy_route_by_session s),
      sy_offer_by_session := dput ?sid (sp_offer_index spec) (sy_offer_by_session s)\<rparr>"
  have i: "k \<le> ?i" "numbered (?i + 1) xs k'"
    using Cons.prems(2) unfolding numbered_def a by fastforce+
  obtain r s1 where l: "link_call (dget prior ?sid) ?i (sc_arrival_time_ns x) ?s = (r, s1)"
    by (cases "link_call (dget prior ?sid) ?i (sc_arrival_time_ns x) ?s")
  have s1: "load_order (?i + 1) s1 \<and> dget (sy_successor_by_request s1) ?i = None"
    by (rule link_call_order [OF _ i(1) _ l]) (use Cons.prems(1,3) i(1) in force)+
  from l Cons.prems(5) have rest: "load_specs xs (dput ?sid ?i prior) s1 = (Inr (), s')"
    by (cases r) (simp_all add: a Let_def)
  show ?case
  proof (rule Cons.IH [OF _ i(2) _ _ rest])
    show "load_order (?i + 1) s1" using s1 by simp
    show "q < ?i + 1 \<and> dget (sy_successor_by_request s1) q = None"
      if "dget (dput ?sid ?i prior) sid = Some q" for sid q
    proof (cases "sid = ?sid")
      case False
      with that have q: "dget prior sid = Some q" by simp
      have "dget prior ?sid \<noteq> Some q" using Cons.prems(4) [OF q, of ?sid] False by auto
      with Cons.prems(3) [OF q] i(1) link_call_successor [OF l, of q] show ?thesis by simp
    qed (use that s1 in simp)
    show "sid = sid'" if "dget (dput ?sid ?i prior) sid = Some q" "dget (dput ?sid ?i prior) sid' = Some q"
      for sid sid' q
      using that Cons.prems(3) [of _ ?i] Cons.prems(4) i(1) by (fastforce split: if_splits)
  qed
qed

lemma loaded_with_order: "loaded_with M k specs s = (r, s') \<Longrightarrow> release_order s \<Longrightarrow> release_order s'"
  by (auto simp: loaded_with_def Let_def raise_if_def split: option.splits)

lemma oracle_load_order:
  assumes "oracle_load M xs s = (Inr (), s')" and "load_order 0 s"
  shows "release_order s'"
proof -
  obtain routes works where "freeze_routes (sy_route_policy s) xs = Inr routes"
    "each_result trace_work_proxy xs = Inr works"
    using assms(1) unfolding oracle_load_def
    by (cases "freeze_routes (sy_route_policy s) xs"; cases "each_result trace_work_proxy xs")
      (auto split: if_splits option.splits)
  with assms(1) obtain ws specs s1 where l: "load_sessions routes (canonical_order xs) [] 0 []
      (s\<lparr>sy_route_work_by_session := ws\<rparr>) = (Inr specs, s1)"
    and r: "loaded_with M (int (length xs)) specs s1 = (Inr (), s')"
    unfolding oracle_load_def
    by (auto simp: Let_def andthen_Inr_iff split: if_splits option.splits)
  have "load_order 0 (s\<lparr>sy_route_work_by_session := ws\<rparr>)" using assms(2) by simp
  from load_sessions_order [OF this l] obtain k where "load_order k s1" by blast
  then show ?thesis using loaded_with_order [OF r] by (simp add: load_order_def)
qed

lemma single_load_order:
  assumes "single_load M xs s = (Inr (), s')" and ok: "load_order 0 s"
  shows "release_order s'"
proof -
  obtain specs where p: "provisional_sessions M (sy_nodes s) (canonical_order xs) [] 0 [] = Inr specs"
    using assms(1) unfolding single_load_def
    by (cases "provisional_sessions M (sy_nodes s) (canonical_order xs) [] 0 []")
      (auto split: if_splits option.splits)
  with assms(1) obtain s1 where l: "load_specs specs [] s = (Inr (), s1)"
    and r: "loaded_with M (int (length xs)) (map snd specs) s1 = (Inr (), s')"
    unfolding single_load_def by (auto simp: andthen_Inr_iff split: if_splits option.splits)
  from provisional_sessions_numbered [OF p] obtain k where "numbered 0 specs k" by auto
  from load_specs_order [OF ok this _ _ l] obtain k' where "load_order k' s1" by auto
  then show ?thesis using loaded_with_order [OF r] by (simp add: load_order_def)
qed

lemma system_load_order:
  "system_load M xs (new_system cls v p ns) = (Inr (), s) \<Longrightarrow> release_order s"
  using oracle_load_order [OF _ load_order_new] single_load_order [OF _ load_order_new]
  by (auto simp: system_load_def tiered_load_def split: system_class.splits if_splits option.splits)

end
