(* ===== verification/Causal_Props.thy ===== *)
theory Causal_Props
  imports Causal_Order Oracle_Props Node_Props
begin

text \<open>
  What holds of a whole system: its runs can be cut at any time and resumed, its calls are released in
  causal order, its nodes are reachable nodes, and its routes are balanced.
\<close>

section \<open>Reachable systems\<close>

text \<open>A system is constructed over nodes that satisfy \<open>N\<close>, loaded once, and then run: completely or up to
  cutoffs, whatever the outcome.\<close>

inductive causal_reach :: "'n serving \<Rightarrow> ('n \<Rightarrow> bool) \<Rightarrow> 'n causal \<Rightarrow> bool" for M N where
  load: "\<forall>n \<in> set ns. N n \<Longrightarrow> system_load M xs (new_system cls v p ns) = (Inr (), s) \<Longrightarrow> causal_reach M N s"
| run: "causal_reach M N s \<Longrightarrow> system_run M given s = Some (r, s') \<Longrightarrow> causal_reach M N s'"
| until: "causal_reach M N s \<Longrightarrow> run_until M c incl given s = Some (a, s') \<Longrightarrow> causal_reach M N s'"

locale causal_closed = event_closed M I for M :: "'n serving" and I +
  assumes running: "I s \<Longrightarrow> I (s\<lparr>sy_running := b\<rparr>)" and finished: "I s \<Longrightarrow> I (s\<lparr>sy_finished := b\<rparr>)"
begin

lemma while_running:
  assumes "I s" and "\<And>s. I s \<Longrightarrow> keeps_if_returns I (f s)"
  shows "keeps_if_returns I (while_running f s)"
proof -
  have "keeps_if_returns I (f (s\<lparr>sy_running := True\<rparr>))" by (rule assms(2)) (rule running [OF assms(1)])
  then show ?thesis
    by (auto simp: while_running_def keeps_if_returns_def keeps_def intro: running)
qed

lemma load_given_loaded:
  assumes "I s" and "sy_loaded s"
  shows "keeps I (load_given M given s)"
proof -
  have "snd (load_given M given s) = s"
    using assms(2) by (auto simp: load_given_def system_load_def oracle_load_def tiered_load_def single_load_def
        split: option.split system_class.split)
  then show ?thesis using assms(1) by (simp add: keeps_def)
qed

lemma system_run: "I s \<Longrightarrow> sy_loaded s \<Longrightarrow> keeps_if_returns I (system_run M given s)"
  unfolding system_run_def Let_def
  by (auto intro!: keeps_and_then load_given_loaded while_running run_loop keeps_andthen keeps_raise finished)

lemma run_until: "I s \<Longrightarrow> sy_loaded s \<Longrightarrow> keeps_if_returns I (run_until M c incl given s)"
  unfolding run_until_def
  by (auto intro!: keeps_and_then load_given_loaded while_running cutoff_loop keeps_andthen keeps_raise audit)

end

interpretation framed_flags: causal_closed M "\<lambda>s. sy_loaded s = b" for M :: "'n serving" and b
proof -
  have f: "keeps_if_returns (\<lambda>s. sy_loaded s = b) r"
    if "keeps_if_returns (\<lambda>s'. system_frame s' = system_frame s) r" "sy_loaded s = b" for r s
    using that by (auto simp: keeps_if_returns_def keeps_def system_frame_def)
  show "causal_closed M (\<lambda>s. sy_loaded s = b)"
  proof
    fix s :: "'n causal" and t x
    assume s: "sy_loaded s = b"
    show "sy_loaded (snd (system_completion t x s)) = b" "sy_loaded (snd (pop_releases t s)) = b"
      using system_completion_frame [of s t x] pop_releases_frame [of s t] s
      by (simp_all add: keeps_def system_frame_def)
  qed (simp_all add: system_metric_def)
qed

lemma loaded_with_loaded: "loaded_with M k specs s = (r, s') \<Longrightarrow> sy_loaded s'"
  by (auto simp: loaded_with_def Let_def raise_if_def split: option.splits)

lemma system_load_loaded: "system_load M xs s = (Inr (), s') \<Longrightarrow> sy_loaded s'"
  by (auto simp: system_load_def oracle_load_def tiered_load_def single_load_def andthen_Inr_iff Let_def
      split: system_class.splits if_splits option.splits dest: loaded_with_loaded)

lemma reach_loaded: "causal_reach M N s \<Longrightarrow> sy_loaded s"
proof (induction rule: causal_reach.induct)
  case (run s given r s')
  then show ?case using framed_flags.system_run [of s True M given] by simp
next
  case (until s c incl given a s')
  then show ?case using framed_flags.run_until [of s True M c incl given] by simp
qed (auto dest: system_load_loaded)

context causal_closed begin

lemma reach:
  assumes "causal_reach M N s"
    and "\<And>ns xs cls v p s. \<forall>n \<in> set ns. N n \<Longrightarrow> system_load M xs (new_system cls v p ns) = (Inr (), s) \<Longrightarrow> I s"
  shows "I s"
  using assms(1)
proof (induction rule: causal_reach.induct)
  case (run s given r s')
  then show ?case using system_run [OF _ reach_loaded [OF run(1)], of given] by simp
next
  case (until s c incl given a s')
  then show ?case using run_until [OF _ reach_loaded [OF until(1)], of c incl given] by simp
qed (rule assms(2))

end

interpretation ordered_runs: causal_closed M release_order for M :: "'n serving"
  by unfold_locales simp_all

lemma reach_release_order: "causal_reach M N s \<Longrightarrow> release_order s"
  by (erule ordered_runs.reach) (rule system_load_order)

section \<open>The nodes of a system\<close>

lemma link_call_nodes: "keeps (\<lambda>s'. sy_nodes s' = ns) (link_call p k t s) = (sy_nodes s = ns)"
  by (simp add: link_call_def queue_release_def system_metric_def Let_def split: option.split)

lemma load_calls_nodes:
  "sy_nodes s = ns \<Longrightarrow> keeps (\<lambda>s'. sy_nodes s' = ns) (load_calls x nid cs p ids k specs s)"
  by (induction cs arbitrary: p ids k specs s) (auto simp: Let_def link_call_nodes intro!: keeps_andthen)

lemma load_sessions_nodes:
  "sy_nodes s = ns \<Longrightarrow> keeps (\<lambda>s'. sy_nodes s' = ns) (load_sessions routes xs ids k specs s)"
  by (induction xs arbitrary: ids k specs s) (auto simp: Let_def load_calls_nodes intro!: keeps_andthen)

lemma load_specs_nodes: "sy_nodes s = ns \<Longrightarrow> keeps (\<lambda>s'. sy_nodes s' = ns) (load_specs xs p s)"
  by (induction xs p s rule: load_specs.induct) (auto simp: Let_def link_call_nodes intro!: keeps_andthen)

lemma loaded_with_nodes: "sy_nodes s = ns \<Longrightarrow> keeps (\<lambda>s'. sy_nodes s' = ns) (loaded_with M k specs s)"
  by (simp add: loaded_with_def Let_def raise_if_def system_metric_def split: option.split)

lemma system_load_nodes: "sy_nodes s = ns \<Longrightarrow> keeps (\<lambda>s'. sy_nodes s' = ns) (system_load M xs s)"
proof -
  have "sy_nodes s = ns \<Longrightarrow> keeps (\<lambda>s'. sy_nodes s' = ns) (oracle_load M xs s)" for s
    unfolding oracle_load_def Let_def
    by (auto intro!: keeps_andthen load_sessions_nodes loaded_with_nodes split: option.split)
  moreover have "sy_nodes s = ns \<Longrightarrow> keeps (\<lambda>s'. sy_nodes s' = ns) (single_load M xs s)" for s
    unfolding single_load_def
    by (auto intro!: keeps_andthen load_specs_nodes loaded_with_nodes split: option.split)
  ultimately show "sy_nodes s = ns \<Longrightarrow> keeps (\<lambda>s'. sy_nodes s' = ns) (system_load M xs s)"
    by (auto simp: system_load_def tiered_load_def split: system_class.split option.split)
qed

locale node_kept =
  fixes M :: "'n serving" and P :: "'n \<Rightarrow> bool"
  assumes step: "node_step M n n' \<Longrightarrow> P n \<Longrightarrow> P n'"
begin

lemma steps: "list_all2 (node_step M) ns ns' \<Longrightarrow> list_all P ns \<Longrightarrow> list_all P ns'"
  by (induction rule: list_all2_induct) (auto intro: step)

end

lemma queue_release_nodes: "keeps (\<lambda>s'. sy_nodes s' = ns) (queue_release i t s) = (sy_nodes s = ns)"
  by (simp add: queue_release_def system_metric_def Let_def)

lemma system_completion_nodes: "keeps (\<lambda>s'. sy_nodes s' = sy_nodes s) (system_completion t x s)"
proof (cases x)
  case (Pair i v)
  show ?thesis
    unfolding system_completion_def Pair prod.case Let_def
    by (auto intro!: keeps_andthen simp: mark_completed_def queue_release_nodes system_metric_def split: option.split)
qed

lemma pop_releases_nodes: "keeps (\<lambda>s'. sy_nodes s' = sy_nodes s) (pop_releases t s)"
proof -
  have "sy_nodes s = ns \<Longrightarrow> keeps (\<lambda>s'. sy_nodes s' = ns) (pop_releases_loop t h as s)" for h as ns
    by (induction t h as s rule: pop_releases_loop.induct)
      (auto intro!: keeps_andthen simp: Let_def system_metric_def)
  then show ?thesis by (simp add: pop_releases_def)
qed

sublocale node_kept \<subseteq> causal_closed M "\<lambda>s. list_all P (sy_nodes s)"
proof
  fix s :: "'n causal" and t x
  assume "list_all P (sy_nodes s)"
  then show "list_all P (sy_nodes (snd (system_completion t x s)))" "list_all P (sy_nodes (snd (pop_releases t s)))"
    using system_completion_nodes [of s t x] pop_releases_nodes [of s t] by (simp_all add: keeps_def)
qed (simp_all add: steps system_metric_def)

context node_kept begin

lemma reachable_nodes: "causal_reach M P s \<Longrightarrow> list_all P (sy_nodes s)"
proof (erule reach)
  fix ns xs cls v p and s :: "'n causal"
  assume "\<forall>n \<in> set ns. P n" and l: "system_load M xs (new_system cls v p ns) = (Inr (), s)"
  moreover have "sy_nodes s = ns"
    using system_load_nodes [of "new_system cls v p ns" ns M xs] l by (simp add: new_system_def)
  ultimately show "list_all P (sy_nodes s)" by (simp add: list_all_iff)
qed

end

interpretation oracle_nodes: node_kept oracle_serving oracle_reach
proof
  fix n n' :: oracle_node
  assume "node_step oracle_serving n n'" and "oracle_reach n"
  then show "oracle_reach n'"
    by (cases rule: node_step.cases) (auto simp: oracle_serving_def intro: oracle_reach.intros)
qed

lemma tiered_step: "node_step (dual_tiered_serving p m) n n' \<Longrightarrow> node_step tiered_serving n n'"
  by (induction rule: node_step.induct) (auto simp: dual_tiered_serving_def intro: node_step.intros)

interpretation tiered_nodes: node_kept tiered_serving node_reach
proof
  fix n n' :: node
  assume "node_step tiered_serving n n'" and "node_reach n"
  then show "node_reach n'"
    by (cases rule: node_step.cases) (auto simp: tiered_serving_def intro: node_reach.intros)
qed

interpretation dual_tiered_nodes: node_kept "dual_tiered_serving p m" node_reach for p m
  by unfold_locales (rule tiered_nodes.step [OF tiered_step])

section \<open>The frozen routes\<close>

lemma each_result_Inr: "\<forall>x \<in> set xs. \<exists>y. f x = Inr y \<Longrightarrow> \<exists>ys. each_result f xs = Inr ys \<and> length ys = length xs \<and>
    (\<forall>i < length xs. f (xs ! i) = Inr (ys ! i))"
proof (induction xs)
  case (Cons x xs)
  then obtain y ys where y: "f x = Inr y" and ys: "each_result f xs = Inr ys" "length ys = length xs"
    "\<forall>i < length xs. f (xs ! i) = Inr (ys ! i)" by auto
  then have "f ((x # xs) ! i) = Inr ((y # ys) ! i)" if "i < length (x # xs)" for i
    using that by (cases i) simp_all
  with y ys show ?case by auto
qed simp

lemma schedule_errorD:
  assumes "schedule_error xs = None"
  shows "x \<in> set xs \<Longrightarrow> validate_scheduled x = None" "distinct (map sc_session_id xs)"
  using assms by (auto simp: schedule_error_def or_else_None find_error_None split: if_splits)

lemma validate_scheduled_offer: "validate_scheduled x = None \<Longrightarrow> 0 \<le> sc_offer_index x"
  by (auto simp: validate_scheduled_def or_else_None split: if_splits)

lemma fold_dput_other:
  "k \<notin> f ` set xs \<Longrightarrow> dget (fold (\<lambda>(x, r). dput (f x) r) (zip xs rs) d) k = dget d k"
proof (induction xs arbitrary: rs d)
  case (Cons x xs)
  then show ?case by (cases rs) auto
qed simp

lemma fold_dput_nth:
  assumes "distinct (map f xs)" and "length rs = length xs" and "i < length xs"
  shows "dget (fold (\<lambda>(x, r). dput (f x) r) (zip xs rs) d) (f (xs ! i)) = Some (rs ! i)"
  using assms
proof (induction xs arbitrary: rs d i)
  case (Cons x xs)
  obtain r rs' where rs: "rs = r # rs'" using Cons.prems(2) by (cases rs) auto
  show ?case
  proof (cases i)
    case 0
    then show ?thesis using fold_dput_other [of "f x" f xs rs' "dput (f x) r d"] Cons.prems(1) by (simp add: rs)
  next
    case (Suc j)
    then show ?thesis using Cons.IH [of rs' j] Cons.prems by (simp add: rs)
  qed
qed simp

lemma least_loaded_in: "cs \<noteq> [] \<Longrightarrow> least_loaded loads cs \<in> set cs"
  unfolding least_loaded_def by (metis hd_in_set length_0_conv length_sort set_sort)

definition on_node :: "(string, int) dict \<Rightarrow> int \<Rightarrow> scheduled_session list \<Rightarrow> scheduled_session list" where
  "on_node routes k xs = filter (\<lambda>x. dget routes (sc_session_id x) = Some k) xs"

lemma balance_quotas:
  assumes "c \<le> a" "d \<le> b" "(a - c) + (b - d) = length ws" "distinct (map (sc_session_id \<circ> snd) ws)"
  shows "\<exists>r. balance_sessions [a, b] ws [c, d] loads routes = Inr r \<and>
     (\<forall>k. k \<notin> (sc_session_id \<circ> snd) ` set ws \<longrightarrow> dget r k = dget routes k) \<and>
     length (on_node r 0 (map snd ws)) = a - c \<and> length (on_node r 1 (map snd ws)) = b - d"
  using assms
proof (induction ws arbitrary: c d loads routes)
  case Nil
  then show ?case by (simp add: on_node_def)
next
  case (Cons w ws)
  obtain work x where w: "w = (work, x)" by (cases w)
  let ?cands = "filter (\<lambda>k. [c, d] ! k < [a, b] ! k) [0..<DUAL_ORACLE_NODE_COUNT]"
  let ?k = "least_loaded loads ?cands"
  have cands: "?cands = (if c < a then [0] else []) @ (if d < b then [1] else [])"
    by (simp add: DUAL_ORACLE_NODE_COUNT_def upt_rec)
  have room: "c < a \<or> d < b" using Cons.prems(1-3) by auto
  have ne: "?cands \<noteq> []" using room unfolding cands by auto
  have in_c: "?k \<in> set ?cands" by (rule least_loaded_in [OF ne])
  have fresh: "sc_session_id x \<notin> (sc_session_id \<circ> snd) ` set ws" and dis: "distinct (map (sc_session_id \<circ> snd) ws)"
    using Cons.prems(4) by (auto simp: w comp_def)
  define c' d' where "c' = (if ?k = 0 then c + 1 else c)" and "d' = (if ?k = 0 then d else d + 1)"
  have k01: "?k = 0 \<and> c < a \<or> ?k = 1 \<and> d < b" using in_c unfolding cands by (auto split: if_splits)
  have upd: "[c, d][?k := [c, d] ! ?k + 1] = [c', d']" using k01 by (auto simp: c'_def d'_def)
  have pre: "c' \<le> a" "d' \<le> b" "(a - c') + (b - d') = length ws"
    using k01 Cons.prems(1-3) by (auto simp: c'_def d'_def w)
  from Cons.IH [OF pre dis, of "loads[?k := loads ! ?k + work]" "dput (sc_session_id x) (int ?k) routes"]
  obtain r where r: "balance_sessions [a, b] ws [c', d'] (loads[?k := loads ! ?k + work])
      (dput (sc_session_id x) (int ?k) routes) = Inr r"
    "\<forall>k. k \<notin> (sc_session_id \<circ> snd) ` set ws \<longrightarrow> dget r k = dget (dput (sc_session_id x) (int ?k) routes) k"
    "length (on_node r 0 (map snd ws)) = a - c'" "length (on_node r 1 (map snd ws)) = b - d'" by blast
  have x: "dget r (sc_session_id x) = Some (int ?k)" using r(2) fresh by simp
  have "length (on_node r 0 (x # map snd ws)) = a - c" "length (on_node r 1 (x # map snd ws)) = b - d"
    using r(3,4) x k01 by (auto simp: on_node_def c'_def d'_def)
  moreover have "balance_sessions [a, b] (w # ws) [c, d] loads routes = Inr r"
    using ne upd r(1) by (simp add: w Let_def)
  moreover have "\<forall>k. k \<notin> (sc_session_id \<circ> snd) ` set (w # ws) \<longrightarrow> dget r k = dget routes k"
    using r(2) by (simp add: w)
  ultimately show ?case by (simp add: w)
qed

lemma on_node_mset: "mset xs = mset ys \<Longrightarrow> length (on_node r k xs) = length (on_node r k ys)"
  unfolding on_node_def by (metis mset_filter size_mset)

lemma balanced_counts:
  assumes ok: "schedule_error xs = None" and p: "policy \<noteq> ROUTE_OFFER_RR"
  shows "\<exists>r. freeze_routes policy xs = Inr r \<and> length (on_node r 0 xs) = (length xs + 1) div 2 \<and>
    length (on_node r 1 xs) = length xs div 2"
proof -
  have "\<forall>x \<in> set xs. \<exists>w. trace_work_proxy x = Inr w"
    using schedule_errorD(1) [OF ok] by (simp add: trace_work_proxy_def)
  from each_result_Inr [OF this] obtain works where
    works: "each_result trace_work_proxy xs = Inr works" "length works = length xs" by blast
  let ?ws = "by_work (zip works xs)"
  have m: "mset ?ws = mset (zip works xs)" by (simp add: by_work_def)
  then have s: "mset (map snd ?ws) = mset xs" using works(2) by (metis map_snd_zip mset_map)
  then have "mset (map (sc_session_id \<circ> snd) ?ws) = mset (map sc_session_id xs)"
    by (metis map_map mset_map)
  then have d: "distinct (map (sc_session_id \<circ> snd) ?ws)"
    using schedule_errorD(2) [OF ok] by (metis mset_eq_imp_distinct_iff)
  have l: "length ?ws = length xs" using s by (metis length_map size_mset)
  have half: "(length xs + 1) div 2 + length xs div 2 = length ?ws" unfolding l by linarith
  from balance_quotas [of 0 "(length xs + 1) div 2" 0 "length xs div 2" ?ws "[0, 0]" "[]"] half d
  obtain r where "balance_sessions [(length xs + 1) div 2, length xs div 2] ?ws [0, 0] [0, 0] [] = Inr r"
    "length (on_node r 0 (map snd ?ws)) = (length xs + 1) div 2" "length (on_node r 1 (map snd ?ws)) = length xs div 2"
    by auto
  then show ?thesis using on_node_mset [OF s] works(1) p by (auto simp: freeze_routes_def)
qed

lemma alternating_routes:
  assumes ok: "schedule_error xs = None"
  shows "\<exists>r. freeze_routes ROUTE_OFFER_RR xs = Inr r \<and>
    (\<forall>x \<in> set xs. dget r (sc_session_id x) = Some (sc_offer_index x mod 2))"
proof -
  have route: "route_offer (sc_offer_index x) = Inr (sc_offer_index x mod 2)" if "x \<in> set xs" for x
    using schedule_errorD(1) [OF ok that] validate_scheduled_offer [of x]
    by (simp add: route_offer_def DUAL_ORACLE_NODE_COUNT_def)
  then have "\<forall>x \<in> set xs. \<exists>r. route_offer (sc_offer_index x) = Inr r" by blast
  from each_result_Inr [OF this] obtain rs where
    rs: "each_result (\<lambda>x. route_offer (sc_offer_index x)) xs = Inr rs" "length rs = length xs"
    "\<forall>i < length xs. route_offer (sc_offer_index (xs ! i)) = Inr (rs ! i)" by blast
  have "dget (fold (\<lambda>(x, r). dput (sc_session_id x) r) (zip xs rs) []) (sc_session_id x) = Some (sc_offer_index x mod 2)"
    if "x \<in> set xs" for x
  proof -
    from that obtain i where i: "i < length xs" "x = xs ! i" by (auto simp: in_set_conv_nth)
    with fold_dput_nth [OF schedule_errorD(2) [OF ok] rs(2) i(1)] rs(3) route [OF that] show ?thesis by simp
  qed
  with rs(1) show ?thesis by (simp add: freeze_routes_def)
qed

section \<open>A system to evaluate on\<close>

definition dual_node :: "int \<Rightarrow> oracle_node" where
  "dual_node k = projr (new_oracle default_hardware unit_provider k None 64 8 None None 32 True True)"

lemma dual_node_new:
  "0 \<le> k \<Longrightarrow> new_oracle default_hardware unit_provider k None 64 8 None None 32 True True = Inr (dual_node k)"
proof -
  assume k: "0 \<le> k"
  have h: "validate_hardware default_hardware = None" using default_hw_ok by (simp add: hw_ok_def)
  obtain u where u: "usable_hbm_bytes_per_rank default_hardware = Inr u" using default_usable by blast
  have p: "new_pool_error default_hardware k 64 8 8 8 32 ''layerwise'' = None"
    using h k by (simp add: new_pool_error_def)
  show ?thesis using k
    by (simp add: dual_node_def new_oracle_def new_pool_def p new_tier_resources_def new_hbm_def h u
        INFINITE_HBM_PROOF_BYTES_PER_RANK_def Let_def)
qed

lemma dual_node_calendar: "0 \<le> k \<Longrightarrow> og_calendar (dual_node k) = new_calendar True"
proof -
  have "og_calendar n = new_calendar True"
    if "new_oracle hw pv node_id None budget seqs p_seqs d_seqs chunk validate retain = Inr n"
    for hw pv node_id budget seqs p_seqs d_seqs chunk validate retain n
    using that by (auto simp: new_oracle_def Let_def ebind_Inr_iff split: option.splits)
  then show "0 \<le> k \<Longrightarrow> og_calendar (dual_node k) = new_calendar True" using dual_node_new by blast
qed

lemma dual_node_reach: "0 \<le> k \<Longrightarrow> oracle_reach (dual_node k)"
  by (rule oracle_reach.new [OF dual_node_new unit_provider_ok])
    (simp_all add: dual_node_calendar new_calendar_def free_at_def)

lemma new_oracle_idle:
  assumes n: "new_oracle hw pv node_id None budget seqs p_seqs d_seqs chunk validate retain = Inr n"
    and r: "oracle_reach n"
  shows "oracle_check n = None" "oracle_next_event n = (None, n)" "og_calls n = []"
proof -
  have e: "og_calls n = []" "og_sessions n = []" "og_prepare_completion_heap n = []"
    "og_metrics n = new_oracle_metrics" and p: "pl_launch_heap (og_pool n) = []"
      "pl_batch_completion_heap (og_pool n) = []" "pl_handoff_completion_heap (og_pool n) = []"
    and h: "hm_capacity_deferrals (hb_metrics (og_hbm n)) = 0"
    using n by (auto simp: new_oracle_def new_pool_def new_hbm_def Let_def ebind_Inr_iff split: option.splits if_splits)
  show "og_calls n = []" by (rule e)
  have "hbm_check (og_hbm n) = None"
    using oracle_reach_room [OF r] hbm_ok_check by (auto simp: oracle_room_def roomy_def hbm_within_def)
  moreover have "pool_check (og_pool n) = None"
    using oracle_reach_pool [OF r] pool_check_ok by (fastforce simp: pool_good_def pool_check_calendar)
  ultimately show "oracle_check n = None"
    using e h by (simp add: oracle_check_def new_oracle_metrics_def or_else_def)
  show "oracle_next_event n = (None, n)"
    using e p by (simp add: oracle_next_event_def next_event_ns_def next_raw_event_ns_def clean_launch_heap_def
        event_candidates_def Let_def)
qed

definition demo_dual :: "oracle_node causal" where
  "demo_dual = new_system Dual_Oracle True ROUTE_OFFER_RR [dual_node 0, dual_node 1]"

lemma demo_dual_new:
  "new_dual_oracle default_hardware unit_provider 64 8 None None 32 True ROUTE_OFFER_RR = Inr demo_dual"
  using dual_node_new [of 0] dual_node_new [of 1]
  by (simp add: new_dual_oracle_def route_policy_error_def SUPPORTED_ROUTE_POLICIES_def demo_dual_def
      DUAL_ORACLE_NODE_COUNT_def upt_rec)

definition demo_demand :: "string \<Rightarrow> int \<Rightarrow> int \<Rightarrow> int \<Rightarrow> call_demand" where
  "demo_demand sid i input cached = \<lparr>cd_session_id = sid, cd_call_index = i, cd_input_tokens = input,
     cd_output_tokens = 2, cd_tool_duration_ns = 7, cd_cached_prefix_tokens = cached\<rparr>"

definition demo_sessions :: "scheduled_session list" where
  "demo_sessions =
     [\<lparr>sc_offer_index = 0, sc_session = \<lparr>sd_source_index = 5, sd_session_id = ''a'',
         sd_calls = [demo_demand ''a'' 0 20 0, demo_demand ''a'' 1 24 20]\<rparr>, sc_arrival_time_ns = 3\<rparr>,
      \<lparr>sc_offer_index = 1, sc_session = \<lparr>sd_source_index = 2, sd_session_id = ''b'',
         sd_calls = [demo_demand ''b'' 0 50 0]\<rparr>, sc_arrival_time_ns = 4\<rparr>]"

definition demo_loaded :: "oracle_node causal" where
  "demo_loaded = snd (system_load oracle_serving demo_sessions demo_dual)"

lemma demo_schedule: "schedule_error demo_sessions = None"
  by (simp add: demo_sessions_def demo_demand_def schedule_error_def validate_scheduled_def or_else_def)

lemma demo_idle:
  "oracle_check (dual_node 0) = None" "oracle_check (dual_node 1) = None"
  "oracle_next_event (dual_node 0) = (None, dual_node 0)" "oracle_next_event (dual_node 1) = (None, dual_node 1)"
  using new_oracle_idle [OF dual_node_new dual_node_reach, of 0] new_oracle_idle [OF dual_node_new dual_node_reach, of 1]
  by simp_all

lemma demo_routes: "freeze_routes ROUTE_OFFER_RR demo_sessions = Inr [(''a'', 0), (''b'', 1)]"
  by (simp add: freeze_routes_def demo_sessions_def route_offer_def DUAL_ORACLE_NODE_COUNT_def)

lemma demo_works: "each_result trace_work_proxy demo_sessions = Inr [392, 1377]"
  by (simp add: demo_sessions_def demo_demand_def trace_work_proxy_def validate_scheduled_def or_else_def
      call_work_def Let_def)

lemma demo_order: "canonical_order demo_sessions = rev demo_sessions"
  by (simp add: canonical_order_def demo_sessions_def)

lemma demo_identities:
  "completion_identity ''a'' 0 \<noteq> completion_identity ''b'' 0" "completion_identity ''a'' 1 \<noteq> completion_identity ''b'' 0"
  "completion_identity ''a'' 1 \<noteq> completion_identity ''a'' 0"
  by code_simp+

lemmas demo_simps = demo_sessions_def demo_demand_def Let_def demo_identities demo_identities [symmetric]
  new_request_key_def item_def lift_err_def new_spec_def link_call_def queue_release_def set_add_def
  loaded_with_def system_metric_def raise_if_def system_check_def or_else_def oracle_serving_def demo_idle
  shape_check_def DUAL_ORACLE_NODE_COUNT_def spec_check_def runtime_owner_error_def drain_check_def

lemma demo_load_result:
  "case system_load oracle_serving demo_sessions demo_dual of (r, s) \<Rightarrow>
     r = Inr () \<and> sy_nodes s = [dual_node 0, dual_node 1] \<and> sy_release_heap s = [(3, 1), (4, 0)] \<and>
     dkeys (sy_spec_by_request s) = [0, 1, 2] \<and> sy_released_ids s = [] \<and> sy_completed_ids s = [] \<and>
     sy_runtime_calls s = [] \<and> sy_loaded s \<and> \<not> sy_running s \<and> \<not> sy_finished s \<and> sy_current_ns s = 0 \<and>
     sm_event_timestamps (sy_metrics s) = 0 \<and> dget (sy_first_arrival_by_request s) 1 = Some 3 \<and>
     dget (sy_successor_by_request s) 1 = Some 2 \<and> system_check oracle_serving s = None"
  by (simp add: system_load_def demo_dual_def new_system_def oracle_load_def demo_schedule demo_routes
      demo_works demo_order item_def lift_err_def, simp add: demo_simps heappush_def)

lemma demo_load: "system_load oracle_serving demo_sessions demo_dual = (Inr (), demo_loaded)"
  using demo_load_result by (auto simp: demo_loaded_def split: prod.splits)

lemma demo_loaded:
  "sy_nodes demo_loaded = [dual_node 0, dual_node 1]" "sy_release_heap demo_loaded = [(3, 1), (4, 0)]"
  "dkeys (sy_spec_by_request demo_loaded) = [0, 1, 2]" "sy_released_ids demo_loaded = []"
  "sy_completed_ids demo_loaded = []" "sy_runtime_calls demo_loaded = []" "sy_loaded demo_loaded"
  "\<not> sy_running demo_loaded" "\<not> sy_finished demo_loaded" "sy_current_ns demo_loaded = 0"
  "sm_event_timestamps (sy_metrics demo_loaded) = 0" "dget (sy_first_arrival_by_request demo_loaded) 1 = Some 3"
  "dget (sy_successor_by_request demo_loaded) 1 = Some 2" "system_check oracle_serving demo_loaded = None"
  using demo_load_result by (simp_all add: demo_load)

lemma demo_reach: "causal_reach oracle_serving oracle_reach demo_loaded"
proof (rule causal_reach.load)
  show "\<forall>n \<in> set [dual_node 0, dual_node 1]. oracle_reach n" using dual_node_reach by simp
  show "system_load oracle_serving demo_sessions (new_system Dual_Oracle True ROUTE_OFFER_RR [dual_node 0, dual_node 1])
      = (Inr (), demo_loaded)" using demo_load by (simp add: demo_dual_def)
qed

lemma demo_next:
  "system_next_event oracle_serving (demo_loaded\<lparr>sy_running := b\<rparr>) = (Some 3, demo_loaded\<lparr>sy_running := b\<rparr>)"
  by (cases demo_loaded) (use demo_loaded in \<open>simp add: system_next_event_def oracle_serving_def demo_idle heappeek_def\<close>)

lemma demo_cut:
  "\<exists>a s. run_until oracle_serving 2 True None demo_loaded = Some (Inr a, s) \<and> \<not> pa_system_finished a"
proof -
  have loop: "cutoff_loop oracle_serving 2 True (demo_loaded\<lparr>sy_running := True\<rparr>) =
      Some (Inr (), demo_loaded\<lparr>sy_running := True\<rparr>)"
    by (subst cutoff_loop.simps) (simp add: demo_next inside_cutoff_def)
  have flag: "demo_loaded\<lparr>sy_running := False\<rparr> = demo_loaded"
    using demo_loaded(8) by (cases demo_loaded) simp
  have e: "system_next_event oracle_serving demo_loaded = (Some 3, demo_loaded)"
    using demo_next [of False] by (simp add: flag)
  show ?thesis
    by (simp add: run_until_def load_given_def and_then_def demo_loaded while_running_def loop flag raise_if_def
        audit_partial_run_def e Let_def audit_clock_error_def audit_partition_error_def sorted_set_def or_else_def)
qed

section \<open>Properties\<close>

text \<open>A run up to one boundary can be continued to a later one, or to the end, as if it had not been cut.\<close>

definition resumable :: "'n serving \<Rightarrow> bool" where
  "resumable M \<longleftrightarrow> (\<forall>c1 i1 c2 i2 given s a s1.
     run_until M c1 i1 given s = Some (Inr a, s1) \<longrightarrow>
     (c1 \<le> c2 \<longrightarrow> (i1 \<longrightarrow> i2 \<or> c1 < c2) \<longrightarrow> run_until M c2 i2 None s1 = run_until M c2 i2 given s) \<and>
     (\<not> pa_system_finished a \<longrightarrow> system_run M None s1 = system_run M given s))"

lemma settles_resumable: "settles M \<Longrightarrow> resumable M"
  unfolding resumable_def by (metis order.refl resumed)



text \<open>C7: In every reachable system, whatever its runs returned, no request waits for its release twice or
  is released twice, a first call is released exactly at its offered arrival, and a successor is queued or
  released only after the completion of its predecessor was observed.\<close>
theorem releases_causal:
  assumes "causal_reach M N s"
  shows "distinct (map snd (sy_release_heap s) @ sy_released_ids s) \<and>
    (\<forall>i c t. dget (sy_runtime_calls s) i = Some c \<longrightarrow> dget (sy_first_arrival_by_request s) i = Some t \<longrightarrow>
       i \<in> set (sy_released_ids s) \<and> rc_release_ns c = t) \<and>
    (\<forall>i j. dget (sy_successor_by_request s) i = Some j \<longrightarrow>
       j \<in> set (map snd (sy_release_heap s)) \<union> set (sy_released_ids s) \<longrightarrow> i \<in> set (sy_completed_ids s))"
proof -
  have o: "release_order s" by (rule reach_release_order [OF assms])
  then have "distinct (map snd (sy_release_heap s) @ sy_released_ids s)"
    by (simp add: release_order_def heap_ids_def)
  moreover have "i \<in> set (sy_released_ids s) \<and> rc_release_ns c = t"
    if "dget (sy_runtime_calls s) i = Some c" "dget (sy_first_arrival_by_request s) i = Some t" for i c t
    using o that unfolding release_order_def by fastforce
  moreover have "i \<in> set (sy_completed_ids s)"
    if "dget (sy_successor_by_request s) i = Some j"
      "j \<in> set (map snd (sy_release_heap s)) \<union> set (sy_released_ids s)" for i j
    using o that unfolding release_order_def heap_ids_def by blast
  ultimately show ?thesis by blast
qed

theorem releases_causal_witness:
  "distinct (map snd (sy_release_heap demo_loaded) @ sy_released_ids demo_loaded) \<and>
   2 \<notin> set (map snd (sy_release_heap demo_loaded)) \<union> set (sy_released_ids demo_loaded)"
  using releases_causal [OF demo_reach] by (simp add: demo_loaded)



text \<open>C9: The frozen routes are balanced: a valid schedule is always routed; under the balanced policy node
  0 gets \<open>\<lceil>n / 2\<rceil>\<close> and node 1 \<open>\<lfloor>n / 2\<rfloor>\<close> of the sessions, whatever their work, and under the alternating
  policy each session goes to the node of its offer's parity.\<close>
theorem frozen_routes_balanced:
  assumes "schedule_error xs = None"
  shows "(\<exists>r. freeze_routes ROUTE_BALANCED_TRACE_WORK xs = Inr r \<and>
      length (filter (\<lambda>x. dget r (sc_session_id x) = Some 0) xs) = (length xs + 1) div 2 \<and>
      length (filter (\<lambda>x. dget r (sc_session_id x) = Some 1) xs) = length xs div 2) \<and>
    (\<exists>r. freeze_routes ROUTE_OFFER_RR xs = Inr r \<and>
      (\<forall>x \<in> set xs. dget r (sc_session_id x) = Some (sc_offer_index x mod 2)))"
  using balanced_counts [OF assms, of ROUTE_BALANCED_TRACE_WORK] alternating_routes [OF assms]
  by (simp add: on_node_def ROUTE_BALANCED_TRACE_WORK_def ROUTE_OFFER_RR_def)

theorem frozen_routes_balanced_witness:
  "\<exists>r. freeze_routes ROUTE_BALANCED_TRACE_WORK demo_sessions = Inr r \<and>
     length (filter (\<lambda>x. dget r (sc_session_id x) = Some 0) demo_sessions) = 1"
proof -
  have "length demo_sessions = 2" by (simp add: demo_sessions_def)
  then show ?thesis using frozen_routes_balanced [OF demo_schedule, THEN conjunct1] by auto
qed

end
