(* ===== verification/Spec2Isabelle.thy ===== *)
theory Spec2Isabelle
  imports Prelude Resource_Calendar Binary64 PD_Latency PD_HBM PD_Pool PD_Pool_Props
    Tier_Resources Byte_Ledger Tier_State Tier_Lifecycle Tier_Prepare Tier_Props Tier_Restore
    Tiered_Node Node_Safety Node_Props Oracle_Node Oracle_Safety Oracle_Props
    Causal_State Causal_System Causal_Loop Causal_Safety Causal_Order Causal_Props
begin

text \<open>
  \<^bold>\<open>LLMServingSim: the event-driven P4D4 serving node.\<close>

  The repository simulates LLM serving clusters.  This development models its event-driven
  serving node (\<^verbatim>\<open>src/serving/core/gpu_pd_*.py\<close> and what they use): one server with four prefill
  (P) and four decode (D) H100s.  A request prefills in chunks on P, its KV cache is handed over to
  D, and each decode step produces one token.  The KV cache of a session outlives the request and is
  tiered over the HBM of D, CPU memory and SSDs.  All times are integer nanoseconds, all sizes
  integer bytes.

  \<^bold>\<open>Conventions.\<close>  A Python object is a record; a method is a function from the state to an outcome
  and a state (\<^verbatim>\<open>Prelude\<close>): \<open>Inl e\<close> when it raises \<open>e\<close>, with everything assigned before the raise
  kept, \<open>Inr x\<close> when it returns \<open>x\<close>.  Python ints are \<open>int\<close>, floats are rationals rounded as binary64
  (\<^verbatim>\<open>Binary64\<close>), dictionaries keep their insertion order, heaps are ordered lists.  A reference to
  an object that a table owns is its key in that table.  A \<^verbatim>\<open>while\<close> loop takes fuel, and the theorems
  prove that the fuel given is enough.  Checks of the Python type of an argument are the types here.

  \<^bold>\<open>Components.\<close>
  \<^item> \<^verbatim>\<open>Resource_Calendar\<close>: \<^verbatim>\<open>ResourceCalendar\<close> (\<^verbatim>\<open>hbf_full_model_lifecycle.py\<close>), gang reservations of
    serial resources.  Every batch, handoff and transfer is one.  Its invariant ties the counters to
    the reservations granted, which never overlap on a resource.
  \<^item> \<^verbatim>\<open>PD_Latency\<close>: \<^verbatim>\<open>gpu_pd_latency.py\<close> with the batch shapes of \<^verbatim>\<open>hbf_full_model_latency.py\<close>:
    validated hardware, KV byte arithmetic, batch and handoff latencies.  The kernel times fitted from
    profile data are the parameter \<open>provider\<close>; \<open>provider_ok\<close> says that they are not negative, and
    \<open>unit_provider\<close> is an instance.
  \<^item> \<^verbatim>\<open>PD_HBM\<close>: \<^verbatim>\<open>AtomicPDHBM\<close> (\<^verbatim>\<open>gpu_pd_hbm.py\<close>), the all-or-nothing admission of a request to the HBM
    of both groups.
  \<^item> \<^verbatim>\<open>PD_Pool\<close>: \<^verbatim>\<open>P4D4ServingPool\<close> (\<^verbatim>\<open>gpu_pd_pool.py\<close>), continuous batching and its event loop.
    \<^verbatim>\<open>PD_Pool_Invariant\<close>, \<^verbatim>\<open>PD_Pool_Steps\<close>, \<^verbatim>\<open>PD_Pool_Loop\<close> and \<^verbatim>\<open>PD_Pool_Runs\<close> prove the invariant of the
    reachable pools (\<open>pool_reach\<close>) step by step; \<^verbatim>\<open>PD_Pool_Props\<close> states what it gives: the self check
    never fails, the loop ends, every request is served.  The fuel of the loop is \<open>pool_work\<close>, the
    number of events the live requests can still cause, and each event consumes some.
  \<^item> \<^verbatim>\<open>Tier_Resources\<close>: \<^verbatim>\<open>TierNodeResources\<close> (\<^verbatim>\<open>gpu_pd_tier_resources.py\<close>), the transfer stages between
    GPU, CPU memory and SSD.
  \<^item> \<^verbatim>\<open>Byte_Ledger\<close>: \<^verbatim>\<open>SharedByteLedger\<close> (\<^verbatim>\<open>gpu_pd_tier_lifecycle.py\<close>), byte ownership of one memory, with
    the interface \<open>byte_claims\<close> that its clients rely on.
  \<^item> \<^verbatim>\<open>Tier_State\<close>, \<^verbatim>\<open>Tier_Lifecycle\<close>, \<^verbatim>\<open>Tier_Prepare\<close>: \<^verbatim>\<open>TieredPDKVLifecycle\<close> (\<^verbatim>\<open>gpu_pd_tier_lifecycle.py\<close>),
    its state and self check, its background operations (registration, export, eviction, demotion,
    completions) and its foreground operations (prepare, activate, release, commit, end, restart).
    \<^verbatim>\<open>Tier_Safety\<close> collects in two locales what a predicate must be closed under to survive every
    operation, and proves for every reachable lifecycle (\<open>tier_reach\<close>) that no memory is overcommitted and
    that the loops end: the fuel of \<open>tier_advance\<close> and \<open>idle_advance\<close> is the length of the event heap, and
    a completion pops one event and pushes none.  \<^verbatim>\<open>Tier_Props\<close> and \<^verbatim>\<open>Tier_Restore\<close> state the properties:
    capacity, configuration, termination, pure deferrals, exact layer-wise restores, minimal LRU victims.

  \<^item> \<^verbatim>\<open>Tiered_Node\<close>: \<^verbatim>\<open>FiniteHBMTieredP4D4Node\<close> (\<^verbatim>\<open>gpu_pd_tiered_node.py\<close>), which admits the calls of
    sessions, prepares their KV through the lifecycle, runs them on the pool and publishes their context.
    The calendar that pool and lifecycle share is a field of the node, handed to the component that is
    called.  \<^verbatim>\<open>Node_Safety\<close> proves once, for every predicate that the steps of the two components keep,
    that every operation of the node keeps it (\<open>node_closed\<close>, \<open>node_reach\<close>); in particular the transfers
    never disturb the pool, because they book no model group.  \<^verbatim>\<open>Node_Props\<close> states the properties: sound
    components, an admission precheck that agrees with the lifecycle, calls served in order, exact
    submission.  The loops of \<^verbatim>\<open>advance\<close> and \<^verbatim>\<open>run_until_idle\<close> have no bound that the code states; they
    are partial functions, and a property about their result says so by \<open>Some\<close>.
  \<^item> \<^verbatim>\<open>Oracle_Node\<close>: \<^verbatim>\<open>StrictInfiniteHBMNode\<close> (\<^verbatim>\<open>gpu_pd_oracle_node.py\<close>), the same admission of calls
    without tiers: the reservations of \<^verbatim>\<open>PD_HBM\<close> with \<open>10 ^ 30\<close> bytes per rank, the pool, and a copy from
    D to P for a reused prefix.  \<^verbatim>\<open>Oracle_Safety\<close> has its \<open>oracle_closed\<close> and \<open>oracle_reach\<close>;
    \<^verbatim>\<open>Oracle_Props\<close> proves that it is the upper bound it claims to be: no call is ever deferred for
    want of memory.
  \<^item> \<^verbatim>\<open>Causal_State\<close>, \<^verbatim>\<open>Causal_System\<close>, \<^verbatim>\<open>Causal_Loop\<close>: the systems that replay a schedule of sessions on one or two
    nodes: \<^verbatim>\<open>DualStrictInfiniteHBMOracle\<close> (\<^verbatim>\<open>gpu_pd_dual_oracle.py\<close>), \<^verbatim>\<open>DualFiniteHBMTieredBaseline\<close>
    (\<^verbatim>\<open>gpu_pd_dual_tiered.py\<close>), the single-node systems (\<^verbatim>\<open>gpu_pd_single_system.py\<close>) and the cutoffs of
    \<^verbatim>\<open>comparison_cutoff.py\<close>.  The classes repeat one event loop over their nodes; here it is written once
    over a record \<open>serving\<close> of the node's methods, \<open>oracle_serving\<close>, \<open>tiered_serving\<close> or
    \<open>dual_tiered_serving\<close>, and the class is a field of the state.  The rounds at one timestamp are bounded
    as in the code; \<open>run_loop\<close> and \<open>cutoff_loop\<close> have no bound and are partial functions.
    \<^verbatim>\<open>Causal_Safety\<close> proves once that the loop keeps what its steps keep (\<open>event_closed\<close>) and that a cut run
    can be resumed, \<^verbatim>\<open>Causal_Order\<close> the causal order of the releases; \<^verbatim>\<open>Causal_Props\<close> has the reachable
    systems (\<open>causal_reach\<close>) and the properties: resumption, causality, sound nodes, balanced routes.

  \<^bold>\<open>Interfaces.\<close>  \<open>min_heap\<close> (\<^verbatim>\<open>heapq\<close>), \<open>resource_scheduler\<close> (the calendar), \<open>byte_claims\<close> (the
  ledgers), \<open>completion_closed\<close>, \<open>lifecycle_closed\<close>, \<open>node_closed\<close>, \<open>oracle_closed\<close>, \<open>event_closed\<close>,
  \<open>causal_closed\<close> and \<open>node_kept\<close> (predicates every operation keeps) are locales, each interpreted on
  the model's own definitions.

  \<^bold>\<open>Not modelled.\<close>  The reports that only render the state; the fits over profile CSV files (numpy),
  which are \<open>provider\<close>; the HBF designs, the trace-driven cluster simulator around the external
  ASTRA-sim process, the experiment drivers, plots and cost sheets.  Not proved: that the loops of a
  node and of a whole system end, beyond those of the pool and of the lifecycle.
\<close>

end
